(* ===== verification/Prelude.thy ===== *)
theory Prelude
  imports
    Main
    "HOL-Library.Char_ord"
    "HOL-Library.List_Lexorder"
    "HOL-Library.Product_Lexorder"
    "HOL-Library.Word"
begin

text \<open>
  Shared vocabulary of the development: Rust results as sums with the question-mark
  operator, loops that stop at the first error, \<^verbatim>\<open>fmt::Arguments\<close> as lists of
  segments, \<^verbatim>\<open>BTreeMap\<close> as sorted association lists behind an interface locale,
  \<^verbatim>\<open>BTreeSet\<close> as sorted lists, and the integer helpers of the standard library.
\<close>

named_theorems res_simps "rules that open results, loops and option lookups"

section \<open>Results\<close>

text \<open>
  \<^verbatim>\<open>Result<A, E>\<close> is \<open>'e + 'a\<close>. \<open>andthen r f\<close> is \<^verbatim>\<open>let x = r?; f(x)\<close>.
\<close>

definition andthen :: "'e + 'a \<Rightarrow> ('a \<Rightarrow> 'e + 'b) \<Rightarrow> 'e + 'b" where
  "andthen r f = (case r of Inl e \<Rightarrow> Inl e | Inr a \<Rightarrow> f a)"

lemma andthen_simps [simp]:
  "andthen (Inl e) f = Inl e"
  "andthen (Inr a) f = f a"
  by (simp_all add: andthen_def)

lemma andthen_Inr_iff [res_simps]:
  "andthen r f = Inr b \<longleftrightarrow> (\<exists>a. r = Inr a \<and> f a = Inr b)"
  by (cases r) simp_all

lemma andthen_Inl_iff:
  "andthen r f = Inl e \<longleftrightarrow> r = Inl e \<or> (\<exists>a. r = Inr a \<and> f a = Inl e)"
  by (cases r) simp_all

lemma andthen_cong [fundef_cong]:
  "r = r' \<Longrightarrow> (\<And>a. r' = Inr a \<Longrightarrow> f a = g a) \<Longrightarrow> andthen r f = andthen r' g"
  by (cases r') simp_all

text \<open>\<^verbatim>\<open>Option::ok_or\<close> and \<^verbatim>\<open>Result::map_err\<close>.\<close>

definition ok_or :: "'e \<Rightarrow> 'a option \<Rightarrow> 'e + 'a" where
  "ok_or e x = (case x of None \<Rightarrow> Inl e | Some a \<Rightarrow> Inr a)"

lemma ok_or_simps [simp]:
  "ok_or e None = Inl e"
  "ok_or e (Some a) = Inr a"
  by (simp_all add: ok_or_def)

lemma ok_or_Inr_iff [res_simps]: "ok_or e x = Inr a \<longleftrightarrow> x = Some a"
  by (cases x) simp_all

definition map_err :: "('e \<Rightarrow> 'f) \<Rightarrow> 'e + 'a \<Rightarrow> 'f + 'a" where
  "map_err g r = (case r of Inl e \<Rightarrow> Inl (g e) | Inr a \<Rightarrow> Inr a)"

lemma map_err_simps [simp]:
  "map_err g (Inl e) = Inl (g e)"
  "map_err g (Inr a) = Inr a"
  by (simp_all add: map_err_def)

lemma map_err_Inr_iff [res_simps]: "map_err g r = Inr a \<longleftrightarrow> r = Inr a"
  by (cases r) simp_all

definition is_ok :: "'e + 'a \<Rightarrow> bool" where
  "is_ok r = (case r of Inl _ \<Rightarrow> False | Inr _ \<Rightarrow> True)"

lemma is_ok_simps [simp]: "is_ok (Inr a)" "\<not> is_ok (Inl e)"
  by (simp_all add: is_ok_def)

text \<open>
  A \<^verbatim>\<open>for\<close> loop over a list that threads a state and returns at the first error.
\<close>

fun fold_res :: "('a \<Rightarrow> 's \<Rightarrow> 'e + 's) \<Rightarrow> 'a list \<Rightarrow> 's \<Rightarrow> 'e + 's" where
  "fold_res f [] s = Inr s"
| "fold_res f (x # xs) s = andthen (f x s) (fold_res f xs)"

lemma fold_res_invariant:
  assumes "fold_res f xs s = Inr s'" and "P s"
    and "\<And>x t t'. x \<in> set xs \<Longrightarrow> P t \<Longrightarrow> f x t = Inr t' \<Longrightarrow> P t'"
  shows "P s'"
  using assms
proof (induction xs arbitrary: s)
  case Nil
  then show ?case by simp
next
  case (Cons x xs)
  from Cons.prems(1) obtain t where t: "f x s = Inr t" "fold_res f xs t = Inr s'"
    by (auto simp: res_simps)
  have "P t" by (rule Cons.prems(3) [OF _ Cons.prems(2) t(1)]) simp
  with t(2) show ?case using Cons.prems(3) by (intro Cons.IH [of t]) auto
qed

lemma fold_res_total:
  assumes "P s"
    and "\<And>x t. x \<in> set xs \<Longrightarrow> P t \<Longrightarrow> \<exists>t'. f x t = Inr t' \<and> P t'"
  shows "\<exists>s'. fold_res f xs s = Inr s' \<and> P s'"
  using assms
proof (induction xs arbitrary: s)
  case Nil
  then show ?case by simp
next
  case (Cons x xs)
  from Cons.prems obtain t where t: "f x s = Inr t" "P t"
    by (meson list.set_intros(1))
  have "\<exists>s'. fold_res f xs t = Inr s' \<and> P s'"
    using Cons.prems(2) by (intro Cons.IH) (auto simp: t(2))
  with t(1) show ?case by simp
qed

lemma fold_res_append:
  "fold_res f (xs @ ys) s = andthen (fold_res f xs s) (fold_res f ys)"
  by (induction xs arbitrary: s) (auto simp: andthen_def split: sum.splits)

text \<open>The same loop collecting a result per element, as \<^verbatim>\<open>collect::<Result<Vec<_>, _>>\<close>.\<close>

fun map_res :: "('a \<Rightarrow> 'e + 'b) \<Rightarrow> 'a list \<Rightarrow> 'e + 'b list" where
  "map_res f [] = Inr []"
| "map_res f (x # xs) = andthen (f x) (\<lambda>y. andthen (map_res f xs) (\<lambda>ys. Inr (y # ys)))"

lemma map_res_cong [fundef_cong]:
  "xs = ys \<Longrightarrow> (\<And>x. x \<in> set ys \<Longrightarrow> f x = g x) \<Longrightarrow> map_res f xs = map_res g ys"
  by (induction xs arbitrary: ys) (auto simp: andthen_def split: sum.splits)

section \<open>Messages\<close>

text \<open>
  A formatted message is kept as the pieces \<^verbatim>\<open>format_args!\<close> receives: literal text and
  values shown with Display (\<open>Txt\<close>), strings shown with Debug, that is quoted and escaped
  (\<open>Dbg\<close>), and numbers (\<open>Num\<close>). No decision of the program reads a rendered message.
\<close>

datatype seg = Txt string | Dbg string | Num int

type_synonym msg = "seg list"

section \<open>Integers of the standard library\<close>

definition is_digit :: "char \<Rightarrow> bool" where
  "is_digit c \<longleftrightarrow> CHR ''0'' \<le> c \<and> c \<le> CHR ''9''"

definition is_lower :: "char \<Rightarrow> bool" where
  "is_lower c \<longleftrightarrow> CHR ''a'' \<le> c \<and> c \<le> CHR ''z''"

definition is_upper :: "char \<Rightarrow> bool" where
  "is_upper c \<longleftrightarrow> CHR ''A'' \<le> c \<and> c \<le> CHR ''Z''"

definition is_alnum :: "char \<Rightarrow> bool" where
  "is_alnum c \<longleftrightarrow> is_digit c \<or> is_lower c \<or> is_upper c"

definition digit_val :: "char \<Rightarrow> int" where
  "digit_val c = int (of_char c) - 48"

definition digits_val :: "string \<Rightarrow> int" where
  "digits_val ds = foldl (\<lambda>acc d. 10 * acc + digit_val d) 0 ds"

text \<open>
  \<^verbatim>\<open>str::parse\<close> for an integer type with the given range: an optional plus sign (and, for a
  signed type, a minus sign), then at least one digit, and a value in range.
\<close>

definition parse_int :: "int \<Rightarrow> int \<Rightarrow> string \<Rightarrow> int option" where
  "parse_int lo hi s =
     (let neg = (lo < 0 \<and> s \<noteq> [] \<and> hd s = CHR ''-'');
          ds = (if s \<noteq> [] \<and> (hd s = CHR ''+'' \<or> neg) then tl s else s);
          v = (if neg then - digits_val ds else digits_val ds)
      in if ds \<noteq> [] \<and> list_all is_digit ds \<and> lo \<le> v \<and> v \<le> hi then Some v else None)"

definition parse_i64 :: "string \<Rightarrow> int option" where
  "parse_i64 = parse_int (- (2 ^ 63)) (2 ^ 63 - 1)"

definition parse_u32 :: "string \<Rightarrow> int option" where
  "parse_u32 = parse_int 0 (2 ^ 32 - 1)"

definition parse_u16 :: "string \<Rightarrow> int option" where
  "parse_u16 = parse_int 0 (2 ^ 16 - 1)"

definition parse_u64 :: "string \<Rightarrow> int option" where
  "parse_u64 = parse_int 0 (2 ^ 64 - 1)"

lemma parse_int_range: "parse_int lo hi s = Some v \<Longrightarrow> lo \<le> v \<and> v \<le> hi"
  by (auto simp: parse_int_def Let_def split: if_splits)

text \<open>Decimal rendering of a number, as Display does.\<close>

definition digit_char :: "nat \<Rightarrow> char" where
  "digit_char n = char_of (48 + n)"

fun show_nat :: "nat \<Rightarrow> string" where
  "show_nat n = (if n < 10 then [digit_char n] else show_nat (n div 10) @ [digit_char (n mod 10)])"

declare show_nat.simps [simp del]

lemma digit_val_char: "d < 10 \<Longrightarrow> digit_val (digit_char d) = int d"
  by (simp add: digit_val_def digit_char_def of_char_of)

lemma digit_char_class: "d < 10 \<Longrightarrow> is_digit (digit_char d)"
  by (simp add: is_digit_def digit_char_def less_eq_char_def of_char_of)

lemma show_nat_digits: "digits_val (show_nat n) = int n \<and> show_nat n \<noteq> [] \<and> list_all is_digit (show_nat n)"
proof (induction n rule: show_nat.induct)
  case (1 n)
  show ?case
  proof (cases "n < 10")
    case True
    then show ?thesis
      by (subst (1 2 3) show_nat.simps) (simp add: digits_val_def digit_val_char digit_char_class)
  next
    case False
    have "digits_val (show_nat (n div 10) @ [digit_char (n mod 10)]) = 10 * int (n div 10) + int (n mod 10)"
      using 1 [OF False] by (simp add: digits_val_def digit_val_char)
    moreover have "10 * (n div 10) + n mod 10 = n" by simp
    then have "10 * int (n div 10) + int (n mod 10) = int n"
      by (metis of_nat_add of_nat_mult of_nat_numeral)
    ultimately show ?thesis using 1 [OF False] False
      by (subst (1 2 3) show_nat.simps) (simp add: digit_char_class)
  qed
qed

text \<open>A decimal number in range is read back from its text.\<close>

lemma parse_int_show:
  assumes "lo \<le> int n" "int n \<le> hi"
  shows "parse_int lo hi (show_nat n) = Some (int n)"
proof -
  obtain c cs where c: "show_nat n = c # cs" using show_nat_digits by (cases "show_nat n") auto
  then have "is_digit c" using show_nat_digits [of n] by simp
  then have "c \<noteq> CHR ''-'' \<and> c \<noteq> CHR ''+''" by (auto simp: is_digit_def less_eq_char_def)
  with c assms show_nat_digits [of n] show ?thesis by (simp add: parse_int_def)
qed

lemma parse_i64_show: "int n < 2 ^ 63 \<Longrightarrow> parse_i64 (show_nat n) = Some (int n)"
  by (simp add: parse_i64_def parse_int_show)

text \<open>Lower-case hexadecimal, as \<^verbatim>\<open>{:x}\<close> prints it.\<close>

definition hex_char :: "nat \<Rightarrow> char" where
  "hex_char d = (if d < 10 then char_of (48 + d) else char_of (87 + d))"

fun show_hex :: "nat \<Rightarrow> string" where
  "show_hex n = (if n < 16 then [hex_char n] else show_hex (n div 16) @ [hex_char (n mod 16)])"

declare show_hex.simps [simp del]

text \<open>Two's complement 64-bit arithmetic on \<^typ>\<open>int\<close> (release builds wrap).\<close>

definition i64_wrap :: "int \<Rightarrow> int" where
  "i64_wrap v = (v + 2 ^ 63) mod 2 ^ 64 - 2 ^ 63"

definition i64_range :: "int \<Rightarrow> bool" where
  "i64_range v \<longleftrightarrow> - (2 ^ 63) \<le> v \<and> v < 2 ^ 63"

lemma i64_wrap_id: "i64_range v \<Longrightarrow> i64_wrap v = v"
  by (simp add: i64_wrap_def i64_range_def)

lemma i64_wrap_range: "i64_range (i64_wrap v)"
proof -
  have "0 \<le> (v + 2 ^ 63) mod 2 ^ 64" "(v + 2 ^ 63) mod 2 ^ 64 < 2 ^ 64"
    by (rule pos_mod_sign, simp, rule pos_mod_bound, simp)
  then show ?thesis by (simp add: i64_wrap_def i64_range_def)
qed

definition i64_checked_sub :: "int \<Rightarrow> int \<Rightarrow> int option" where
  "i64_checked_sub a b = (if i64_range (a - b) then Some (a - b) else None)"

section \<open>Ordered maps and sets\<close>

text \<open>
  The interface the program uses of \<^verbatim>\<open>BTreeMap\<close>: a finite map whose keys are visited in
  increasing order.
\<close>

locale ordered_map =
  fixes empty :: 'm
    and ins :: "'k::linorder \<Rightarrow> 'v \<Rightarrow> 'm \<Rightarrow> 'm"
    and del :: "'k \<Rightarrow> 'm \<Rightarrow> 'm"
    and get :: "'m \<Rightarrow> 'k \<Rightarrow> 'v option"
    and keys :: "'m \<Rightarrow> 'k list"
    and wf :: "'m \<Rightarrow> bool"
  assumes wf_empty: "wf empty"
    and wf_ins: "wf m \<Longrightarrow> wf (ins k v m)"
    and wf_del: "wf m \<Longrightarrow> wf (del k m)"
    and get_empty: "get empty k = None"
    and get_ins: "wf m \<Longrightarrow> get (ins k v m) = (get m)(k \<mapsto> v)"
    and get_del: "wf m \<Longrightarrow> get (del k m) = (get m)(k := None)"
    and set_keys: "wf m \<Longrightarrow> set (keys m) = dom (get m)"
    and sorted_keys: "wf m \<Longrightarrow> sorted_wrt (<) (keys m)"
begin

lemma distinct_keys: "wf m \<Longrightarrow> distinct (keys m)"
  using sorted_keys strict_sorted_iff by blast

lemma keys_ins_new:
  assumes "wf m" and "get m k = None"
  shows "length (keys (ins k v m)) = Suc (length (keys m))"
proof -
  have "set (keys (ins k v m)) = insert k (set (keys m))"
    using assms by (simp add: set_keys wf_ins get_ins)
  moreover have "k \<notin> set (keys m)" using assms by (auto simp: set_keys)
  ultimately show ?thesis
    using assms(1) distinct_card [OF distinct_keys, of m]
      distinct_card [OF distinct_keys, of "ins k v m"] wf_ins [OF assms(1)]
    by simp
qed

text \<open>A map built by inserting the entries of a list one after the other.\<close>

lemma wf_fold_ins: "wf m \<Longrightarrow> wf (fold (\<lambda>(k, v). ins k v) kvs m)"
  by (induction kvs arbitrary: m) (auto simp: wf_ins)

lemma get_fold_ins:
  "wf m \<Longrightarrow> get (fold (\<lambda>(k, v). ins k v) kvs m) = get m ++ map_of (rev kvs)"
  by (induction kvs arbitrary: m) (auto simp: wf_ins get_ins map_add_def split: option.splits)

lemma keys_fold_ins:
  "set (keys (fold (\<lambda>(k, v). ins k v) kvs empty)) = fst ` set kvs"
  by (simp add: set_keys wf_fold_ins [OF wf_empty] get_fold_ins [OF wf_empty] get_empty dom_map_of_conv_image_fst
      empty_map_add flip: empty_def) (auto simp: map_add_def get_empty dom_def split: option.splits dest: map_of_SomeD intro: weak_map_of_SomeI)

end

text \<open>\<^verbatim>\<open>BTreeMap\<close> as a list of entries with strictly increasing keys.\<close>

fun bt_insert :: "'k::linorder \<Rightarrow> 'v \<Rightarrow> ('k \<times> 'v) list \<Rightarrow> ('k \<times> 'v) list" where
  "bt_insert k v [] = [(k, v)]"
| "bt_insert k v ((k', v') # m) =
     (if k < k' then (k, v) # (k', v') # m
      else if k = k' then (k, v) # m
      else (k', v') # bt_insert k v m)"

definition bt_remove :: "'k \<Rightarrow> ('k \<times> 'v) list \<Rightarrow> ('k \<times> 'v) list" where
  "bt_remove k m = filter (\<lambda>e. fst e \<noteq> k) m"

definition bt_get :: "('k \<times> 'v) list \<Rightarrow> 'k \<Rightarrow> 'v option" where
  "bt_get m k = map_of m k"

definition bt_keys :: "('k \<times> 'v) list \<Rightarrow> 'k list" where
  "bt_keys m = map fst m"

definition bt_wf :: "('k::linorder \<times> 'v) list \<Rightarrow> bool" where
  "bt_wf m \<longleftrightarrow> sorted_wrt (<) (map fst m)"

lemma fst_bt_insert: "fst ` set (bt_insert k v m) = insert k (fst ` set m)"
  by (induction k v m rule: bt_insert.induct) auto

lemma bt_wf_insert: "bt_wf m \<Longrightarrow> bt_wf (bt_insert k v m)"
proof (induction k v m rule: bt_insert.induct)
  case (1 k v)
  then show ?case by (simp add: bt_wf_def)
next
  case (2 k v k' v' m)
  have "\<forall>x \<in> fst ` set (bt_insert k v m). k' < x" if "k' < k"
    using 2(2) that by (auto simp: fst_bt_insert bt_wf_def)
  then show ?case
    using 2 by (auto simp: bt_wf_def intro: order.strict_trans)
qed

lemma bt_wf_remove: "bt_wf m \<Longrightarrow> bt_wf (bt_remove k m)"
  by (induction m) (auto simp: bt_wf_def bt_remove_def)

lemma bt_get_insert: "bt_wf m \<Longrightarrow> bt_get (bt_insert k v m) = (bt_get m)(k \<mapsto> v)"
proof (induction k v m rule: bt_insert.induct)
  case (1 k v)
  then show ?case by (auto simp: bt_get_def)
next
  case (2 k v k' v' m)
  then have "bt_get (bt_insert k v m) = (bt_get m)(k \<mapsto> v)" if "k' < k"
    using that by (auto simp: bt_wf_def)
  then show ?case
    by (auto simp: bt_get_def fun_eq_iff)
qed

lemma bt_get_remove: "bt_get (bt_remove k m) = (bt_get m)(k := None)"
  by (induction m) (auto simp: bt_get_def bt_remove_def fun_eq_iff)

lemma bt_get_None_iff: "bt_get m k = None \<longleftrightarrow> k \<notin> fst ` set m"
  by (simp add: bt_get_def map_of_eq_None_iff)

interpretation bt: ordered_map "[]" bt_insert bt_remove bt_get bt_keys bt_wf
proof unfold_locales
  show "set (bt_keys m) = dom (bt_get m)" for m :: "('a \<times> 'b) list"
    by (simp add: bt_keys_def dom_def bt_get_None_iff)
qed (simp_all add: bt_wf_insert bt_wf_remove bt_get_insert bt_get_remove bt_keys_def,
     simp_all add: bt_wf_def bt_get_def)

lemma bt_wf_Nil [simp]: "bt_wf []"
  by (simp add: bt_wf_def)

lemma bt_get_Some_in: "bt_get m k = Some v \<Longrightarrow> (k, v) \<in> set m"
  by (simp add: bt_get_def map_of_SomeD)

lemma bt_get_in_iff: "bt_wf m \<Longrightarrow> bt_get m k = Some v \<longleftrightarrow> (k, v) \<in> set m"
  by (simp add: bt_wf_def bt_get_def strict_sorted_iff)

lemma set_bt_insert: "bt_wf m \<Longrightarrow> set (bt_insert k v m) = insert (k, v) {e \<in> set m. fst e \<noteq> k}"
  by (induction k v m rule: bt_insert.induct) (auto simp: bt_wf_def)

lemma length_bt_insert_le: "length (bt_insert k v m) \<le> Suc (length m)"
  by (induction k v m rule: bt_insert.induct) auto

lemma length_bt_insert_new: "bt_get m k = None \<Longrightarrow> length (bt_insert k v m) = Suc (length m)"
  by (induction k v m rule: bt_insert.induct) (auto simp: bt_get_def split: if_splits)

text \<open>\<^verbatim>\<open>BTreeMap::get_mut\<close>: the value at a key, when there is one, changed in place.\<close>

definition bt_modify :: "'k \<Rightarrow> ('v \<Rightarrow> 'v) \<Rightarrow> ('k \<times> 'v) list \<Rightarrow> ('k \<times> 'v) list" where
  "bt_modify k f m = map (\<lambda>e. if fst e = k then (k, f (snd e)) else e) m"

lemma keys_bt_modify [simp]: "map fst (bt_modify k f m) = map fst m"
  by (auto simp: bt_modify_def)

lemma length_bt_modify [simp]: "length (bt_modify k f m) = length m"
  by (simp add: bt_modify_def)

lemma bt_wf_modify [simp]: "bt_wf (bt_modify k f m) \<longleftrightarrow> bt_wf m"
  by (simp add: bt_wf_def)

lemma bt_get_modify:
  "bt_get (bt_modify k f m) x = (if x = k then map_option f (bt_get m x) else bt_get m x)"
  by (induction m) (auto simp: bt_get_def bt_modify_def)

lemma bt_eq_iff:
  assumes "bt_wf m" and "bt_wf m'"
  shows "m = m' \<longleftrightarrow> (\<forall>k. bt_get m k = bt_get m' k)"
proof
  assume eq: "\<forall>k. bt_get m k = bt_get m' k"
  then have "set m = set m'"
    using assms by (metis bt_get_in_iff surj_pair subsetI subset_antisym)
  moreover have "map fst m = map fst m'"
    using assms \<open>set m = set m'\<close>
    by (metis bt_wf_def image_set strict_sorted_equal)
  ultimately show "m = m'"
    using assms(1) by (metis bt_wf_def eq_key_imp_eq_value inj_onI map_inj_on prod.expand
        strict_sorted_iff Un_absorb surjective_pairing)
qed simp

text \<open>\<^verbatim>\<open>BTreeSet\<close>: the elements in increasing order, once each.\<close>

definition bs_of :: "'a::linorder list \<Rightarrow> 'a list" where
  "bs_of xs = sort (remdups xs)"

lemma set_bs_of [simp]: "set (bs_of xs) = set xs"
  by (simp add: bs_of_def)

lemma distinct_bs_of [simp]: "distinct (bs_of xs)"
  by (simp add: bs_of_def)

lemma sorted_bs_of [simp]: "sorted (bs_of xs)"
  by (simp add: bs_of_def)

lemma bs_of_eq_iff: "bs_of xs = bs_of ys \<longleftrightarrow> set xs = set ys"
  by (metis distinct_bs_of set_bs_of sorted_bs_of sorted_distinct_set_unique)

section \<open>Lists\<close>

text \<open>\<^verbatim>\<open>str::split\<close> and \<^verbatim>\<open>slice::split\<close> at every occurrence of a separator.\<close>

fun split_at :: "'a \<Rightarrow> 'a list \<Rightarrow> 'a list list" where
  "split_at c [] = [[]]"
| "split_at c (x # xs) =
     (if x = c then [] # split_at c xs
      else (case split_at c xs of [] \<Rightarrow> [[x]] | w # ws \<Rightarrow> (x # w) # ws))"

fun join_with :: "'a \<Rightarrow> 'a list list \<Rightarrow> 'a list" where
  "join_with c [] = []"
| "join_with c [w] = w"
| "join_with c (w # v # ws) = w @ c # join_with c (v # ws)"

lemma split_at_nonempty [simp]: "split_at c xs \<noteq> []"
  by (induction xs) (auto split: list.splits)

lemma join_split_at [simp]: "join_with c (split_at c xs) = xs"
proof (induction xs)
  case Nil
  then show ?case by simp
next
  case (Cons x xs)
  obtain w ws where "split_at c xs = w # ws"
    by (meson list.exhaust split_at_nonempty)
  with Cons show ?case by (cases ws) auto
qed

lemma split_at_no_sep: "w \<in> set (split_at c xs) \<Longrightarrow> c \<notin> set w"
proof (induction xs arbitrary: w)
  case Nil
  then show ?case by simp
next
  case (Cons x xs)
  then show ?case
    by (cases "split_at c xs") (auto split: if_splits)
qed

lemma split_at_subset: "w \<in> set (split_at c xs) \<Longrightarrow> set w \<subseteq> set xs"
proof (induction xs arbitrary: w)
  case Nil
  then show ?case by simp
next
  case (Cons x xs)
  then show ?case
    by (cases "split_at c xs") (fastforce split: if_splits)+
qed

lemma split_at_append: "split_at c (xs @ c # ys) = split_at c xs @ split_at c ys"
proof (induction xs)
  case Nil
  then show ?case by simp
next
  case (Cons x xs)
  obtain w ws where "split_at c xs = w # ws"
    by (meson list.exhaust split_at_nonempty)
  with Cons show ?case by simp
qed

lemma split_at_word: "c \<notin> set w \<Longrightarrow> split_at c w = [w]"
  by (induction w) auto

lemma split_join: "ws \<noteq> [] \<Longrightarrow> (\<And>w. w \<in> set ws \<Longrightarrow> c \<notin> set w) \<Longrightarrow> split_at c (join_with c ws) = ws"
  by (induction c ws rule: join_with.induct) (auto simp: split_at_word split_at_append)

definition starts_with :: "'a list \<Rightarrow> 'a list \<Rightarrow> bool" where
  "starts_with p s \<longleftrightarrow> take (length p) s = p"

definition ends_with :: "'a list \<Rightarrow> 'a list \<Rightarrow> bool" where
  "ends_with p s \<longleftrightarrow> length p \<le> length s \<and> drop (length s - length p) s = p"

definition strip_prefix :: "'a list \<Rightarrow> 'a list \<Rightarrow> 'a list option" where
  "strip_prefix p s = (if starts_with p s then Some (drop (length p) s) else None)"

lemma starts_with_iff: "starts_with p s \<longleftrightarrow> (\<exists>r. s = p @ r)"
  by (metis append_eq_conv_conj append_take_drop_id starts_with_def)

lemma strip_prefix_Some: "strip_prefix p s = Some r \<longleftrightarrow> s = p @ r"
  by (auto simp: strip_prefix_def starts_with_def append_eq_conv_conj)
    (metis append_take_drop_id)

text \<open>The last \<open>n\<close> elements.\<close>

definition last_n :: "nat \<Rightarrow> 'a list \<Rightarrow> 'a list" where
  "last_n n xs = drop (length xs - n) xs"

lemma last_n_append: "n \<le> length ys \<Longrightarrow> last_n n (xs @ ys) = last_n n ys"
  by (simp add: last_n_def)

lemma length_last_n: "length (last_n n xs) = min n (length xs)"
  by (auto simp: last_n_def)

lemma last_n_map: "last_n n (map f xs) = map f (last_n n xs)"
  by (simp add: last_n_def drop_map)

end
