(* ===== verification/Utf8.thy ===== *)
theory Utf8
  imports Prelude
begin

text \<open>
  The standard library's view of byte strings as UTF-8. A \<^typ>\<open>string\<close> of the development
  is the byte sequence; this theory has the decoder's step (\<open>utf8_head\<close>), validity
  (\<^verbatim>\<open>OsString::into_string\<close>, \<^verbatim>\<open>str::from_utf8\<close>), the lossy conversion of
  \<^verbatim>\<open>String::from_utf8_lossy\<close>, and the two facts about characters the program asks for:
  how many there are and whether one is a control character.
\<close>

definition byte :: "char \<Rightarrow> nat" where
  "byte c = of_char c"

definition is_cont :: "string \<Rightarrow> bool" where
  "is_cont r = (case r of [] \<Rightarrow> False | c # _ \<Rightarrow> 128 \<le> byte c \<and> byte c < 192)"

text \<open>
  What starts at the head of a non-empty byte string: a well-formed scalar value of the given
  width, or an ill-formed prefix of the given length that one replacement character stands for.
\<close>

datatype chunk = Valid nat | Invalid nat

definition second_ok :: "nat \<Rightarrow> string \<Rightarrow> bool" where
  "second_ok b r = (case r of [] \<Rightarrow> False | c # _ \<Rightarrow>
     (let n = byte c in
        (b = 224 \<and> 160 \<le> n \<and> n \<le> 191)
      \<or> (225 \<le> b \<and> b \<le> 236 \<and> 128 \<le> n \<and> n \<le> 191)
      \<or> (b = 237 \<and> 128 \<le> n \<and> n \<le> 159)
      \<or> (238 \<le> b \<and> b \<le> 239 \<and> 128 \<le> n \<and> n \<le> 191)
      \<or> (b = 240 \<and> 144 \<le> n \<and> n \<le> 191)
      \<or> (241 \<le> b \<and> b \<le> 243 \<and> 128 \<le> n \<and> n \<le> 191)
      \<or> (b = 244 \<and> 128 \<le> n \<and> n \<le> 143)))"

definition utf8_head :: "string \<Rightarrow> chunk" where
  "utf8_head s =
     (let b = byte (hd s); r = tl s in
      if b < 128 then Valid 1
      else if 194 \<le> b \<and> b \<le> 223 then (if is_cont r then Valid 2 else Invalid 1)
      else if 224 \<le> b \<and> b \<le> 239 then
        (if \<not> second_ok b r then Invalid 1
         else if is_cont (tl r) then Valid 3 else Invalid 2)
      else if 240 \<le> b \<and> b \<le> 244 then
        (if \<not> second_ok b r then Invalid 1
         else if \<not> is_cont (tl r) then Invalid 2
         else if is_cont (tl (tl r)) then Valid 4 else Invalid 3)
      else Invalid 1)"

lemma utf8_head_width:
  "utf8_head s = Valid n \<Longrightarrow> 0 < n"
  "utf8_head s = Invalid n \<Longrightarrow> 0 < n"
  by (auto simp: utf8_head_def Let_def split: if_splits)

lemma is_cont_Cons: "is_cont r \<Longrightarrow> \<exists>c r'. r = c # r'"
  by (cases r) (auto simp: is_cont_def)

lemma second_ok_Cons: "second_ok b r \<Longrightarrow> \<exists>c r'. r = c # r'"
  by (cases r) (auto simp: second_ok_def)

lemma is_cont_simp [simp]: "is_cont (c # r) \<longleftrightarrow> 128 \<le> byte c \<and> byte c < 192"
  by (simp add: is_cont_def)

lemma second_ok_head: "second_ok b (c # r) \<Longrightarrow> second_ok b (c # r')"
  by (simp add: second_ok_def)

text \<open>A well-formed prefix is decided by its own bytes alone.\<close>

lemma utf8_head_Valid:
  assumes "s \<noteq> []" and "utf8_head s = Valid n"
  shows "\<exists>p r. s = p @ r \<and> length p = n \<and> (\<forall>t. utf8_head (p @ t) = Valid n)"
proof -
  obtain c r where s: "s = c # r" using assms(1) by (cases s) auto
  consider "byte c < 128" "n = 1"
    | "194 \<le> byte c" "byte c \<le> 223" "is_cont r" "n = 2"
    | "224 \<le> byte c" "byte c \<le> 239" "second_ok (byte c) r" "is_cont (tl r)" "n = 3"
    | "240 \<le> byte c" "byte c \<le> 244" "second_ok (byte c) r" "is_cont (tl r)" "is_cont (tl (tl r))" "n = 4"
    using assms(2) by (auto simp: s utf8_head_def Let_def split: if_splits)
  then show ?thesis
  proof cases
    case 1
    then show ?thesis
      by - (rule exI [of _ "[c]"], rule exI [of _ r],
        auto simp: s utf8_head_def Let_def dest: second_ok_head)
  next
    case 2
    then obtain d r' where r: "r = d # r'" by (auto dest: is_cont_Cons)
    with 2 show ?thesis
      by - (rule exI [of _ "[c, d]"], rule exI [of _ r'],
        auto simp: s utf8_head_def Let_def dest: second_ok_head)
  next
    case 3
    then obtain d e r' where r: "r = d # e # r'"
      by (metis is_cont_Cons list.sel(3) second_ok_Cons)
    with 3 show ?thesis
      by - (rule exI [of _ "[c, d, e]"], rule exI [of _ r'],
        auto simp: s utf8_head_def Let_def dest: second_ok_head)
  next
    case 4
    then obtain d e f r' where r: "r = d # e # f # r'"
      by (metis is_cont_Cons list.sel(3) second_ok_Cons)
    with 4 show ?thesis
      by - (rule exI [of _ "[c, d, e, f]"], rule exI [of _ r'],
        auto simp: s utf8_head_def Let_def dest: second_ok_head)
  qed
qed

lemma utf8_head_fits: "s \<noteq> [] \<Longrightarrow> utf8_head s = Valid n \<Longrightarrow> n \<le> length s"
  using utf8_head_Valid by fastforce

lemma utf8_head_local: "s \<noteq> [] \<Longrightarrow> utf8_head s = Valid n \<Longrightarrow> utf8_head (take n s @ t) = Valid n"
  using utf8_head_Valid by fastforce

function utf8_valid :: "string \<Rightarrow> bool" where
  "utf8_valid s =
     (if s = [] then True
      else (case utf8_head s of Valid n \<Rightarrow> utf8_valid (drop n s) | Invalid _ \<Rightarrow> False))"
  by pat_completeness auto
termination
  by (relation "measure length") (auto dest: utf8_head_width)

declare utf8_valid.simps [simp del]

text \<open>U+FFFD in UTF-8.\<close>

definition replacement :: string where
  "replacement = [CHR 0xEF, CHR 0xBF, CHR 0xBD]"

function utf8_lossy :: "string \<Rightarrow> string" where
  "utf8_lossy s =
     (if s = [] then []
      else (case utf8_head s of
              Valid n \<Rightarrow> take n s @ utf8_lossy (drop n s)
            | Invalid n \<Rightarrow> replacement @ utf8_lossy (drop n s)))"
  by pat_completeness auto
termination
  by (relation "measure length") (auto dest: utf8_head_width)

declare utf8_lossy.simps [simp del]

lemma utf8_valid_Nil [simp]: "utf8_valid []"
  by (simp add: utf8_valid.simps)

lemma utf8_lossy_Nil [simp]: "utf8_lossy [] = []"
  by (simp add: utf8_lossy.simps)

lemma utf8_valid_step:
  assumes "s \<noteq> []" and "utf8_head s = Valid n"
  shows "utf8_valid (take n s @ t) = utf8_valid t"
proof -
  have n: "n \<le> length s" "0 < n"
    using utf8_head_fits utf8_head_width assms by auto
  with assms(1) have ne: "take n s @ t \<noteq> []" by simp
  have "utf8_valid (take n s @ t) = utf8_valid (drop n (take n s @ t))"
    using ne utf8_head_local [OF assms, of t] by (subst utf8_valid.simps) simp
  with n(1) show ?thesis by simp
qed

lemma utf8_lossy_id: "utf8_valid s \<Longrightarrow> utf8_lossy s = s"
proof (induction s rule: utf8_valid.induct)
  case (1 s)
  show ?case
  proof (cases "s = []")
    case False
    with "1.prems" obtain n where n: "utf8_head s = Valid n" "utf8_valid (drop n s)"
      by (subst (asm) utf8_valid.simps) (auto split: chunk.splits)
    with False "1.IH" have "utf8_lossy (drop n s) = drop n s" by simp
    with False n show ?thesis by (subst utf8_lossy.simps) simp
  qed simp
qed

lemma utf8_valid_replacement: "utf8_valid (replacement @ t) = utf8_valid t"
proof -
  have "utf8_head replacement = Valid 3"
    by (simp add: utf8_head_def replacement_def byte_def second_ok_def is_cont_def)
  from utf8_valid_step [OF _ this, of t] show ?thesis
    by (simp add: replacement_def)
qed

lemma utf8_valid_lossy: "utf8_valid (utf8_lossy s)"
proof (induction s rule: utf8_lossy.induct)
  case (1 s)
  show ?case
  proof (cases "s = []")
    case False
    with 1 show ?thesis
      by (subst utf8_lossy.simps)
        (auto simp: utf8_valid_step utf8_valid_replacement split: chunk.splits)
  qed simp
qed

text \<open>\<^verbatim>\<open>s.chars().count()\<close> and \<^verbatim>\<open>s.chars().any(char::is_control)\<close> of a valid string.\<close>

definition char_count :: "string \<Rightarrow> nat" where
  "char_count s = length (filter (\<lambda>c. \<not> is_cont [c]) s)"

fun has_control :: "string \<Rightarrow> bool" where
  "has_control [] = False"
| "has_control (c # s) =
     (byte c < 32 \<or> byte c = 127
      \<or> (byte c = 194 \<and> (case s of [] \<Rightarrow> False | d # _ \<Rightarrow> 128 \<le> byte d \<and> byte d < 160))
      \<or> has_control s)"

lemma has_control_NUL: "CHR 0x00 \<in> set s \<Longrightarrow> has_control s"
  by (induction s rule: has_control.induct) (auto simp: byte_def)

end
