(* ===== verification/Manifest_Text.thy ===== *)
theory Manifest_Text
  imports Utf8
begin

text \<open>
  The lexical rules of the manifest (\<^verbatim>\<open>src/manifest.rs\<close>): names, environment keys, mount
  targets and the plain scalars YAML does not read as strings. Each rule is the byte test of
  the code; the lemmas relate it to the grammar or the path structure it stands for.
\<close>

section \<open>Limits and errors\<close>

definition API_VERSION :: string where "API_VERSION = ''termux-stacks/v1alpha1''"
definition MAX_BYTES :: nat where "MAX_BYTES = 64 * 1024"
definition MAX_DEPTH :: nat where "MAX_DEPTH = 16"
definition MAX_NODES :: nat where "MAX_NODES = 1024"
definition MAX_COLLECTION_ITEMS :: nat where "MAX_COLLECTION_ITEMS = 128"
definition MAX_SCALAR_BYTES :: nat where "MAX_SCALAR_BYTES = 16 * 1024"

record location =
  line :: nat
  column :: nat

datatype error_kind = Kind_Io | Kind_Invalid

definition kind_code :: "error_kind \<Rightarrow> string" where
  "kind_code k = (case k of Kind_Io \<Rightarrow> ''io'' | Kind_Invalid \<Rightarrow> ''invalid_manifest'')"

record manifest_error =
  err_kind :: error_kind
  err_message :: msg
  err_location :: "location option"

definition invalid :: "msg \<Rightarrow> location option \<Rightarrow> manifest_error" where
  "invalid m l = \<lparr>err_kind = Kind_Invalid, err_message = m, err_location = l\<rparr>"

text \<open>\<^verbatim>\<open>Display\<close> of an error: the message, with the location when there is one.\<close>

definition error_text :: "manifest_error \<Rightarrow> msg" where
  "error_text e = (case err_location e of
     Some l \<Rightarrow> err_message e @ [Txt '' at line '', Num (int (line l)), Txt '', column '', Num (int (column l))]
   | None \<Rightarrow> err_message e)"

section \<open>Names\<close>

definition valid_name :: "string \<Rightarrow> bool" where
  "valid_name name \<longleftrightarrow>
     1 \<le> length name \<and> length name \<le> 48
     \<and> is_lower (hd name)
     \<and> list_all (\<lambda>b. is_lower b \<or> is_digit b \<or> b = CHR ''-'') name
     \<and> \<not> starts_with ''termux-stacks-'' name"

definition validate_name :: "string \<Rightarrow> string \<Rightarrow> location option \<Rightarrow> manifest_error + unit" where
  "validate_name name path loc =
     (if valid_name name then Inr ()
      else Inl (invalid [Txt path,
             Txt '' must match ^[a-z][a-z0-9-]{0,47}$ and must not start with termux-stacks-''] loc))"

definition validate_stack_name :: "string \<Rightarrow> manifest_error + unit" where
  "validate_stack_name name = validate_name name ''stack name'' None"

lemma validate_name_Inr [res_simps]: "validate_name n p l = Inr u \<longleftrightarrow> valid_name n"
  by (simp add: validate_name_def)

lemma valid_name_chars:
  "valid_name n \<Longrightarrow> c \<in> set n \<Longrightarrow> is_lower c \<or> is_digit c \<or> c = CHR ''-''"
  by (auto simp: valid_name_def list_all_iff)

text \<open>A valid name is one path component: it is not empty, has no slash and is not a dot name.\<close>

lemma valid_name_component:
  assumes "valid_name n"
  shows "n \<noteq> []" and "CHR ''/'' \<notin> set n" and "n \<noteq> ''.''" and "n \<noteq> ''..''" and "CHR '':'' \<notin> set n"
    and "CHR 0x00 \<notin> set n"
proof -
  have c: "c \<in> set n \<Longrightarrow> is_lower c \<or> is_digit c \<or> c = CHR ''-''" for c
    using assms by (rule valid_name_chars)
  show "n \<noteq> []" using assms by (auto simp: valid_name_def)
  show "CHR ''/'' \<notin> set n" "CHR '':'' \<notin> set n" "CHR 0x00 \<notin> set n"
    using c by (auto dest!: c simp: is_lower_def is_digit_def less_eq_char_def)
  show "n \<noteq> ''.''" "n \<noteq> ''..''"
    using assms by (auto simp: valid_name_def is_lower_def less_eq_char_def)
qed

section \<open>Environment keys\<close>

definition valid_environment_name :: "string \<Rightarrow> bool" where
  "valid_environment_name name =
     (case name of
        [] \<Rightarrow> False
      | c # cs \<Rightarrow> (is_upper c \<or> is_lower c \<or> c = CHR ''_'')
                  \<and> list_all (\<lambda>b. is_alnum b \<or> b = CHR ''_'') cs)"

definition RESERVED :: "string list" where
  "RESERVED =
     [''ANDROID_ART_ROOT'', ''ANDROID_DATA'', ''ANDROID_I18N_ROOT'', ''ANDROID_ROOT'',
      ''ANDROID_RUNTIME_ROOT'', ''ANDROID_TZDATA_ROOT'', ''BOOTCLASSPATH'', ''COLORTERM'',
      ''DEX2OATBOOTCLASSPATH'', ''EXTERNAL_STORAGE'', ''HOME'', ''MOZ_FAKE_NO_SANDBOX'',
      ''PREFIX'', ''PULSE_SERVER'', ''TERM'', ''TMPDIR'', ''USER'']"

definition reserved_environment_name :: "string \<Rightarrow> bool" where
  "reserved_environment_name name \<longleftrightarrow>
     starts_with ''PROOT_'' name \<or> starts_with ''LD_'' name \<or> name \<in> set RESERVED"

lemma valid_environment_name_chars:
  assumes "valid_environment_name n"
  shows "n \<noteq> []" and "CHR ''='' \<notin> set n" and "CHR 0x00 \<notin> set n"
  using assms
  by (auto simp: valid_environment_name_def list_all_iff is_alnum_def is_upper_def is_lower_def
      is_digit_def less_eq_char_def split: list.splits)

section \<open>Mount targets\<close>

definition is_normalized_absolute_path :: "string \<Rightarrow> bool" where
  "is_normalized_absolute_path path =
     (if \<not> starts_with ''/'' path \<or> CHR 0x00 \<in> set path then False
      else if path = ''/'' then True
      else \<not> ends_with ''/'' path
           \<and> list_all (\<lambda>c. c \<noteq> [] \<and> c \<noteq> ''.'' \<and> c \<noteq> ''..'') (drop 1 (split_at CHR ''/'' path)))"

definition suffix_at_slash :: "string \<Rightarrow> string \<Rightarrow> bool" where
  "suffix_at_slash p s = (case strip_prefix p s of None \<Rightarrow> False | Some r \<Rightarrow> starts_with ''/'' r)"

definition mount_targets_overlap :: "string \<Rightarrow> string \<Rightarrow> bool" where
  "mount_targets_overlap a b \<longleftrightarrow>
     a = ''/'' \<or> b = ''/'' \<or> a = b \<or> suffix_at_slash a b \<or> suffix_at_slash b a"

text \<open>
  What the two functions are about: a target is the list of its components, and two targets
  overlap when one component list is a prefix of the other.
\<close>

definition path_of :: "string list \<Rightarrow> string" where
  "path_of cs = (if cs = [] then ''/'' else concat (map (\<lambda>c. CHR ''/'' # c) cs))"

definition component :: "string \<Rightarrow> bool" where
  "component c \<longleftrightarrow> c \<noteq> [] \<and> c \<noteq> ''.'' \<and> c \<noteq> ''..'' \<and> CHR ''/'' \<notin> set c \<and> CHR 0x00 \<notin> set c"

definition components_prefix :: "string list \<Rightarrow> string list \<Rightarrow> bool" where
  "components_prefix cs ds \<longleftrightarrow> (\<exists>es. ds = cs @ es)"

lemma join_with_Cons: "ws \<noteq> [] \<Longrightarrow> join_with c (w # ws) = w @ c # join_with c ws"
  by (cases ws) auto

lemma path_of_join: "cs \<noteq> [] \<Longrightarrow> path_of cs = CHR ''/'' # join_with CHR ''/'' cs"
proof (induction cs)
  case (Cons c cs)
  then show ?case by (cases cs) (auto simp: path_of_def join_with_Cons)
qed simp

lemma split_path_of:
  assumes "cs \<noteq> []" and "\<forall>c \<in> set cs. CHR ''/'' \<notin> set c"
  shows "split_at CHR ''/'' (path_of cs) = [] # cs"
  using assms by (simp add: path_of_join split_join)

lemma set_path_of: "c \<in> set (path_of cs) \<Longrightarrow> c = CHR ''/'' \<or> (\<exists>d \<in> set cs. c \<in> set d)"
  by (auto simp: path_of_def split: if_splits)

lemma last_path_of: "cs \<noteq> [] \<Longrightarrow> last cs \<noteq> [] \<Longrightarrow> last (path_of cs) = last (last cs)"
  by (induction cs rule: rev_induct) (auto simp: path_of_def)

lemma ends_with_slash: "ends_with ''/'' s \<longleftrightarrow> s \<noteq> [] \<and> last s = CHR ''/''"
  by (cases s rule: rev_cases) (auto simp: ends_with_def)

lemma starts_with_slash: "starts_with ''/'' s \<longleftrightarrow> (\<exists>r. s = CHR ''/'' # r)"
  by (cases s) (auto simp: starts_with_def)

lemma normalized_path_of:
  assumes "list_all component cs"
  shows "is_normalized_absolute_path (path_of cs)"
proof (cases "cs = []")
  case True
  then show ?thesis by (simp add: path_of_def is_normalized_absolute_path_def starts_with_def)
next
  case False
  have c: "\<forall>c \<in> set cs. component c" using assms by (simp add: list_all_iff)
  then have "last cs \<noteq> []" "CHR ''/'' \<notin> set (last cs)" using False by (auto simp: component_def)
  then have "\<not> ends_with ''/'' (path_of cs)"
    using False by (metis ends_with_slash last_in_set last_path_of)
  moreover have "CHR 0x00 \<notin> set (path_of cs)"
    using c by (auto dest!: set_path_of simp: component_def)
  moreover have "split_at CHR ''/'' (path_of cs) = [] # cs"
    using False c by (intro split_path_of) (auto simp: component_def)
  ultimately show ?thesis
    using False c by (simp add: is_normalized_absolute_path_def path_of_join starts_with_slash
        list_all_iff component_def)
qed

lemma normalized_is_path_of:
  assumes "is_normalized_absolute_path p"
  shows "\<exists>cs. list_all component cs \<and> p = path_of cs"
proof (cases "p = ''/''")
  case True
  then show ?thesis by (intro exI [of _ "[]"]) (simp add: path_of_def)
next
  case False
  obtain r where p: "p = CHR ''/'' # r"
    using assms by (auto simp: is_normalized_absolute_path_def starts_with_slash split: if_splits)
  let ?cs = "split_at CHR ''/'' r"
  have "list_all component ?cs"
    using assms False
    by (auto simp: is_normalized_absolute_path_def p component_def list_all_iff
        dest: split_at_no_sep split_at_subset split: if_splits)
  moreover have "p = path_of ?cs" by (simp add: p path_of_join)
  ultimately show ?thesis by blast
qed

lemma suffix_at_slash_path_of:
  assumes "cs \<noteq> []" and "list_all component cs" and "list_all component ds"
  shows "suffix_at_slash (path_of cs) (path_of ds) \<longleftrightarrow> (\<exists>es. es \<noteq> [] \<and> ds = cs @ es)"
proof
  assume "suffix_at_slash (path_of cs) (path_of ds)"
  then obtain r where r: "path_of ds = path_of cs @ CHR ''/'' # r"
    by (auto simp: suffix_at_slash_def strip_prefix_Some starts_with_slash split: option.splits)
  then have ds: "ds \<noteq> []" using assms(1) by (auto simp: path_of_join) (auto simp: path_of_def)
  have "[] # ds = ([] # cs) @ split_at CHR ''/'' r"
    using split_path_of [OF ds] split_path_of [OF assms(1)] assms(2,3)
      split_at_append [of "CHR ''/''" "path_of cs" r] r
    by (simp add: list_all_iff component_def)
  then show "\<exists>es. es \<noteq> [] \<and> ds = cs @ es" by auto
next
  assume "\<exists>es. es \<noteq> [] \<and> ds = cs @ es"
  then obtain e es where "ds = cs @ e # es" by (metis list.exhaust)
  then have "path_of ds = path_of cs @ path_of (e # es)"
    using assms(1) by (simp add: path_of_def)
  then have "strip_prefix (path_of cs) (path_of ds) = Some (path_of (e # es))"
    by (simp add: strip_prefix_Some)
  then show "suffix_at_slash (path_of cs) (path_of ds)"
    by (simp add: suffix_at_slash_def starts_with_slash path_of_join)
qed

lemma path_of_root: "list_all component cs \<Longrightarrow> path_of cs = ''/'' \<longleftrightarrow> cs = []"
  by (cases cs) (auto simp: path_of_def component_def)

lemma path_of_inj:
  assumes "list_all component cs" and "list_all component ds" and "path_of cs = path_of ds"
  shows "cs = ds"
proof (cases "cs = []")
  case True
  with assms path_of_root [of ds] show ?thesis by (auto simp: path_of_def)
next
  case False
  then have "ds \<noteq> []" using assms path_of_root [of cs] by (auto simp: path_of_def)
  then have "[] # cs = split_at CHR ''/'' (path_of cs)" "[] # ds = split_at CHR ''/'' (path_of ds)"
    using False split_path_of [of cs] split_path_of [of ds] assms(1,2)
    by (auto simp: list_all_iff component_def)
  with assms(3) show ?thesis by (metis list.inject)
qed

text \<open>Claim C25. Two mount targets overlap exactly when one's components are a prefix of the other's.\<close>

theorem mount_targets_overlap_components:
  assumes "list_all component cs" and "list_all component ds"
  shows "mount_targets_overlap (path_of cs) (path_of ds)
         \<longleftrightarrow> components_prefix cs ds \<or> components_prefix ds cs"
proof (cases "cs = [] \<or> ds = []")
  case True
  then show ?thesis
    by (auto simp: mount_targets_overlap_def components_prefix_def path_of_def)
next
  case False
  have eq: "path_of cs = path_of ds \<longleftrightarrow> cs = ds" using assms by (auto dest: path_of_inj)
  have "path_of cs \<noteq> ''/''" "path_of ds \<noteq> ''/''" using False assms path_of_root by blast+
  then have "mount_targets_overlap (path_of cs) (path_of ds) \<longleftrightarrow>
      cs = ds \<or> (\<exists>es. es \<noteq> [] \<and> ds = cs @ es) \<or> (\<exists>es. es \<noteq> [] \<and> cs = ds @ es)"
    using False assms suffix_at_slash_path_of [of cs ds] suffix_at_slash_path_of [of ds cs]
    unfolding mount_targets_overlap_def eq by blast
  then show ?thesis unfolding components_prefix_def by (metis append_Nil2)
qed

theorem mount_targets_overlap_components_witness:
  "mount_targets_overlap (path_of [''data'']) (path_of [''data'', ''db''])
   \<and> \<not> mount_targets_overlap (path_of [''data'']) (path_of [''database''])"
proof -
  have c: "list_all component [''data'']" "list_all component [''data'', ''db'']"
    "list_all component [''database'']"
    by (simp_all add: component_def)
  show ?thesis
    using mount_targets_overlap_components [OF c(1) c(2)] mount_targets_overlap_components [OF c(1) c(3)]
    by (simp add: components_prefix_def)
qed

section \<open>Plain scalars\<close>

definition ascii_lower :: "char \<Rightarrow> char" where
  "ascii_lower c = (if is_upper c then char_of (byte c + 32) else c)"

definition to_ascii_lowercase :: "string \<Rightarrow> string" where
  "to_ascii_lowercase s = map ascii_lower s"

text \<open>
  The strings \<^verbatim>\<open>str::parse::<f64>\<close> accepts: an optional sign, then one of the three words in
  any case, or digits with an optional point and an optional exponent.
\<close>

definition skip_sign :: "string \<Rightarrow> string" where
  "skip_sign s = (case s of [] \<Rightarrow> [] | c # r \<Rightarrow> if c = CHR ''+'' \<or> c = CHR ''-'' then r else s)"

definition parses_exponent :: "string \<Rightarrow> bool" where
  "parses_exponent r =
     (case r of
        [] \<Rightarrow> True
      | c # t \<Rightarrow> (c = CHR ''e'' \<or> c = CHR ''E'') \<and> skip_sign t \<noteq> [] \<and> list_all is_digit (skip_sign t))"

definition parses_number :: "string \<Rightarrow> bool" where
  "parses_number s =
     (let i = takeWhile is_digit s; r = dropWhile is_digit s
      in if r \<noteq> [] \<and> hd r = CHR ''.''
         then (i \<noteq> [] \<or> takeWhile is_digit (tl r) \<noteq> []) \<and> parses_exponent (dropWhile is_digit (tl r))
         else i \<noteq> [] \<and> parses_exponent r)"

definition parses_f64 :: "string \<Rightarrow> bool" where
  "parses_f64 s \<longleftrightarrow>
     to_ascii_lowercase (skip_sign s) \<in> {''inf'', ''infinity'', ''nan''} \<or> parses_number (skip_sign s)"

definition is_hexdigit :: "char \<Rightarrow> bool" where
  "is_hexdigit c \<longleftrightarrow> is_digit c \<or> (CHR ''a'' \<le> c \<and> c \<le> CHR ''f'') \<or> (CHR ''A'' \<le> c \<and> c \<le> CHR ''F'')"

definition is_plain_core_literal :: "string \<Rightarrow> bool" where
  "is_plain_core_literal value =
     (let lower = to_ascii_lowercase value in
      if lower \<in> {''~'', ''null'', ''true'', ''false'', ''.nan'', ''.inf'', ''+.inf'', ''-.inf''} then True
      else if parse_i64 value \<noteq> None \<or> parses_f64 value then True
      else (case strip_prefix ''0x'' lower of
              Some hex \<Rightarrow> hex \<noteq> [] \<and> list_all is_hexdigit hex
            | None \<Rightarrow>
                (case strip_prefix ''0o'' lower of
                   Some octal \<Rightarrow> octal \<noteq> [] \<and> list_all (\<lambda>b. CHR ''0'' \<le> b \<and> b \<le> CHR ''7'') octal
                 | None \<Rightarrow> False)))"

lemma digits_parse_number: "s \<noteq> [] \<Longrightarrow> list_all is_digit s \<Longrightarrow> parses_number s"
proof -
  assume "s \<noteq> []" and d: "list_all is_digit s"
  then have e: "dropWhile is_digit s = []" "takeWhile is_digit s = s"
    by (auto simp: list_all_iff takeWhile_eq_all_conv)
  with \<open>s \<noteq> []\<close> show "parses_number s"
    by (simp add: parses_number_def parses_exponent_def e)
qed

text \<open>
  Every text read as an integer is also a number to the float grammar, so the integer test in
  the code is only a shortcut.
\<close>

lemma parse_i64_is_f64: "parse_i64 s = Some v \<Longrightarrow> parses_f64 s"
  by (cases s)
    (auto simp: parse_i64_def parse_int_def parses_f64_def skip_sign_def Let_def
      intro!: digits_parse_number split: if_splits)

lemma valid_name_not_number:
  assumes "valid_name n" shows "parse_i64 n = None"
proof (rule ccontr)
  assume "parse_i64 n \<noteq> None"
  then obtain c cs where n: "n = c # cs" "is_digit c \<or> c = CHR ''+'' \<or> c = CHR ''-''"
    by (cases n) (auto simp: parse_i64_def parse_int_def Let_def split: if_splits)
  with assms show False
    by (auto simp: valid_name_def is_lower_def is_digit_def less_eq_char_def)
qed

end
