(* ===== verification/Manifest_Graph.thy ===== *)
theory Manifest_Graph
  imports Manifest_Text
begin

text \<open>
  The data of a manifest (\<^verbatim>\<open>src/manifest.rs\<close>) and the order its services start and stop in.
  The order is computed by counting unstarted dependencies; it is proved never to panic, to
  start every service after its dependencies and, among those that could start, by name, and to
  fail exactly when the dependencies have a cycle.
\<close>

section \<open>The data of a manifest\<close>

datatype mount_kind = Volume | Bind

record mount =
  mo_kind :: mount_kind
  mo_source :: string
  mo_target :: string

record port =
  po_address :: string
  po_port :: "16 word"

datatype restart_policy = No | OnFailure | Always

record service =
  se_name :: string
  se_image :: string
  se_command :: "string list option"
  se_environment :: "(string \<times> string) list"
  se_mounts :: "mount list"
  se_ports :: "port list"
  se_depends_on :: "string list"
  se_restart :: restart_policy

type_synonym services = "(string \<times> service) list"

section \<open>The order\<close>

text \<open>A panic of the program: a failed \<^verbatim>\<open>expect\<close>, an index out of range or an underflow.\<close>

datatype panic = Panic

definition incoming_counts :: "services \<Rightarrow> (string \<times> nat) list" where
  "incoming_counts ss = map (\<lambda>(n, s). (n, length (se_depends_on s))) ss"

definition add_dependents :: "string \<times> service \<Rightarrow> (string \<times> string list) list \<Rightarrow> (string \<times> string list) list" where
  "add_dependents e m = fold (\<lambda>d. bt_modify d (\<lambda>ns. bs_of (fst e # ns))) (se_depends_on (snd e)) m"

definition dependents_map :: "services \<Rightarrow> (string \<times> string list) list" where
  "dependents_map ss = fold add_dependents ss (map (\<lambda>(n, _). (n, [])) ss)"

type_synonym topo = "(string \<times> nat) list \<times> string list"

definition release_one :: "string \<Rightarrow> topo \<Rightarrow> panic + topo" where
  "release_one d st =
     (case bt_get (fst st) d of
        None \<Rightarrow> Inl Panic
      | Some c \<Rightarrow>
          if c = 0 then Inl Panic
          else Inr (bt_modify d (\<lambda>c. c - 1) (fst st),
                    if c - 1 = 0 then bs_of (d # snd st) else snd st))"

definition topo_weight :: "topo \<Rightarrow> nat" where
  "topo_weight st = sum_list (map snd (fst st)) + length (snd st)"

lemma length_bs_of_le: "length (bs_of xs) \<le> length xs"
  by (simp add: bs_of_def length_remdups_leq)

lemma bt_modify_dec_le: "sum_list (map snd (bt_modify d (\<lambda>c. c - 1) m)) \<le> (sum_list (map snd m) :: nat)"
  unfolding bt_modify_def map_map by (intro sum_list_mono) auto

lemma bt_modify_dec:
  "bt_get m d = Some c \<Longrightarrow> c \<noteq> 0 \<Longrightarrow>
     sum_list (map snd (bt_modify d (\<lambda>c. c - 1) m)) < (sum_list (map snd m) :: nat)"
proof (induction m)
  case Nil
  then show ?case by (simp add: bt_get_def)
next
  case (Cons e m)
  then show ?case
    using bt_modify_dec_le [of d m]
    by (cases "fst e = d") (auto simp: bt_get_def bt_modify_def)
qed

lemma release_one_weight:
  assumes "release_one d st = Inr st'"
  shows "topo_weight st' \<le> topo_weight st"
proof -
  from assms obtain c where c: "bt_get (fst st) d = Some c" "c \<noteq> 0"
    and st': "st' = (bt_modify d (\<lambda>c. c - 1) (fst st), if c - 1 = 0 then bs_of (d # snd st) else snd st)"
    by (auto simp: release_one_def split: option.splits if_splits)
  have "length (snd st') \<le> Suc (length (snd st))"
    using length_bs_of_le [of "d # snd st"] st' by auto
  with bt_modify_dec [OF c] st' show ?thesis by (simp add: topo_weight_def)
qed

lemma release_fold_weight:
  "fold_res release_one ds st = Inr st' \<Longrightarrow> topo_weight st' \<le> topo_weight st"
proof -
  assume "fold_res release_one ds st = Inr st'"
  then show ?thesis
  proof (rule fold_res_invariant)
    show "topo_weight st \<le> topo_weight st" by simp
    fix x t t'
    assume "topo_weight t \<le> topo_weight st" "release_one x t = Inr t'"
    with release_one_weight show "topo_weight t' \<le> topo_weight st" by fastforce
  qed
qed

function (sequential) topo_loop ::
    "(string \<times> string list) list \<Rightarrow> topo \<Rightarrow> string list \<Rightarrow> panic + ((string \<times> nat) list \<times> string list)" where
  "topo_loop dependents (incoming, []) order = Inr (incoming, order)"
| "topo_loop dependents (incoming, name # ready) order =
     (case bt_get dependents name of
        None \<Rightarrow> Inl Panic
      | Some ds \<Rightarrow> andthen (fold_res release_one ds (incoming, ready))
                    (\<lambda>st. topo_loop dependents st (order @ [name])))"
  by pat_completeness auto
termination
  by (relation "measure (\<lambda>(dependents, st, order). topo_weight st)")
    (auto dest!: release_fold_weight simp: topo_weight_def)

text \<open>\<^verbatim>\<open>Ok\<close> of the order is \<open>Inr\<close>, \<^verbatim>\<open>Err\<close> of the services on a cycle is \<open>Inl\<close>.\<close>

definition topological_order :: "services \<Rightarrow> panic + (string list + string list)" where
  "topological_order ss =
     (let incoming = incoming_counts ss;
          ready = bs_of (map fst (filter (\<lambda>e. snd e = 0) incoming))
      in andthen (topo_loop (dependents_map ss) (incoming, ready) []) (\<lambda>(incoming', order).
           if length order = length ss then Inr (Inr order)
           else Inr (Inl (map fst (filter (\<lambda>e. snd e \<noteq> 0) incoming')))))"

section \<open>What the loop computes\<close>

definition deps :: "services \<Rightarrow> string \<Rightarrow> string list" where
  "deps ss n = (case bt_get ss n of None \<Rightarrow> [] | Some s \<Rightarrow> se_depends_on s)"

definition names :: "services \<Rightarrow> string set" where
  "names ss = fst ` set ss"

text \<open>The dependencies of a service that have not started when those of \<open>order\<close> have.\<close>

definition remaining :: "services \<Rightarrow> string list \<Rightarrow> string \<Rightarrow> nat" where
  "remaining ss order n = length (deps ss n) - card (set (deps ss n) \<inter> set order)"

definition startable :: "services \<Rightarrow> string list \<Rightarrow> string set" where
  "startable ss order = {n \<in> names ss. n \<notin> set order \<and> remaining ss order n = 0}"

lemma remaining_0_iff:
  "remaining ss order n = 0 \<longleftrightarrow> distinct (deps ss n) \<and> set (deps ss n) \<subseteq> set order"
proof -
  let ?d = "deps ss n"
  have "card (set ?d \<inter> set order) \<le> card (set ?d)" by (intro card_mono) auto
  moreover have "card (set ?d) \<le> length ?d" by (rule card_length)
  moreover have "card (set ?d) = length ?d \<longleftrightarrow> distinct ?d"
    by (metis card_distinct distinct_card)
  moreover have "card (set ?d \<inter> set order) = card (set ?d) \<longleftrightarrow> set ?d \<subseteq> set order"
    using card_subset_eq [of "set ?d" "set ?d \<inter> set order"]
    by (auto simp: Int_absorb2)
  ultimately show ?thesis unfolding remaining_def by linarith
qed

lemma names_iff: "n \<in> names ss \<longleftrightarrow> (\<exists>s. bt_get ss n = Some s)"
  using bt_get_None_iff [of ss n] by (auto simp: names_def)

lemma incoming_get:
  "bt_get (incoming_counts ss) n = map_option (\<lambda>s. length (se_depends_on s)) (bt_get ss n)"
  by (induction ss) (auto simp: incoming_counts_def bt_get_def)

lemma incoming_keys: "map fst (incoming_counts ss) = map fst ss"
  by (auto simp: incoming_counts_def)

lemma bs_of_insert_idem [simp]: "bs_of (x # bs_of (x # ns)) = bs_of (x # ns)"
  by (simp add: bs_of_eq_iff)

lemma add_dependents_get:
  "bt_get (add_dependents e m) n =
     map_option (\<lambda>ns. if n \<in> set (se_depends_on (snd e)) then bs_of (fst e # ns) else ns) (bt_get m n)"
proof -
  have "bt_get (fold (\<lambda>d. bt_modify d (\<lambda>ns. bs_of (fst e # ns))) ds m) n =
     map_option (\<lambda>ns. if n \<in> set ds then bs_of (fst e # ns) else ns) (bt_get m n)" for ds
  proof (induction ds arbitrary: m)
    case Nil
    then show ?case by (simp add: option.map_id0 [unfolded id_def])
  next
    case (Cons d ds)
    then show ?case
      by (cases "bt_get m n") (auto simp: bt_get_modify)
  qed
  then show ?thesis by (simp add: add_dependents_def)
qed

lemma dependents_fold:
  assumes "bt_get m n = Some ns" and "distinct ns"
  shows "\<exists>ns'. bt_get (fold add_dependents es m) n = Some ns' \<and> distinct ns'
    \<and> set ns' = set ns \<union> {fst e |e. e \<in> set es \<and> n \<in> set (se_depends_on (snd e))}"
  using assms
proof (induction es arbitrary: m ns)
  case Nil
  then show ?case by simp
next
  case (Cons e es)
  let ?ns = "if n \<in> set (se_depends_on (snd e)) then bs_of (fst e # ns) else ns"
  have "bt_get (add_dependents e m) n = Some ?ns" "distinct ?ns"
    using Cons.prems by (simp_all add: add_dependents_get)
  from Cons.IH [OF this] show ?case by (force split: if_splits)
qed

lemma dependents_get:
  assumes "bt_wf ss" and "n \<in> names ss"
  shows "\<exists>ds. bt_get (dependents_map ss) n = Some ds \<and> distinct ds
    \<and> set ds = {m \<in> names ss. n \<in> set (deps ss m)}"
proof -
  have "bt_get (map (\<lambda>(n, _). (n, [])) ss) n = Some ([] :: string list)"
    using assms(2) unfolding names_def by (induction ss) (auto simp: bt_get_def)
  from dependents_fold [OF this, of ss] obtain ds where
    ds: "bt_get (dependents_map ss) n = Some ds" "distinct ds"
      "set ds = {fst e |e. e \<in> set ss \<and> n \<in> set (se_depends_on (snd e))}"
    by (auto simp: dependents_map_def)
  have "set ds = {m \<in> names ss. n \<in> set (deps ss m)}"
    using ds(3) assms(1) bt_get_in_iff [OF assms(1)]
    by (force simp: names_def deps_def image_iff)
  with ds show ?thesis by blast
qed

lemma release_fold:
  assumes "distinct ds" and "\<forall>d \<in> set ds. \<exists>c. bt_get inc d = Some c \<and> c \<noteq> 0"
    and "sorted ready" and "distinct ready"
  shows "\<exists>inc' ready'. fold_res release_one ds (inc, ready) = Inr (inc', ready')
    \<and> map fst inc' = map fst inc
    \<and> (\<forall>k. bt_get inc' k = (if k \<in> set ds then map_option (\<lambda>c. c - 1) (bt_get inc k) else bt_get inc k))
    \<and> set ready' = set ready \<union> {d \<in> set ds. bt_get inc d = Some 1}
    \<and> sorted ready' \<and> distinct ready'"
  using assms
proof (induction ds arbitrary: inc ready)
  case Nil
  then show ?case by simp
next
  case (Cons d ds)
  then obtain c where c: "bt_get inc d = Some c" "c \<noteq> 0" by auto
  let ?inc = "bt_modify d (\<lambda>c. c - 1) inc"
  let ?ready = "if c = 1 then bs_of (d # ready) else ready"
  have step: "release_one d (inc, ready) = Inr (?inc, ?ready)"
    using c by (auto simp: release_one_def)
  have "\<forall>x \<in> set ds. \<exists>c. bt_get ?inc x = Some c \<and> c \<noteq> 0"
    using Cons.prems by (auto simp: bt_get_modify)
  moreover have "sorted ?ready" "distinct ?ready" using Cons.prems by simp_all
  ultimately obtain inc' ready' where r: "fold_res release_one ds (?inc, ?ready) = Inr (inc', ready')"
    "map fst inc' = map fst ?inc"
    "\<forall>k. bt_get inc' k = (if k \<in> set ds then map_option (\<lambda>c. c - 1) (bt_get ?inc k) else bt_get ?inc k)"
    "set ready' = set ?ready \<union> {d \<in> set ds. bt_get ?inc d = Some 1}"
    "sorted ready'" "distinct ready'"
    using Cons.IH [of ?inc ?ready] Cons.prems(1) by auto
  have "set ready' = set ready \<union> {x \<in> set (d # ds). bt_get inc x = Some 1}"
    using r(4) Cons.prems(1) c by (auto simp: bt_get_modify)
  moreover have "\<forall>k. bt_get inc' k =
      (if k \<in> set (d # ds) then map_option (\<lambda>c. c - 1) (bt_get inc k) else bt_get inc k)"
    using r(3) Cons.prems(1) by (auto simp: bt_get_modify)
  ultimately show ?case using r step by auto
qed

definition topo_inv :: "services \<Rightarrow> topo \<Rightarrow> string list \<Rightarrow> bool" where
  "topo_inv ss st order \<longleftrightarrow>
     map fst (fst st) = map fst ss
     \<and> (\<forall>n \<in> names ss. bt_get (fst st) n = Some (remaining ss order n))
     \<and> distinct order \<and> set order \<subseteq> names ss \<and> (\<forall>n \<in> set order. remaining ss order n = 0)
     \<and> set (snd st) = startable ss order \<and> sorted (snd st) \<and> distinct (snd st)"

text \<open>\<open>by_name\<close>: at every step the least of the services that could start is started.\<close>

definition by_name :: "services \<Rightarrow> string list \<Rightarrow> bool" where
  "by_name ss order \<longleftrightarrow> (\<forall>i < length order.
     order ! i \<in> startable ss (take i order)
     \<and> (\<forall>m \<in> startable ss (take i order). order ! i \<le> m))"

lemma by_name_snoc:
  "by_name ss (order @ [n]) \<longleftrightarrow>
     by_name ss order \<and> n \<in> startable ss order \<and> (\<forall>m \<in> startable ss order. n \<le> m)"
  by (auto simp: by_name_def nth_append less_Suc_eq)

lemma card_inter_insert:
  "n \<notin> set order \<Longrightarrow>
     card (set ds \<inter> set (order @ [n])) = card (set ds \<inter> set order) + (if n \<in> set ds then 1 else 0)"
  by simp

lemma remaining_snoc:
  assumes "n \<notin> set order"
  shows "remaining ss (order @ [n]) m
    = (if n \<in> set (deps ss m) then remaining ss order m - 1 else remaining ss order m)"
  unfolding remaining_def card_inter_insert [OF assms] by simp

lemma remaining_pos:
  "n \<in> set (deps ss m) \<Longrightarrow> n \<notin> set order \<Longrightarrow> remaining ss order m \<noteq> 0"
  by (auto simp: remaining_0_iff)

text \<open>What becomes startable once a service is placed: what was, and what waited for it alone.\<close>

lemma startable_snoc:
  assumes inv: "topo_inv ss (inc, n # ready) order" and n: "n \<in> names ss" "n \<notin> set order" "remaining ss order n = 0"
    and ready: "n \<notin> set ready" "set ready = startable ss order - {n}"
    and ds: "set ds = {m \<in> names ss. n \<in> set (deps ss m)}"
    and r: "set ready' = set ready \<union> {d \<in> set ds. bt_get inc d = Some 1}"
  shows "set ready' = startable ss (order @ [n])"
proof (intro set_eqI iffI)
  fix m assume m: "m \<in> set ready'"
  show "m \<in> startable ss (order @ [n])"
  proof (cases "m \<in> set ready")
    case True
    then show ?thesis
      using ready by (auto simp: startable_def remaining_snoc [OF n(2)])
  next
    case False
    with m r ds have d: "m \<in> names ss" "n \<in> set (deps ss m)" "bt_get inc m = Some 1" by auto
    with inv have one: "remaining ss order m = 1" by (auto simp: topo_inv_def)
    with inv have "m \<notin> set order" by (auto simp: topo_inv_def)
    moreover have "m \<noteq> n" using one n(3) by auto
    ultimately show ?thesis
      using d one by (simp add: startable_def remaining_snoc [OF n(2)])
  qed
next
  fix m assume m: "m \<in> startable ss (order @ [n])"
  then have d: "m \<in> names ss" "m \<notin> set order" "m \<noteq> n" by (auto simp: startable_def)
  show "m \<in> set ready'"
  proof (cases "n \<in> set (deps ss m)")
    case True
    have "remaining ss order m \<noteq> 0" using True n(2) by (rule remaining_pos)
    moreover have "remaining ss order m - 1 = 0"
      using m True by (simp add: startable_def remaining_snoc [OF n(2)])
    ultimately have "remaining ss order m = 1" by simp
    then show ?thesis using True d r ds inv by (simp add: topo_inv_def)
  next
    case False
    then show ?thesis
      using m d r ready(2) by (simp add: startable_def remaining_snoc [OF n(2)])
  qed
qed

lemma topo_step:
  assumes "bt_wf ss" and inv: "topo_inv ss (inc, n # ready) order"
  shows "\<exists>ds st. bt_get (dependents_map ss) n = Some ds
    \<and> fold_res release_one ds (inc, ready) = Inr st
    \<and> topo_inv ss st (order @ [n])
    \<and> n \<in> startable ss order \<and> (\<forall>m \<in> startable ss order. n \<le> m)"
proof -
  have n: "n \<in> names ss" "n \<notin> set order" "remaining ss order n = 0" "n \<in> startable ss order"
    and least: "\<forall>m \<in> startable ss order. n \<le> m"
    and ready: "sorted ready" "distinct ready" "n \<notin> set ready" "set ready = startable ss order - {n}"
    using inv by (auto simp: topo_inv_def startable_def)
  obtain ds where ds: "bt_get (dependents_map ss) n = Some ds" "distinct ds"
    "set ds = {m \<in> names ss. n \<in> set (deps ss m)}"
    using dependents_get [OF assms(1) n(1)] by blast
  have "\<forall>d \<in> set ds. \<exists>c. bt_get inc d = Some c \<and> c \<noteq> 0"
    using ds(3) inv n(2) remaining_pos by (auto simp: topo_inv_def)
  from release_fold [OF ds(2) this ready(1,2)] obtain inc' ready' where
    r: "fold_res release_one ds (inc, ready) = Inr (inc', ready')"
      "map fst inc' = map fst inc"
      "\<forall>k. bt_get inc' k = (if k \<in> set ds then map_option (\<lambda>c. c - 1) (bt_get inc k) else bt_get inc k)"
      "set ready' = set ready \<union> {d \<in> set ds. bt_get inc d = Some 1}"
      "sorted ready'" "distinct ready'"
    by blast
  have count: "\<forall>m \<in> names ss. bt_get inc' m = Some (remaining ss (order @ [n]) m)"
    using r(3) ds(3) inv by (auto simp: topo_inv_def remaining_snoc [OF n(2)])
  have started: "\<forall>m \<in> set (order @ [n]). remaining ss (order @ [n]) m = 0"
    using inv n by (auto simp: topo_inv_def remaining_snoc [OF n(2)])
  have "set ready' = startable ss (order @ [n])"
    by (rule startable_snoc [OF inv n(1-3) ready(3,4) ds(3) r(4)])
  with r count started inv n have "topo_inv ss (inc', ready') (order @ [n])"
    by (simp add: topo_inv_def)
  with ds(1) r(1) n(4) least show ?thesis by blast
qed

lemma topo_loop_correct:
  assumes "bt_wf ss" and "topo_inv ss st order" and "by_name ss order"
  shows "\<exists>inc order'. topo_loop (dependents_map ss) st order = Inr (inc, order')
    \<and> topo_inv ss (inc, []) order' \<and> by_name ss order'"
  using assms(2,3)
proof (induction "topo_weight st" arbitrary: st order rule: less_induct)
  case less
  obtain inc ready where st: "st = (inc, ready)" by (cases st)
  show ?case
  proof (cases ready)
    case Nil
    with less st show ?thesis by auto
  next
    case (Cons n ready')
    from topo_step [OF assms(1), of inc n ready' order] less.prems st Cons
    obtain ds st' where s: "bt_get (dependents_map ss) n = Some ds"
      "fold_res release_one ds (inc, ready') = Inr st'" "topo_inv ss st' (order @ [n])"
      "n \<in> startable ss order" "\<forall>m \<in> startable ss order. n \<le> m" by auto
    have "topo_weight st' < topo_weight st"
      using release_fold_weight [OF s(2)] st Cons by (simp add: topo_weight_def)
    from less.hyps [OF this s(3)] less.prems(2) s(4,5) show ?thesis
      using s(1,2) st Cons by (simp add: by_name_snoc)
  qed
qed

section \<open>The contract of the order\<close>

definition dep_edges :: "services \<Rightarrow> (string \<times> string) set" where
  "dep_edges ss = {(d, n). n \<in> names ss \<and> d \<in> set (deps ss n)}"

text \<open>
  What validation establishes of the dependencies before the order is computed: they name
  services of the manifest, each at most once.
\<close>

definition deps_ok :: "services \<Rightarrow> bool" where
  "deps_ok ss \<longleftrightarrow> (\<forall>(n, s) \<in> set ss. distinct (se_depends_on s) \<and> set (se_depends_on s) \<subseteq> fst ` set ss)"

text \<open>
  The abstract specification: every service once, after the services it depends on, and
  whenever several could start next, the one with the least name.
\<close>

definition start_order_spec :: "services \<Rightarrow> string list \<Rightarrow> bool" where
  "start_order_spec ss order \<longleftrightarrow>
     distinct order \<and> set order = names ss
     \<and> (\<forall>i < length order. set (deps ss (order ! i)) \<subseteq> set (take i order)
        \<and> (\<forall>m \<in> names ss. m \<notin> set (take i order) \<and> set (deps ss m) \<subseteq> set (take i order)
             \<longrightarrow> order ! i \<le> m))"

lemma topo_init:
  assumes "bt_wf ss"
  shows "topo_inv ss (incoming_counts ss, bs_of (map fst (filter (\<lambda>e. snd e = 0) (incoming_counts ss)))) []"
proof -
  have count: "\<forall>n \<in> names ss. bt_get (incoming_counts ss) n = Some (remaining ss [] n)"
    by (auto simp: names_iff incoming_get remaining_def deps_def)
  have wf: "bt_wf (incoming_counts ss)"
    using assms by (simp add: bt_wf_def incoming_keys)
  have "fst ` {e \<in> set (incoming_counts ss). snd e = 0} = startable ss []"
  proof (intro set_eqI iffI)
    fix n assume "n \<in> fst ` {e \<in> set (incoming_counts ss). snd e = 0}"
    then have g: "bt_get (incoming_counts ss) n = Some 0"
      using bt_get_in_iff [OF wf, of n 0] by (metis (mono_tags, lifting) imageE mem_Collect_eq prod.collapse)
    then have "n \<in> names ss" by (auto simp: incoming_get names_iff)
    with g count show "n \<in> startable ss []" by (auto simp: startable_def)
  next
    fix n assume "n \<in> startable ss []"
    with count have "bt_get (incoming_counts ss) n = Some 0" by (auto simp: startable_def)
    then show "n \<in> fst ` {e \<in> set (incoming_counts ss). snd e = 0}"
      by (force dest: bt_get_Some_in)
  qed
  with count show ?thesis by (simp add: topo_inv_def incoming_keys)
qed

text \<open>How a call of the order ends: the state its loop stops in.\<close>

lemma topological_order_end:
  assumes "bt_wf ss"
  obtains inc order where "topo_inv ss (inc, []) order" and "by_name ss order"
    and "topological_order ss = Inr (if length order = length ss then Inr order
           else Inl (map fst (filter (\<lambda>e. snd e \<noteq> 0) inc)))"
proof -
  have "by_name ss []" by (simp add: by_name_def)
  from topo_loop_correct [OF assms topo_init [OF assms] this] obtain inc order where
    "topo_loop (dependents_map ss)
       (incoming_counts ss, bs_of (map fst (filter (\<lambda>e. snd e = 0) (incoming_counts ss)))) [] = Inr (inc, order)"
    "topo_inv ss (inc, []) order" "by_name ss order" by blast
  then show thesis by (intro that [of inc order]) (auto simp: topological_order_def Let_def)
qed

lemma card_names: "bt_wf ss \<Longrightarrow> card (names ss) = length ss"
  by (simp add: names_def bt_wf_def strict_sorted_iff distinct_card flip: image_set)
    (metis distinct_card length_map list.set_map)

lemma full_order_iff:
  assumes "bt_wf ss" and "topo_inv ss st order"
  shows "length order = length ss \<longleftrightarrow> set order = names ss"
proof -
  have "distinct order" "set order \<subseteq> names ss" using assms(2) by (auto simp: topo_inv_def)
  then have "length order = card (set order)" "finite (names ss)"
    by (simp_all add: distinct_card names_def)
  then show ?thesis
    using card_names [OF assms(1)] \<open>set order \<subseteq> names ss\<close> by (metis card_subset_eq)
qed

lemma deps_okD:
  assumes "deps_ok ss" and "n \<in> names ss"
  shows "distinct (deps ss n) \<and> set (deps ss n) \<subseteq> names ss"
proof -
  obtain sv where sv: "bt_get ss n = Some sv" using assms(2) names_iff by blast
  with assms(1) have "distinct (se_depends_on sv) \<and> set (se_depends_on sv) \<subseteq> fst ` set ss"
    unfolding deps_ok_def using bt_get_Some_in [OF sv] by blast
  with sv show ?thesis by (simp add: deps_def names_def)
qed

lemma start_order_specI:
  assumes "bt_wf ss" and "deps_ok ss" and "by_name ss order" and "distinct order"
    and "set order = names ss"
  shows "start_order_spec ss order"
  unfolding start_order_spec_def
proof (intro conjI allI impI ballI)
  fix i m
  assume i: "i < length order" and m: "m \<in> names ss"
    "m \<notin> set (take i order) \<and> set (deps ss m) \<subseteq> set (take i order)"
  then have "m \<in> startable ss (take i order)"
    using deps_okD [OF assms(2) m(1)] by (simp add: startable_def remaining_0_iff)
  with assms(3) i show "order ! i \<le> m" by (simp add: by_name_def)
next
  fix i
  assume "i < length order"
  with assms(3) show "set (deps ss (order ! i)) \<subseteq> set (take i order)"
    by (simp add: by_name_def startable_def remaining_0_iff)
qed (use assms in simp_all)

text \<open>An order that respects the dependencies rules out a cycle: positions increase along edges.\<close>

lemma start_order_acyclic:
  assumes "start_order_spec ss order"
  shows "acyclic (dep_edges ss)"
proof -
  have idx: "\<exists>i < length order. order ! i = n" if "n \<in> names ss" for n
    using assms that by (metis in_set_conv_nth start_order_spec_def)
  define pos where "pos n = (LEAST i. i < length order \<and> order ! i = n)" for n
  have pos: "pos n < length order \<and> order ! pos n = n" if "n \<in> names ss" for n
    unfolding pos_def by (rule LeastI_ex) (use idx [OF that] in blast)
  have edge: "pos d < pos n" if "(d, n) \<in> dep_edges ss" for d n
  proof -
    from that have n: "n \<in> names ss" "d \<in> set (deps ss n)" by (auto simp: dep_edges_def)
    have "\<forall>i < length order. set (deps ss (order ! i)) \<subseteq> set (take i order)"
      using assms by (simp add: start_order_spec_def)
    with n(2) pos [OF n(1)] have "d \<in> set (take (pos n) order)" by (metis subsetD)
    then obtain i where i: "i < pos n" "i < length order" "order ! i = d"
      by (auto simp: in_set_conv_nth)
    have "pos d \<le> i" unfolding pos_def by (rule Least_le) (use i in simp)
    with i show ?thesis by simp
  qed
  have "dep_edges ss \<subseteq> measure pos" using edge by auto
  then show ?thesis by (metis acyclic_subset wf_acyclic wf_measure)
qed

lemma acyclic_all_started:
  assumes "bt_wf ss" and "deps_ok ss" and "acyclic (dep_edges ss)" and "topo_inv ss (inc, []) order"
  shows "set order = names ss"
proof (rule ccontr)
  assume "set order \<noteq> names ss"
  then obtain x where x: "x \<in> names ss - set order" using assms(4) by (auto simp: topo_inv_def)
  have "finite (dep_edges ss)"
    by (rule finite_subset [of _ "names ss \<times> names ss"])
      (use deps_okD [OF assms(2)] in \<open>auto simp: dep_edges_def names_def\<close>)
  then have "wf (dep_edges ss)" using assms(3) by (rule finite_acyclic_wf)
  then obtain n where n: "n \<in> names ss - set order"
    and least: "\<And>d. (d, n) \<in> dep_edges ss \<Longrightarrow> d \<notin> names ss - set order"
    using x by (rule wfE_min) blast
  have "set (deps ss n) \<subseteq> set order"
    using n least deps_okD [OF assms(2), of n] by (auto simp: dep_edges_def)
  then have "n \<in> startable ss order"
    using n deps_okD [OF assms(2), of n] by (simp add: startable_def remaining_0_iff)
  then show False using assms(4) by (simp add: topo_inv_def)
qed

lemma topological_order_ok:
  assumes "bt_wf ss" and "deps_ok ss" and "topological_order ss = Inr (Inr order)"
  shows "start_order_spec ss order"
proof -
  obtain inc order' where o: "topo_inv ss (inc, []) order'" "by_name ss order'"
    "topological_order ss = Inr (if length order' = length ss then Inr order'
           else Inl (map fst (filter (\<lambda>e. snd e \<noteq> 0) inc)))"
    by (rule topological_order_end [OF assms(1)])
  then have "order' = order" "set order = names ss"
    using assms(3) full_order_iff [OF assms(1) o(1)] by (auto split: if_splits)
  with o assms start_order_specI [of ss order] show ?thesis by (auto simp: topo_inv_def)
qed

lemma topological_order_acyclic:
  assumes "bt_wf ss" and "deps_ok ss" and "acyclic (dep_edges ss)"
  shows "\<exists>order. topological_order ss = Inr (Inr order)"
proof -
  obtain inc order where o: "topo_inv ss (inc, []) order"
    "topological_order ss = Inr (if length order = length ss then Inr order
           else Inl (map fst (filter (\<lambda>e. snd e \<noteq> 0) inc)))"
    by (rule topological_order_end [OF assms(1)])
  with acyclic_all_started [OF assms o(1)] full_order_iff [OF assms(1) o(1)] show ?thesis by simp
qed

lemma topological_order_cycle:
  assumes "bt_wf ss" and "topological_order ss = Inr (Inl cyc)" and "deps_ok ss"
  shows "cyc \<noteq> [] \<and> set cyc \<subseteq> names ss \<and> (\<forall>n \<in> set cyc. \<exists>d \<in> set (deps ss n). d \<in> set cyc)"
proof -
  obtain inc order where o: "topo_inv ss (inc, []) order"
    "topological_order ss = Inr (if length order = length ss then Inr order
           else Inl (map fst (filter (\<lambda>e. snd e \<noteq> 0) inc)))"
    by (rule topological_order_end [OF assms(1)])
  then have ne: "set order \<noteq> names ss" and cyc: "cyc = map fst (filter (\<lambda>e. snd e \<noteq> 0) inc)"
    using assms(2) full_order_iff [OF assms(1) o(1)] by (auto split: if_splits)
  have keys: "map fst inc = map fst ss" and count: "\<forall>n \<in> names ss. bt_get inc n = Some (remaining ss order n)"
    using o(1) by (simp_all add: topo_inv_def)
  have wf: "bt_wf inc" using assms(1) keys by (simp add: bt_wf_def)
  have in_cyc: "n \<in> set cyc \<longleftrightarrow> n \<in> names ss \<and> remaining ss order n \<noteq> 0" for n
  proof
    assume "n \<in> set cyc"
    then obtain c where c: "(n, c) \<in> set inc" "c \<noteq> 0" using cyc by auto
    then have "bt_get inc n = Some c" using bt_get_in_iff [OF wf] by blast
    moreover have "n \<in> names ss" using c(1) keys by (metis names_def fst_conv image_eqI list.set_map)
    ultimately show "n \<in> names ss \<and> remaining ss order n \<noteq> 0" using count c(2) by auto
  next
    assume n: "n \<in> names ss \<and> remaining ss order n \<noteq> 0"
    with count have "(n, remaining ss order n) \<in> set inc" by (auto dest: bt_get_Some_in)
    with n cyc show "n \<in> set cyc" by force
  qed
  have not_started: "n \<in> set cyc \<longleftrightarrow> n \<in> names ss \<and> n \<notin> set order" for n
  proof -
    have "\<forall>m \<in> set order. remaining ss order m = 0" "startable ss order = {}"
      using o(1) by (auto simp: topo_inv_def)
    then show ?thesis unfolding in_cyc by (auto simp: startable_def)
  qed
  have "\<exists>d \<in> set (deps ss n). d \<in> set cyc" if "n \<in> set cyc" for n
    using that deps_okD [OF assms(3), of n] in_cyc [of n] not_started
    by (auto simp: remaining_0_iff)
  moreover have "set cyc \<noteq> {}" using ne not_started o(1) by (auto simp: topo_inv_def)
  ultimately show ?thesis using in_cyc by auto
qed

text \<open>
  The dependency order never panics on a map of services, whatever its dependencies
  are (duplicates and unknown names included): every \<^verbatim>\<open>expect\<close>, index and subtraction of
  the loop is safe, and the loop ends.
\<close>

theorem topological_order_total:
  assumes "bt_wf ss"
  shows "\<exists>r. topological_order ss = Inr r"
  by (rule topological_order_end [OF assms]) auto

text \<open>
  Claim C16. With dependencies that name services of the manifest once each, the order exists
  exactly when the dependencies have no cycle; it then meets its specification (each service
  once, after its dependencies, the least name first among those that could start), and
  otherwise the error lists services that each depend on another listed one.
\<close>

theorem topological_order_correct:
  assumes "bt_wf ss" and "deps_ok ss"
  shows "case topological_order ss of
      Inr (Inr order) \<Rightarrow> acyclic (dep_edges ss) \<and> start_order_spec ss order
    | Inr (Inl cyc) \<Rightarrow> \<not> acyclic (dep_edges ss) \<and> cyc \<noteq> [] \<and> set cyc \<subseteq> names ss
         \<and> (\<forall>n \<in> set cyc. \<exists>d \<in> set (deps ss n). d \<in> set cyc)
    | Inl Panic \<Rightarrow> False"
proof -
  obtain inc order where "topo_inv ss (inc, []) order" "by_name ss order"
    "topological_order ss = Inr (if length order = length ss then Inr order
           else Inl (map fst (filter (\<lambda>e. snd e \<noteq> 0) inc)))"
    by (rule topological_order_end [OF assms(1)])
  then consider (ok) ord where "topological_order ss = Inr (Inr ord)"
    | (cyclic) cyc where "topological_order ss = Inr (Inl cyc)" by (cases "length order = length ss") auto
  then show ?thesis
  proof cases
    case ok
    from topological_order_ok [OF assms ok] start_order_acyclic show ?thesis using ok by auto
  next
    case cyclic
    with topological_order_acyclic [OF assms] have "\<not> acyclic (dep_edges ss)" by auto
    with topological_order_cycle [OF assms(1) cyclic assms(2)] cyclic show ?thesis by simp
  qed
qed

definition sample_service :: "string \<Rightarrow> string list \<Rightarrow> service" where
  "sample_service n ds = \<lparr>se_name = n, se_image = ''alpine'', se_command = None, se_environment = [],
     se_mounts = [], se_ports = [], se_depends_on = ds, se_restart = No\<rparr>"

definition sample_services :: services where
  "sample_services = [(''api'', sample_service ''api'' [''db'', ''cache'']),
     (''cache'', sample_service ''cache'' []), (''db'', sample_service ''db'' []),
     (''web'', sample_service ''web'' [''api''])]"

lemma sample_services_ok: "bt_wf sample_services" "deps_ok sample_services"
  by (simp_all add: sample_services_def sample_service_def bt_wf_def deps_ok_def)

lemma topological_order_total_witness: "\<exists>r. topological_order sample_services = Inr r"
  by (rule topological_order_total [OF sample_services_ok(1)])

lemma topological_order_correct_witness:
  "topological_order sample_services = Inr (Inr [''cache'', ''db'', ''api'', ''web''])
   \<and> acyclic (dep_edges sample_services)"
proof -
  have t: "topological_order sample_services = Inr (Inr [''cache'', ''db'', ''api'', ''web''])"
    by code_simp
  with topological_order_correct [OF sample_services_ok] show ?thesis by simp
qed

end
