(* ===== verification/Store_Schema.thy ===== *)
theory Store_Schema
  imports Manifest_Graph
begin

text \<open>
  The tables of the journal (\<^verbatim>\<open>src/store.rs\<close>, \<^verbatim>\<open>create_v3_tables\<close>) and the transactions over
  them. A database is a record of tables, a table a list of rows in insertion order; the
  constraints of the schema are checked after every statement that writes, as SQLite does. A
  transaction is a function from a database to an error or a result with the new database, so
  a failing transaction changes nothing. Rules for sequences of statements, shared by every
  operation, are proved once in a locale over reflexive and transitive relations.
\<close>

section \<open>Tables\<close>

text \<open>
  A JSON text the program writes is kept as the value it denotes: \<^verbatim>\<open>serde_json\<close> prints equal
  values equally and different values differently, and the program only compares these texts.
\<close>

datatype json = JNull | JBool bool | JInt int | JStr string | JArr "json list"
  | JObj "(string \<times> json) list"

record stack_row =
  sk_name :: string
  sk_desired :: string
  sk_observed :: string
  sk_manifest :: string
  sk_base :: string
  sk_revision :: int
  sk_created :: int
  sk_updated :: int

record service_row =
  sv_stack :: string
  sv_name :: string
  sv_active :: bool
  sv_config :: json
  sv_desired :: string
  sv_observed :: string
  sv_alias :: "string option"
  sv_generation :: "int option"
  sv_phase :: string
  sv_session :: "int option"
  sv_pid :: "int option"
  sv_starttime :: "int option"
  sv_boot :: "string option"
  sv_exit_code :: "int option"
  sv_exit_signal :: "int option"
  sv_attempts :: int
  sv_window :: "int option"
  sv_next :: "int option"
  sv_stdout :: string
  sv_stderr :: string
  sv_created :: int
  sv_updated :: int

record rootfs_row =
  rg_stack :: string
  rg_service :: string
  rg_generation :: int
  rg_alias :: string
  rg_image :: string
  rg_state :: string
  rg_role :: string
  rg_created :: int
  rg_updated :: int

record operation_row =
  op_request :: string
  op_stack :: string
  op_operation :: string
  op_phase :: string
  op_manifest :: "string option"
  op_base :: "string option"
  op_revision :: "int option"
  op_target :: "string option"
  op_outcome :: "string option"
  op_error_code :: "string option"
  op_error_message :: "msg option"
  op_response :: "string option"
  op_created :: int
  op_updated :: int

record opservice_row =
  os_request :: string
  os_stack :: string
  os_service :: string
  os_ordinal :: int
  os_phase :: string
  os_outcome :: "string option"
  os_config :: "json option"
  os_generation :: "int option"
  os_error_code :: "string option"
  os_error_message :: "msg option"

record db =
  stacks_tbl :: "stack_row list"
  services_tbl :: "service_row list"
  rootfs_tbl :: "rootfs_row list"
  operations_tbl :: "operation_row list"
  opservices_tbl :: "opservice_row list"

definition empty_db :: db where
  "empty_db = \<lparr>stacks_tbl = [], services_tbl = [], rootfs_tbl = [], operations_tbl = [], opservices_tbl = []\<rparr>"

section \<open>Constraints\<close>

definition sv_key :: "service_row \<Rightarrow> string \<times> string" where
  "sv_key r = (sv_stack r, sv_name r)"

definition rg_key :: "rootfs_row \<Rightarrow> string \<times> string" where
  "rg_key r = (rg_stack r, rg_service r)"

definition rg_id :: "rootfs_row \<Rightarrow> string \<times> string \<times> int" where
  "rg_id r = (rg_stack r, rg_service r, rg_generation r)"

definition stacks_ok :: "db \<Rightarrow> bool" where
  "stacks_ok d \<longleftrightarrow> distinct (map sk_name (stacks_tbl d)) \<and> (\<forall>r \<in> set (stacks_tbl d). 0 \<le> sk_revision r)"

definition services_ok :: "db \<Rightarrow> bool" where
  "services_ok d \<longleftrightarrow> distinct (map sv_key (services_tbl d))
     \<and> (\<forall>r \<in> set (services_tbl d). sv_stack r \<in> sk_name ` set (stacks_tbl d)
          \<and> 0 \<le> sv_attempts r \<and> ((sv_alias r = None) = (sv_generation r = None)))"

definition rootfs_ok :: "db \<Rightarrow> bool" where
  "rootfs_ok d \<longleftrightarrow> distinct (map rg_id (rootfs_tbl d)) \<and> distinct (map rg_alias (rootfs_tbl d))
     \<and> (\<forall>r \<in> set (rootfs_tbl d). rg_key r \<in> sv_key ` set (services_tbl d)
          \<and> 0 < rg_generation r \<and> rg_role r \<in> {''candidate'', ''current'', ''retired''})
     \<and> distinct (map rg_key (filter (\<lambda>r. rg_role r = ''current'') (rootfs_tbl d)))
     \<and> distinct (map rg_key (filter (\<lambda>r. rg_role r = ''candidate'') (rootfs_tbl d)))"

definition operations_ok :: "db \<Rightarrow> bool" where
  "operations_ok d \<longleftrightarrow> distinct (map op_request (operations_tbl d))
     \<and> (\<forall>r \<in> set (operations_tbl d). op_stack r \<in> sk_name ` set (stacks_tbl d))
     \<and> distinct (map op_stack (filter (\<lambda>r. op_outcome r = None) (operations_tbl d)))"

definition opservices_ok :: "db \<Rightarrow> bool" where
  "opservices_ok d \<longleftrightarrow> distinct (map (\<lambda>r. (os_request r, os_service r)) (opservices_tbl d))
     \<and> distinct (map (\<lambda>r. (os_request r, os_ordinal r)) (opservices_tbl d))
     \<and> (\<forall>r \<in> set (opservices_tbl d). os_request r \<in> op_request ` set (operations_tbl d) \<and> 0 \<le> os_ordinal r)"

definition schema_ok :: "db \<Rightarrow> bool" where
  "schema_ok d \<longleftrightarrow> stacks_ok d \<and> services_ok d \<and> rootfs_ok d \<and> operations_ok d \<and> opservices_ok d"

lemmas constraint_defs = schema_ok_def stacks_ok_def services_ok_def rootfs_ok_def operations_ok_def
  opservices_ok_def

section \<open>Errors and the clock\<close>

datatype store_error =
    UnsafePath string
  | Io msg
  | Sql string
  | Schema int
  | Conflict msg
  | NotFound msg
  | Crash \<comment> \<open>a panic inside the operation, not an error value\<close>

text \<open>\<^verbatim>\<open>unix_time\<close>: the reading of the clock, in seconds since the epoch, is an argument.\<close>

definition unix_time :: "int \<Rightarrow> store_error + int" where
  "unix_time clk =
     (if clk < 0 then Inl (Io [Txt ''system clock before Unix epoch''])
      else if 2 ^ 63 \<le> clk then Inl (Io [Txt ''system time does not fit in SQLite INTEGER''])
      else Inr clk)"

section \<open>Transactions\<close>

type_synonym 'a tx = "db \<Rightarrow> store_error + 'a \<times> db"

definition tx_return :: "'a \<Rightarrow> 'a tx" where
  "tx_return a d = Inr (a, d)"

definition tx_fail :: "store_error \<Rightarrow> 'a tx" where
  "tx_fail e d = Inl e"

definition tx_bind :: "'a tx \<Rightarrow> ('a \<Rightarrow> 'b tx) \<Rightarrow> 'b tx" where
  "tx_bind m k d = andthen (m d) (\<lambda>(a, d'). k a d')"

definition tx_lift :: "store_error + 'a \<Rightarrow> 'a tx" where
  "tx_lift r d = andthen r (\<lambda>a. Inr (a, d))"

definition tx_query :: "(db \<Rightarrow> 'a) \<Rightarrow> 'a tx" where
  "tx_query f d = Inr (f d, d)"

definition tx_read :: "(db \<Rightarrow> store_error + 'a) \<Rightarrow> 'a tx" where
  "tx_read f d = andthen (f d) (\<lambda>a. Inr (a, d))"

definition tx_check :: "bool \<Rightarrow> store_error \<Rightarrow> unit tx" where
  "tx_check b e = (if b then tx_return () else tx_fail e)"

text \<open>A statement that writes: the constraints hold afterwards or the transaction fails.\<close>

definition tx_exec :: "(db \<Rightarrow> db) \<Rightarrow> unit tx" where
  "tx_exec f d = (if schema_ok (f d) then Inr ((), f d) else Inl (Sql ''constraint failed''))"

fun tx_for :: "'a list \<Rightarrow> ('a \<Rightarrow> unit tx) \<Rightarrow> unit tx" where
  "tx_for [] f = tx_return ()"
| "tx_for (x # xs) f = tx_bind (f x) (\<lambda>_. tx_for xs f)"

fun tx_fold :: "('a \<Rightarrow> 's \<Rightarrow> 's tx) \<Rightarrow> 'a list \<Rightarrow> 's \<Rightarrow> 's tx" where
  "tx_fold f [] s = tx_return s"
| "tx_fold f (x # xs) s = tx_bind (f x s) (tx_fold f xs)"

definition tx_when :: "bool \<Rightarrow> unit tx \<Rightarrow> unit tx" where
  "tx_when b m = (if b then m else tx_return ())"

lemma tx_simps [simp]:
  "tx_return a d = Inr (a, d)"
  "tx_fail e d = Inl e"
  "tx_query f d = Inr (f d, d)"
  by (simp_all add: tx_return_def tx_fail_def tx_query_def)

lemma tx_bind_Inr [res_simps]:
  "tx_bind m k d = Inr (b, d'') \<longleftrightarrow> (\<exists>a d'. m d = Inr (a, d') \<and> k a d' = Inr (b, d''))"
  by (auto simp: tx_bind_def andthen_Inr_iff)

lemma tx_lift_Inr [res_simps]: "tx_lift r d = Inr (a, d') \<longleftrightarrow> r = Inr a \<and> d' = d"
  by (auto simp: tx_lift_def andthen_Inr_iff)

lemma tx_read_Inr [res_simps]: "tx_read f d = Inr (a, d') \<longleftrightarrow> f d = Inr a \<and> d' = d"
  by (auto simp: tx_read_def andthen_Inr_iff)

lemma tx_check_Inr [res_simps]: "tx_check b e d = Inr (u, d') \<longleftrightarrow> b \<and> d' = d"
  by (auto simp: tx_check_def)

lemma tx_exec_Inr [res_simps]: "tx_exec f d = Inr (u, d') \<longleftrightarrow> d' = f d \<and> schema_ok d'"
  by (auto simp: tx_exec_def)

lemma tx_when_Inr [res_simps]:
  "tx_when b m d = Inr (u, d') \<longleftrightarrow> (if b then m d = Inr (u, d') else d' = d)"
  by (auto simp: tx_when_def)

section \<open>Statements\<close>

definition require_one :: "nat \<Rightarrow> msg \<Rightarrow> store_error + unit" where
  "require_one changed subject = (if changed = 1 then Inr () else Inl (NotFound subject))"

lemma require_one_Inr [res_simps]: "require_one n s = Inr u \<longleftrightarrow> n = 1"
  by (simp add: require_one_def)

definition change :: "('r \<Rightarrow> bool) \<Rightarrow> ('r \<Rightarrow> 'r) \<Rightarrow> 'r list \<Rightarrow> 'r list" where
  "change p f rs = map (\<lambda>r. if p r then f r else r) rs"

definition matching :: "('r \<Rightarrow> bool) \<Rightarrow> 'r list \<Rightarrow> nat" where
  "matching p rs = length (filter p rs)"

text \<open>
  \<^verbatim>\<open>UPDATE ... WHERE\<close>: the rows that satisfy the condition are changed in place; the result is
  their number. Conditions read the database the statement starts from.
\<close>

definition update_stacks :: "(stack_row \<Rightarrow> bool) \<Rightarrow> (stack_row \<Rightarrow> stack_row) \<Rightarrow> nat tx" where
  "update_stacks p f =
     tx_bind (tx_query (\<lambda>d. matching p (stacks_tbl d))) (\<lambda>n.
     tx_bind (tx_exec (\<lambda>d. d\<lparr>stacks_tbl := change p f (stacks_tbl d)\<rparr>)) (\<lambda>_. tx_return n))"

definition update_services :: "(service_row \<Rightarrow> bool) \<Rightarrow> (service_row \<Rightarrow> service_row) \<Rightarrow> nat tx" where
  "update_services p f =
     tx_bind (tx_query (\<lambda>d. matching p (services_tbl d))) (\<lambda>n.
     tx_bind (tx_exec (\<lambda>d. d\<lparr>services_tbl := change p f (services_tbl d)\<rparr>)) (\<lambda>_. tx_return n))"

definition update_rootfs :: "(rootfs_row \<Rightarrow> bool) \<Rightarrow> (rootfs_row \<Rightarrow> rootfs_row) \<Rightarrow> nat tx" where
  "update_rootfs p f =
     tx_bind (tx_query (\<lambda>d. matching p (rootfs_tbl d))) (\<lambda>n.
     tx_bind (tx_exec (\<lambda>d. d\<lparr>rootfs_tbl := change p f (rootfs_tbl d)\<rparr>)) (\<lambda>_. tx_return n))"

definition update_operations :: "(operation_row \<Rightarrow> bool) \<Rightarrow> (operation_row \<Rightarrow> operation_row) \<Rightarrow> nat tx" where
  "update_operations p f =
     tx_bind (tx_query (\<lambda>d. matching p (operations_tbl d))) (\<lambda>n.
     tx_bind (tx_exec (\<lambda>d. d\<lparr>operations_tbl := change p f (operations_tbl d)\<rparr>)) (\<lambda>_. tx_return n))"

definition update_opservices :: "(opservice_row \<Rightarrow> bool) \<Rightarrow> (opservice_row \<Rightarrow> opservice_row) \<Rightarrow> nat tx" where
  "update_opservices p f =
     tx_bind (tx_query (\<lambda>d. matching p (opservices_tbl d))) (\<lambda>n.
     tx_bind (tx_exec (\<lambda>d. d\<lparr>opservices_tbl := change p f (opservices_tbl d)\<rparr>)) (\<lambda>_. tx_return n))"

definition insert_stack :: "stack_row \<Rightarrow> unit tx" where
  "insert_stack r = tx_exec (\<lambda>d. d\<lparr>stacks_tbl := stacks_tbl d @ [r]\<rparr>)"

definition insert_service :: "service_row \<Rightarrow> unit tx" where
  "insert_service r = tx_exec (\<lambda>d. d\<lparr>services_tbl := services_tbl d @ [r]\<rparr>)"

definition insert_rootfs :: "rootfs_row \<Rightarrow> unit tx" where
  "insert_rootfs r = tx_exec (\<lambda>d. d\<lparr>rootfs_tbl := rootfs_tbl d @ [r]\<rparr>)"

definition insert_operation :: "operation_row \<Rightarrow> unit tx" where
  "insert_operation r = tx_exec (\<lambda>d. d\<lparr>operations_tbl := operations_tbl d @ [r]\<rparr>)"

definition insert_opservice :: "opservice_row \<Rightarrow> unit tx" where
  "insert_opservice r = tx_exec (\<lambda>d. d\<lparr>opservices_tbl := opservices_tbl d @ [r]\<rparr>)"

text \<open>\<^verbatim>\<open>require_one(transaction.execute(...)?, subject)?\<close>.\<close>

definition exactly_one :: "nat tx \<Rightarrow> msg \<Rightarrow> unit tx" where
  "exactly_one m subject = tx_bind m (\<lambda>n. tx_lift (require_one n subject))"

text \<open>A statement whose row count is not used.\<close>

definition any_number :: "nat tx \<Rightarrow> unit tx" where
  "any_number m = tx_bind m (\<lambda>_. tx_return ())"

section \<open>Relations that transactions respect\<close>

text \<open>
  A relation between the database before and after, reflexive and transitive, is respected by
  a transaction when every successful run relates the two. The rules of the locale follow the
  syntax of a transaction, so that an operation respects a relation as soon as its statements
  do.
\<close>

locale tx_relation =
  fixes R :: "db \<Rightarrow> db \<Rightarrow> bool"
  assumes R_refl: "R d d"
    and R_trans: "R d d' \<Longrightarrow> R d' d'' \<Longrightarrow> R d d''"
begin

definition keeps :: "'a tx \<Rightarrow> bool" where
  "keeps m \<longleftrightarrow> (\<forall>d a d'. m d = Inr (a, d') \<longrightarrow> R d d')"

lemma keepsI: "(\<And>d a d'. m d = Inr (a, d') \<Longrightarrow> R d d') \<Longrightarrow> keeps m"
  unfolding keeps_def by blast

lemma keepsD: "keeps m \<Longrightarrow> m d = Inr (a, d') \<Longrightarrow> R d d'"
  unfolding keeps_def by blast

lemma keeps_return: "keeps (tx_return a)"
  by (simp add: keeps_def R_refl)

lemma keeps_fail: "keeps (tx_fail e)"
  by (simp add: keeps_def)

lemma keeps_lift: "keeps (tx_lift r)"
  by (simp add: keeps_def res_simps R_refl)

lemma keeps_query: "keeps (tx_query f)"
  by (simp add: keeps_def R_refl)

lemma keeps_read: "keeps (tx_read f)"
  by (simp add: keeps_def res_simps R_refl)

lemma keeps_check: "keeps (tx_check b e)"
  by (simp add: keeps_def res_simps R_refl)

lemma keeps_bind:
  assumes "keeps m" and "\<And>a. keeps (k a)"
  shows "keeps (tx_bind m k)"
  unfolding keeps_def
proof (intro allI impI)
  fix d b d''
  assume "tx_bind m k d = Inr (b, d'')"
  then obtain a d' where "m d = Inr (a, d')" "k a d' = Inr (b, d'')" by (auto simp: res_simps)
  with assms show "R d d''" by (blast intro: R_trans dest: keepsD)
qed

lemma keeps_exec: "(\<And>d. schema_ok (f d) \<Longrightarrow> R d (f d)) \<Longrightarrow> keeps (tx_exec f)"
  by (simp add: keeps_def res_simps)

lemma keeps_when: "keeps m \<Longrightarrow> keeps (tx_when b m)"
  by (simp add: tx_when_def keeps_return)

lemma keeps_for: "(\<And>x. x \<in> set xs \<Longrightarrow> keeps (f x)) \<Longrightarrow> keeps (tx_for xs f)"
  by (induction xs) (simp_all add: keeps_return keeps_bind)

lemma keeps_fold: "(\<And>x s. x \<in> set xs \<Longrightarrow> keeps (f x s)) \<Longrightarrow> keeps (tx_fold f xs s)"
  by (induction xs arbitrary: s) (simp_all add: keeps_return keeps_bind)

lemma keeps_exactly_one: "keeps m \<Longrightarrow> keeps (exactly_one m s)"
  by (simp add: exactly_one_def keeps_bind keeps_lift)

lemma keeps_any_number: "keeps m \<Longrightarrow> keeps (any_number m)"
  by (simp add: any_number_def keeps_bind keeps_return)

lemma keeps_if: "(b \<Longrightarrow> keeps m) \<Longrightarrow> (\<not> b \<Longrightarrow> keeps m') \<Longrightarrow> keeps (if b then m else m')"
  by simp

lemma keeps_prod: "(\<And>a b. x = (a, b) \<Longrightarrow> keeps (f a b)) \<Longrightarrow> keeps (case x of (a, b) \<Rightarrow> f a b)"
  by (cases x) simp

lemma keeps_option:
  "(x = None \<Longrightarrow> keeps m) \<Longrightarrow> (\<And>a. x = Some a \<Longrightarrow> keeps (f a)) \<Longrightarrow>
     keeps (case x of None \<Rightarrow> m | Some a \<Rightarrow> f a)"
  by (cases x) simp_all

lemma keeps_let: "keeps (f x) \<Longrightarrow> keeps (let y = x in f y)"
  by simp

lemmas keeps_rules = keeps_return keeps_fail keeps_lift keeps_query keeps_read
  keeps_check keeps_bind keeps_when keeps_for keeps_fold keeps_exactly_one
  keeps_any_number keeps_if keeps_prod keeps_option keeps_let

end

text \<open>The constraints of the schema are such a relation: a successful run ends in a database that meets them.\<close>

interpretation schema: tx_relation "\<lambda>d d'. schema_ok d \<longrightarrow> schema_ok d'"
  by unfold_locales blast+

lemma schema_keeps_exec: "schema.keeps (tx_exec f)"
  by (rule schema.keeps_exec) simp

lemma schema_keeps_statements [intro]:
  "schema.keeps (update_stacks p1 f1)" "schema.keeps (update_services p2 f2)"
  "schema.keeps (update_rootfs p3 f3)" "schema.keeps (update_operations p4 f4)"
  "schema.keeps (update_opservices p5 f5)" "schema.keeps (insert_stack r1)"
  "schema.keeps (insert_service r2)" "schema.keeps (insert_rootfs r3)"
  "schema.keeps (insert_operation r4)" "schema.keeps (insert_opservice r5)"
  by (simp_all add: update_stacks_def update_services_def update_rootfs_def update_operations_def
      update_opservices_def insert_stack_def insert_service_def insert_rootfs_def insert_operation_def
      insert_opservice_def schema.keeps_rules schema_keeps_exec)

end
