(* ===== verification/Manifest_Yaml.thy ===== *)
theory Manifest_Yaml
  imports Manifest_Text
begin

text \<open>
  The restricted YAML reader of \<^verbatim>\<open>src/manifest.rs\<close>: the cursor over the parser's
  events, the tree of nodes it builds and the conversions of a node. The event stream comes
  from the third-party scanner and is an argument of the reader; the tree it accepts is proved
  to respect the limits on depth, node count, collection size and scalar size, to have no
  duplicate key and to come from events without anchors, tags or aliases.
\<close>

section \<open>Events\<close>

datatype scalar_style = Plain | Styled

datatype event =
    StreamStart
  | StreamEnd
  | DocumentStart
  | DocumentEnd
  | Alias
  | Ev_Scalar string scalar_style nat bool \<comment> \<open>value, style, anchor id, tagged\<close>
  | SequenceStart nat bool
  | SequenceEnd
  | MappingStart nat bool
  | MappingEnd
  | Ev_Nothing

type_synonym spanned = "event \<times> location"

record scalar =
  sc_value :: string
  sc_style :: scalar_style
  sc_location :: location

definition is_string :: "scalar \<Rightarrow> bool" where
  "is_string s \<longleftrightarrow> sc_style s \<noteq> Plain \<or> \<not> is_plain_core_literal (sc_value s)"

section \<open>Nodes\<close>

datatype node =
    Scalar scalar
  | Sequence "node list" location
  | Mapping "(string \<times> mapping_entry) list" location
and mapping_entry = MappingEntry (key_location: location) (entry_value: node)

type_synonym mapping = "(string \<times> mapping_entry) list"

fun node_location :: "node \<Rightarrow> location" where
  "node_location (Scalar s) = sc_location s"
| "node_location (Sequence _ l) = l"
| "node_location (Mapping _ l) = l"

fun into_string :: "node \<Rightarrow> string \<Rightarrow> manifest_error + string" where
  "into_string (Scalar s) path =
     (if is_string s then Inr (sc_value s)
      else Inl (invalid [Txt path, Txt '' must be a string''] (Some (sc_location s))))"
| "into_string other path =
     Inl (invalid [Txt path, Txt '' must be a string''] (Some (node_location other)))"

fun into_sequence :: "node \<Rightarrow> string \<Rightarrow> manifest_error + node list" where
  "into_sequence (Sequence vs _) path = Inr vs"
| "into_sequence other path =
     Inl (invalid [Txt path, Txt '' must be an array''] (Some (node_location other)))"

fun into_integer :: "node \<Rightarrow> string \<Rightarrow> manifest_error + int" where
  "into_integer (Scalar s) path =
     (if sc_style s = Plain
      then ok_or (invalid [Txt path, Txt '' must be an integer''] (Some (sc_location s)))
             (parse_i64 (sc_value s))
      else Inl (invalid [Txt path, Txt '' must be an integer''] (Some (sc_location s))))"
| "into_integer other path =
     Inl (invalid [Txt path, Txt '' must be an integer''] (Some (node_location other)))"

fun into_mapping :: "node \<Rightarrow> string \<Rightarrow> manifest_error + mapping" where
  "into_mapping (Mapping m _) path = Inr m"
| "into_mapping other path =
     Inl (invalid [Txt path, Txt '' must be a mapping''] (Some (node_location other)))"

definition take_required :: "mapping \<Rightarrow> string \<Rightarrow> string \<Rightarrow> manifest_error + node \<times> mapping" where
  "take_required m key path =
     (case bt_get m key of
        Some e \<Rightarrow> Inr (entry_value e, bt_remove key m)
      | None \<Rightarrow> Inl (invalid [Txt ''missing required field '', Txt path] None))"

text \<open>\<^verbatim>\<open>mapping.remove(key)\<close>: the entry and the map without it.\<close>

definition take_entry :: "mapping \<Rightarrow> string \<Rightarrow> mapping_entry option \<times> mapping" where
  "take_entry m key = (bt_get m key, bt_remove key m)"

fun reject_unknown_fields :: "mapping \<Rightarrow> string \<Rightarrow> string list \<Rightarrow> manifest_error + unit" where
  "reject_unknown_fields [] path allowed = Inr ()"
| "reject_unknown_fields ((key, entry) # m) path allowed =
     (if key \<in> set allowed then reject_unknown_fields m path allowed
      else Inl (invalid
             [Txt ''unknown field '', Txt (if path = ''manifest'' then key else path @ ''.'' @ key)]
             (Some (key_location entry))))"

lemma reject_unknown_fields_Inr [res_simps]:
  "reject_unknown_fields m path allowed = Inr u \<longleftrightarrow> fst ` set m \<subseteq> set allowed"
  by (induction m path allowed rule: reject_unknown_fields.induct) auto

section \<open>The cursor\<close>

record cursor =
  events :: "spanned list"
  buffered :: "spanned option"
  nodes :: nat

definition cursor_new :: "spanned list \<Rightarrow> cursor" where
  "cursor_new evs = \<lparr>events = evs, buffered = None, nodes = 0\<rparr>"

definition cursor_next :: "cursor \<Rightarrow> spanned option \<times> cursor" where
  "cursor_next c =
     (case buffered c of
        Some e \<Rightarrow> (Some e, c\<lparr>buffered := None\<rparr>)
      | None \<Rightarrow> (case events c of
           [] \<Rightarrow> (None, c)
         | e # es \<Rightarrow> (Some e, c\<lparr>events := es\<rparr>)))"

definition put_back :: "spanned \<Rightarrow> cursor \<Rightarrow> cursor" where
  "put_back e c = c\<lparr>buffered := Some e\<rparr>"

definition expect_stream_start :: "cursor \<Rightarrow> manifest_error + cursor" where
  "expect_stream_start c =
     (case cursor_next c of
        (Some (StreamStart, _), c') \<Rightarrow> Inr c'
      | _ \<Rightarrow> Inl (invalid [Txt ''invalid YAML stream''] None))"

definition expect_document_start :: "cursor \<Rightarrow> manifest_error + cursor" where
  "expect_document_start c =
     (case cursor_next c of
        (Some (DocumentStart, _), c') \<Rightarrow> Inr c'
      | (Some (StreamEnd, _), _) \<Rightarrow> Inl (invalid [Txt ''manifest is empty''] None)
      | (None, _) \<Rightarrow> Inl (invalid [Txt ''manifest is empty''] None)
      | (Some (_, span), _) \<Rightarrow> Inl (invalid [Txt ''expected one YAML document''] (Some span)))"

definition expect_document_end :: "cursor \<Rightarrow> manifest_error + cursor" where
  "expect_document_end c =
     (case cursor_next c of
        (Some (DocumentEnd, _), c') \<Rightarrow> Inr c'
      | (Some (_, span), _) \<Rightarrow>
          Inl (invalid [Txt ''unexpected content after manifest document''] (Some span))
      | (None, _) \<Rightarrow> Inl (invalid [Txt ''incomplete YAML document''] None))"

definition expect_stream_end :: "cursor \<Rightarrow> manifest_error + cursor" where
  "expect_stream_end c =
     (case cursor_next c of
        (Some (e, span), c') \<Rightarrow>
          if e = StreamEnd \<and> fst (cursor_next c') = None then Inr (snd (cursor_next c'))
          else if e = DocumentStart then
            Inl (invalid [Txt ''manifest must contain exactly one YAML document''] (Some span))
          else Inl (invalid [Txt ''unexpected content after manifest document''] (Some span))
      | (None, _) \<Rightarrow> Inl (invalid [Txt ''incomplete YAML stream''] None))"

definition reject_properties :: "nat \<Rightarrow> bool \<Rightarrow> location \<Rightarrow> manifest_error + unit" where
  "reject_properties anchor tagged loc =
     (if anchor \<noteq> 0 then Inl (invalid [Txt ''YAML anchors are not allowed''] (Some loc))
      else if tagged then Inl (invalid [Txt ''explicit YAML tags are not allowed''] (Some loc))
      else Inr ())"

lemma reject_properties_Inr [res_simps]:
  "reject_properties a t l = Inr u \<longleftrightarrow> a = 0 \<and> \<not> t"
  by (simp add: reject_properties_def)

text \<open>
  The two collection loops take the reader of one nested value as an argument. They stop with
  an error at the 129th item, which is also what makes them terminate.
\<close>

type_synonym 'a reader = "cursor \<Rightarrow> manifest_error + 'a \<times> cursor"

function (sequential) sequence_items :: "node reader \<Rightarrow> location \<Rightarrow> node list \<Rightarrow> node list reader" where
  "sequence_items rd loc vs c =
     (case cursor_next c of
        (None, _) \<Rightarrow> Inl (invalid [Txt ''unterminated YAML sequence''] None)
      | (Some ev, c1) \<Rightarrow>
          if fst ev = SequenceEnd then Inr (vs, c1)
          else if MAX_COLLECTION_ITEMS \<le> length vs then
            Inl (invalid [Txt ''sequence exceeds the maximum item count of '',
                          Num (int MAX_COLLECTION_ITEMS)] (Some loc))
          else andthen (rd (put_back ev c1)) (\<lambda>(v, c2). sequence_items rd loc (vs @ [v]) c2))"
  by pat_completeness auto
termination
  by (relation "measure (\<lambda>(rd, loc, vs, c). MAX_COLLECTION_ITEMS - length vs)") auto

definition mapping_key :: "event \<Rightarrow> location \<Rightarrow> manifest_error + string" where
  "mapping_key ev loc =
     (case ev of
        Ev_Scalar value _ anchor tag \<Rightarrow>
          andthen (reject_properties anchor tag loc) (\<lambda>_.
            if MAX_SCALAR_BYTES < length value then
              Inl (invalid [Txt ''mapping key exceeds the '', Num (int MAX_SCALAR_BYTES),
                            Txt ''-byte scalar limit''] (Some loc))
            else Inr value)
      | Alias \<Rightarrow> Inl (invalid [Txt ''YAML aliases are not allowed''] (Some loc))
      | _ \<Rightarrow> Inl (invalid [Txt ''mapping keys must be scalar strings''] (Some loc)))"

text \<open>
  The code keeps the keys it has seen in a set beside the map it fills; the set is always the
  key set of the map, so the duplicate test asks the map.
\<close>

function (sequential) mapping_items :: "node reader \<Rightarrow> location \<Rightarrow> mapping \<Rightarrow> mapping reader" where
  "mapping_items rd loc m c =
     (case cursor_next c of
        (None, _) \<Rightarrow> Inl (invalid [Txt ''unterminated YAML mapping''] None)
      | (Some ev, c1) \<Rightarrow>
          if fst ev = MappingEnd then Inr (m, c1)
          else andthen (mapping_key (fst ev) (snd ev)) (\<lambda>key.
            if key = ''<<'' then Inl (invalid [Txt ''YAML merge keys are not allowed''] (Some (snd ev)))
            else if bt_get m key \<noteq> None then
              Inl (invalid [Txt ''duplicate mapping key '', Dbg key] (Some (snd ev)))
            else if MAX_COLLECTION_ITEMS \<le> length m then
              Inl (invalid [Txt ''mapping exceeds the maximum entry count of '',
                            Num (int MAX_COLLECTION_ITEMS)] (Some loc))
            else andthen (rd c1) (\<lambda>(v, c2).
              mapping_items rd loc (bt_insert key (MappingEntry (snd ev) v) m) c2)))"
  by pat_completeness auto
termination
  by (relation "measure (\<lambda>(rd, loc, m, c). MAX_COLLECTION_ITEMS - length m)")
    (auto simp: length_bt_insert_new)

declare sequence_items.simps [simp del] mapping_items.simps [simp del]

text \<open>
  \<^verbatim>\<open>Cursor::node(depth)\<close>: \<open>node_at k\<close> is the call at depth \<open>MAX_DEPTH + 1 - k\<close>, so that
  \<open>node_at 0\<close> is the call the depth limit rejects.
\<close>

fun node_at :: "nat \<Rightarrow> node reader" where
  "node_at 0 c =
     Inl (invalid [Txt ''manifest exceeds the maximum nesting depth of '', Num (int MAX_DEPTH)] None)"
| "node_at (Suc k) c0 =
     (let c = c0\<lparr>nodes := nodes c0 + 1\<rparr> in
      if MAX_NODES < nodes c then
        Inl (invalid [Txt ''manifest exceeds the maximum node count of '', Num (int MAX_NODES)] None)
      else case cursor_next c of
        (None, _) \<Rightarrow> Inl (invalid [Txt ''unexpected end of YAML document''] None)
      | (Some (ev, loc), c1) \<Rightarrow>
         (case ev of
            Alias \<Rightarrow> Inl (invalid [Txt ''YAML aliases are not allowed''] (Some loc))
          | Ev_Scalar value style anchor tag \<Rightarrow>
              andthen (reject_properties anchor tag loc) (\<lambda>_.
                if MAX_SCALAR_BYTES < length value then
                  Inl (invalid [Txt ''scalar exceeds the '', Num (int MAX_SCALAR_BYTES),
                                Txt ''-byte limit''] (Some loc))
                else Inr (Scalar \<lparr>sc_value = value, sc_style = style, sc_location = loc\<rparr>, c1))
          | SequenceStart anchor tag \<Rightarrow>
              andthen (reject_properties anchor tag loc) (\<lambda>_.
              andthen (sequence_items (node_at k) loc [] c1) (\<lambda>(vs, c2). Inr (Sequence vs loc, c2)))
          | MappingStart anchor tag \<Rightarrow>
              andthen (reject_properties anchor tag loc) (\<lambda>_.
              andthen (mapping_items (node_at k) loc [] c1) (\<lambda>(m, c2). Inr (Mapping m loc, c2)))
          | _ \<Rightarrow> Inl (invalid [Txt ''unexpected YAML event while reading a value''] (Some loc))))"

declare node_at.simps [simp del]

definition read_node :: "nat \<Rightarrow> node reader" where
  "read_node depth = node_at (MAX_DEPTH + 1 - depth)"

section \<open>What the reader accepts\<close>

text \<open>
  \<open>node_ok k n\<close>: the tree \<open>n\<close> nests at most \<open>k\<close> levels below its root, its collections
  and scalars respect the limits, and its mappings have distinct keys in order, none of them
  the merge key. \<open>node_count\<close> counts the values of a tree.
\<close>

definition key_ok :: "string \<Rightarrow> bool" where
  "key_ok k \<longleftrightarrow> length k \<le> MAX_SCALAR_BYTES \<and> k \<noteq> ''<<''"

fun node_ok :: "nat \<Rightarrow> node \<Rightarrow> bool" where
  "node_ok k (Scalar s) \<longleftrightarrow> length (sc_value s) \<le> MAX_SCALAR_BYTES"
| "node_ok 0 (Sequence vs l) \<longleftrightarrow> vs = []"
| "node_ok (Suc k) (Sequence vs l) \<longleftrightarrow>
     length vs \<le> MAX_COLLECTION_ITEMS \<and> (\<forall>v \<in> set vs. node_ok k v)"
| "node_ok 0 (Mapping m l) \<longleftrightarrow> m = []"
| "node_ok (Suc k) (Mapping m l) \<longleftrightarrow>
     length m \<le> MAX_COLLECTION_ITEMS \<and> bt_wf m
     \<and> (\<forall>e \<in> set m. key_ok (fst e) \<and> node_ok k (entry_value (snd e)))"

fun node_count :: "node \<Rightarrow> nat" and entry_count :: "mapping_entry \<Rightarrow> nat" where
  "node_count (Scalar s) = 1"
| "node_count (Sequence vs l) = Suc (sum_list (map node_count vs))"
| "node_count (Mapping m l) = Suc (sum_list (map (\<lambda>e. entry_count (snd e)) m))"
| "entry_count (MappingEntry l v) = node_count v"

lemma entry_count_value: "entry_count e = node_count (entry_value e)"
  by (cases e) simp

lemma cursor_next_nodes: "cursor_next c = (e, c') \<Longrightarrow> nodes c' = nodes c"
  by (auto simp: cursor_next_def split: option.splits list.splits)

lemma put_back_nodes [simp]: "nodes (put_back e c) = nodes c"
  by (simp add: put_back_def)

text \<open>What a reader of one value promises, and what the collection loops make of it.\<close>

definition reader_ok :: "(node \<Rightarrow> bool) \<Rightarrow> node reader \<Rightarrow> bool" where
  "reader_ok P rd \<longleftrightarrow> (\<forall>c v c'. rd c = Inr (v, c') \<longrightarrow>
     P v \<and> nodes c' = nodes c + node_count v \<and> nodes c' \<le> MAX_NODES)"

lemma reader_okD:
  "reader_ok P rd \<Longrightarrow> rd c = Inr (v, c') \<Longrightarrow>
     P v \<and> nodes c' = nodes c + node_count v \<and> nodes c' \<le> MAX_NODES"
  unfolding reader_ok_def by blast

lemma sequence_items_ok:
  assumes "reader_ok P rd" and "sequence_items rd loc vs c = Inr (vs', c')"
    and "length vs \<le> MAX_COLLECTION_ITEMS" and "\<forall>v \<in> set vs. P v" and "nodes c \<le> MAX_NODES"
  shows "length vs' \<le> MAX_COLLECTION_ITEMS \<and> (\<forall>v \<in> set vs'. P v) \<and> nodes c' \<le> MAX_NODES
    \<and> nodes c' + sum_list (map node_count vs) = nodes c + sum_list (map node_count vs')"
  using assms
proof (induction rd loc vs c rule: sequence_items.induct)
  case (1 rd loc vs c)
  obtain ev c1 where n: "cursor_next c = (Some ev, c1)"
    using "1.prems"(2) by (subst (asm) sequence_items.simps) (auto split: prod.splits option.splits)
  have c1: "nodes c1 = nodes c" using n by (rule cursor_next_nodes)
  show ?case
  proof (cases "fst ev = SequenceEnd")
    case True
    with "1.prems" n c1 show ?thesis by (subst (asm) sequence_items.simps) auto
  next
    case False
    with "1.prems"(2) n obtain v c2 where v: "rd (put_back ev c1) = Inr (v, c2)"
      and lt: "\<not> MAX_COLLECTION_ITEMS \<le> length vs"
      and rest: "sequence_items rd loc (vs @ [v]) c2 = Inr (vs', c')"
      by (subst (asm) sequence_items.simps) (auto simp: res_simps split: if_splits)
    from reader_okD [OF "1.prems"(1) v] c1
    have "P v" "nodes c2 = nodes c + node_count v" "nodes c2 \<le> MAX_NODES" by auto
    with "1.IH" [OF n [symmetric] refl False lt v refl "1.prems"(1) rest] "1.prems"(4) lt
    show ?thesis by simp
  qed
qed

lemma mapping_key_Inr: "mapping_key ev l = Inr k \<Longrightarrow> length k \<le> MAX_SCALAR_BYTES"
  by (auto simp: mapping_key_def res_simps split: event.splits if_splits)

lemma sum_list_bt_insert_new:
  "bt_get m k = None \<Longrightarrow>
     sum_list (map f (bt_insert k v m)) = f (k, v) + (sum_list (map f m) :: nat)"
  by (induction k v m rule: bt_insert.induct) (auto simp: bt_get_def split: if_splits)

lemma mapping_items_ok:
  assumes "reader_ok P rd" and "mapping_items rd loc m c = Inr (m', c')"
    and "length m \<le> MAX_COLLECTION_ITEMS" and "bt_wf m"
    and "\<forall>e \<in> set m. key_ok (fst e) \<and> P (entry_value (snd e))" and "nodes c \<le> MAX_NODES"
  shows "length m' \<le> MAX_COLLECTION_ITEMS \<and> bt_wf m'
    \<and> (\<forall>e \<in> set m'. key_ok (fst e) \<and> P (entry_value (snd e))) \<and> nodes c' \<le> MAX_NODES
    \<and> nodes c' + sum_list (map (\<lambda>e. entry_count (snd e)) m)
      = nodes c + sum_list (map (\<lambda>e. entry_count (snd e)) m')"
  using assms
proof (induction rd loc m c rule: mapping_items.induct)
  case (1 rd loc m c)
  obtain ev c1 where n: "cursor_next c = (Some ev, c1)"
    using "1.prems"(2) by (subst (asm) mapping_items.simps) (auto split: prod.splits option.splits)
  have c1: "nodes c1 = nodes c" using n by (rule cursor_next_nodes)
  show ?case
  proof (cases "fst ev = MappingEnd")
    case True
    with "1.prems" n c1 show ?thesis by (subst (asm) mapping_items.simps) auto
  next
    case False
    with "1.prems"(2) n obtain k v c2 where k: "mapping_key (fst ev) (snd ev) = Inr k" "k \<noteq> ''<<''"
      and new: "\<not> bt_get m k \<noteq> None" and lt: "\<not> MAX_COLLECTION_ITEMS \<le> length m"
      and v: "rd c1 = Inr (v, c2)"
      and rest: "mapping_items rd loc (bt_insert k (MappingEntry (snd ev) v) m) c2 = Inr (m', c')"
      by (subst (asm) mapping_items.simps) (auto simp: res_simps split: if_splits)
    let ?m = "bt_insert k (MappingEntry (snd ev) v) m"
    from reader_okD [OF "1.prems"(1) v] c1
    have q: "P v" "nodes c2 = nodes c + node_count v" "nodes c2 \<le> MAX_NODES" by auto
    have "length ?m \<le> MAX_COLLECTION_ITEMS" using new lt by (simp add: length_bt_insert_new)
    moreover have "\<forall>e \<in> set ?m. key_ok (fst e) \<and> P (entry_value (snd e))"
      using "1.prems"(4,5) q(1) k mapping_key_Inr [OF k(1)] by (auto simp: set_bt_insert key_ok_def)
    ultimately show ?thesis
      using "1.IH" [OF n [symmetric] refl False k new lt v refl "1.prems"(1) rest] q(2,3)
        "1.prems"(4) new
      by (simp add: bt_wf_insert sum_list_bt_insert_new)
  qed
qed

lemma node_at_ok: "reader_ok (\<lambda>n. k \<noteq> 0 \<and> node_ok (k - 1) n) (node_at k)"
proof (induction k)
  case 0
  then show ?case by (simp add: reader_ok_def node_at.simps)
next
  case (Suc k)
  show ?case unfolding reader_ok_def
  proof (intro allI impI)
    fix c0 n c'
    assume r: "node_at (Suc k) c0 = Inr (n, c')"
    then obtain ev loc c1 where c1: "cursor_next (c0\<lparr>nodes := nodes c0 + 1\<rparr>) = (Some (ev, loc), c1)"
      and le: "nodes c0 + 1 \<le> MAX_NODES"
      by (subst (asm) node_at.simps) (auto simp: Let_def split: if_splits prod.splits option.splits)
    have c1n: "nodes c1 = nodes c0 + 1" using cursor_next_nodes [OF c1] by simp
    consider (scalar) w style where "\<not> MAX_SCALAR_BYTES < length w"
        "n = Scalar \<lparr>sc_value = w, sc_style = style, sc_location = loc\<rparr>" "c' = c1"
      | (sequence) vs where "sequence_items (node_at k) loc [] c1 = Inr (vs, c')" "n = Sequence vs loc"
      | (mapping) m where "mapping_items (node_at k) loc [] c1 = Inr (m, c')" "n = Mapping m loc"
      using r c1 le
      by (subst (asm) node_at.simps) (auto simp: Let_def res_simps split: event.splits if_splits)
    then show "(Suc k \<noteq> 0 \<and> node_ok (Suc k - 1) n) \<and> nodes c' = nodes c0 + node_count n \<and> nodes c' \<le> MAX_NODES"
    proof cases
      case scalar
      with c1n le show ?thesis by simp
    next
      case sequence
      from sequence_items_ok [OF Suc.IH sequence(1)] c1n le
      have vs: "length vs \<le> MAX_COLLECTION_ITEMS" "\<forall>v\<in>set vs. k \<noteq> 0 \<and> node_ok (k - 1) v"
        "nodes c' \<le> MAX_NODES" "nodes c' = nodes c1 + sum_list (map node_count vs)" by auto
      have "node_ok k (Sequence vs loc)" using vs(1,2) by (cases k) auto
      with sequence(2) vs(3,4) c1n show ?thesis by simp
    next
      case mapping
      from mapping_items_ok [OF Suc.IH mapping(1)] c1n le
      have m: "length m \<le> MAX_COLLECTION_ITEMS" "bt_wf m"
        "\<forall>e\<in>set m. key_ok (fst e) \<and> k \<noteq> 0 \<and> node_ok (k - 1) (entry_value (snd e))"
        "nodes c' \<le> MAX_NODES" "nodes c' = nodes c1 + sum_list (map (\<lambda>e. entry_count (snd e)) m)"
        by (simp_all add: bt_wf_def)
      have "node_ok k (Mapping m loc)"
      proof (cases k)
        case 0
        with m(3) have "m = []" by (cases m) auto
        with 0 show ?thesis by simp
      next
        case (Suc j)
        with m(1-3) show ?thesis by simp
      qed
      with mapping(2) m(4,5) c1n show ?thesis by simp
    qed
  qed
qed

section \<open>Reading back what a tree looks like\<close>

text \<open>The events of a tree: what the scanner reports for a document that writes it out.\<close>

fun emit :: "node \<Rightarrow> spanned list" and emit_entry :: "string \<times> mapping_entry \<Rightarrow> spanned list" where
  "emit (Scalar s) = [(Ev_Scalar (sc_value s) (sc_style s) 0 False, sc_location s)]"
| "emit (Sequence vs l) = (SequenceStart 0 False, l) # concat (map emit vs) @ [(SequenceEnd, l)]"
| "emit (Mapping m l) = (MappingStart 0 False, l) # concat (map emit_entry m) @ [(MappingEnd, l)]"
| "emit_entry (k, MappingEntry l v) = (Ev_Scalar k Plain 0 False, l) # emit v"

definition pending :: "cursor \<Rightarrow> spanned list" where
  "pending c = (case buffered c of None \<Rightarrow> [] | Some e \<Rightarrow> [e]) @ events c"

definition after :: "spanned list \<Rightarrow> nat \<Rightarrow> cursor" where
  "after rest n = \<lparr>events = rest, buffered = None, nodes = n\<rparr>"

lemma cursor_next_pending: "pending c = e # es \<Longrightarrow> cursor_next c = (Some e, after es (nodes c))"
  by (cases c) (auto simp: pending_def cursor_next_def after_def split: option.splits list.splits)

lemma after_simps [simp]: "pending (after es n) = es" "nodes (after es n) = n"
  by (simp_all add: after_def pending_def)

lemma pending_put_back [simp]: "pending (put_back e (after es n)) = e # es"
  by (simp add: after_def pending_def put_back_def)

lemma pending_count [simp]: "pending (c\<lparr>nodes := n\<rparr>) = pending c"
  by (simp add: pending_def)

definition reads_back :: "(node \<Rightarrow> bool) \<Rightarrow> node reader \<Rightarrow> bool" where
  "reads_back P rd \<longleftrightarrow> (\<forall>c v rest. P v \<longrightarrow> pending c = emit v @ rest \<longrightarrow>
     nodes c + node_count v \<le> MAX_NODES \<longrightarrow> rd c = Inr (v, after rest (nodes c + node_count v)))"

lemma reads_backD:
  "reads_back P rd \<Longrightarrow> P v \<Longrightarrow> pending c = emit v @ rest \<Longrightarrow>
     nodes c + node_count v \<le> MAX_NODES \<Longrightarrow> rd c = Inr (v, after rest (nodes c + node_count v))"
  unfolding reads_back_def by blast

lemma emit_Cons: "\<exists>e es. emit v = e # es \<and> fst e \<noteq> SequenceEnd \<and> fst e \<noteq> MappingEnd"
  by (cases v) auto

lemma sequence_items_reads:
  assumes "reads_back P rd" and "\<forall>v \<in> set ws. P v"
    and "length vs + length ws \<le> MAX_COLLECTION_ITEMS"
    and "nodes c + sum_list (map node_count ws) \<le> MAX_NODES"
    and "pending c = concat (map emit ws) @ (SequenceEnd, l) # rest"
  shows "sequence_items rd loc vs c
         = Inr (vs @ ws, after rest (nodes c + sum_list (map node_count ws)))"
  using assms
proof (induction ws arbitrary: vs c)
  case Nil
  then show ?case
    by (subst sequence_items.simps) (simp add: cursor_next_pending)
next
  case (Cons w ws)
  obtain e es where e: "emit w = e # es" "fst e \<noteq> SequenceEnd" using emit_Cons by blast
  let ?rest = "concat (map emit ws) @ (SequenceEnd, l) # rest"
  have "cursor_next c = (Some e, after (es @ ?rest) (nodes c))"
    using Cons.prems(5) e by (intro cursor_next_pending) simp
  moreover have "rd (put_back e (after (es @ ?rest) (nodes c)))
      = Inr (w, after ?rest (nodes c + node_count w))"
    using reads_backD [OF Cons.prems(1), of w "put_back e (after (es @ ?rest) (nodes c))" ?rest]
      Cons.prems(2,4) e by simp
  moreover have "sequence_items rd loc (vs @ [w]) (after ?rest (nodes c + node_count w))
      = Inr ((vs @ [w]) @ ws, after rest (nodes c + node_count w + sum_list (map node_count ws)))"
    using Cons.IH [of "vs @ [w]" "after ?rest (nodes c + node_count w)"] Cons.prems by simp
  ultimately show ?case
    using Cons.prems(3) e by (subst sequence_items.simps) (simp add: add.assoc)
qed

lemma bt_insert_last: "\<forall>x \<in> fst ` set m. x < k \<Longrightarrow> bt_insert k v m = m @ [(k, v)]"
  by (induction k v m rule: bt_insert.induct) auto

lemma mapping_items_reads:
  assumes "reads_back P rd" and "\<forall>e \<in> set ws. key_ok (fst e) \<and> P (entry_value (snd e))"
    and "length m + length ws \<le> MAX_COLLECTION_ITEMS" and "bt_wf (m @ ws)"
    and "nodes c + sum_list (map (\<lambda>e. entry_count (snd e)) ws) \<le> MAX_NODES"
    and "pending c = concat (map emit_entry ws) @ (MappingEnd, l) # rest"
  shows "mapping_items rd loc m c
         = Inr (m @ ws, after rest (nodes c + sum_list (map (\<lambda>e. entry_count (snd e)) ws)))"
  using assms
proof (induction ws arbitrary: m c)
  case Nil
  then show ?case
    by (subst mapping_items.simps) (simp add: cursor_next_pending)
next
  case (Cons w ws)
  obtain k kl v where w: "w = (k, MappingEntry kl v)"
    by (metis mapping_entry.exhaust surj_pair)
  let ?rest = "concat (map emit_entry ws) @ (MappingEnd, l) # rest"
  have "cursor_next c = (Some (Ev_Scalar k Plain 0 False, kl), after (emit v @ ?rest) (nodes c))"
    using Cons.prems(6) w by (intro cursor_next_pending) simp
  moreover have "mapping_key (Ev_Scalar k Plain 0 False) kl = Inr k" "k \<noteq> ''<<''"
    using Cons.prems(2) w by (auto simp: mapping_key_def reject_properties_def key_ok_def)
  moreover have lt: "\<forall>x \<in> fst ` set m. x < k"
    using Cons.prems(4) w by (auto simp: bt_wf_def sorted_wrt_append)
  then have "bt_get m k = None" by (auto simp: bt_get_None_iff)
  moreover have "rd (after (emit v @ ?rest) (nodes c)) = Inr (v, after ?rest (nodes c + node_count v))"
    using reads_backD [OF Cons.prems(1), of v "after (emit v @ ?rest) (nodes c)" ?rest]
      Cons.prems(2,5) w by simp
  moreover have "mapping_items rd loc (m @ [w]) (after ?rest (nodes c + node_count v))
      = Inr ((m @ [w]) @ ws, after rest (nodes c + node_count v
          + sum_list (map (\<lambda>e. entry_count (snd e)) ws)))"
    using Cons.IH [of "m @ [w]" "after ?rest (nodes c + node_count v)"] Cons.prems w by simp
  ultimately show ?case
    using Cons.prems(3) w lt
    by (subst mapping_items.simps) (simp add: add.assoc bt_insert_last)
qed

lemma node_at_reads_scalar:
  assumes "length (sc_value s) \<le> MAX_SCALAR_BYTES" and "pending c = emit (Scalar s) @ rest"
    and "nodes c + 1 \<le> MAX_NODES"
  shows "node_at (Suc k) c = Inr (Scalar s, after rest (nodes c + 1))"
  using assms cursor_next_pending [of "c\<lparr>nodes := nodes c + 1\<rparr>"]
  by (subst node_at.simps) (simp add: reject_properties_def)

lemma node_at_reads_sequence:
  assumes "pending c = emit (Sequence vs l) @ rest" and "nodes c + 1 \<le> MAX_NODES"
    and "sequence_items (node_at k) l [] (after (concat (map emit vs) @ (SequenceEnd, l) # rest) (Suc (nodes c)))
         = Inr (vs, c')"
  shows "node_at (Suc k) c = Inr (Sequence vs l, c')"
  using assms cursor_next_pending [of "c\<lparr>nodes := nodes c + 1\<rparr>"]
  by (subst node_at.simps) (simp add: reject_properties_def)

lemma node_at_reads_mapping:
  assumes "pending c = emit (Mapping m l) @ rest" and "nodes c + 1 \<le> MAX_NODES"
    and "mapping_items (node_at k) l [] (after (concat (map emit_entry m) @ (MappingEnd, l) # rest) (Suc (nodes c)))
         = Inr (m, c')"
  shows "node_at (Suc k) c = Inr (Mapping m l, c')"
  using assms cursor_next_pending [of "c\<lparr>nodes := nodes c + 1\<rparr>"]
  by (subst node_at.simps) (simp add: reject_properties_def)

lemma sequence_items_empty:
  "pending c = (SequenceEnd, l) # rest \<Longrightarrow> sequence_items rd loc [] c = Inr ([], after rest (nodes c))"
  by (subst sequence_items.simps) (simp add: cursor_next_pending)

lemma mapping_items_empty:
  "pending c = (MappingEnd, l) # rest \<Longrightarrow> mapping_items rd loc [] c = Inr ([], after rest (nodes c))"
  by (subst mapping_items.simps) (simp add: cursor_next_pending)

lemma node_at_reads: "reads_back (node_ok k) (node_at (Suc k))"
proof (induction k)
  case 0
  show ?case unfolding reads_back_def
  proof (intro allI impI)
    fix c v rest
    assume v: "node_ok 0 v" "pending c = emit v @ rest" "nodes c + node_count v \<le> MAX_NODES"
    show "node_at (Suc 0) c = Inr (v, after rest (nodes c + node_count v))"
    proof (cases v)
      case (Scalar s)
      with v node_at_reads_scalar [of s c rest] show ?thesis by simp
    next
      case (Sequence vs l)
      with v show ?thesis
        by (auto intro!: node_at_reads_sequence simp: sequence_items_empty)
    next
      case (Mapping m l)
      with v show ?thesis
        by (auto intro!: node_at_reads_mapping simp: mapping_items_empty)
    qed
  qed
next
  case (Suc k)
  show ?case unfolding reads_back_def
  proof (intro allI impI)
    fix c v rest
    assume v: "node_ok (Suc k) v" "pending c = emit v @ rest" "nodes c + node_count v \<le> MAX_NODES"
    show "node_at (Suc (Suc k)) c = Inr (v, after rest (nodes c + node_count v))"
    proof (cases v)
      case (Scalar s)
      with v node_at_reads_scalar [of s c rest] show ?thesis by simp
    next
      case (Sequence vs l)
      let ?c = "after (concat (map emit vs) @ (SequenceEnd, l) # rest) (Suc (nodes c))"
      have "sequence_items (node_at (Suc k)) l [] ?c
          = Inr (vs, after rest (Suc (nodes c) + sum_list (map node_count vs)))"
        using sequence_items_reads [OF Suc.IH, of vs "[]" ?c l rest l] v Sequence by simp
      with v Sequence show ?thesis by (simp add: node_at_reads_sequence)
    next
      case (Mapping m l)
      let ?c = "after (concat (map emit_entry m) @ (MappingEnd, l) # rest) (Suc (nodes c))"
      have "mapping_items (node_at (Suc k)) l [] ?c
          = Inr (m, after rest (Suc (nodes c) + sum_list (map (\<lambda>e. entry_count (snd e)) m)))"
        using mapping_items_reads [OF Suc.IH, of m "[]" ?c l rest l] v Mapping by simp
      with v Mapping show ?thesis by (simp add: node_at_reads_mapping)
    qed
  qed
qed

section \<open>The whole document\<close>

text \<open>\<^verbatim>\<open>Cursor\<close> over one document, as \<^verbatim>\<open>parse\<close> drives it.\<close>

definition read_document :: "spanned list \<Rightarrow> manifest_error + node" where
  "read_document evs =
     andthen (expect_stream_start (cursor_new evs)) (\<lambda>c1.
     andthen (expect_document_start c1) (\<lambda>c2.
     andthen (read_node 0 c2) (\<lambda>(root, c3).
     andthen (expect_document_end c3) (\<lambda>c4.
     andthen (expect_stream_end c4) (\<lambda>_. Inr root)))))"

definition emit_document :: "location \<Rightarrow> node \<Rightarrow> spanned list" where
  "emit_document l n =
     (StreamStart, l) # (DocumentStart, l) # emit n @ [(DocumentEnd, l), (StreamEnd, l)]"

lemma read_node_0: "read_node 0 = node_at (Suc MAX_DEPTH)"
  by (simp add: read_node_def)

lemma expect_nodes [simp]:
  "expect_stream_start c = Inr c' \<Longrightarrow> nodes c' = nodes c"
  "expect_document_start c = Inr c' \<Longrightarrow> nodes c' = nodes c"
  by (auto simp: expect_stream_start_def expect_document_start_def cursor_next_nodes
      split: prod.splits option.splits event.splits)

lemma read_document_node:
  assumes "read_document evs = Inr n"
  obtains c c' where "node_at (Suc MAX_DEPTH) c = Inr (n, c')" and "nodes c = 0"
  using assms
  by (auto simp: read_document_def res_simps read_node_0 cursor_new_def dest!: expect_nodes)

text \<open>
  Claim C24. Whatever events the scanner reports, a document the reader accepts is a tree within
  the limits of the format: at most 16 levels below the root, at most 128 items in a
  collection, at most 16384 bytes in a scalar, at most 1024 values in all, and mappings whose
  keys are distinct, none of them the merge key.
\<close>

theorem read_document_limits:
  assumes "read_document evs = Inr n"
  shows "node_ok MAX_DEPTH n \<and> node_count n \<le> MAX_NODES"
proof -
  from assms obtain c c' where c: "node_at (Suc MAX_DEPTH) c = Inr (n, c')" "nodes c = 0"
    by (rule read_document_node)
  from reader_okD [OF node_at_ok c(1)] c(2) show ?thesis by simp
qed

definition sample_node :: node where
  "sample_node = Mapping [(''a'', MappingEntry \<lparr>line = 1, column = 0\<rparr>
       (Sequence [Scalar \<lparr>sc_value = ''x'', sc_style = Styled, sc_location = \<lparr>line = 1, column = 4\<rparr>\<rparr>]
          \<lparr>line = 1, column = 3\<rparr>))] \<lparr>line = 1, column = 0\<rparr>"

lemma sample_node_ok:
  "node_ok MAX_DEPTH sample_node" "node_count sample_node \<le> MAX_NODES"
proof -
  have "node_ok (Suc (Suc k)) sample_node" for k
    by (simp add: sample_node_def MAX_COLLECTION_ITEMS_def MAX_SCALAR_BYTES_def key_ok_def bt_wf_def)
  from this [of 14] show "node_ok MAX_DEPTH sample_node" by (simp add: MAX_DEPTH_def)
  show "node_count sample_node \<le> MAX_NODES" by (simp add: sample_node_def MAX_NODES_def)
qed

lemma read_emit:
  assumes "node_ok MAX_DEPTH n" and "node_count n \<le> MAX_NODES"
  shows "read_document (emit_document l n) = Inr n"
proof -
  let ?fin = "[(DocumentEnd, l), (StreamEnd, l)]"
  have "expect_stream_start (cursor_new (emit_document l n))
      = Inr (after ((DocumentStart, l) # emit n @ ?fin) 0)"
    by (simp add: expect_stream_start_def cursor_new_def emit_document_def cursor_next_def after_def)
  moreover have "expect_document_start (after ((DocumentStart, l) # emit n @ ?fin) 0)
      = Inr (after (emit n @ ?fin) 0)"
    by (simp add: expect_document_start_def cursor_next_pending)
  moreover have "read_node 0 (after (emit n @ ?fin) 0) = Inr (n, after ?fin (node_count n))"
    using reads_backD [OF node_at_reads assms(1), of "after (emit n @ ?fin) 0" ?fin] assms(2)
    by (simp add: read_node_0)
  moreover have "expect_document_end (after ?fin (node_count n))
      = Inr (after [(StreamEnd, l)] (node_count n))"
    by (simp add: expect_document_end_def cursor_next_pending)
  moreover have "expect_stream_end (after [(StreamEnd, l)] (node_count n))
      = Inr (after [] (node_count n))"
    by (simp add: expect_stream_end_def cursor_next_def after_def)
  ultimately show ?thesis
    by (simp add: read_document_def)
qed

text \<open>
  Claim C19. The reader is the inverse of writing a tree out as events: every tree within the
  limits, with distinct ordered keys, is read back exactly, locations and scalar styles
  included.
\<close>

theorem read_document_emit:
  assumes "node_ok MAX_DEPTH n" and "node_count n \<le> MAX_NODES"
  shows "read_document (emit_document l n) = Inr n"
  by (rule read_emit [OF assms])

lemma read_document_emit_witness:
  "read_document (emit_document \<lparr>line = 1, column = 0\<rparr> sample_node) = Inr sample_node"
  by (rule read_document_emit [OF sample_node_ok])

lemma read_document_limits_witness:
  "node_ok MAX_DEPTH sample_node \<and> node_count sample_node \<le> MAX_NODES"
  by (rule read_document_limits [OF read_emit [OF sample_node_ok, of "\<lparr>line = 1, column = 0\<rparr>"]])

end
