(* ===== verification/Manifest.thy ===== *)
theory Manifest
  imports Manifest_Yaml Manifest_Graph
begin

text \<open>
  Validation of a manifest (\<^verbatim>\<open>src/manifest.rs\<close>, \<^verbatim>\<open>parse\<close>, \<^verbatim>\<open>validate\<close> and \<^verbatim>\<open>load\<close>): one
  definition per function, from the tree of nodes to the manifest the rest of the program
  trusts. The lemmas show that exactly the well-formed manifests come out.
\<close>

record manifest =
  mf_name :: string
  mf_services :: services
  mf_volumes :: "string list"

section \<open>Parsing the parts\<close>

type_synonym dep_locations = "((string \<times> string) \<times> location) list"
type_synonym claimed = "(16 word \<times> string) list"

definition parse_volume :: "string \<times> mapping_entry \<Rightarrow> string list \<Rightarrow> manifest_error + string list" where
  "parse_volume e vs =
     andthen (validate_name (fst e) ''volume name'' (Some (key_location (snd e)))) (\<lambda>_.
       let path = ''volumes.'' @ fst e in
       andthen (into_mapping (entry_value (snd e)) path) (\<lambda>options.
       andthen (reject_unknown_fields options path []) (\<lambda>_.
         Inr (bs_of (fst e # vs)))))"

definition parse_volumes :: "mapping_entry option \<Rightarrow> manifest_error + string list" where
  "parse_volumes entry = (case entry of
     None \<Rightarrow> Inr []
   | Some entry \<Rightarrow>
       andthen (into_mapping (entry_value entry) ''volumes'') (\<lambda>declarations.
         fold_res parse_volume declarations []))"

definition indexed :: "string \<Rightarrow> nat \<Rightarrow> string" where
  "indexed path i = path @ ''['' @ show_nat i @ '']''"

definition parse_argument :: "string \<Rightarrow> nat \<times> node \<Rightarrow> string list \<Rightarrow> manifest_error + string list" where
  "parse_argument command_path iv command =
     (let path = indexed command_path (fst iv) in
      andthen (into_string (snd iv) path) (\<lambda>argument.
        if CHR 0x00 \<in> set argument then
          Inl (invalid [Txt path, Txt '' must not contain NUL''] (Some (node_location (snd iv))))
        else Inr (command @ [argument])))"

definition parse_command :: "mapping_entry option \<Rightarrow> string \<Rightarrow> manifest_error + string list option" where
  "parse_command entry service_path = (case entry of
     None \<Rightarrow> Inr None
   | Some entry \<Rightarrow>
       let command_path = service_path @ ''.command'' in
       andthen (into_sequence (entry_value entry) command_path) (\<lambda>values.
         if values = [] then
           Inl (invalid [Txt command_path, Txt '' must contain at least one argument'']
                  (Some (key_location entry)))
         else andthen (fold_res (parse_argument command_path) (enumerate 0 values) []) (\<lambda>command.
           if hd command = [] then
             Inl (invalid [Txt command_path, Txt ''[0] must not be empty''] (Some (key_location entry)))
           else Inr (Some command))))"

definition parse_environment_entry ::
    "string \<Rightarrow> string \<times> mapping_entry \<Rightarrow> (string \<times> string) list \<Rightarrow> manifest_error + (string \<times> string) list" where
  "parse_environment_entry environment_path e environment =
     (let key = fst e; key_path = environment_path @ ''.'' @ key in
      if \<not> valid_environment_name key then
        Inl (invalid [Txt ''environment key '', Dbg key, Txt '' must match ^[A-Za-z_][A-Za-z0-9_]*$'']
               (Some (key_location (snd e))))
      else if reserved_environment_name key then
        Inl (invalid [Txt ''environment key '', Dbg key, Txt '' is reserved by the engine'']
               (Some (key_location (snd e))))
      else andthen (into_string (entry_value (snd e)) key_path) (\<lambda>v.
        if CHR 0x00 \<in> set v then
          Inl (invalid [Txt key_path, Txt '' must not contain NUL'']
                 (Some (node_location (entry_value (snd e)))))
        else Inr (bt_insert key v environment)))"

definition parse_environment :: "mapping_entry option \<Rightarrow> string \<Rightarrow> manifest_error + (string \<times> string) list" where
  "parse_environment entry service_path = (case entry of
     None \<Rightarrow> Inr []
   | Some entry \<Rightarrow>
       let environment_path = service_path @ ''.environment'' in
       andthen (into_mapping (entry_value entry) environment_path) (\<lambda>entries.
         fold_res (parse_environment_entry environment_path) entries []))"

definition parse_mount_kind :: "string \<Rightarrow> string \<Rightarrow> location \<Rightarrow> manifest_error + mount_kind" where
  "parse_mount_kind text type_path loc =
     (if text = ''volume'' then Inr Volume
      else if text = ''bind'' then Inr Bind
      else Inl (invalid [Txt type_path, Txt '' must be \"volume\" or \"bind\"''] (Some loc)))"

definition check_mount_source ::
    "mount_kind \<Rightarrow> string \<Rightarrow> string \<Rightarrow> location \<Rightarrow> string list \<Rightarrow> manifest_error + unit" where
  "check_mount_source kind source source_path loc volumes =
     (if source = [] \<or> CHR 0x00 \<in> set source then
        Inl (invalid [Txt source_path, Txt '' must be a non-empty path''] (Some loc))
      else if kind = Volume then
        andthen (validate_name source source_path (Some loc)) (\<lambda>_.
          if source \<notin> set volumes then
            Inl (invalid [Txt source_path, Txt '' references undeclared volume '', Dbg source] (Some loc))
          else Inr ())
      else Inr ())"

definition check_mount_target :: "string \<Rightarrow> string \<Rightarrow> location \<Rightarrow> mount list \<Rightarrow> manifest_error + unit" where
  "check_mount_target target target_path loc mounts =
     (if CHR '':'' \<in> set target then
        Inl (invalid [Txt target_path, Txt ('' must not contain ':'' @ [CHR 0x27])] (Some loc))
      else if \<not> is_normalized_absolute_path target then
        Inl (invalid [Txt target_path,
              Txt '' must be an absolute normalized path without '.' or '..' components''] (Some loc))
      else case find (\<lambda>m. mount_targets_overlap (mo_target m) target) mounts of
          Some existing \<Rightarrow>
            Inl (invalid [Txt target_path, Txt '' overlaps mount target '', Dbg (mo_target existing),
                          Txt '' in the same service''] (Some loc))
        | None \<Rightarrow> Inr ())"

definition parse_mount ::
    "string \<Rightarrow> string list \<Rightarrow> nat \<times> node \<Rightarrow> mount list \<Rightarrow> manifest_error + mount list" where
  "parse_mount mounts_path volumes iv mounts =
     (let mount_path = indexed mounts_path (fst iv) in
      andthen (into_mapping (snd iv) mount_path) (\<lambda>mapping0.
      andthen (reject_unknown_fields mapping0 mount_path [''type'', ''source'', ''target'']) (\<lambda>_.
      andthen (take_required mapping0 ''type'' (mount_path @ ''.type'')) (\<lambda>(type_node, mapping1).
      andthen (into_string type_node (mount_path @ ''.type'')) (\<lambda>type_text.
      andthen (parse_mount_kind type_text (mount_path @ ''.type'') (node_location type_node)) (\<lambda>kind.
      andthen (take_required mapping1 ''source'' (mount_path @ ''.source'')) (\<lambda>(source_node, mapping2).
      andthen (into_string source_node (mount_path @ ''.source'')) (\<lambda>source.
      andthen (check_mount_source kind source (mount_path @ ''.source'') (node_location source_node) volumes) (\<lambda>_.
      andthen (take_required mapping2 ''target'' (mount_path @ ''.target'')) (\<lambda>(target_node, mapping3).
      andthen (into_string target_node (mount_path @ ''.target'')) (\<lambda>target.
      andthen (check_mount_target target (mount_path @ ''.target'') (node_location target_node) mounts) (\<lambda>_.
        Inr (mounts @ [\<lparr>mo_kind = kind, mo_source = source, mo_target = target\<rparr>])))))))))))))"

definition parse_mounts :: "mapping_entry option \<Rightarrow> string \<Rightarrow> string list \<Rightarrow> manifest_error + mount list" where
  "parse_mounts entry service_path volumes = (case entry of
     None \<Rightarrow> Inr []
   | Some entry \<Rightarrow>
       let mounts_path = service_path @ ''.mounts'' in
       andthen (into_sequence (entry_value entry) mounts_path) (\<lambda>entries.
         fold_res (parse_mount mounts_path volumes) (enumerate 0 entries) []))"

definition claim_port :: "int \<Rightarrow> string \<Rightarrow> location \<Rightarrow> claimed \<Rightarrow> manifest_error + (16 word \<times> claimed)" where
  "claim_port number number_path loc claimed =
     (if \<not> (1024 \<le> number \<and> number \<le> 65535) then
        Inl (invalid [Txt number_path, Txt '' must be between 1024 and 65535''] (Some loc))
      else let p = word_of_int number in
        case bt_get claimed p of
          Some first_path \<Rightarrow>
            Inl (invalid [Txt number_path, Txt '' duplicates loopback port '', Num (uint p),
                          Txt '' already declared at '', Txt first_path] (Some loc))
        | None \<Rightarrow> Inr (p, bt_insert p number_path claimed))"

definition parse_port ::
    "string \<Rightarrow> nat \<times> node \<Rightarrow> port list \<times> claimed \<Rightarrow> manifest_error + port list \<times> claimed" where
  "parse_port ports_path iv st =
     (let port_path = indexed ports_path (fst iv) in
      andthen (into_mapping (snd iv) port_path) (\<lambda>mapping0.
      andthen (reject_unknown_fields mapping0 port_path [''address'', ''port'']) (\<lambda>_.
      andthen (take_required mapping0 ''address'' (port_path @ ''.address'')) (\<lambda>(address_node, mapping1).
      andthen (into_string address_node (port_path @ ''.address'')) (\<lambda>address.
        if address \<noteq> ''127.0.0.1'' then
          Inl (invalid [Txt (port_path @ ''.address''), Txt '' must be \"127.0.0.1\"'']
                 (Some (node_location address_node)))
        else
      andthen (take_required mapping1 ''port'' (port_path @ ''.port'')) (\<lambda>(number_node, mapping2).
      andthen (into_integer number_node (port_path @ ''.port'')) (\<lambda>number.
      andthen (claim_port number (port_path @ ''.port'') (node_location number_node) (snd st)) (\<lambda>(p, claimed).
        Inr (fst st @ [\<lparr>po_address = address, po_port = p\<rparr>], claimed)))))))))"

definition parse_ports :: "mapping_entry option \<Rightarrow> string \<Rightarrow> claimed \<Rightarrow> manifest_error + port list \<times> claimed" where
  "parse_ports entry service_path claimed = (case entry of
     None \<Rightarrow> Inr ([], claimed)
   | Some entry \<Rightarrow>
       let ports_path = service_path @ ''.ports'' in
       andthen (into_sequence (entry_value entry) ports_path) (\<lambda>entries.
         fold_res (parse_port ports_path) (enumerate 0 entries) ([], claimed)))"

definition parse_dependency ::
    "string \<Rightarrow> string \<Rightarrow> nat \<times> node \<Rightarrow> string list \<times> dep_locations
       \<Rightarrow> manifest_error + string list \<times> dep_locations" where
  "parse_dependency service_name dependencies_path iv st =
     (let loc = node_location (snd iv); path = indexed dependencies_path (fst iv) in
      andthen (into_string (snd iv) path) (\<lambda>dependency.
      andthen (validate_name dependency path (Some loc)) (\<lambda>_.
        if dependency \<in> set (fst st) then
          Inl (invalid [Txt dependencies_path, Txt '' contains duplicate service '', Dbg dependency] (Some loc))
        else Inr (fst st @ [dependency], bt_insert (service_name, dependency) loc (snd st)))))"

definition parse_dependencies ::
    "mapping_entry option \<Rightarrow> string \<Rightarrow> string \<Rightarrow> dep_locations
       \<Rightarrow> manifest_error + string list \<times> dep_locations" where
  "parse_dependencies entry service_name service_path locations = (case entry of
     None \<Rightarrow> Inr ([], locations)
   | Some entry \<Rightarrow>
       let dependencies_path = service_path @ ''.dependsOn'' in
       andthen (into_sequence (entry_value entry) dependencies_path) (\<lambda>entries.
         fold_res (parse_dependency service_name dependencies_path) (enumerate 0 entries) ([], locations)))"

definition parse_restart :: "mapping_entry option \<Rightarrow> string \<Rightarrow> manifest_error + restart_policy" where
  "parse_restart entry service_path = (case entry of
     None \<Rightarrow> Inr No
   | Some entry \<Rightarrow>
       let path = service_path @ ''.restart'' in
       andthen (into_string (entry_value entry) path) (\<lambda>text.
         if text = ''no'' then Inr No
         else if text = ''on-failure'' then Inr OnFailure
         else if text = ''always'' then Inr Always
         else Inl (invalid [Txt path, Txt '' must be \"no\", \"on-failure\", or \"always\"'']
                     (Some (node_location (entry_value entry))))))"

definition valid_image :: "string \<Rightarrow> bool" where
  "valid_image img \<longleftrightarrow>
     1 \<le> char_count img \<and> char_count img \<le> 2048
     \<and> \<not> starts_with ''-'' img \<and> \<not> has_control img"

definition SERVICE_FIELDS :: "string list" where
  "SERVICE_FIELDS = [''image'', ''command'', ''environment'', ''mounts'', ''ports'', ''dependsOn'', ''restart'']"

definition parse_service ::
    "string \<Rightarrow> node \<Rightarrow> string \<Rightarrow> string list \<Rightarrow> dep_locations \<Rightarrow> claimed
       \<Rightarrow> manifest_error + service \<times> dep_locations \<times> claimed" where
  "parse_service service_name n service_path volumes locations claimed =
     andthen (into_mapping n service_path) (\<lambda>service0.
     andthen (reject_unknown_fields service0 service_path SERVICE_FIELDS) (\<lambda>_.
     andthen (take_required service0 ''image'' (service_path @ ''.image'')) (\<lambda>(image_node, service1).
     andthen (into_string image_node (service_path @ ''.image'')) (\<lambda>img.
       if \<not> valid_image img then
         Inl (invalid [Txt (service_path @ ''.image''),
               Txt ('' must be 1..=2048 characters, contain no control characters, and not start with '-'' @ [CHR 0x27])]
               (Some (node_location image_node)))
       else
         let (command_entry, service2) = take_entry service1 ''command'';
             (environment_entry, service3) = take_entry service2 ''environment'';
             (mounts_entry, service4) = take_entry service3 ''mounts'';
             (ports_entry, service5) = take_entry service4 ''ports'';
             (dependencies_entry, service6) = take_entry service5 ''dependsOn'';
             (restart_entry, service7) = take_entry service6 ''restart''
         in
     andthen (parse_command command_entry service_path) (\<lambda>command.
     andthen (parse_environment environment_entry service_path) (\<lambda>environment.
     andthen (parse_mounts mounts_entry service_path volumes) (\<lambda>mounts.
     andthen (parse_ports ports_entry service_path claimed) (\<lambda>(ports, claimed').
     andthen (parse_dependencies dependencies_entry service_name service_path locations) (\<lambda>(dependencies, locations').
     andthen (parse_restart restart_entry service_path) (\<lambda>restart.
       Inr (\<lparr>se_name = service_name, se_image = img, se_command = command,
             se_environment = environment, se_mounts = mounts, se_ports = ports,
             se_depends_on = dependencies, se_restart = restart\<rparr>, locations', claimed')))))))))))"

section \<open>Validation\<close>

definition parse_service_entry ::
    "string list \<Rightarrow> string \<times> mapping_entry \<Rightarrow> services \<times> dep_locations \<times> claimed
       \<Rightarrow> manifest_error + services \<times> dep_locations \<times> claimed" where
  "parse_service_entry volumes e st =
     (case st of (services, locations, claimed) \<Rightarrow>
      andthen (validate_name (fst e) ''service name'' (Some (key_location (snd e)))) (\<lambda>_.
      andthen (parse_service (fst e) (entry_value (snd e)) (''services.'' @ fst e) volumes locations claimed)
        (\<lambda>(service, locations', claimed').
          Inr (bt_insert (fst e) service services, locations', claimed'))))"

fun check_dependencies :: "services \<Rightarrow> dep_locations \<Rightarrow> manifest_error + unit" where
  "check_dependencies services [] = Inr ()"
| "check_dependencies services (((service_name, dependency), loc) # rest) =
     (if bt_get services dependency = None then
        Inl (invalid [Txt ''services.'', Txt service_name, Txt ''.dependsOn references unknown service '',
                      Dbg dependency] (Some loc))
      else check_dependencies services rest)"

definition validate_header :: "node \<Rightarrow> manifest_error + string \<times> mapping" where
  "validate_header root =
     andthen (into_mapping root ''manifest'') (\<lambda>top0.
     andthen (reject_unknown_fields top0 ''manifest''
        [''apiVersion'', ''kind'', ''metadata'', ''services'', ''volumes'']) (\<lambda>_.
     andthen (take_required top0 ''apiVersion'' ''apiVersion'') (\<lambda>(api_node, top1).
     andthen (into_string api_node ''apiVersion'') (\<lambda>api_version.
       if api_version \<noteq> API_VERSION then
         Inl (invalid [Txt ''apiVersion must be '', Dbg API_VERSION] None)
       else
     andthen (take_required top1 ''kind'' ''kind'') (\<lambda>(kind_node, top2).
     andthen (into_string kind_node ''kind'') (\<lambda>kind.
       if kind \<noteq> ''Stack'' then Inl (invalid [Txt ''kind must be \"Stack\"''] None)
       else
     andthen (take_required top2 ''metadata'' ''metadata'') (\<lambda>(metadata_node, top3).
     andthen (into_mapping metadata_node ''metadata'') (\<lambda>metadata.
     andthen (reject_unknown_fields metadata ''metadata'' [''name'']) (\<lambda>_.
     andthen (take_required metadata ''name'' ''metadata.name'') (\<lambda>(name_node, _).
     andthen (into_string name_node ''metadata.name'') (\<lambda>name.
     andthen (validate_name name ''metadata.name'' (Some (node_location name_node))) (\<lambda>_.
       Inr (name, top3)))))))))))))"

definition validate_services ::
    "string list \<Rightarrow> mapping \<Rightarrow> manifest_error + services \<times> location" where
  "validate_services volumes top4 =
     andthen (take_required top4 ''services'' ''services'') (\<lambda>(services_node, _).
     andthen (into_mapping services_node ''services'') (\<lambda>service_entries.
       if service_entries = [] then
         Inl (invalid [Txt ''services must contain at least one service''] (Some (node_location services_node)))
       else
     andthen (fold_res (parse_service_entry volumes) service_entries ([], [], []))
       (\<lambda>(services, locations, _).
     andthen (check_dependencies services locations) (\<lambda>_.
       Inr (services, node_location services_node)))))"

text \<open>\<^verbatim>\<open>cyclic.join\<close>, kept as the separate names.\<close>

definition joined :: "string list \<Rightarrow> msg" where
  "joined xs = concat (map (\<lambda>x. [Txt '', '', Txt x]) xs)"

definition cycle_error :: "string list \<Rightarrow> location \<Rightarrow> manifest_error" where
  "cycle_error cyclic loc =
     invalid (Txt ''service dependency graph contains a cycle involving: '' # tl (joined cyclic)) (Some loc)"

text \<open>\<open>validate_parts\<close> is \<^verbatim>\<open>validate\<close> up to the check for cycles.\<close>

definition validate_parts :: "node \<Rightarrow> manifest_error + string \<times> string list \<times> services \<times> location" where
  "validate_parts root =
     andthen (validate_header root) (\<lambda>(name, top3).
       let (volumes_entry, top4) = take_entry top3 ''volumes'' in
       andthen (parse_volumes volumes_entry) (\<lambda>volumes.
       andthen (validate_services volumes top4) (\<lambda>(services, loc).
         Inr (name, volumes, services, loc))))"

definition validate :: "node \<Rightarrow> panic + (manifest_error + manifest)" where
  "validate root =
     (case validate_parts root of
        Inl e \<Rightarrow> Inr (Inl e)
      | Inr (name, volumes, services, loc) \<Rightarrow>
          andthen (topological_order services) (\<lambda>r. case r of
            Inl cyclic \<Rightarrow> Inr (Inl (cycle_error cyclic loc))
          | Inr _ \<Rightarrow> Inr (Inr \<lparr>mf_name = name, mf_services = services, mf_volumes = volumes\<rparr>)))"

text \<open>
  \<^verbatim>\<open>parse\<close>: the scanner is a parameter and yields, for a text, events or an error (the error
  ends the stream). The events are collected up to a bound before the tree is read.
\<close>

fun collect_events :: "nat \<Rightarrow> (string + spanned) list \<Rightarrow> manifest_error + spanned list" where
  "collect_events n [] = Inr []"
| "collect_events n (Inl e # es) = Inl (invalid [Txt e] None)"
| "collect_events n (Inr ev # es) =
     (if MAX_NODES * 4 < n + 1 then Inl (invalid [Txt ''manifest has too many parser events''] None)
      else andthen (collect_events (n + 1) es) (\<lambda>evs. Inr (ev # evs)))"

definition parse :: "(string \<Rightarrow> (string + spanned) list) \<Rightarrow> string \<Rightarrow> panic + (manifest_error + manifest)" where
  "parse scan input =
     (if MAX_BYTES < length input then
        Inr (Inl (invalid [Txt ''manifest exceeds the '', Num (int MAX_BYTES), Txt ''-byte limit''] None))
      else case andthen (collect_events 0 (scan input)) read_document of
        Inl e \<Rightarrow> Inr (Inl e)
      | Inr root \<Rightarrow> validate root)"

definition start_order :: "manifest \<Rightarrow> panic + string list" where
  "start_order m = andthen (topological_order (mf_services m)) (\<lambda>r. case r of
     Inl _ \<Rightarrow> Inl Panic
   | Inr order \<Rightarrow> Inr order)"

definition stop_order :: "manifest \<Rightarrow> panic + string list" where
  "stop_order m = andthen (start_order m) (\<lambda>order. Inr (rev order))"

text \<open>
  \<^verbatim>\<open>load\<close>: what the file system answers is the argument \<open>file\<close>, the metadata and the
  contents or the error text of each call.
\<close>

record file_meta =
  is_symlink :: bool
  is_file :: bool
  file_len :: nat

definition io_error :: "msg \<Rightarrow> manifest_error" where
  "io_error m = \<lparr>err_kind = Kind_Io, err_message = m, err_location = None\<rparr>"

definition read_to_string :: "string + string \<Rightarrow> string + string" where
  "read_to_string contents = andthen contents (\<lambda>bytes.
     if utf8_valid bytes then Inr bytes else Inl ''stream did not contain valid UTF-8'')"

definition load_text :: "string \<Rightarrow> string + file_meta \<Rightarrow> string + string \<Rightarrow> manifest_error + string" where
  "load_text path meta contents =
     andthen (map_err (\<lambda>e. io_error [Txt ''cannot inspect manifest '', Txt (utf8_lossy path), Txt '': '', Txt e]) meta)
       (\<lambda>md.
         if is_symlink md \<or> \<not> is_file md then
           Inl (io_error [Txt ''manifest is not a regular non-symlink file: '', Txt (utf8_lossy path)])
         else if MAX_BYTES < file_len md then
           Inl (invalid [Txt ''manifest exceeds the '', Num (int MAX_BYTES), Txt ''-byte limit''] None)
         else map_err (\<lambda>e. io_error [Txt ''cannot read manifest '', Txt (utf8_lossy path),
                                        Txt '' as UTF-8: '', Txt e]) (read_to_string contents))"

definition load ::
    "(string \<Rightarrow> (string + spanned) list) \<Rightarrow> string \<Rightarrow> string + file_meta \<Rightarrow> string + string
       \<Rightarrow> panic + (manifest_error + manifest \<times> string)" where
  "load scan path meta contents =
     (case load_text path meta contents of
        Inl e \<Rightarrow> Inr (Inl e)
      | Inr text \<Rightarrow> andthen (parse scan text) (\<lambda>r. Inr (andthen r (\<lambda>m. Inr (m, text)))))"

section \<open>Well-formed manifests\<close>

text \<open>What a manifest promises to the store and the runtime, part by part.\<close>

definition command_ok :: "string list option \<Rightarrow> bool" where
  "command_ok c \<longleftrightarrow> (case c of None \<Rightarrow> True
     | Some ws \<Rightarrow> ws \<noteq> [] \<and> hd ws \<noteq> [] \<and> (\<forall>w \<in> set ws. CHR 0x00 \<notin> set w))"

definition env_ok :: "(string \<times> string) list \<Rightarrow> bool" where
  "env_ok env \<longleftrightarrow> bt_wf env \<and> (\<forall>e \<in> set env. valid_environment_name (fst e)
     \<and> \<not> reserved_environment_name (fst e) \<and> CHR 0x00 \<notin> set (snd e))"

definition mount_ok :: "string list \<Rightarrow> mount \<Rightarrow> bool" where
  "mount_ok volumes m \<longleftrightarrow> is_normalized_absolute_path (mo_target m) \<and> CHR '':'' \<notin> set (mo_target m)
     \<and> mo_source m \<noteq> [] \<and> CHR 0x00 \<notin> set (mo_source m)
     \<and> (mo_kind m = Volume \<longrightarrow> valid_name (mo_source m) \<and> mo_source m \<in> set volumes)"

definition mounts_ok :: "string list \<Rightarrow> mount list \<Rightarrow> bool" where
  "mounts_ok volumes ms \<longleftrightarrow> (\<forall>m \<in> set ms. mount_ok volumes m)
     \<and> sorted_wrt (\<lambda>a b. \<not> mount_targets_overlap (mo_target a) (mo_target b)) ms"

definition port_ok :: "port \<Rightarrow> bool" where
  "port_ok p \<longleftrightarrow> po_address p = ''127.0.0.1'' \<and> 1024 \<le> uint (po_port p)"

definition service_ok :: "string list \<Rightarrow> string \<times> service \<Rightarrow> bool" where
  "service_ok volumes e \<longleftrightarrow> (let s = snd e in
     se_name s = fst e \<and> valid_name (fst e) \<and> valid_image (se_image s)
     \<and> command_ok (se_command s) \<and> env_ok (se_environment s) \<and> mounts_ok volumes (se_mounts s)
     \<and> (\<forall>p \<in> set (se_ports s). port_ok p)
     \<and> distinct (se_depends_on s) \<and> (\<forall>d \<in> set (se_depends_on s). valid_name d))"

definition ports_of :: "string \<times> service \<Rightarrow> 16 word list" where
  "ports_of e = map po_port (se_ports (snd e))"

definition manifest_ok :: "manifest \<Rightarrow> bool" where
  "manifest_ok m \<longleftrightarrow>
     valid_name (mf_name m)
     \<and> sorted (mf_volumes m) \<and> distinct (mf_volumes m) \<and> (\<forall>v \<in> set (mf_volumes m). valid_name v)
     \<and> mf_services m \<noteq> [] \<and> bt_wf (mf_services m)
     \<and> (\<forall>e \<in> set (mf_services m). service_ok (mf_volumes m) e)
     \<and> distinct (concat (map ports_of (mf_services m)))
     \<and> deps_ok (mf_services m) \<and> acyclic (dep_edges (mf_services m))"

lemma parse_volumes_ok:
  assumes "parse_volumes entry = Inr vs"
  shows "sorted vs \<and> distinct vs \<and> (\<forall>v \<in> set vs. valid_name v)"
proof (cases entry)
  case None
  with assms show ?thesis by (simp add: parse_volumes_def)
next
  case (Some e)
  with assms obtain ds where ds: "fold_res parse_volume ds [] = Inr vs"
    by (auto simp: parse_volumes_def res_simps)
  show ?thesis
  proof (rule fold_res_invariant [OF ds])
    fix x t t'
    assume "sorted t \<and> distinct t \<and> (\<forall>v \<in> set t. valid_name v)" "parse_volume x t = Inr t'"
    then show "sorted t' \<and> distinct t' \<and> (\<forall>v \<in> set t'. valid_name v)"
      by (auto simp: parse_volume_def res_simps Let_def)
  qed simp
qed

lemma parse_arguments_ok:
  assumes "fold_res (parse_argument p) ivs acc = Inr ws" and "\<forall>w \<in> set acc. CHR 0x00 \<notin> set w"
  shows "length ws = length acc + length ivs \<and> (\<forall>w \<in> set ws. CHR 0x00 \<notin> set w)"
  using assms
proof (induction ivs arbitrary: acc)
  case Nil
  then show ?case by simp
next
  case (Cons iv ivs)
  from Cons.prems(1) obtain acc' where acc': "parse_argument p iv acc = Inr acc'"
    and rest: "fold_res (parse_argument p) ivs acc' = Inr ws" by (auto simp: res_simps)
  from acc' obtain w where "CHR 0x00 \<notin> set w" "acc' = acc @ [w]"
    by (auto simp: parse_argument_def res_simps Let_def split: if_splits)
  with Cons.IH [OF rest] Cons.prems(2) show ?case by simp
qed

lemma parse_command_ok:
  assumes "parse_command entry p = Inr c"
  shows "command_ok c"
proof (cases c)
  case None
  then show ?thesis by (simp add: command_ok_def)
next
  case (Some ws)
  with assms obtain e vs where "fold_res (parse_argument (p @ ''.command'')) (enumerate 0 vs) [] = Inr ws"
      "vs \<noteq> []" "hd ws \<noteq> []"
    by (auto simp: parse_command_def res_simps Let_def split: option.splits if_splits)
  with parse_arguments_ok [of "p @ ''.command''" "enumerate 0 vs" "[]" ws] Some
  show ?thesis by (auto simp: command_ok_def)
qed

lemma parse_environment_ok:
  assumes "parse_environment entry p = Inr env"
  shows "env_ok env"
proof (cases entry)
  case None
  with assms show ?thesis by (simp add: parse_environment_def env_ok_def)
next
  case (Some e)
  with assms obtain es where
    es: "fold_res (parse_environment_entry (p @ ''.environment'')) es [] = Inr env"
    by (auto simp: parse_environment_def res_simps Let_def)
  show ?thesis
  proof (rule fold_res_invariant [OF es])
    fix x t t'
    assume "env_ok t" "parse_environment_entry (p @ ''.environment'') x t = Inr t'"
    then show "env_ok t'"
      by (auto simp: parse_environment_entry_def res_simps Let_def env_ok_def bt_wf_insert set_bt_insert
          split: if_splits)
  qed (simp add: env_ok_def)
qed

lemma check_mount_source_Inr [res_simps]:
  "check_mount_source kind source p l volumes = Inr u \<longleftrightarrow>
     source \<noteq> [] \<and> CHR 0x00 \<notin> set source \<and> (kind = Volume \<longrightarrow> valid_name source \<and> source \<in> set volumes)"
  by (auto simp: check_mount_source_def res_simps)

lemma check_mount_target_Inr [res_simps]:
  "check_mount_target target p l ms = Inr u \<longleftrightarrow>
     CHR '':'' \<notin> set target \<and> is_normalized_absolute_path target
     \<and> (\<forall>m \<in> set ms. \<not> mount_targets_overlap (mo_target m) target)"
proof (cases "find (\<lambda>m. mount_targets_overlap (mo_target m) target) ms")
  case None
  then have "\<forall>m \<in> set ms. \<not> mount_targets_overlap (mo_target m) target"
    by (simp add: find_None_iff)
  with None show ?thesis by (simp add: check_mount_target_def)
next
  case (Some m)
  then have "m \<in> set ms" "mount_targets_overlap (mo_target m) target"
    by (auto simp: find_Some_iff)
  with Some show ?thesis by (auto simp: check_mount_target_def)
qed

lemma parse_mount_ok:
  assumes "mounts_ok volumes ms" and "parse_mount p volumes iv ms = Inr ms'"
  shows "mounts_ok volumes ms'"
proof -
  from assms(2) obtain m where m: "ms' = ms @ [m]" "mount_ok volumes m"
    "\<forall>x \<in> set ms. \<not> mount_targets_overlap (mo_target x) (mo_target m)"
    by (auto simp: parse_mount_def res_simps Let_def mount_ok_def)
  with assms(1) show ?thesis by (auto simp: mounts_ok_def sorted_wrt_append)
qed

lemma parse_mounts_ok:
  assumes "parse_mounts entry p volumes = Inr ms"
  shows "mounts_ok volumes ms"
proof (cases entry)
  case None
  with assms show ?thesis by (simp add: parse_mounts_def mounts_ok_def)
next
  case (Some e)
  with assms obtain ivs where
    f: "fold_res (parse_mount (p @ ''.mounts'') volumes) ivs [] = Inr ms"
    by (auto simp: parse_mounts_def res_simps Let_def)
  show ?thesis
  proof (rule fold_res_invariant [OF f])
    show "mounts_ok volumes []" by (simp add: mounts_ok_def)
  qed (rule parse_mount_ok)
qed

lemma uint_port: "1024 \<le> n \<Longrightarrow> n \<le> 65535 \<Longrightarrow> uint (word_of_int n :: 16 word) = n"
  by (simp add: uint_word_of_int)

lemma claim_port_Inr:
  assumes "claim_port number p l claimed = Inr (w, claimed')"
  shows "1024 \<le> uint w \<and> w \<notin> fst ` set claimed \<and> claimed' = bt_insert w p claimed"
proof -
  from assms have "1024 \<le> number" "number \<le> 65535" "w = word_of_int number"
    "bt_get claimed w = None" "claimed' = bt_insert w p claimed"
    by (auto simp: claim_port_def Let_def split: if_splits option.splits)
  then show ?thesis using uint_port [of number] by (simp only: bt_get_None_iff) simp
qed

text \<open>The ports claimed so far are distinct and recorded in the map of claims.\<close>

definition claims :: "16 word list \<Rightarrow> claimed \<Rightarrow> bool" where
  "claims ws claimed \<longleftrightarrow> bt_wf claimed \<and> distinct ws \<and> set ws \<subseteq> fst ` set claimed"

lemma parse_port_ok:
  assumes "parse_port p iv (ps, cl) = Inr (ps', cl')" and "claims (ws @ map po_port ps) cl"
    and "\<forall>p \<in> set ps. port_ok p"
  shows "claims (ws @ map po_port ps') cl' \<and> (\<forall>p \<in> set ps'. port_ok p)"
proof -
  from assms(1) obtain number l w where
    c: "claim_port number (indexed p (fst iv) @ ''.port'') l cl = Inr (w, cl')"
    and ps': "ps' = ps @ [\<lparr>po_address = ''127.0.0.1'', po_port = w\<rparr>]"
    by (auto simp: parse_port_def res_simps Let_def split: if_splits)
  from claim_port_Inr [OF c] assms(2,3) ps'
  show ?thesis by (simp add: claims_def port_ok_def bt_wf_insert fst_bt_insert) blast
qed

lemma parse_ports_ok:
  assumes "parse_ports entry p cl = Inr (ps, cl')" and "claims ws cl"
  shows "claims (ws @ map po_port ps) cl' \<and> (\<forall>p \<in> set ps. port_ok p)"
proof (cases entry)
  case None
  with assms show ?thesis by (auto simp: parse_ports_def)
next
  case (Some e)
  with assms obtain ivs where f: "fold_res (parse_port (p @ ''.ports'')) ivs ([], cl) = Inr (ps, cl')"
    by (auto simp: parse_ports_def res_simps Let_def)
  have "(\<lambda>(ps, cl). claims (ws @ map po_port ps) cl \<and> (\<forall>p \<in> set ps. port_ok p)) (ps, cl')"
    by (rule fold_res_invariant [OF f]) (use assms(2) parse_port_ok in auto)
  then show ?thesis by simp
qed

definition deps_parsed :: "string \<Rightarrow> dep_locations \<Rightarrow> string list \<times> dep_locations \<Rightarrow> bool" where
  "deps_parsed n locs st \<longleftrightarrow> distinct (fst st) \<and> (\<forall>d \<in> set (fst st). valid_name d)
     \<and> fst ` set (snd st) = fst ` set locs \<union> Pair n ` set (fst st)"

lemma parse_dependency_ok:
  assumes "parse_dependency n p iv st = Inr st'" and "deps_parsed n locs st"
  shows "deps_parsed n locs st'"
proof -
  from assms(1) obtain d l where "valid_name d" "d \<notin> set (fst st)"
    "st' = (fst st @ [d], bt_insert (n, d) l (snd st))"
    by (auto simp: parse_dependency_def res_simps Let_def split: if_splits)
  with assms(2) show ?thesis by (simp add: deps_parsed_def fst_bt_insert)
qed

lemma parse_dependencies_ok:
  assumes "parse_dependencies entry n p locs = Inr st"
  shows "deps_parsed n locs st"
proof (cases entry)
  case None
  with assms show ?thesis by (auto simp: parse_dependencies_def deps_parsed_def)
next
  case (Some e)
  with assms obtain ivs where
    f: "fold_res (parse_dependency n (p @ ''.dependsOn'')) ivs ([], locs) = Inr st"
    by (auto simp: parse_dependencies_def res_simps Let_def)
  show ?thesis
    by (rule fold_res_invariant [OF f]) (use parse_dependency_ok in \<open>auto simp: deps_parsed_def\<close>)
qed

lemma parse_service_ok:
  assumes "parse_service n nd p volumes locs cl = Inr (s, locs', cl')" and "valid_name n"
    and "claims ws cl"
  shows "service_ok volumes (n, s) \<and> claims (ws @ ports_of (n, s)) cl'
    \<and> fst ` set locs' = fst ` set locs \<union> Pair n ` set (se_depends_on s)"
proof -
  from assms(1) obtain ce c ee env me ms pe de ps ds re r img where
    "valid_image img" "parse_command ce p = Inr c" "parse_environment ee p = Inr env"
    "parse_mounts me p volumes = Inr ms" "parse_ports pe p cl = Inr (ps, cl')"
    "parse_dependencies de n p locs = Inr (ds, locs')" "parse_restart re p = Inr r"
    "s = \<lparr>se_name = n, se_image = img, se_command = c, se_environment = env, se_mounts = ms,
          se_ports = ps, se_depends_on = ds, se_restart = r\<rparr>"
    by (auto simp: parse_service_def res_simps Let_def take_entry_def split: if_splits)
  note p = this
  from parse_dependencies_ok [OF p(6)] have "distinct ds" "\<forall>d \<in> set ds. valid_name d"
    "fst ` set locs' = fst ` set locs \<union> Pair n ` set ds" by (simp_all add: deps_parsed_def)
  with p(1,8) assms(2) parse_command_ok [OF p(2)] parse_environment_ok [OF p(3)]
    parse_mounts_ok [OF p(4)] parse_ports_ok [OF p(5) assms(3)]
  show ?thesis by (simp add: service_ok_def ports_of_def)
qed

text \<open>The loop over the services: keys are visited once each, in increasing order.\<close>

definition services_inv :: "string list \<Rightarrow> services \<times> dep_locations \<times> claimed \<Rightarrow> bool" where
  "services_inv volumes st = (case st of (services, locs, cl) \<Rightarrow>
     bt_wf services \<and> (\<forall>e \<in> set services. service_ok volumes e)
     \<and> (\<forall>e \<in> set services. Pair (fst e) ` set (se_depends_on (snd e)) \<subseteq> fst ` set locs)
     \<and> claims (concat (map ports_of services)) cl)"

lemma parse_service_entry_ok:
  assumes "parse_service_entry volumes e st = Inr st'" and "services_inv volumes st"
    and "\<forall>k \<in> fst ` set (fst st). k < fst e"
  shows "services_inv volumes st' \<and> fst ` set (fst st') = insert (fst e) (fst ` set (fst st))"
proof -
  obtain services locs cl where st: "st = (services, locs, cl)" by (cases st)
  from assms(1) st obtain s locs' cl' where n: "valid_name (fst e)"
    and p: "parse_service (fst e) (entry_value (snd e)) (''services.'' @ fst e) volumes locs cl
            = Inr (s, locs', cl')"
    and st': "st' = (bt_insert (fst e) s services, locs', cl')"
    by (auto simp: parse_service_entry_def res_simps)
  have ins: "bt_insert (fst e) s services = services @ [(fst e, s)]"
    using assms(3) st by (simp add: bt_insert_last)
  have wf: "bt_wf (bt_insert (fst e) s services)"
    using assms(2) st by (intro bt_wf_insert) (simp add: services_inv_def)
  have "claims (concat (map ports_of services)) cl" using assms(2) st by (simp add: services_inv_def)
  from parse_service_ok [OF p n this]
  have new: "service_ok volumes (fst e, s)" "claims (concat (map ports_of services) @ ports_of (fst e, s)) cl'"
    "fst ` set locs' = fst ` set locs \<union> Pair (fst e) ` set (se_depends_on s)" by simp_all
  have "\<forall>x \<in> set services. Pair (fst x) ` set (se_depends_on (snd x)) \<subseteq> fst ` set locs'"
    using assms(2) st unfolding new(3) services_inv_def by blast
  with new wf assms(2) st show ?thesis unfolding st' ins by (simp add: services_inv_def)
qed

lemma parse_services_ok:
  assumes "fold_res (parse_service_entry volumes) es st = Inr st'" and "services_inv volumes st"
    and "sorted_wrt (<) (map fst es)" and "\<forall>k \<in> fst ` set (fst st). \<forall>e \<in> set es. k < fst e"
  shows "services_inv volumes st' \<and> fst ` set (fst st') = fst ` set (fst st) \<union> fst ` set es"
  using assms
proof (induction es arbitrary: st)
  case Nil
  then show ?case by simp
next
  case (Cons e es)
  from Cons.prems(1) obtain st1 where st1: "parse_service_entry volumes e st = Inr st1"
    and rest: "fold_res (parse_service_entry volumes) es st1 = Inr st'" by (auto simp: res_simps)
  have "\<forall>k \<in> fst ` set (fst st). k < fst e" using Cons.prems(4) by simp
  from parse_service_entry_ok [OF st1 Cons.prems(2) this]
  have inv: "services_inv volumes st1"
    and keys: "fst ` set (fst st1) = insert (fst e) (fst ` set (fst st))" by auto
  have "sorted_wrt (<) (map fst es)" "\<forall>k \<in> fst ` set (fst st1). \<forall>e \<in> set es. k < fst e"
    using Cons.prems(3,4) unfolding keys by auto
  from Cons.IH [OF rest inv this] keys show ?case by simp
qed

lemma check_dependencies_Inr:
  "check_dependencies services locs = Inr u \<Longrightarrow> (n, d) \<in> fst ` set locs \<Longrightarrow> d \<in> fst ` set services"
  by (induction services locs rule: check_dependencies.induct)
    (auto simp: bt_get_None_iff split: if_splits)

lemma validate_services_ok:
  assumes "validate_services volumes top4 = Inr (services, loc)"
    and "\<forall>n \<in> snd ` set top4. \<forall>m l. entry_value n = Mapping m l \<longrightarrow> bt_wf m"
  shows "services \<noteq> [] \<and> bt_wf services \<and> (\<forall>e \<in> set services. service_ok volumes e)
    \<and> distinct (concat (map ports_of services)) \<and> deps_ok services"
proof -
  from assms(1) obtain nd m' es p locs cl where nd: "take_required top4 ''services'' p = Inr (nd, m')"
    and es: "into_mapping nd ''services'' = Inr es" "es \<noteq> []"
    and loop: "fold_res (parse_service_entry volumes) es ([], [], []) = Inr (services, locs, cl)"
    and chk: "check_dependencies services locs = Inr ()"
    by (auto simp: validate_services_def res_simps split: if_splits)
  from nd obtain en where "(''services'', en) \<in> set top4" "entry_value en = nd"
    by (auto simp: take_required_def dest: bt_get_Some_in split: option.splits)
  moreover obtain l where "nd = Mapping es l" using es(1) by (cases nd) auto
  ultimately have wf: "bt_wf es" using assms(2) by force
  have "services_inv volumes ([], [], [])" by (simp add: services_inv_def claims_def)
  from parse_services_ok [OF loop this] wf
  have inv: "services_inv volumes (services, locs, cl)" and keys: "fst ` set services = fst ` set es"
    by (simp_all add: bt_wf_def)
  have "services \<noteq> []" using keys es(2) by auto
  moreover have "deps_ok services"
    unfolding deps_ok_def
  proof (intro ballI, clarify)
    fix n s assume ns: "(n, s) \<in> set services"
    with inv have "distinct (se_depends_on s)" "Pair n ` set (se_depends_on s) \<subseteq> fst ` set locs"
      by (force simp: services_inv_def service_ok_def Let_def)+
    with check_dependencies_Inr [OF chk]
    show "distinct (se_depends_on s) \<and> set (se_depends_on s) \<subseteq> fst ` set services" by blast
  qed
  ultimately show ?thesis using inv by (simp add: services_inv_def claims_def)
qed

lemma validate_header_ok:
  "validate_header root = Inr (name, top3) \<Longrightarrow>
     valid_name name \<and> (\<exists>m l. root = Mapping m l \<and> set top3 \<subseteq> set m)"
  by (cases root)
    (auto simp: validate_header_def res_simps take_required_def bt_remove_def split: if_splits option.splits)

lemma entries_wf:
  assumes "node_ok k root" and "root = Mapping tm l" and "set top3 \<subseteq> set tm"
  shows "\<forall>n \<in> snd ` set (bt_remove f top3). \<forall>m l. entry_value n = Mapping m l \<longrightarrow> bt_wf m"
proof (intro ballI allI impI)
  fix n m l' assume n: "n \<in> snd ` set (bt_remove f top3)" "entry_value n = Mapping m l'"
  with assms(3) have "n \<in> snd ` set tm" by (auto simp: bt_remove_def)
  with n(2) assms(1,2) obtain j where "node_ok j (Mapping m l')" by (cases k) force+
  then show "bt_wf m" by (cases j) auto
qed

lemma validate_sound:
  assumes "validate root = Inr (Inr m)" and "node_ok k root"
  shows "manifest_ok m"
proof -
  from assms(1) obtain name volumes services loc where
    p: "validate_parts root = Inr (name, volumes, services, loc)"
    by (auto simp: validate_def split: sum.splits)
  with assms(1) obtain r where r: "topological_order services = Inr r"
      "(case r of Inl cyclic \<Rightarrow> Inr (Inl (cycle_error cyclic loc))
        | Inr _ \<Rightarrow> Inr (Inr \<lparr>mf_name = name, mf_services = services, mf_volumes = volumes\<rparr>))
       = (Inr (Inr m) :: panic + (manifest_error + manifest))"
    by (auto simp: validate_def andthen_Inr_iff)
  from r obtain order where t: "topological_order services = Inr (Inr order)"
    and m: "m = \<lparr>mf_name = name, mf_services = services, mf_volumes = volumes\<rparr>"
    by (cases r) auto
  from p obtain top3 where h: "validate_header root = Inr (name, top3)"
    and v: "parse_volumes (bt_get top3 ''volumes'') = Inr volumes"
    and s: "validate_services volumes (bt_remove ''volumes'' top3) = Inr (services, loc)"
    by (auto simp: validate_parts_def take_entry_def andthen_Inr_iff)
  from validate_header_ok [OF h] obtain top l where top: "valid_name name" "root = Mapping top l"
    "set top3 \<subseteq> set top" by blast
  from validate_services_ok [OF s entries_wf [OF assms(2) top(2,3)]] parse_volumes_ok [OF v] top(1) m
    topological_order_ok [OF _ _ t] start_order_acyclic
  show ?thesis by (auto simp: manifest_ok_def)
qed

section \<open>Every well-formed manifest is accepted\<close>

text \<open>A manifest written out as a tree, every string quoted and every optional part present.\<close>

definition loc0 :: location where "loc0 = \<lparr>line = 1, column = 0\<rparr>"

definition str_node :: "string \<Rightarrow> node" where
  "str_node v = Scalar \<lparr>sc_value = v, sc_style = Styled, sc_location = loc0\<rparr>"

definition int_node :: "nat \<Rightarrow> node" where
  "int_node n = Scalar \<lparr>sc_value = show_nat n, sc_style = Plain, sc_location = loc0\<rparr>"

definition seq_node :: "node list \<Rightarrow> node" where
  "seq_node vs = Sequence vs loc0"

definition map_node :: "(string \<times> node) list \<Rightarrow> node" where
  "map_node kvs = Mapping (map (\<lambda>e. (fst e, MappingEntry loc0 (snd e))) kvs) loc0"

definition mount_node :: "mount \<Rightarrow> node" where
  "mount_node m = map_node
     [(''source'', str_node (mo_source m)), (''target'', str_node (mo_target m)),
      (''type'', str_node (case mo_kind m of Volume \<Rightarrow> ''volume'' | Bind \<Rightarrow> ''bind''))]"

definition port_node :: "port \<Rightarrow> node" where
  "port_node p = map_node [(''address'', str_node (po_address p)), (''port'', int_node (unat (po_port p)))]"

definition restart_text :: "restart_policy \<Rightarrow> string" where
  "restart_text r = (case r of No \<Rightarrow> ''no'' | OnFailure \<Rightarrow> ''on-failure'' | Always \<Rightarrow> ''always'')"

definition service_node :: "service \<Rightarrow> node" where
  "service_node s = map_node
     ((case se_command s of None \<Rightarrow> [] | Some ws \<Rightarrow> [(''command'', seq_node (map str_node ws))])
      @ [(''dependsOn'', seq_node (map str_node (se_depends_on s))),
         (''environment'', map_node (map (\<lambda>e. (fst e, str_node (snd e))) (se_environment s))),
         (''image'', str_node (se_image s)),
         (''mounts'', seq_node (map mount_node (se_mounts s))),
         (''ports'', seq_node (map port_node (se_ports s))),
         (''restart'', str_node (restart_text (se_restart s)))])"

definition manifest_node :: "manifest \<Rightarrow> node" where
  "manifest_node m = map_node
     [(''apiVersion'', str_node API_VERSION), (''kind'', str_node ''Stack''),
      (''metadata'', map_node [(''name'', str_node (mf_name m))]),
      (''services'', map_node (map (\<lambda>e. (fst e, service_node (snd e))) (mf_services m))),
      (''volumes'', map_node (map (\<lambda>v. (v, map_node [])) (mf_volumes m)))]"

lemma node_forms [simp]:
  "into_string (str_node v) p = Inr v"
  "into_sequence (seq_node vs) p = Inr vs"
  "into_mapping (map_node kvs) p = Inr (map (\<lambda>e. (fst e, MappingEntry loc0 (snd e))) kvs)"
  by (simp_all add: str_node_def seq_node_def map_node_def is_string_def)

lemma into_integer_int_node [simp]: "int n < 2 ^ 63 \<Longrightarrow> into_integer (int_node n) p = Inr (int n)"
  by (simp add: int_node_def parse_i64_show)

lemma fold_arguments:
  "(\<forall>w \<in> set ws. CHR 0x00 \<notin> set w) \<Longrightarrow>
     fold_res (parse_argument p) (enumerate i (map str_node ws)) acc = Inr (acc @ ws)"
  by (induction ws arbitrary: i acc) (auto simp: parse_argument_def Let_def)

lemma parse_command_node:
  "command_ok (Some ws) \<Longrightarrow>
     parse_command (Some (MappingEntry loc0 (seq_node (map str_node ws)))) p = Inr (Some ws)"
  by (auto simp: parse_command_def command_ok_def fold_arguments Let_def)

lemma fold_environment:
  "bt_wf (acc @ env) \<Longrightarrow> \<forall>e \<in> set env. valid_environment_name (fst e)
     \<and> \<not> reserved_environment_name (fst e) \<and> CHR 0x00 \<notin> set (snd e) \<Longrightarrow>
   fold_res (parse_environment_entry p) (map (\<lambda>e. (fst e, MappingEntry loc0 (str_node (snd e)))) env) acc
   = Inr (acc @ env)"
proof (induction env arbitrary: acc)
  case Nil
  then show ?case by simp
next
  case (Cons e env)
  have "bt_insert (fst e) (snd e) acc = acc @ [(fst e, snd e)]"
    using Cons.prems(1) by (intro bt_insert_last) (auto simp: bt_wf_def sorted_wrt_append)
  then have "parse_environment_entry p (fst e, MappingEntry loc0 (str_node (snd e))) acc = Inr (acc @ [e])"
    using Cons.prems(2) by (simp add: parse_environment_entry_def Let_def)
  with Cons.IH [of "acc @ [e]"] Cons.prems show ?case by simp
qed

lemma parse_environment_node:
  "env_ok env \<Longrightarrow>
     parse_environment (Some (MappingEntry loc0 (map_node (map (\<lambda>e. (fst e, str_node (snd e))) env)))) p = Inr env"
  by (simp add: parse_environment_def env_ok_def Let_def comp_def fold_environment)

lemma take_required_here:
  "bt_get m k = Some (MappingEntry l v) \<Longrightarrow> take_required m k p = Inr (v, bt_remove k m)"
  by (simp add: take_required_def)

lemma parse_mount_node:
  assumes "mounts_ok volumes (ms @ [m])"
  shows "parse_mount p volumes (i, mount_node m) ms = Inr (ms @ [m])"
proof -
  have "mount_ok volumes m" "\<forall>x \<in> set ms. \<not> mount_targets_overlap (mo_target x) (mo_target m)"
    using assms by (auto simp: mounts_ok_def sorted_wrt_append)
  then have "check_mount_source (mo_kind m) (mo_source m) q l volumes = Inr ()"
    "check_mount_target (mo_target m) q l ms = Inr ()" for q l
    by (auto simp: check_mount_source_Inr check_mount_target_Inr mount_ok_def)
  moreover have "parse_mount_kind (case mo_kind m of Volume \<Rightarrow> ''volume'' | Bind \<Rightarrow> ''bind'') q l
      = Inr (mo_kind m)" for q l
    by (cases "mo_kind m") (auto simp: parse_mount_kind_def)
  ultimately show ?thesis
    by (simp add: parse_mount_def mount_node_def Let_def take_required_def bt_get_def bt_remove_def)
qed

lemma fold_mounts:
  "mounts_ok volumes (acc @ ms) \<Longrightarrow>
     fold_res (parse_mount p volumes) (enumerate i (map mount_node ms)) acc = Inr (acc @ ms)"
proof (induction ms arbitrary: i acc)
  case Nil
  then show ?case by simp
next
  case (Cons m ms)
  have "mounts_ok volumes (acc @ [m])" using Cons.prems by (auto simp: mounts_ok_def sorted_wrt_append)
  with Cons show ?case by (simp add: parse_mount_node)
qed

lemma parse_port_node:
  assumes "port_ok q" and "po_port q \<notin> fst ` set cl"
  shows "\<exists>cl'. parse_port p (i, port_node q) (ps, cl) = Inr (ps @ [q], cl')
    \<and> fst ` set cl' = insert (po_port q) (fst ` set cl)"
proof -
  let ?n = "uint (po_port q)"
  have b: "1024 \<le> ?n" "?n \<le> 65535"
    using assms(1) uint_lt2p [of "po_port q"] by (simp_all add: port_ok_def)
  have "bt_get cl (po_port q) = None" using assms(2) by (simp only: bt_get_None_iff not_False_eq_True)
  then have "claim_port ?n (indexed p i @ ''.port'') loc0 cl
      = Inr (po_port q, bt_insert (po_port q) (indexed p i @ ''.port'') cl)"
    unfolding claim_port_def Let_def word_of_int_uint using b by simp
  moreover have "into_integer (int_node (unat (po_port q))) r = Inr ?n" for r
    using into_integer_int_node [of "unat (po_port q)" r] b(2) by simp
  moreover have "node_location (int_node k) = loc0" for k by (simp add: int_node_def)
  ultimately have "parse_port p (i, port_node q) (ps, cl)
      = Inr (ps @ [q], bt_insert (po_port q) (indexed p i @ ''.port'') cl)"
    using assms(1)
    by (simp add: parse_port_def port_node_def Let_def take_required_def bt_get_def bt_remove_def port_ok_def)
  then show ?thesis by (simp add: fst_bt_insert)
qed

lemma fold_ports:
  "\<forall>q \<in> set qs. port_ok q \<Longrightarrow> distinct (map po_port qs) \<Longrightarrow> po_port ` set qs \<inter> fst ` set cl = {} \<Longrightarrow>
   \<exists>cl'. fold_res (parse_port p) (enumerate i (map port_node qs)) (ps, cl) = Inr (ps @ qs, cl')
     \<and> fst ` set cl' = po_port ` set qs \<union> fst ` set cl"
proof (induction qs arbitrary: i ps cl)
  case Nil
  then show ?case by simp
next
  case (Cons q qs)
  have "port_ok q" "po_port q \<notin> fst ` set cl" using Cons.prems by auto
  from parse_port_node [OF this] obtain cl1 where
    cl1: "parse_port p (i, port_node q) (ps, cl) = Inr (ps @ [q], cl1)"
      "fst ` set cl1 = insert (po_port q) (fst ` set cl)" by blast
  have "po_port ` set qs \<inter> fst ` set cl1 = {}" using Cons.prems(2,3) unfolding cl1(2) by auto
  with Cons.IH [of cl1 "Suc i" "ps @ [q]"] Cons.prems cl1 show ?case by simp
qed

lemma fold_dependencies:
  "distinct (acc @ ds) \<Longrightarrow> \<forall>d \<in> set ds. valid_name d \<Longrightarrow>
   \<exists>locs'. fold_res (parse_dependency n p) (enumerate i (map str_node ds)) (acc, locs) = Inr (acc @ ds, locs')
     \<and> fst ` set locs' = Pair n ` set ds \<union> fst ` set locs"
proof (induction ds arbitrary: i acc locs)
  case Nil
  then show ?case by simp
next
  case (Cons d ds)
  let ?locs = "bt_insert (n, d) loc0 locs"
  have "parse_dependency n p (i, str_node d) (acc, locs) = Inr (acc @ [d], ?locs)"
    using Cons.prems by (simp add: parse_dependency_def Let_def validate_name_def) (simp add: str_node_def)
  with Cons.IH [of "acc @ [d]" "Suc i" ?locs] Cons.prems show ?case
    by (simp add: fst_bt_insert)
qed

lemma parse_restart_node: "parse_restart (Some (MappingEntry loc0 (str_node (restart_text r)))) p = Inr r"
  by (cases r) (simp_all add: parse_restart_def restart_text_def Let_def)

lemma parse_service_node:
  assumes "service_ok volumes (n, s)" and "distinct (ports_of (n, s))"
    and "set (ports_of (n, s)) \<inter> fst ` set cl = {}"
  shows "\<exists>locs' cl'. parse_service n (service_node s) p volumes locs cl = Inr (s, locs', cl')
    \<and> fst ` set locs' = Pair n ` set (se_depends_on s) \<union> fst ` set locs
    \<and> fst ` set cl' = set (ports_of (n, s)) \<union> fst ` set cl"
proof -
  have ok: "se_name s = n" "valid_image (se_image s)" "command_ok (se_command s)"
    "env_ok (se_environment s)" "mounts_ok volumes (se_mounts s)" "\<forall>q \<in> set (se_ports s). port_ok q"
    "distinct (se_depends_on s)" "\<forall>d \<in> set (se_depends_on s). valid_name d"
    using assms(1) by (simp_all add: service_ok_def Let_def)
  from fold_ports [OF ok(6), of cl "p @ ''.ports''" 0 "[]"] assms(2,3) obtain cl' where
    cl': "fold_res (parse_port (p @ ''.ports'')) (enumerate 0 (map port_node (se_ports s))) ([], cl)
          = Inr (se_ports s, cl')" "fst ` set cl' = set (ports_of (n, s)) \<union> fst ` set cl"
    by (auto simp: ports_of_def)
  from fold_dependencies [of "[]" "se_depends_on s" n "p @ ''.dependsOn''" 0 locs] ok(7,8) obtain locs' where
    locs': "fold_res (parse_dependency n (p @ ''.dependsOn'')) (enumerate 0 (map str_node (se_depends_on s))) ([], locs)
            = Inr (se_depends_on s, locs')"
      "fst ` set locs' = Pair n ` set (se_depends_on s) \<union> fst ` set locs" by auto
  have "parse_command (case se_command s of None \<Rightarrow> None
        | Some ws \<Rightarrow> Some (MappingEntry loc0 (seq_node (map str_node ws)))) p = Inr (se_command s)"
    using ok(3) by (cases "se_command s") (simp_all add: parse_command_node, simp add: parse_command_def)
  moreover have "parse_mounts (Some (MappingEntry loc0 (seq_node (map mount_node (se_mounts s))))) p volumes
      = Inr (se_mounts s)"
    using ok(5) fold_mounts [of volumes "[]"] by (simp add: parse_mounts_def Let_def)
  moreover have "parse_ports (Some (MappingEntry loc0 (seq_node (map port_node (se_ports s))))) p cl
      = Inr (se_ports s, cl')" using cl'(1) by (simp add: parse_ports_def Let_def)
  moreover have "parse_dependencies (Some (MappingEntry loc0 (seq_node (map str_node (se_depends_on s))))) n p locs
      = Inr (se_depends_on s, locs')" using locs'(1) by (simp add: parse_dependencies_def Let_def)
  moreover note parse_environment_node [OF ok(4), of p] parse_restart_node [of "se_restart s" p]
  ultimately have "parse_service n (service_node s) p volumes locs cl = Inr (s, locs', cl')"
    using ok(1,2)
    by (cases "se_command s")
      (simp_all add: parse_service_def service_node_def SERVICE_FIELDS_def reject_unknown_fields_Inr
        take_required_def take_entry_def bt_get_def bt_remove_def Let_def)
  with cl'(2) locs'(2) show ?thesis by blast
qed

lemma fold_services:
  assumes "\<forall>e \<in> set es. service_ok volumes e" and "bt_wf (acc @ es)"
    and "distinct (concat (map ports_of (acc @ es)))"
    and "fst ` set cl = set (concat (map ports_of acc))"
    and "\<forall>k \<in> fst ` set locs. snd k \<in> D" and "\<forall>e \<in> set es. set (se_depends_on (snd e)) \<subseteq> D"
  shows "\<exists>locs' cl'. fold_res (parse_service_entry volumes)
      (map (\<lambda>e. (fst e, MappingEntry loc0 (service_node (snd e)))) es) (acc, locs, cl) = Inr (acc @ es, locs', cl')
    \<and> (\<forall>k \<in> fst ` set locs'. snd k \<in> D)"
  using assms
proof (induction es arbitrary: acc locs cl)
  case Nil
  then show ?case by simp
next
  case (Cons e es)
  obtain n s where e: "e = (n, s)" by (cases e)
  have dis: "distinct (ports_of (n, s))" "set (ports_of (n, s)) \<inter> fst ` set cl = {}"
    using Cons.prems(3,4) e by auto
  have ok: "service_ok volumes (n, s)" using Cons.prems(1) e by simp
  from parse_service_node [OF ok dis, of "''services.'' @ n" locs] obtain locs1 cl1 where
    p: "parse_service n (service_node s) (''services.'' @ n) volumes locs cl = Inr (s, locs1, cl1)"
      "fst ` set locs1 = Pair n ` set (se_depends_on s) \<union> fst ` set locs"
      "fst ` set cl1 = set (ports_of (n, s)) \<union> fst ` set cl" by (elim exE conjE) (rule that)
  have ins: "bt_insert n s acc = acc @ [(n, s)]"
    using Cons.prems(2) e by (intro bt_insert_last) (auto simp: bt_wf_def sorted_wrt_append)
  have vn: "valid_name n" using ok by (simp add: service_ok_def Let_def)
  have step: "parse_service_entry volumes (n, MappingEntry loc0 (service_node s)) (acc, locs, cl)
      = Inr (acc @ [(n, s)], locs1, cl1)"
    using p(1) ins vn by (simp add: parse_service_entry_def validate_name_def)
  have "fst ` set cl1 = set (concat (map ports_of (acc @ [(n, s)])))"
    using p(3) Cons.prems(4) by auto
  moreover have "\<forall>k \<in> fst ` set locs1. snd k \<in> D"
    using Cons.prems(5,6) e unfolding p(2) by auto
  moreover have "\<forall>e \<in> set es. service_ok volumes e" "bt_wf ((acc @ [(n, s)]) @ es)"
    "distinct (concat (map ports_of ((acc @ [(n, s)]) @ es)))"
    "\<forall>e \<in> set es. set (se_depends_on (snd e)) \<subseteq> D"
    using Cons.prems(1-3,6) e by simp_all
  ultimately obtain locs' cl' where r:
    "fold_res (parse_service_entry volumes) (map (\<lambda>e. (fst e, MappingEntry loc0 (service_node (snd e)))) es)
       (acc @ [(n, s)], locs1, cl1) = Inr ((acc @ [(n, s)]) @ es, locs', cl')"
    "\<forall>k \<in> fst ` set locs'. snd k \<in> D"
    using Cons.IH [of "acc @ [(n, s)]" cl1 locs1] by blast
  from r(1) have "fold_res (parse_service_entry volumes)
      (map (\<lambda>e. (fst e, MappingEntry loc0 (service_node (snd e)))) (e # es)) (acc, locs, cl)
    = Inr (acc @ e # es, locs', cl')"
    by (simp add: e step)
  with r(2) show ?case by blast
qed

lemma check_dependencies_ok:
  "\<forall>k \<in> fst ` set locs. snd k \<in> fst ` set services \<Longrightarrow> check_dependencies services locs = Inr ()"
proof (induction services locs rule: check_dependencies.induct)
  case (2 services n d l rest)
  then have "bt_get services d \<noteq> None" by (simp only: bt_get_None_iff) simp
  with 2 show ?case by simp
qed simp

lemma bs_of_last:
  assumes "\<forall>x \<in> set vs. x < v" and "sorted vs" and "distinct vs"
  shows "bs_of (v # vs) = vs @ [v]"
proof -
  have "sorted (vs @ [v])" "distinct (vs @ [v])"
    using assms by (auto simp: sorted_append less_imp_le)
  then have "bs_of (vs @ [v]) = vs @ [v]" by (simp add: bs_of_def distinct_remdups_id sorted_sort_id)
  moreover have "bs_of (v # vs) = bs_of (vs @ [v])" by (simp add: bs_of_eq_iff)
  ultimately show ?thesis by simp
qed

lemma fold_volumes:
  assumes "sorted (acc @ vs)" and "distinct (acc @ vs)" and "\<forall>v \<in> set vs. valid_name v"
  shows "fold_res parse_volume (map (\<lambda>v. (v, MappingEntry loc0 (map_node []))) vs) acc = Inr (acc @ vs)"
  using assms
proof (induction vs arbitrary: acc)
  case Nil
  then show ?case by simp
next
  case (Cons v vs)
  have "\<forall>x \<in> set acc. x < v" "sorted acc" "distinct acc"
    using Cons.prems by (auto simp: sorted_append order.strict_iff_order)
  then have "bs_of (v # acc) = acc @ [v]" by (rule bs_of_last)
  then have "parse_volume (v, MappingEntry loc0 (map_node [])) acc = Inr (acc @ [v])"
    using Cons.prems(3) by (simp add: parse_volume_def validate_name_def)
  with Cons.IH [of "acc @ [v]"] Cons.prems show ?case by simp
qed

lemma validate_header_node:
  "valid_name (mf_name m) \<Longrightarrow> validate_header (manifest_node m) = Inr (mf_name m,
     [(''services'', MappingEntry loc0 (map_node (map (\<lambda>e. (fst e, service_node (snd e))) (mf_services m)))),
      (''volumes'', MappingEntry loc0 (map_node (map (\<lambda>v. (v, map_node [])) (mf_volumes m))))])"
  by (simp add: validate_header_def manifest_node_def take_required_def bt_get_def bt_remove_def
      reject_unknown_fields_Inr validate_name_def)

lemma validate_complete:
  assumes "manifest_ok m"
  shows "validate (manifest_node m) = Inr (Inr m)"
proof -
  have ok: "valid_name (mf_name m)" "sorted (mf_volumes m)" "distinct (mf_volumes m)"
    "\<forall>v \<in> set (mf_volumes m). valid_name v" "mf_services m \<noteq> []" "bt_wf (mf_services m)"
    "\<forall>e \<in> set (mf_services m). service_ok (mf_volumes m) e"
    "distinct (concat (map ports_of (mf_services m)))" "deps_ok (mf_services m)"
    "acyclic (dep_edges (mf_services m))"
    using assms by (simp_all add: manifest_ok_def)
  have "\<forall>e \<in> set (mf_services m). set (se_depends_on (snd e)) \<subseteq> fst ` set (mf_services m)"
    using ok(9) by (simp add: deps_ok_def case_prod_beta)
  from fold_services [OF ok(7), of "[]" "[]" "[]" "fst ` set (mf_services m)"] ok(6,8) this
  obtain locs cl where f: "fold_res (parse_service_entry (mf_volumes m))
      (map (\<lambda>e. (fst e, MappingEntry loc0 (service_node (snd e)))) (mf_services m)) ([], [], [])
      = Inr (mf_services m, locs, cl)" "\<forall>k \<in> fst ` set locs. snd k \<in> fst ` set (mf_services m)"
    by auto
  have "validate_services (mf_volumes m)
      [(''services'', MappingEntry loc0 (map_node (map (\<lambda>e. (fst e, service_node (snd e))) (mf_services m))))]
    = Inr (mf_services m, loc0)"
    using f(1) check_dependencies_ok [OF f(2)] ok(5)
    by (simp add: validate_services_def take_required_def bt_get_def comp_def)
      (simp add: map_node_def)
  moreover have "parse_volumes (Some (MappingEntry loc0 (map_node (map (\<lambda>v. (v, map_node [])) (mf_volumes m)))))
      = Inr (mf_volumes m)"
    using fold_volumes [of "[]" "mf_volumes m"] ok(2-4) by (simp add: parse_volumes_def comp_def)
  ultimately have "validate_parts (manifest_node m) = Inr (mf_name m, mf_volumes m, mf_services m, loc0)"
    using validate_header_node [OF ok(1)]
    by (simp add: validate_parts_def take_entry_def bt_get_def bt_remove_def)
  with topological_order_acyclic [OF ok(6,9,10)] show ?thesis
    by (auto simp: validate_def)
qed

section \<open>Parsing\<close>

lemma parse_Inr:
  assumes "parse scan text = Inr (Inr m)"
  obtains evs root where "length text \<le> MAX_BYTES" and "read_document evs = Inr root"
    and "validate root = Inr (Inr m)"
  using assms by (auto simp: parse_def res_simps split: if_splits sum.splits)

lemma parse_sound:
  assumes "parse scan text = Inr (Inr m)"
  shows "manifest_ok m"
proof -
  from assms obtain evs root where "read_document evs = Inr root" "validate root = Inr (Inr m)"
    by (rule parse_Inr)
  with read_document_node node_at_ok show ?thesis by (metis validate_sound reader_okD)
qed

lemma manifest_ok_order:
  assumes "manifest_ok m"
  obtains order where "topological_order (mf_services m) = Inr (Inr order)"
    and "start_order_spec (mf_services m) order"
  using assms topological_order_acyclic topological_order_ok unfolding manifest_ok_def by blast

text \<open>
  Claim C17. Every manifest the parser accepts, whatever the scanner reports, is well formed:
  valid names, an image and command the engine can be given, environment keys that are neither
  invalid nor reserved, normalized mount targets that do not overlap inside a service, volume
  mounts that name declared volumes, loopback ports from 1024 that no two services share,
  dependencies that exist and have no cycle.
\<close>

theorem parse_manifest_ok:
  assumes "parse scan text = Inr (Inr m)"
  shows "manifest_ok m"
  by (rule parse_sound [OF assms])

text \<open>
  Claim C18. Validation accepts every well-formed manifest: written out as a tree it is read
  back unchanged, so nothing the rest of the program could run is refused.
\<close>

theorem validate_manifest_node:
  assumes "manifest_ok m"
  shows "validate (manifest_node m) = Inr (Inr m)"
  by (rule validate_complete [OF assms])

text \<open>
  For an accepted manifest the start order exists (its \<^verbatim>\<open>expect\<close> never fires), starts
  every service once and after its dependencies, by name among those that could start, and the
  stop order is its reverse: every service stops before the services it depends on.
\<close>

theorem parsed_start_order:
  assumes "parse scan text = Inr (Inr m)"
  shows "\<exists>order. start_order m = Inr order \<and> stop_order m = Inr (rev order)
    \<and> start_order_spec (mf_services m) order"
proof -
  from manifest_ok_order [OF parse_sound [OF assms]] obtain order where
    "topological_order (mf_services m) = Inr (Inr order)" "start_order_spec (mf_services m) order" .
  then show ?thesis by (simp add: start_order_def stop_order_def)
qed

lemma validate_total:
  assumes "node_ok k root"
  shows "\<exists>r. validate root = Inr r"
proof (cases "validate_parts root")
  case (Inl e)
  then show ?thesis by (simp add: validate_def)
next
  case (Inr v)
  obtain name volumes services loc where v: "v = (name, volumes, services, loc)" by (cases v)
  with Inr obtain top3 where h: "validate_header root = Inr (name, top3)"
    and s: "validate_services volumes (bt_remove ''volumes'' top3) = Inr (services, loc)"
    by (auto simp: validate_parts_def take_entry_def andthen_Inr_iff)
  from validate_header_ok [OF h] obtain top l where top: "root = Mapping top l" "set top3 \<subseteq> set top"
    by blast
  from validate_services_ok [OF s entries_wf [OF assms top]] have "bt_wf services" by simp
  then obtain r where "topological_order services = Inr r"
    by (rule topological_order_end) auto
  with Inr v show ?thesis by (cases r) (auto simp: validate_def)
qed

lemma parse_total: "\<exists>r. parse scan text = Inr r"
proof (cases "andthen (collect_events 0 (scan text)) read_document")
  case (Inl e)
  then show ?thesis by (simp add: parse_def)
next
  case (Inr root)
  then obtain evs where "read_document evs = Inr root" by (auto simp: andthen_Inr_iff)
  then obtain c c' where "node_at (Suc MAX_DEPTH) c = Inr (root, c')" by (rule read_document_node)
  with node_at_ok have "node_ok MAX_DEPTH root" by (metis reader_okD diff_Suc_1)
  from validate_total [OF this] Inr show ?thesis by (simp add: parse_def)
qed

lemma load_text_Inr:
  "load_text path meta contents = Inr text \<Longrightarrow>
     contents = Inr text \<and> utf8_valid text \<and> (\<exists>md. meta = Inr md \<and> is_file md \<and> \<not> is_symlink md)"
  by (auto simp: load_text_def read_to_string_def res_simps split: if_splits)

lemma load_total: "\<exists>r. load scan path meta contents = Inr r"
proof (cases "load_text path meta contents")
  case (Inr t)
  then show ?thesis using parse_total [of scan t] by (auto simp: load_def)
qed (simp add: load_def)

text \<open>
  Claim C23. Loading never panics, and what it returns is a well-formed manifest with the text
  of a regular file of at most 64 KiB that is valid UTF-8; a symbolic link, another kind of
  file or a longer file is refused.
\<close>

theorem load_manifest_ok:
  "case load scan path meta contents of
     Inr (Inr (m, text)) \<Rightarrow> manifest_ok m \<and> length text \<le> MAX_BYTES \<and> utf8_valid text
       \<and> contents = Inr text \<and> (\<exists>md. meta = Inr md \<and> is_file md \<and> \<not> is_symlink md)
   | Inr (Inl e) \<Rightarrow> True
   | Inl Panic \<Rightarrow> False"
proof (cases "load_text path meta contents")
  case (Inl e)
  then show ?thesis by (simp add: load_def)
next
  case (Inr contents')
  then have loaded: "load_text path meta contents = Inr contents'" .
  obtain r where r: "parse scan contents' = Inr r" using parse_total [of scan contents'] by blast
  show ?thesis
  proof (cases r)
    case (Inl e)
    with r loaded show ?thesis by (simp add: load_def)
  next
    case (Inr m)
    with r have p: "parse scan contents' = Inr (Inr m)" by simp
    then have "length contents' \<le> MAX_BYTES" by (rule parse_Inr)
    with parse_sound [OF p] load_text_Inr [OF loaded] loaded p show ?thesis by (simp add: load_def)
  qed
qed

definition sample_manifest :: manifest where
  "sample_manifest = \<lparr>mf_name = ''demo'', mf_services =
     [(''db'', \<lparr>se_name = ''db'', se_image = ''postgres'', se_command = None,
               se_environment = [(''MODE'', ''x'')],
               se_mounts = [\<lparr>mo_kind = Volume, mo_source = ''data'', mo_target = ''/var/lib''\<rparr>],
               se_ports = [\<lparr>po_address = ''127.0.0.1'', po_port = 5432\<rparr>],
               se_depends_on = [], se_restart = Always\<rparr>),
      (''web'', \<lparr>se_name = ''web'', se_image = ''nginx'', se_command = Some [''run''],
               se_environment = [], se_mounts = [], se_ports = [], se_depends_on = [''db''],
               se_restart = No\<rparr>)],
     mf_volumes = [''data'']\<rparr>"

definition sample_scan :: "string \<Rightarrow> (string + spanned) list" where
  "sample_scan text = map Inr (emit_document loc0 (manifest_node sample_manifest))"

lemma collect_ok: "n + length evs \<le> MAX_NODES * 4 \<Longrightarrow> collect_events n (map Inr evs) = Inr evs"
  by (induction evs arbitrary: n) auto

lemma sample_manifest_ok: "manifest_ok sample_manifest"
proof -
  have t: "topological_order (mf_services sample_manifest) = Inr (Inr [''db'', ''web''])" by code_simp
  have wf: "bt_wf (mf_services sample_manifest)" "deps_ok (mf_services sample_manifest)"
    by (simp_all add: sample_manifest_def bt_wf_def deps_ok_def)
  have "\<forall>e \<in> set (mf_services sample_manifest). service_ok (mf_volumes sample_manifest) e"
    by (simp add: sample_manifest_def service_ok_def command_ok_def env_ok_def mounts_ok_def mount_ok_def
        port_ok_def) code_simp
  moreover have "acyclic (dep_edges (mf_services sample_manifest))"
    by (rule start_order_acyclic [OF topological_order_ok [OF wf t]])
  moreover have "valid_name ''demo''" "valid_name ''data''" by code_simp+
  ultimately show ?thesis
    unfolding manifest_ok_def using wf by (simp add: sample_manifest_def ports_of_def)
qed

lemma sample_node_limits:
  "node_ok MAX_DEPTH (manifest_node sample_manifest)" "node_count (manifest_node sample_manifest) \<le> MAX_NODES"
proof -
  note nodes = manifest_node_def service_node_def mount_node_def port_node_def str_node_def int_node_def
    seq_node_def map_node_def sample_manifest_def restart_text_def API_VERSION_def
  have "node_ok (Suc (Suc (Suc (Suc (Suc k))))) (manifest_node sample_manifest)" for k
    by (simp add: nodes show_nat.simps key_ok_def bt_wf_def MAX_COLLECTION_ITEMS_def MAX_SCALAR_BYTES_def)
  from this [of 11] show "node_ok MAX_DEPTH (manifest_node sample_manifest)" by (simp add: MAX_DEPTH_def)
  show "node_count (manifest_node sample_manifest) \<le> MAX_NODES" by (simp add: nodes MAX_NODES_def)
qed

lemma parse_sample: "parse sample_scan ''x'' = Inr (Inr sample_manifest)"
proof -
  have "length (emit_document loc0 (manifest_node sample_manifest)) \<le> MAX_NODES * 4"
    by (simp add: emit_document_def manifest_node_def service_node_def mount_node_def port_node_def
        str_node_def int_node_def seq_node_def map_node_def sample_manifest_def MAX_NODES_def)
  then have "collect_events 0 (sample_scan ''x'') = Inr (emit_document loc0 (manifest_node sample_manifest))"
    by (simp add: sample_scan_def collect_ok)
  then show ?thesis
    using read_emit [OF sample_node_limits, of loc0] validate_complete [OF sample_manifest_ok]
    by (simp add: parse_def MAX_BYTES_def)
qed

lemma parse_manifest_ok_witness: "manifest_ok sample_manifest"
  by (rule parse_manifest_ok [OF parse_sample])

lemma validate_manifest_node_witness:
  "validate (manifest_node sample_manifest) = Inr (Inr sample_manifest)"
  by (rule validate_manifest_node [OF parse_sound [OF parse_sample]])

lemma parsed_start_order_witness:
  "start_order sample_manifest = Inr [''db'', ''web'']
   \<and> stop_order sample_manifest = Inr [''web'', ''db'']
   \<and> start_order_spec (mf_services sample_manifest) [''db'', ''web'']"
proof -
  have "start_order sample_manifest = Inr [''db'', ''web'']" by code_simp
  with parsed_start_order [OF parse_sample] show ?thesis by auto
qed

end
