(* ===== verification/Store_Journal.thy ===== *)
theory Store_Journal
  imports Store_Schema Manifest
begin

text \<open>
  The helpers the operations of the journal share (\<^verbatim>\<open>src/store.rs\<close>, the free functions at its
  end): queries over the tables, the derived state of a stack, the phase of a service inside an
  operation, and the test that decides whether a failed candidate may be superseded.
\<close>

section \<open>Rows\<close>

text \<open>\<^verbatim>\<open>WHERE stack_name = ?1 AND name = ?2 AND active = 1\<close>.\<close>

definition the_service :: "string \<Rightarrow> string \<Rightarrow> service_row \<Rightarrow> bool" where
  "the_service stack service r \<longleftrightarrow> sv_stack r = stack \<and> sv_name r = service \<and> sv_active r"

definition the_generation :: "string \<Rightarrow> string \<Rightarrow> int \<Rightarrow> rootfs_row \<Rightarrow> bool" where
  "the_generation stack service generation r \<longleftrightarrow>
     rg_stack r = stack \<and> rg_service r = service \<and> rg_generation r = generation"

definition the_opservice :: "string \<Rightarrow> string \<Rightarrow> string \<Rightarrow> opservice_row \<Rightarrow> bool" where
  "the_opservice request stack service r \<longleftrightarrow>
     os_request r = request \<and> os_stack r = stack \<and> os_service r = service"

definition service_subject :: "string \<Rightarrow> string \<Rightarrow> msg" where
  "service_subject stack service = [Txt ''service '', Dbg stack, Txt ''/'', Dbg service]"

definition lossy :: "string \<Rightarrow> string" where
  "lossy path = utf8_lossy path"

section \<open>Queries\<close>

definition service_names :: "string \<Rightarrow> db \<Rightarrow> string list" where
  "service_names stack d =
     bs_of (map sv_name (filter (\<lambda>r. sv_stack r = stack \<and> sv_active r) (services_tbl d)))"

definition service_stack_names :: "db \<Rightarrow> string list" where
  "service_stack_names d = bs_of (map sv_stack (filter sv_active (services_tbl d)))"

definition find_stack :: "string \<Rightarrow> db \<Rightarrow> stack_row option" where
  "find_stack name d = find (\<lambda>r. sk_name r = name) (stacks_tbl d)"

definition find_service :: "string \<Rightarrow> string \<Rightarrow> db \<Rightarrow> service_row option" where
  "find_service stack service d = find (the_service stack service) (services_tbl d)"

definition find_generation :: "string \<Rightarrow> string \<Rightarrow> int \<Rightarrow> db \<Rightarrow> rootfs_row option" where
  "find_generation stack service g d = find (the_generation stack service g) (rootfs_tbl d)"

definition committed_revision :: "string \<Rightarrow> db \<Rightarrow> int option" where
  "committed_revision name d = map_option sk_revision (find_stack name d)"

definition stack_subject :: "string \<Rightarrow> msg" where
  "stack_subject stack = [Txt ''stack '', Dbg stack]"

definition existing_revision :: "string \<Rightarrow> db \<Rightarrow> store_error + int" where
  "existing_revision stack d = ok_or (NotFound (stack_subject stack)) (committed_revision stack d)"

text \<open>\<^verbatim>\<open>SELECT max(generation)\<close>: NULL when the service has no generation.\<close>

definition latest_generation :: "string \<Rightarrow> string \<Rightarrow> db \<Rightarrow> int option" where
  "latest_generation stack service d =
     (case map rg_generation (filter (\<lambda>r. rg_stack r = stack \<and> rg_service r = service) (rootfs_tbl d)) of
        [] \<Rightarrow> None
      | g # gs \<Rightarrow> Some (foldl max g gs))"

definition next_generation :: "string \<Rightarrow> string \<Rightarrow> db \<Rightarrow> int" where
  "next_generation stack service d =
     (case latest_generation stack service d of None \<Rightarrow> 0 | Some g \<Rightarrow> g) + 1"

definition operation_rows :: "string \<Rightarrow> db \<Rightarrow> opservice_row list" where
  "operation_rows request d =
     sort_key os_ordinal (filter (\<lambda>r. os_request r = request) (opservices_tbl d))"

definition reject_unfinished_operation :: "string \<Rightarrow> unit tx" where
  "reject_unfinished_operation stack =
     tx_bind (tx_query (\<lambda>d. find (\<lambda>r. op_stack r = stack \<and> op_outcome r = None) (operations_tbl d))) (\<lambda>found.
       case found of
         Some r \<Rightarrow> tx_fail (Conflict [Txt ''stack '', Dbg stack, Txt '' has unfinished operation '', Dbg (op_request r)])
       | None \<Rightarrow> tx_return ())"

text \<open>A NULL in \<^verbatim>\<open>generation\<close> is a conversion error of the column, not a missing row.\<close>

definition operation_generation :: "string \<Rightarrow> string \<Rightarrow> string \<Rightarrow> db \<Rightarrow> store_error + int" where
  "operation_generation request stack service d =
     (case find (the_opservice request stack service) (opservices_tbl d) of
        None \<Rightarrow> Inl (NotFound [Txt ''operation service '', Dbg request, Txt ''/'', Dbg service])
      | Some r \<Rightarrow> ok_or (Sql ''InvalidColumnType'') (os_generation r))"

section \<open>The derived state of a stack\<close>

definition derive_state :: "string \<Rightarrow> string list \<Rightarrow> string" where
  "derive_state desired states =
     (if list_ex (\<lambda>v. v = ''unknown'') states then ''unknown''
      else if desired = ''stopped'' then
        (if list_all (\<lambda>v. v = ''stopped'') states then ''stopped'' else ''stopping'')
      else if list_all (\<lambda>v. v = ''running'') states then ''running''
      else if list_ex (\<lambda>v. v = ''failed'') states then ''failed''
      else if list_ex (\<lambda>v. v = ''stopping'' \<or> v = ''restarting'') states then ''restarting''
      else ''starting'')"

definition observed_states :: "string \<Rightarrow> db \<Rightarrow> string list" where
  "observed_states stack d =
     map sv_observed (sort_key sv_name (filter (\<lambda>r. sv_stack r = stack \<and> sv_active r) (services_tbl d)))"

definition refresh_stack_state :: "string \<Rightarrow> int \<Rightarrow> unit tx" where
  "refresh_stack_state stack now =
     tx_bind (tx_read (\<lambda>d. ok_or (NotFound (stack_subject stack)) (map_option sk_desired (find_stack stack d)))) (\<lambda>desired.
     tx_bind (tx_query (observed_states stack)) (\<lambda>states.
     exactly_one (update_stacks (\<lambda>r. sk_name r = stack)
                    (\<lambda>r. r\<lparr>sk_observed := derive_state desired states, sk_updated := now\<rparr>))
       (stack_subject stack)))"

section \<open>The phase of a service in an operation\<close>

definition set_service_phase :: "string \<Rightarrow> string \<Rightarrow> string \<Rightarrow> string \<Rightarrow> int \<Rightarrow> unit tx" where
  "set_service_phase request stack service phase now =
     tx_bind (exactly_one
       (update_opservices (\<lambda>r. the_opservice request stack service r \<and> os_outcome r = None)
          (\<lambda>r. r\<lparr>os_phase := phase\<rparr>))
       [Txt ''unfinished operation service '', Dbg request, Txt ''/'', Dbg service]) (\<lambda>_.
     exactly_one
       (update_services (the_service stack service) (\<lambda>r. r\<lparr>sv_phase := phase, sv_updated := now\<rparr>))
       (service_subject stack service))"

section \<open>Failed candidates\<close>

record candidate_generation =
  cg_generation :: int
  cg_alias :: string
  cg_image :: string
  cg_state :: string
  cg_role :: string
  cg_stdout :: string
  cg_stderr :: string

definition recovery_generation :: "string \<Rightarrow> string \<Rightarrow> int \<Rightarrow> db \<Rightarrow> store_error + candidate_generation" where
  "recovery_generation stack service generation d =
     (case (find_generation stack service generation d,
            find (\<lambda>v. sv_stack v = stack \<and> sv_name v = service) (services_tbl d)) of
        (Some r, Some v) \<Rightarrow>
          Inr \<lparr>cg_generation = rg_generation r, cg_alias = rg_alias r, cg_image = rg_image r,
               cg_state = rg_state r, cg_role = rg_role r, cg_stdout = sv_stdout v, cg_stderr = sv_stderr v\<rparr>
      | _ \<Rightarrow> Inl (Conflict [Txt ''candidate recovery generation '', Dbg stack, Txt ''/'', Dbg service,
                          Txt ''/'', Num generation, Txt '' no longer exists'']))"

definition terminal_safe :: "candidate_generation \<Rightarrow> string \<Rightarrow> bool" where
  "terminal_safe c phase \<longleftrightarrow>
     (cg_state c = ''installed'' \<and> cg_role c \<in> {''candidate'', ''retired''})
     \<or> (cg_state c = ''absent'' \<and> cg_role c \<in> {''candidate'', ''retired''})
     \<or> (cg_state c = ''preparing'' \<and> cg_role c = ''candidate'' \<and> phase = ''failed_pre_effect'')"

fun terminal_rows_safe :: "string \<Rightarrow> opservice_row list \<Rightarrow> db \<Rightarrow> store_error + bool" where
  "terminal_rows_safe stack [] d = Inr True"
| "terminal_rows_safe stack (row # rows) d =
     (case os_generation row of
        None \<Rightarrow> Inr False
      | Some generation \<Rightarrow>
          if latest_generation stack (os_service row) d \<noteq> Some generation then Inr False
          else andthen (recovery_generation stack (os_service row) generation d) (\<lambda>c.
            if \<not> terminal_safe c (os_phase row) then Inr False
            else terminal_rows_safe stack rows d))"

definition terminal_candidate_allows_fresh_up ::
    "string \<Rightarrow> string list \<Rightarrow> string \<Rightarrow> db \<Rightarrow> store_error + bool" where
  "terminal_candidate_allows_fresh_up stack expected_services request d =
     (let rows = operation_rows request d in
      if bs_of (map os_service rows) \<noteq> expected_services \<or> length rows \<noteq> length expected_services
         \<or> list_ex (\<lambda>r. os_stack r \<noteq> stack) rows then Inr False
      else terminal_rows_safe stack rows d)"

definition failed_ups :: "string \<Rightarrow> int \<Rightarrow> db \<Rightarrow> operation_row list" where
  "failed_ups stack revision d =
     sort_key op_request (filter (\<lambda>r. op_stack r = stack \<and> op_operation r = ''up''
       \<and> op_outcome r = Some ''failure'' \<and> op_revision r = Some revision) (operations_tbl d))"

text \<open>A loop that returns at the first candidate the test accepts.\<close>

fun any_terminal_safe :: "string \<Rightarrow> string list \<Rightarrow> string list \<Rightarrow> db \<Rightarrow> store_error + bool" where
  "any_terminal_safe stack expected [] d = Inr False"
| "any_terminal_safe stack expected (request # requests) d =
     andthen (terminal_candidate_allows_fresh_up stack expected request d) (\<lambda>safe.
       if safe then Inr True else any_terminal_safe stack expected requests d)"

definition revision_zero_candidate_allows_fresh_up :: "string \<Rightarrow> string list \<Rightarrow> db \<Rightarrow> store_error + bool" where
  "revision_zero_candidate_allows_fresh_up stack active_services d =
     (if active_services = [] then Inr True
      else any_terminal_safe stack active_services (map op_request (failed_ups stack 1 d)) d)"

section \<open>The journaled configuration of a service\<close>

definition mount_json :: "mount \<Rightarrow> json" where
  "mount_json m = JObj [(''kind'', JStr (case mo_kind m of Volume \<Rightarrow> ''volume'' | Bind \<Rightarrow> ''bind'')),
     (''source'', JStr (mo_source m)), (''target'', JStr (mo_target m))]"

definition port_json :: "port \<Rightarrow> json" where
  "port_json p = JObj [(''address'', JStr (po_address p)), (''port'', JInt (uint (po_port p)))]"

definition service_config_json :: "service \<Rightarrow> json" where
  "service_config_json s = JObj
     [(''command'', case se_command s of None \<Rightarrow> JNull | Some ws \<Rightarrow> JArr (map JStr ws)),
      (''dependsOn'', JArr (map JStr (se_depends_on s))),
      (''environment'', JObj (map (\<lambda>e. (fst e, JStr (snd e))) (se_environment s))),
      (''image'', JStr (se_image s)),
      (''mounts'', JArr (map mount_json (se_mounts s))),
      (''ports'', JArr (map port_json (se_ports s))),
      (''restart'', JStr (restart_text (se_restart s)))]"

lemma JStr_map_inj: "map JStr xs = map JStr ys \<longleftrightarrow> xs = ys"
  by (rule inj_map_eq_map) (simp add: inj_def)

lemma mount_json_inj: "mount_json a = mount_json b \<longleftrightarrow> a = b"
  by (cases a; cases b) (auto simp: mount_json_def split: mount_kind.splits)

lemma port_json_inj: "port_json a = port_json b \<longleftrightarrow> a = b"
  by (cases a; cases b) (auto simp: port_json_def word_uint_eq_iff)

lemma map_inj_iff: "(\<And>a b. f a = f b \<longleftrightarrow> a = b) \<Longrightarrow> map f xs = map f ys \<longleftrightarrow> xs = ys"
  by (rule inj_map_eq_map) (simp add: inj_def)

lemma restart_text_inj: "restart_text a = restart_text b \<longleftrightarrow> a = b"
  by (cases a; cases b) (simp_all add: restart_text_def)

lemma env_json_inj:
  "map (\<lambda>e. (fst e, JStr (snd e))) xs = map (\<lambda>e. (fst e, JStr (snd e))) ys \<longleftrightarrow> xs = ys"
  by (rule map_inj_iff) (auto simp: prod_eq_iff)

text \<open>
  The journaled configuration determines everything about a service but its name, so comparing
  configurations compares services.
\<close>

lemma service_config_json_inj:
  assumes "service_config_json a = service_config_json b" and "se_name a = se_name b"
  shows "a = b"
proof -
  have "se_command a = se_command b"
    using assms(1) by (cases "se_command a"; cases "se_command b")
      (simp_all add: service_config_json_def JStr_map_inj)
  with assms show ?thesis
    by (cases a; cases b)
      (simp add: service_config_json_def JStr_map_inj env_json_inj restart_text_inj
        map_inj_iff [OF mount_json_inj] map_inj_iff [OF port_json_inj])
qed

end
