(* ===== verification/Store_Up.thy ===== *)
theory Store_Up
  imports Store_Journal
begin

text \<open>
  Preparing a revision (\<^verbatim>\<open>src/store.rs\<close>): \<^verbatim>\<open>begin_up\<close> journals a fresh candidate, and
  \<^verbatim>\<open>begin_candidate_recovery\<close> takes over a failed one, reusing what is installed and replacing
  what never reached the engine.
\<close>

record service_plan =
  pl_alias :: string
  pl_stdout :: string
  pl_stderr :: string

type_synonym plans = "(string \<times> service_plan) list"

section \<open>Fresh candidates\<close>

text \<open>A service that may not be replaced: still active, ambiguous, or with an identity.\<close>

definition unsafe_service :: "service_row \<Rightarrow> bool" where
  "unsafe_service r \<longleftrightarrow> sv_observed r \<notin> {''stopped'', ''failed''} \<or> sv_phase r = ''unknown''
     \<or> sv_pid r \<noteq> None \<or> sv_session r \<noteq> None \<or> sv_starttime r \<noteq> None \<or> sv_boot r \<noteq> None
     \<or> sv_next r \<noteq> None"

definition unsafe_count :: "string \<Rightarrow> db \<Rightarrow> nat" where
  "unsafe_count stack d =
     matching (\<lambda>r. sv_stack r = stack \<and> sv_active r \<and> unsafe_service r) (services_tbl d)"

definition manifest_names :: "manifest \<Rightarrow> string list" where
  "manifest_names m = bs_of (map fst (mf_services m))"

definition plan_names :: "plans \<Rightarrow> string list" where
  "plan_names ps = bs_of (map fst ps)"

definition order_tx :: "manifest \<Rightarrow> string list tx" where
  "order_tx m = tx_lift (map_err (\<lambda>_. Crash) (start_order m))"

definition retire_candidate :: "string \<Rightarrow> string \<Rightarrow> int \<Rightarrow> unit tx" where
  "retire_candidate stack service now = any_number
     (update_rootfs (\<lambda>r. rg_stack r = stack \<and> rg_service r = service \<and> rg_role r = ''candidate'')
        (\<lambda>r. r\<lparr>rg_role := ''retired'', rg_updated := now\<rparr>))"

definition new_candidate :: "string \<Rightarrow> string \<Rightarrow> int \<Rightarrow> string \<Rightarrow> string \<Rightarrow> int \<Rightarrow> rootfs_row" where
  "new_candidate stack service generation alias img now =
     \<lparr>rg_stack = stack, rg_service = service, rg_generation = generation, rg_alias = alias,
      rg_image = img, rg_state = ''preparing'', rg_role = ''candidate'', rg_created = now, rg_updated = now\<rparr>"

definition up_operation ::
    "string \<Rightarrow> string \<Rightarrow> string \<Rightarrow> string \<Rightarrow> string \<Rightarrow> int \<Rightarrow> int \<Rightarrow> operation_row" where
  "up_operation request stack phase source base revision now =
     \<lparr>op_request = request, op_stack = stack, op_operation = ''up'', op_phase = phase,
      op_manifest = Some source, op_base = Some base, op_revision = Some revision, op_target = None,
      op_outcome = None, op_error_code = None, op_error_message = None, op_response = None,
      op_created = now, op_updated = now\<rparr>"

definition new_opservice ::
    "string \<Rightarrow> string \<Rightarrow> string \<Rightarrow> nat \<Rightarrow> string \<Rightarrow> json option \<Rightarrow> int option \<Rightarrow> opservice_row" where
  "new_opservice request stack service ordinal phase config generation =
     \<lparr>os_request = request, os_stack = stack, os_service = service, os_ordinal = int ordinal,
      os_phase = phase, os_outcome = None, os_config = config, os_generation = generation,
      os_error_code = None, os_error_message = None\<rparr>"

definition retire_obsolete :: "string \<Rightarrow> int \<Rightarrow> string \<Rightarrow> unit tx" where
  "retire_obsolete stack now obsolete =
     tx_bind (retire_candidate stack obsolete now) (\<lambda>_.
     exactly_one
       (update_services (the_service stack obsolete)
          (\<lambda>r. r\<lparr>sv_active := False, sv_desired := ''stopped'', sv_next := None, sv_updated := now\<rparr>))
       [Txt ''active service '', Dbg stack, Txt ''/'', Dbg obsolete])"

definition begin_up_existing :: "manifest \<Rightarrow> int \<Rightarrow> int \<Rightarrow> unit tx" where
  "begin_up_existing m revision now =
     (let stack = mf_name m in
      tx_bind (tx_query (service_names stack)) (\<lambda>current_names.
      tx_bind (tx_check (\<not> (0 < revision \<and> current_names \<noteq> manifest_names m))
        (Conflict [Txt ''adding or removing services during update is deferred; service names must match the committed revision''])) (\<lambda>_.
      tx_bind (tx_query (unsafe_count stack)) (\<lambda>unsafe_services.
      tx_bind (tx_check (unsafe_services = 0)
        (Conflict [Txt ''stack '', Dbg stack, Txt '' must be fully stopped before preparing a new revision''])) (\<lambda>_.
      tx_bind (tx_read (\<lambda>d. if revision = 0
          then revision_zero_candidate_allows_fresh_up stack current_names d else Inr True)) (\<lambda>allowed.
      tx_bind (tx_check allowed
        (Conflict [Txt ''stack '', Dbg stack,
           Txt '' has a never-committed candidate that is structurally incomplete, unknown, or may have invoked an engine effect''])) (\<lambda>_.
      tx_bind (tx_when (revision = 0)
        (tx_for (filter (\<lambda>n. n \<notin> set (manifest_names m)) current_names) (retire_obsolete stack now))) (\<lambda>_.
      any_number (update_stacks (\<lambda>r. sk_name r = stack)
        (\<lambda>r. r\<lparr>sk_desired := ''running'', sk_observed := ''starting'', sk_updated := now\<rparr>))))))))))"

definition begin_up_service :: "string \<Rightarrow> manifest \<Rightarrow> plans \<Rightarrow> int \<Rightarrow> nat \<times> string \<Rightarrow> unit tx" where
  "begin_up_service request m plans now iv =
     (let stack = mf_name m; service_name = snd iv in
      tx_bind (tx_lift (ok_or Crash (bt_get (mf_services m) service_name))) (\<lambda>service.
      tx_bind (tx_lift (ok_or Crash (bt_get plans service_name))) (\<lambda>plan.
      let config = service_config_json service in
      tx_bind (retire_candidate stack service_name now) (\<lambda>_.
      tx_bind (tx_query (next_generation stack service_name)) (\<lambda>generation.
      tx_bind (tx_query (\<lambda>d. list_ex (\<lambda>r. sv_stack r = stack \<and> sv_name r = service_name) (services_tbl d))) (\<lambda>service_exists.
      tx_bind
        (if service_exists then
           exactly_one
             (update_services (\<lambda>r. sv_stack r = stack \<and> sv_name r = service_name)
                (\<lambda>r. r\<lparr>sv_active := True, sv_desired := ''running'', sv_observed := ''preparing'',
                      sv_phase := ''intent'', sv_session := None, sv_pid := None, sv_starttime := None,
                      sv_boot := None, sv_exit_code := None, sv_exit_signal := None, sv_attempts := 0,
                      sv_window := None, sv_next := None, sv_stdout := lossy (pl_stdout plan),
                      sv_stderr := lossy (pl_stderr plan), sv_updated := now\<rparr>))
             (service_subject stack service_name)
         else
           insert_service \<lparr>sv_stack = stack, sv_name = service_name, sv_active = True, sv_config = config,
             sv_desired = ''running'', sv_observed = ''preparing'', sv_alias = None, sv_generation = None,
             sv_phase = ''intent'', sv_session = None, sv_pid = None, sv_starttime = None, sv_boot = None,
             sv_exit_code = None, sv_exit_signal = None, sv_attempts = 0, sv_window = None, sv_next = None,
             sv_stdout = lossy (pl_stdout plan), sv_stderr = lossy (pl_stderr plan),
             sv_created = now, sv_updated = now\<rparr>) (\<lambda>_.
      tx_bind (insert_rootfs (new_candidate stack service_name generation (pl_alias plan) (se_image service) now)) (\<lambda>_.
      insert_opservice (new_opservice request stack service_name (fst iv) ''intent'' (Some config) (Some generation))))))))))"

definition begin_up :: "string \<Rightarrow> string \<Rightarrow> string \<Rightarrow> manifest \<Rightarrow> plans \<Rightarrow> int \<Rightarrow> int tx" where
  "begin_up request source manifest_base m plans clk =
     (let stack = mf_name m in
      tx_bind (tx_check (manifest_names m = plan_names plans)
        (Conflict [Txt ''service plans must match the manifest service set exactly''])) (\<lambda>_.
      tx_bind (tx_lift (unix_time clk)) (\<lambda>now.
      tx_bind (reject_unfinished_operation stack) (\<lambda>_.
      tx_bind (tx_query (committed_revision stack)) (\<lambda>existing.
      let existing_revision = (case existing of None \<Rightarrow> 0 | Some r \<Rightarrow> r);
          revision = existing_revision + 1 in
      tx_bind (case existing of
          Some _ \<Rightarrow> begin_up_existing m existing_revision now
        | None \<Rightarrow> insert_stack \<lparr>sk_name = stack, sk_desired = ''running'', sk_observed = ''starting'',
              sk_manifest = [], sk_base = [], sk_revision = 0, sk_created = now, sk_updated = now\<rparr>) (\<lambda>_.
      tx_bind (insert_operation
        (up_operation request stack ''intent'' source (lossy manifest_base) revision now)) (\<lambda>_.
      tx_bind (order_tx m) (\<lambda>order.
      tx_bind (tx_for (enumerate 0 order) (begin_up_service request m plans now)) (\<lambda>_.
      tx_return revision)))))))))"

section \<open>Taking over a failed candidate\<close>

record recovery_service =
  rs_plan :: service_plan
  rs_reuse_installed :: bool

record candidate_recovery =
  cr_revision :: int
  cr_services :: "(string \<times> recovery_service) list"

text \<open>The rows of one earlier operation describe exactly this manifest.\<close>

definition exact_rows :: "manifest \<Rightarrow> opservice_row list \<Rightarrow> bool" where
  "exact_rows m rows \<longleftrightarrow>
     bs_of (map os_service rows) = manifest_names m
     \<and> fold (\<lambda>r. bt_insert (os_service r) (the (os_config r))) (filter (\<lambda>r. os_config r \<noteq> None) rows) []
         = map (\<lambda>e. (fst e, service_config_json (snd e))) (mf_services m)
     \<and> list_all (\<lambda>r. os_generation r \<noteq> None) rows"

text \<open>
  The search for the previous attempt: the rows found, if any, and whether some attempt had
  the exact structure.
\<close>

fun find_previous :: "manifest \<Rightarrow> string list \<Rightarrow> bool \<Rightarrow> db \<Rightarrow> store_error + opservice_row list option \<times> bool" where
  "find_previous m [] exact d = Inr (None, exact)"
| "find_previous m (previous # rest) exact d =
     (let rows = operation_rows previous d in
      if list_ex (\<lambda>r. os_stack r \<noteq> mf_name m) rows then find_previous m rest exact d
      else
        let structural = exact_rows m rows in
        if structural then
          andthen (terminal_candidate_allows_fresh_up (mf_name m) (manifest_names m) previous d) (\<lambda>safe.
            if safe then Inr (Some rows, True) else find_previous m rest True d)
        else find_previous m rest exact d)"

definition no_recoverable :: "string \<Rightarrow> store_error" where
  "no_recoverable stack = NotFound [Txt ''recoverable candidate for stack '', Dbg stack]"

definition select_previous :: "manifest \<Rightarrow> string \<Rightarrow> string \<Rightarrow> int \<Rightarrow> string list \<Rightarrow> db \<Rightarrow> store_error + opservice_row list" where
  "select_previous m source base committed current_names d =
     (let stack = mf_name m;
          failed = failed_ups stack (committed + 1) d in
      if failed = [] then Inl (no_recoverable stack)
      else andthen (any_terminal_safe stack current_names (map op_request failed) d) (\<lambda>terminal_safe_candidate.
        if current_names \<noteq> manifest_names m then
          (if committed = 0 \<and> terminal_safe_candidate then Inl (no_recoverable stack)
           else Inl (Conflict [Txt ''candidate recovery refused: changing the logical service set requires a terminal-safe, never-committed candidate'']))
        else
          let prior = map op_request (filter (\<lambda>r. op_manifest r = Some source \<and> op_base r = Some base) failed) in
          if prior = [] then
            (if terminal_safe_candidate then Inl (no_recoverable stack)
             else Inl (Conflict [Txt ''candidate recovery refused: the latest failed candidate is structurally incomplete, unknown, or may have invoked an engine effect'']))
          else andthen (find_previous m prior False d) (\<lambda>(previous, exact).
            case previous of
              Some rows \<Rightarrow> Inr rows
            | None \<Rightarrow>
                if exact \<and> terminal_safe_candidate then Inl (no_recoverable stack)
                else Inl (Conflict [Txt ''candidate generations do not belong to a failed up with the exact manifest, base, and service configuration'']))))"

definition replace_pre_effect :: "candidate_generation \<Rightarrow> string \<Rightarrow> bool" where
  "replace_pre_effect c phase \<longleftrightarrow>
     (cg_state c = ''absent'' \<and> cg_role c \<in> {''candidate'', ''retired''})
     \<or> (cg_state c = ''preparing'' \<and> cg_role c = ''candidate'' \<and> phase = ''failed_pre_effect'')"

definition reuse_installed :: "candidate_generation \<Rightarrow> bool" where
  "reuse_installed c \<longleftrightarrow> cg_state c = ''installed'' \<and> cg_role c = ''candidate''"

text \<open>One service of the previous attempt: its candidate, and whether it is reused.\<close>

definition classify_candidate ::
    "manifest \<Rightarrow> plans \<Rightarrow> opservice_row list \<Rightarrow> string \<Rightarrow> db \<Rightarrow> store_error + candidate_generation \<times> bool" where
  "classify_candidate m fresh_plans rows service_name d =
     (let stack = mf_name m in
      andthen (ok_or Crash (find (\<lambda>r. os_service r = service_name) (rev rows))) (\<lambda>row.
      andthen (ok_or Crash (os_generation row)) (\<lambda>generation.
      andthen (recovery_generation stack service_name generation d) (\<lambda>candidate.
      andthen (ok_or (Sql ''InvalidColumnType'') (latest_generation stack service_name d)) (\<lambda>latest.
      andthen (ok_or Crash (bt_get (mf_services m) service_name)) (\<lambda>service.
      if generation \<noteq> latest \<or> cg_image candidate \<noteq> se_image service then
        Inl (Conflict [Txt ''candidate recovery refused for service '', Dbg stack, Txt ''/'', Dbg service_name,
                       Txt '': generation or image no longer matches''])
      else if \<not> reuse_installed candidate \<and> \<not> replace_pre_effect candidate (os_phase row) then
        Inl (Conflict [Txt ''candidate recovery refused for service '', Dbg stack, Txt ''/'', Dbg service_name,
                       Txt '': rootfs state/role '', Dbg (cg_state candidate), Txt ''/'', Dbg (cg_role candidate),
                       Txt '' is not proven reusable or pre-effect''])
      else if replace_pre_effect candidate (os_phase row) then
        andthen (ok_or Crash (bt_get fresh_plans service_name)) (\<lambda>plan.
          if list_ex (\<lambda>r. rg_alias r = pl_alias plan) (rootfs_tbl d) then
            Inl (Conflict [Txt ''candidate recovery alias '', Dbg (pl_alias plan),
                           Txt '' was already persisted and cannot be reused''])
          else Inr (candidate, reuse_installed candidate))
      else Inr (candidate, reuse_installed candidate)))))))"

type_synonym candidates = "(string \<times> candidate_generation \<times> bool) list"

definition classify_candidates ::
    "manifest \<Rightarrow> plans \<Rightarrow> opservice_row list \<Rightarrow> db \<Rightarrow> store_error + candidates" where
  "classify_candidates m fresh_plans rows d =
     map_res (\<lambda>n. andthen (classify_candidate m fresh_plans rows n d) (\<lambda>c. Inr (n, c))) (manifest_names m)"

text \<open>The generation of a service in the new operation: the reused one, or a fresh one.\<close>

definition recovered_generation ::
    "manifest \<Rightarrow> plans \<Rightarrow> int \<Rightarrow> string \<Rightarrow> candidate_generation \<Rightarrow> bool
       \<Rightarrow> (service_plan \<times> int \<times> string \<times> string) tx" where
  "recovered_generation m fresh_plans now service_name candidate reuse =
     (let stack = mf_name m in
      if reuse then
        tx_return (\<lparr>pl_alias = cg_alias candidate, pl_stdout = cg_stdout candidate, pl_stderr = cg_stderr candidate\<rparr>,
                   cg_generation candidate, ''installed'', ''starting'')
      else
        tx_bind (tx_lift (ok_or Crash (bt_get fresh_plans service_name))) (\<lambda>plan.
        tx_bind (exactly_one
          (update_rootfs (the_generation stack service_name (cg_generation candidate))
             (\<lambda>r. r\<lparr>rg_state := ''absent'', rg_role := ''retired'', rg_updated := now\<rparr>))
          [Txt ''previous candidate rootfs '', Dbg stack, Txt ''/'', Dbg service_name, Txt ''/'',
           Num (cg_generation candidate)]) (\<lambda>_.
        tx_bind (tx_lift (ok_or Crash (bt_get (mf_services m) service_name))) (\<lambda>service.
        tx_bind (insert_rootfs (new_candidate stack service_name (cg_generation candidate + 1)
                   (pl_alias plan) (se_image service) now)) (\<lambda>_.
        tx_return (plan, cg_generation candidate + 1, ''intent'', ''preparing''))))))"

definition recover_service ::
    "string \<Rightarrow> manifest \<Rightarrow> plans \<Rightarrow> candidates \<Rightarrow> int \<Rightarrow> nat \<times> string
       \<Rightarrow> (string \<times> recovery_service) list \<Rightarrow> (string \<times> recovery_service) list tx" where
  "recover_service request m fresh_plans candidates now iv acc =
     (let stack = mf_name m; service_name = snd iv in
      tx_bind (tx_lift (ok_or Crash (bt_get candidates service_name))) (\<lambda>(candidate, reuse).
      tx_bind (tx_lift (ok_or Crash (bt_get (mf_services m) service_name))) (\<lambda>service.
      tx_bind (recovered_generation m fresh_plans now service_name candidate reuse) (\<lambda>(plan, generation, phase, observed).
      tx_bind (exactly_one
        (update_services (the_service stack service_name)
           (\<lambda>r. r\<lparr>sv_desired := ''running'', sv_observed := observed, sv_phase := phase,
                 sv_session := None, sv_pid := None, sv_starttime := None, sv_boot := None,
                 sv_exit_code := None, sv_exit_signal := None, sv_attempts := 0, sv_window := None,
                 sv_next := None, sv_stdout := lossy (pl_stdout plan), sv_stderr := lossy (pl_stderr plan),
                 sv_updated := now\<rparr>))
        (service_subject stack service_name)) (\<lambda>_.
      tx_bind (insert_opservice (new_opservice request stack service_name (fst iv) phase
                 (Some (service_config_json service)) (Some generation))) (\<lambda>_.
      tx_return (bt_insert service_name \<lparr>rs_plan = plan, rs_reuse_installed = reuse\<rparr> acc)))))))"

definition begin_candidate_recovery ::
    "string \<Rightarrow> string \<Rightarrow> string \<Rightarrow> manifest \<Rightarrow> plans \<Rightarrow> int \<Rightarrow> candidate_recovery tx" where
  "begin_candidate_recovery request source manifest_base m fresh_plans clk =
     (let stack = mf_name m; base = lossy manifest_base in
      tx_bind (tx_check (manifest_names m = plan_names fresh_plans)
        (Conflict [Txt ''candidate recovery plans must match the manifest service set exactly''])) (\<lambda>_.
      tx_bind (tx_check (length (bs_of (map (\<lambda>e. pl_alias (snd e)) fresh_plans)) = length fresh_plans)
        (Conflict [Txt ''candidate recovery plans contain duplicate aliases''])) (\<lambda>_.
      tx_bind (tx_lift (unix_time clk)) (\<lambda>now.
      tx_bind (reject_unfinished_operation stack) (\<lambda>_.
      tx_bind (tx_read (existing_revision stack)) (\<lambda>committed.
      tx_bind (tx_query (service_names stack)) (\<lambda>current_names.
      tx_bind (tx_check (\<not> (0 < committed \<and> (current_names \<noteq> manifest_names m \<or> current_names = [])))
        (Conflict [Txt ''candidate recovery requires the exact logical service set''])) (\<lambda>_.
      tx_bind (tx_query (unsafe_count stack)) (\<lambda>unsafe_services.
      tx_bind (tx_check (unsafe_services = 0)
        (Conflict [Txt ''candidate recovery refused: '', Num (int unsafe_services),
           Txt '' service(s) have identity, unknown/active state, or pending restart''])) (\<lambda>_.
      tx_bind (tx_read (select_previous m source base committed current_names)) (\<lambda>rows.
      tx_bind (tx_read (classify_candidates m fresh_plans rows)) (\<lambda>candidates.
      let expected_revision = committed + 1;
          all_installed = list_all (\<lambda>(_, _, reuse). reuse) candidates in
      tx_bind (insert_operation (up_operation request stack (if all_installed then ''installed'' else ''intent'')
                 source base expected_revision now)) (\<lambda>_.
      tx_bind (exactly_one (update_stacks (\<lambda>r. sk_name r = stack)
                 (\<lambda>r. r\<lparr>sk_desired := ''running'', sk_observed := ''starting'', sk_updated := now\<rparr>))
               (stack_subject stack)) (\<lambda>_.
      tx_bind (order_tx m) (\<lambda>order.
      tx_bind (tx_fold (recover_service request m fresh_plans candidates now) (enumerate 0 order) []) (\<lambda>services.
      tx_return \<lparr>cr_revision = expected_revision, cr_services = services\<rparr>))))))))))))))))"

end
