(* ===== verification/Store_Phase.thy ===== *)
theory Store_Phase
  imports Store_Up
begin

text \<open>
  The life of a candidate (\<^verbatim>\<open>src/store.rs\<close>): every engine effect is journaled before and after
  it happens, a failure is recorded with what it leaves behind, and \<^verbatim>\<open>commit_up\<close> publishes the
  whole candidate as one revision.
\<close>

section \<open>Phases of a service\<close>

definition set_candidate_phase :: "string \<Rightarrow> string \<Rightarrow> string \<Rightarrow> string \<Rightarrow> int \<Rightarrow> unit tx" where
  "set_candidate_phase request stack service phase clk =
     tx_bind (tx_lift (unix_time clk)) (set_service_phase request stack service phase)"

definition mark_logs_prepared :: "string \<Rightarrow> string \<Rightarrow> string \<Rightarrow> int \<Rightarrow> unit tx" where
  "mark_logs_prepared request stack service = set_candidate_phase request stack service ''logs_prepared''"

definition mark_install_invoked :: "string \<Rightarrow> string \<Rightarrow> string \<Rightarrow> int \<Rightarrow> unit tx" where
  "mark_install_invoked request stack service = set_candidate_phase request stack service ''install_invoked''"

definition mark_start_invoked :: "string \<Rightarrow> string \<Rightarrow> string \<Rightarrow> int \<Rightarrow> unit tx" where
  "mark_start_invoked request stack service = set_candidate_phase request stack service ''start_invoked''"

definition mark_stop_invoked :: "string \<Rightarrow> string \<Rightarrow> string \<Rightarrow> int \<Rightarrow> unit tx" where
  "mark_stop_invoked request stack service = set_candidate_phase request stack service ''stop_invoked''"

definition rootfs_subject :: "string \<Rightarrow> string \<Rightarrow> int \<Rightarrow> msg" where
  "rootfs_subject stack service generation =
     [Txt ''rootfs generation '', Dbg stack, Txt ''/'', Dbg service, Txt ''/'', Num generation]"

definition set_rootfs_state :: "string \<Rightarrow> string \<Rightarrow> int \<Rightarrow> string \<Rightarrow> int \<Rightarrow> unit tx" where
  "set_rootfs_state stack service generation state now =
     exactly_one (update_rootfs (the_generation stack service generation)
                    (\<lambda>r. r\<lparr>rg_state := state, rg_updated := now\<rparr>))
       (rootfs_subject stack service generation)"

definition mark_installed :: "string \<Rightarrow> string \<Rightarrow> string \<Rightarrow> int \<Rightarrow> unit tx" where
  "mark_installed request stack service clk =
     tx_bind (tx_lift (unix_time clk)) (\<lambda>now.
     tx_bind (tx_read (operation_generation request stack service)) (\<lambda>generation.
     tx_bind (set_rootfs_state stack service generation ''installed'' now) (\<lambda>_.
     set_service_phase request stack service ''installed'' now)))"

definition mark_rootfs_unknown :: "string \<Rightarrow> string \<Rightarrow> string \<Rightarrow> int \<Rightarrow> unit tx" where
  "mark_rootfs_unknown request stack service clk =
     tx_bind (tx_lift (unix_time clk)) (\<lambda>now.
     tx_bind (tx_read (operation_generation request stack service)) (\<lambda>generation.
     set_rootfs_state stack service generation ''unknown'' now))"

text \<open>\<^verbatim>\<open>i64::try_from(child_starttime)\<close> for a 64-bit unsigned value.\<close>

definition starttime_i64 :: "int \<Rightarrow> store_error + int" where
  "starttime_i64 t = (if t < 2 ^ 63 then Inr t else Inl (Io [Txt ''process starttime exceeds SQLite INTEGER'']))"

definition mark_starting :: "string \<Rightarrow> string \<Rightarrow> string \<Rightarrow> int \<Rightarrow> int \<Rightarrow> string \<Rightarrow> int \<Rightarrow> unit tx" where
  "mark_starting request stack service child_pid child_starttime boot_id clk =
     tx_bind (tx_lift (starttime_i64 child_starttime)) (\<lambda>starttime.
     tx_bind (tx_lift (unix_time clk)) (\<lambda>now.
     tx_bind (set_service_phase request stack service ''starting'' now) (\<lambda>_.
     tx_bind (exactly_one
       (update_services (the_service stack service)
          (\<lambda>r. r\<lparr>sv_observed := ''starting'', sv_pid := Some child_pid, sv_starttime := Some starttime,
                sv_boot := Some boot_id, sv_updated := now\<rparr>))
       (service_subject stack service)) (\<lambda>_.
     refresh_stack_state stack now))))"

definition opservice_subject :: "string \<Rightarrow> string \<Rightarrow> msg" where
  "opservice_subject request service = [Txt ''operation service '', Dbg request, Txt ''/'', Dbg service]"

definition mark_running :: "string \<Rightarrow> string \<Rightarrow> string \<Rightarrow> int \<Rightarrow> int \<Rightarrow> unit tx" where
  "mark_running request stack service session_id clk =
     tx_bind (tx_lift (unix_time clk)) (\<lambda>now.
     tx_bind (exactly_one
       (update_opservices (the_opservice request stack service)
          (\<lambda>r. r\<lparr>os_phase := ''running'', os_outcome := Some ''success'', os_error_code := None,
                os_error_message := None\<rparr>))
       (opservice_subject request service)) (\<lambda>_.
     tx_bind (exactly_one
       (update_services (the_service stack service)
          (\<lambda>r. r\<lparr>sv_observed := ''running'', sv_phase := ''running'', sv_session := Some session_id,
                sv_attempts := 0, sv_window := None, sv_next := None, sv_updated := now\<rparr>))
       (service_subject stack service)) (\<lambda>_.
     refresh_stack_state stack now)))"

text \<open>The phase a failure leaves behind: what had not reached the engine is marked as such.\<close>

definition failed_phase :: "bool \<Rightarrow> string \<Rightarrow> string" where
  "failed_phase unknown phase =
     (if unknown then ''unknown''
      else if phase \<in> {''intent'', ''logs_prepared''} then ''failed_pre_effect''
      else ''failed'')"

definition mark_service_failed ::
    "string \<Rightarrow> string \<Rightarrow> string \<Rightarrow> string \<Rightarrow> msg \<Rightarrow> bool \<Rightarrow> int \<Rightarrow> unit tx" where
  "mark_service_failed request stack service code message unknown clk =
     (let state = (if unknown then ''unknown'' else ''failed'') in
     tx_bind (tx_lift (unix_time clk)) (\<lambda>now.
     tx_bind (exactly_one
       (update_services (the_service stack service)
          (\<lambda>r. r\<lparr>sv_observed := state, sv_phase := state, sv_updated := now\<rparr>))
       (service_subject stack service)) (\<lambda>_.
     tx_bind (exactly_one
       (update_opservices (the_opservice request stack service)
          (\<lambda>r. r\<lparr>os_phase := failed_phase unknown (os_phase r), os_outcome := Some ''failure'',
                os_error_code := Some code, os_error_message := Some message\<rparr>))
       (opservice_subject request service)) (\<lambda>_.
     refresh_stack_state stack now))))"

section \<open>The end of an operation\<close>

definition unfinished :: "string \<Rightarrow> string \<Rightarrow> operation_row \<Rightarrow> bool" where
  "unfinished request stack r \<longleftrightarrow> op_request r = request \<and> op_stack r = stack \<and> op_outcome r = None"

definition finalize_operation_failure :: "string \<Rightarrow> string \<Rightarrow> string \<Rightarrow> msg \<Rightarrow> int \<Rightarrow> unit tx" where
  "finalize_operation_failure request stack code message clk =
     tx_bind (tx_lift (unix_time clk)) (\<lambda>now.
     tx_bind (tx_query (\<lambda>d. filter (\<lambda>r. os_request r = request) (opservices_tbl d))) (\<lambda>children.
     exactly_one
       (update_operations
          (\<lambda>r. unfinished request stack r
             \<and> list_ex (\<lambda>c. os_outcome c = Some ''failure'') children
             \<and> \<not> list_ex (\<lambda>c. os_outcome c = None) children)
          (\<lambda>r. r\<lparr>op_phase := ''failed'', op_outcome := Some ''failure'', op_error_code := Some code,
                op_error_message := Some message, op_updated := now\<rparr>))
       [Txt ''failed unfinished operation '', Dbg request]))"

definition incomplete_count :: "string \<Rightarrow> db \<Rightarrow> nat" where
  "incomplete_count request d =
     matching (\<lambda>r. os_request r = request \<and> os_outcome r \<noteq> Some ''success'') (opservices_tbl d)"

definition finish_operation :: "string \<Rightarrow> string \<Rightarrow> int \<Rightarrow> nat tx" where
  "finish_operation request phase now =
     update_operations (\<lambda>r. op_request r = request \<and> op_outcome r = None)
       (\<lambda>r. r\<lparr>op_phase := phase, op_outcome := Some ''success'', op_updated := now\<rparr>)"

text \<open>
  The candidate a commit publishes: a NULL in one of the three columns is a conversion error.
\<close>

definition candidate_of :: "string \<Rightarrow> string \<Rightarrow> db \<Rightarrow> store_error + string \<times> string \<times> int" where
  "candidate_of request stack d =
     (case find (\<lambda>r. unfinished request stack r \<and> op_operation r = ''up'') (operations_tbl d) of
        None \<Rightarrow> Inl (NotFound [Txt ''unfinished up operation '', Dbg request])
      | Some r \<Rightarrow> (case (op_manifest r, op_base r, op_revision r) of
            (Some m, Some b, Some v) \<Rightarrow> Inr (m, b, v)
          | _ \<Rightarrow> Inl (Sql ''InvalidColumnType'')))"

definition candidate_alias :: "string \<Rightarrow> string \<Rightarrow> int \<Rightarrow> db \<Rightarrow> store_error + string" where
  "candidate_alias stack service generation d =
     ok_or (Sql ''QueryReturnedNoRows'') (map_option rg_alias
       (find (\<lambda>r. the_generation stack service generation r \<and> rg_state r = ''installed''
                \<and> rg_role r = ''candidate'') (rootfs_tbl d)))"

definition commit_service :: "string \<Rightarrow> string \<Rightarrow> int \<Rightarrow> opservice_row \<Rightarrow> unit tx" where
  "commit_service request stack now row =
     (let service = os_service row in
      tx_bind (tx_lift (ok_or (Conflict [Txt ''operation '', Dbg request, Txt '' service '', Dbg service,
                          Txt '' has no rootfs generation'']) (os_generation row))) (\<lambda>generation.
      tx_bind (tx_lift (ok_or (Conflict [Txt ''operation '', Dbg request, Txt '' service '', Dbg service,
                          Txt '' has no candidate config'']) (os_config row))) (\<lambda>config.
      tx_bind (tx_read (candidate_alias stack service generation)) (\<lambda>alias.
      tx_bind (any_number (update_rootfs
        (\<lambda>r. rg_stack r = stack \<and> rg_service r = service \<and> rg_role r = ''current'')
        (\<lambda>r. r\<lparr>rg_role := ''retired'', rg_updated := now\<rparr>))) (\<lambda>_.
      tx_bind (exactly_one (update_rootfs (the_generation stack service generation)
        (\<lambda>r. r\<lparr>rg_role := ''current'', rg_updated := now\<rparr>))
        (rootfs_subject stack service generation)) (\<lambda>_.
      exactly_one
        (update_services (the_service stack service)
           (\<lambda>r. r\<lparr>sv_config := config, sv_alias := Some alias, sv_generation := Some generation,
                 sv_desired := ''running'', sv_observed := ''running'', sv_phase := ''committed'',
                 sv_updated := now\<rparr>))
        (service_subject stack service)))))))"

definition commit_up :: "string \<Rightarrow> string \<Rightarrow> int \<Rightarrow> unit tx" where
  "commit_up request stack clk =
     tx_bind (tx_lift (unix_time clk)) (\<lambda>now.
     tx_bind (tx_read (candidate_of request stack)) (\<lambda>(source, base, revision).
     tx_bind (tx_query (incomplete_count request)) (\<lambda>incomplete.
     tx_bind (tx_check (incomplete = 0)
       (Conflict [Txt ''cannot commit operation '', Dbg request, Txt '': '', Num (int incomplete),
                  Txt '' service(s) are not running''])) (\<lambda>_.
     tx_bind (tx_query (operation_rows request)) (\<lambda>rows.
     tx_bind (tx_for rows (commit_service request stack now)) (\<lambda>_.
     tx_bind (exactly_one
       (update_stacks (\<lambda>r. sk_name r = stack \<and> sk_revision r < revision)
          (\<lambda>r. r\<lparr>sk_desired := ''running'', sk_observed := ''running'', sk_manifest := source,
                sk_base := base, sk_revision := revision, sk_updated := now\<rparr>))
       [Txt ''stack '', Dbg stack, Txt '' revision '', Num revision]) (\<lambda>_.
     exactly_one (finish_operation request ''committed'' now) [Txt ''operation '', Dbg request])))))))"

end
