(* ===== verification/Store_Stop.thy ===== *)
theory Store_Stop
  imports Store_Phase
begin

text \<open>
  Stopping (\<^verbatim>\<open>src/store.rs\<close>): \<^verbatim>\<open>begin_down\<close> classifies every service by the evidence the journal
  holds, and nothing records a service as stopped whose absence is not proven.
\<close>

section \<open>Classification\<close>

text \<open>What \<^verbatim>\<open>begin_down\<close> makes of a service: already absent, of unknown ownership, or to stop.\<close>

datatype stop_class = Proven_Absent | Unowned | To_Stop

definition identity_absent :: "service_row \<Rightarrow> bool" where
  "identity_absent r \<longleftrightarrow> sv_session r = None \<and> sv_pid r = None"

definition proven_backoff :: "service_row \<Rightarrow> bool" where
  "proven_backoff r \<longleftrightarrow> sv_observed r = ''restarting'' \<and> sv_phase r = ''backoff''
     \<and> sv_next r \<noteq> None \<and> identity_absent r"

definition in_flight :: "string \<Rightarrow> bool" where
  "in_flight observed \<longleftrightarrow>
     observed \<in> {''preparing'', ''starting'', ''running'', ''stopping'', ''restarting''}"

definition stop_class :: "service_row \<Rightarrow> stop_class" where
  "stop_class r =
     (let proven_absent = identity_absent r \<and> (sv_observed r \<in> {''stopped'', ''failed''} \<or> proven_backoff r);
          unknown = sv_observed r = ''unknown''
                    \<or> (\<not> proven_absent \<and> identity_absent r \<and> in_flight (sv_observed r))
      in if proven_absent then Proven_Absent else if unknown then Unowned else To_Stop)"

fun class_observed :: "stop_class \<Rightarrow> string" where
  "class_observed Proven_Absent = ''stopped''"
| "class_observed Unowned = ''unknown''"
| "class_observed To_Stop = ''stopping''"

fun class_phase :: "stop_class \<Rightarrow> string" where
  "class_phase Proven_Absent = ''stopped''"
| "class_phase Unowned = ''unknown''"
| "class_phase To_Stop = ''stop_intent''"

fun class_outcome :: "stop_class \<Rightarrow> string option" where
  "class_outcome Proven_Absent = Some ''success''"
| "class_outcome Unowned = Some ''failure''"
| "class_outcome To_Stop = None"

section \<open>Operations\<close>

definition down_operation :: "string \<Rightarrow> string \<Rightarrow> int \<Rightarrow> int \<Rightarrow> operation_row" where
  "down_operation request stack revision now =
     \<lparr>op_request = request, op_stack = stack, op_operation = ''down'', op_phase = ''stop_intent'',
      op_manifest = None, op_base = None, op_revision = Some revision, op_target = None,
      op_outcome = None, op_error_code = None, op_error_message = None, op_response = None,
      op_created = now, op_updated = now\<rparr>"

definition down_opservice :: "string \<Rightarrow> string \<Rightarrow> string \<Rightarrow> nat \<Rightarrow> stop_class \<Rightarrow> bool \<Rightarrow> opservice_row" where
  "down_opservice request stack service ordinal c unknown =
     \<lparr>os_request = request, os_stack = stack, os_service = service, os_ordinal = int ordinal,
      os_phase = class_phase c, os_outcome = class_outcome c, os_config = None, os_generation = None,
      os_error_code = (if unknown then Some ''unowned_unknown'' else None),
      os_error_message = (if unknown
        then Some [Txt ''service state is ambiguous; down did not signal an unowned process''] else None)\<rparr>"

text \<open>The flag \<^verbatim>\<open>unknown\<close> of the row, which a proven absent service never has.\<close>

definition begin_down_service :: "string \<Rightarrow> string \<Rightarrow> int \<Rightarrow> nat \<times> string \<Rightarrow> bool \<Rightarrow> bool tx" where
  "begin_down_service request stack now iv has_unknown =
     (let service = snd iv in
      tx_bind (tx_read (\<lambda>d. ok_or (Sql ''QueryReturnedNoRows'') (find_service stack service d))) (\<lambda>row.
      let c = stop_class row in
      tx_bind (exactly_one
        (update_services (the_service stack service)
           (\<lambda>r. r\<lparr>sv_desired := ''stopped'', sv_observed := class_observed c, sv_phase := class_phase c,
                 sv_next := None, sv_updated := now\<rparr>))
        (service_subject stack service)) (\<lambda>_.
      tx_bind (insert_opservice (down_opservice request stack service (fst iv) c (c = Unowned))) (\<lambda>_.
      tx_return (has_unknown \<or> c = Unowned)))))"

definition begin_down :: "string \<Rightarrow> string \<Rightarrow> string list \<Rightarrow> int \<Rightarrow> unit tx" where
  "begin_down request stack order clk =
     tx_bind (tx_lift (unix_time clk)) (\<lambda>now.
     tx_bind (reject_unfinished_operation stack) (\<lambda>_.
     tx_bind (tx_query (service_names stack)) (\<lambda>current_names.
     tx_bind (tx_check (current_names \<noteq> []) (NotFound (stack_subject stack))) (\<lambda>_.
     tx_bind (tx_check (current_names = bs_of order \<and> length order = length (bs_of order))
       (Conflict [Txt ''down order must contain every service exactly once''])) (\<lambda>_.
     tx_bind (tx_read (\<lambda>d. ok_or (Sql ''QueryReturnedNoRows'') (committed_revision stack d))) (\<lambda>revision.
     tx_bind (insert_operation (down_operation request stack revision now)) (\<lambda>_.
     tx_bind (exactly_one
       (update_stacks (\<lambda>r. sk_name r = stack)
          (\<lambda>r. r\<lparr>sk_desired := ''stopped'', sk_observed := ''stopping'', sk_updated := now\<rparr>))
       (stack_subject stack)) (\<lambda>_.
     tx_bind (tx_fold (begin_down_service request stack now) (enumerate 0 order) False) (\<lambda>has_unknown.
     tx_bind (refresh_stack_state stack now) (\<lambda>_.
     tx_when has_unknown
       (exactly_one
          (update_operations (\<lambda>r. op_request r = request)
             (\<lambda>r. r\<lparr>op_phase := ''unknown'', op_outcome := Some ''failure'',
                   op_error_code := Some ''unowned_unknown'',
                   op_error_message := Some [Txt ''one or more services have ambiguous ownership; no unowned process was signalled''],
                   op_updated := now\<rparr>))
          [Txt ''down operation '', Dbg request])))))))))))"

definition mark_stopped ::
    "string \<Rightarrow> string \<Rightarrow> string \<Rightarrow> int option \<Rightarrow> int option \<Rightarrow> int \<Rightarrow> unit tx" where
  "mark_stopped request stack service exit_code exit_signal clk =
     tx_bind (tx_lift (unix_time clk)) (\<lambda>now.
     tx_bind (tx_read (\<lambda>d. ok_or (NotFound (opservice_subject request service))
        (find (the_opservice request stack service) (opservices_tbl d)))) (\<lambda>row.
     tx_bind (tx_check (os_phase row \<noteq> ''unknown'' \<and> os_outcome row \<noteq> Some ''failure'')
       (Conflict [Txt ''service '', Dbg stack, Txt ''/'', Dbg service,
                  Txt '' has ambiguous ownership; stopped state cannot be recorded''])) (\<lambda>_.
     tx_bind (exactly_one
       (update_services (the_service stack service)
          (\<lambda>r. r\<lparr>sv_desired := ''stopped'', sv_observed := ''stopped'', sv_phase := ''stopped'',
                sv_session := None, sv_pid := None, sv_starttime := None, sv_boot := None,
                sv_exit_code := exit_code, sv_exit_signal := exit_signal, sv_next := None,
                sv_updated := now\<rparr>))
       (service_subject stack service)) (\<lambda>_.
     tx_bind (exactly_one
       (update_opservices (the_opservice request stack service)
          (\<lambda>r. r\<lparr>os_phase := ''stopped'', os_outcome := Some ''success''\<rparr>))
       (opservice_subject request service)) (\<lambda>_.
     refresh_stack_state stack now)))))"

definition shutdown_proven ::
    "int option \<Rightarrow> int option \<Rightarrow> int \<Rightarrow> service_row \<Rightarrow> service_row" where
  "shutdown_proven exit_code exit_signal now r =
     r\<lparr>sv_observed := ''stopped'', sv_phase := ''shutdown_proven'', sv_session := None, sv_pid := None,
       sv_starttime := None, sv_boot := None, sv_exit_code := exit_code, sv_exit_signal := exit_signal,
       sv_next := None, sv_updated := now\<rparr>"

definition running_subject :: "string \<Rightarrow> string \<Rightarrow> msg" where
  "running_subject stack service = [Txt ''running service '', Dbg stack, Txt ''/'', Dbg service]"

definition record_graceful_stop ::
    "string \<Rightarrow> string \<Rightarrow> int option \<Rightarrow> int option \<Rightarrow> int \<Rightarrow> unit tx" where
  "record_graceful_stop stack service exit_code exit_signal clk =
     tx_bind (tx_lift (unix_time clk)) (\<lambda>now.
     tx_bind (exactly_one
       (update_services (\<lambda>r. the_service stack service r \<and> sv_desired r = ''running'')
          (shutdown_proven exit_code exit_signal now))
       (running_subject stack service)) (\<lambda>_.
     refresh_stack_state stack now))"

definition in_backoff :: "service_row \<Rightarrow> bool" where
  "in_backoff r \<longleftrightarrow> sv_desired r = ''running'' \<and> sv_observed r = ''restarting'' \<and> sv_phase r = ''backoff''
     \<and> sv_next r \<noteq> None \<and> sv_session r = None \<and> sv_pid r = None \<and> sv_starttime r = None \<and> sv_boot r = None"

definition record_graceful_backoff_stop :: "string \<Rightarrow> string \<Rightarrow> int \<Rightarrow> unit tx" where
  "record_graceful_backoff_stop stack service clk =
     tx_bind (tx_lift (unix_time clk)) (\<lambda>now.
     tx_bind (exactly_one
       (update_services (\<lambda>r. the_service stack service r \<and> in_backoff r)
          (\<lambda>r. r\<lparr>sv_observed := ''stopped'', sv_phase := ''shutdown_proven'', sv_next := None, sv_updated := now\<rparr>))
       [Txt ''proven backoff service '', Dbg stack, Txt ''/'', Dbg service]) (\<lambda>_.
     refresh_stack_state stack now))"

definition resumable_services :: "string \<Rightarrow> db \<Rightarrow> string list" where
  "resumable_services stack d =
     map sv_name (sort_key sv_name (filter (\<lambda>r. sv_stack r = stack \<and> sv_active r \<and> sv_desired r = ''running''
       \<and> sv_observed r = ''stopped'' \<and> sv_phase r = ''shutdown_proven'') (services_tbl d)))"

definition finish_down :: "string \<Rightarrow> string \<Rightarrow> int \<Rightarrow> unit tx" where
  "finish_down request stack clk =
     tx_bind (tx_lift (unix_time clk)) (\<lambda>now.
     tx_bind (tx_query (incomplete_count request)) (\<lambda>incomplete.
     tx_bind (tx_check (incomplete = 0)
       (Conflict [Txt ''cannot finish down operation '', Dbg request, Txt '': '', Num (int incomplete),
                  Txt '' service(s) are not stopped''])) (\<lambda>_.
     tx_bind (exactly_one
       (update_stacks (\<lambda>r. sk_name r = stack)
          (\<lambda>r. r\<lparr>sk_desired := ''stopped'', sk_observed := ''stopped'', sk_updated := now\<rparr>))
       (stack_subject stack)) (\<lambda>_.
     exactly_one
       (update_operations (unfinished request stack)
          (\<lambda>r. r\<lparr>op_phase := ''stopped'', op_outcome := Some ''success'', op_updated := now\<rparr>))
       [Txt ''operation '', Dbg request]))))"

definition unfinished_down :: "string \<Rightarrow> string \<Rightarrow> operation_row \<Rightarrow> bool" where
  "unfinished_down request stack r \<longleftrightarrow> unfinished request stack r \<and> op_operation r = ''down''"

definition finalize_down_failure :: "string \<Rightarrow> string \<Rightarrow> string \<Rightarrow> msg \<Rightarrow> int \<Rightarrow> unit tx" where
  "finalize_down_failure request stack code message clk =
     tx_bind (tx_lift (unix_time clk)) (\<lambda>now.
     tx_bind (tx_query (\<lambda>d. list_ex (unfinished_down request stack) (operations_tbl d))) (\<lambda>found.
     tx_bind (tx_check found
       (NotFound [Txt ''unfinished down operation '', Dbg request, Txt '' for stack '', Dbg stack])) (\<lambda>_.
     tx_bind (tx_query (\<lambda>d. filter (\<lambda>c. os_request c = request \<and> os_stack c = stack
                                       \<and> os_outcome c \<noteq> Some ''success'') (opservices_tbl d))) (\<lambda>open_children.
     tx_bind (any_number (update_services
       (\<lambda>r. sv_stack r = stack \<and> sv_active r \<and> list_ex (\<lambda>c. os_service c = sv_name r) open_children)
       (\<lambda>r. r\<lparr>sv_desired := ''stopped'', sv_observed := ''unknown'', sv_phase := ''unknown'', sv_updated := now\<rparr>))) (\<lambda>_.
     tx_bind (any_number (update_opservices
       (\<lambda>c. os_request c = request \<and> os_stack c = stack \<and> os_outcome c \<noteq> Some ''success'')
       (\<lambda>c. c\<lparr>os_phase := ''unknown'', os_outcome := Some ''failure'', os_error_code := Some code,
             os_error_message := Some message\<rparr>))) (\<lambda>_.
     tx_bind (exactly_one
       (update_operations (unfinished_down request stack)
          (\<lambda>r. r\<lparr>op_phase := ''unknown'', op_outcome := Some ''failure'', op_error_code := Some code,
                op_error_message := Some message, op_updated := now\<rparr>))
       [Txt ''unfinished down operation '', Dbg request]) (\<lambda>_.
     exactly_one
       (update_stacks (\<lambda>r. sk_name r = stack)
          (\<lambda>r. r\<lparr>sk_desired := ''stopped'', sk_observed := ''unknown'', sk_updated := now\<rparr>))
       (stack_subject stack))))))))"

definition record_exit :: "string \<Rightarrow> string \<Rightarrow> int option \<Rightarrow> int option \<Rightarrow> int \<Rightarrow> unit tx" where
  "record_exit stack service exit_code exit_signal clk =
     tx_bind (tx_lift (unix_time clk)) (\<lambda>now.
     tx_bind (tx_read (\<lambda>d. ok_or (NotFound (service_subject stack service))
        (map_option sv_desired (find_service stack service d)))) (\<lambda>desired.
     tx_bind (exactly_one
       (update_services (the_service stack service)
          (\<lambda>r. r\<lparr>sv_observed := (if desired = ''stopped'' then ''stopped'' else ''failed''),
                sv_phase := ''exited'', sv_session := None, sv_pid := None, sv_starttime := None,
                sv_boot := None, sv_exit_code := exit_code, sv_exit_signal := exit_signal,
                sv_next := None, sv_updated := now\<rparr>))
       (service_subject stack service)) (\<lambda>_.
     refresh_stack_state stack now)))"

definition mark_runtime_unknown :: "string \<Rightarrow> string \<Rightarrow> int \<Rightarrow> unit tx" where
  "mark_runtime_unknown stack service clk =
     tx_bind (tx_lift (unix_time clk)) (\<lambda>now.
     tx_bind (exactly_one
       (update_services (the_service stack service)
          (\<lambda>r. r\<lparr>sv_observed := ''unknown'', sv_phase := ''unknown'', sv_next := None, sv_updated := now\<rparr>))
       (service_subject stack service)) (\<lambda>_.
     refresh_stack_state stack now))"

end
