(* ===== verification/Store_Restart.thy ===== *)
theory Store_Restart
  imports Store_Stop
begin

text \<open>
  Starting what is already committed (\<^verbatim>\<open>src/store.rs\<close>): resuming a stopped stack, restarting one
  service by hand, and the durable backoff of automatic restarts.
\<close>

section \<open>Starting committed generations\<close>

text \<open>The join of a service with its current generation; the generation of a row found is set.\<close>

definition current_rootfs :: "string \<Rightarrow> string \<Rightarrow> (service_row \<Rightarrow> bool) \<Rightarrow> db \<Rightarrow> (service_row \<times> rootfs_row) option" where
  "current_rootfs stack service p d =
     (case find (\<lambda>v. the_service stack service v \<and> p v) (services_tbl d) of
        None \<Rightarrow> None
      | Some v \<Rightarrow> (case find (\<lambda>r. rg_stack r = stack \<and> rg_service r = service
                              \<and> sv_generation v = Some (rg_generation r) \<and> rg_role r = ''current'') (rootfs_tbl d) of
            None \<Rightarrow> None
          | Some r \<Rightarrow> Some (v, r)))"

definition start_current_service :: "string \<Rightarrow> string \<Rightarrow> int \<Rightarrow> nat \<times> string \<Rightarrow> unit tx" where
  "start_current_service request stack now iv =
     (let service = snd iv in
      tx_bind (tx_read (\<lambda>d. ok_or (NotFound [Txt ''current rootfs generation for service '', Dbg stack, Txt ''/'', Dbg service])
        (current_rootfs stack service (\<lambda>_. True) d))) (\<lambda>(v, r).
      tx_bind (tx_check (rg_state r = ''installed'')
        (Conflict [Txt ''current rootfs for service '', Dbg stack, Txt ''/'', Dbg service, Txt '' is '',
                   Dbg (rg_state r), Txt '', not installed''])) (\<lambda>_.
      tx_bind (exactly_one
        (update_services (the_service stack service)
           (\<lambda>r. r\<lparr>sv_desired := ''running'', sv_observed := ''starting'', sv_phase := ''start_intent'',
                 sv_session := None, sv_pid := None, sv_starttime := None, sv_boot := None,
                 sv_exit_code := None, sv_exit_signal := None, sv_next := None, sv_updated := now\<rparr>))
        (service_subject stack service)) (\<lambda>_.
      insert_opservice (new_opservice request stack service (fst iv) ''start_intent'' None (Some (rg_generation r)))))))"

definition current_operation ::
    "string \<Rightarrow> string \<Rightarrow> string \<Rightarrow> string \<Rightarrow> string option \<Rightarrow> string option \<Rightarrow> int \<Rightarrow> string option \<Rightarrow> int \<Rightarrow> operation_row" where
  "current_operation request stack operation phase source base revision target now =
     \<lparr>op_request = request, op_stack = stack, op_operation = operation, op_phase = phase,
      op_manifest = source, op_base = base, op_revision = Some revision, op_target = target,
      op_outcome = None, op_error_code = None, op_error_message = None, op_response = None,
      op_created = now, op_updated = now\<rparr>"

definition start_order_ok :: "string list \<Rightarrow> string option \<Rightarrow> bool" where
  "start_order_ok ordered_services target \<longleftrightarrow>
     length (bs_of ordered_services) = length ordered_services
     \<and> (case target of None \<Rightarrow> True | Some t \<Rightarrow> length ordered_services = 1 \<and> hd ordered_services = t)"

definition begin_start_current ::
    "string \<Rightarrow> string \<Rightarrow> string \<Rightarrow> string list \<Rightarrow> string option \<Rightarrow> string option \<Rightarrow> string option \<Rightarrow> int \<Rightarrow> unit tx" where
  "begin_start_current request stack operation ordered_services target source base clk =
     tx_bind (tx_check (ordered_services \<noteq> [] \<and> operation \<noteq> [])
       (Conflict [Txt ''a current-generation start needs an operation and at least one service''])) (\<lambda>_.
     tx_bind (tx_check (start_order_ok ordered_services target)
       (Conflict [Txt ''current-generation start order contains duplicate services or does not match its target''])) (\<lambda>_.
     tx_bind (tx_check ((source \<noteq> None) = (base \<noteq> None))
       (Conflict [Txt ''current-generation replay metadata requires both manifest and base''])) (\<lambda>_.
     tx_bind (tx_lift (unix_time clk)) (\<lambda>now.
     tx_bind (reject_unfinished_operation stack) (\<lambda>_.
     tx_bind (tx_read (existing_revision stack)) (\<lambda>revision.
     tx_bind (insert_operation
       (current_operation request stack operation ''start_intent'' source (map_option lossy base) revision target now)) (\<lambda>_.
     tx_bind (tx_for (enumerate 0 ordered_services) (start_current_service request stack now)) (\<lambda>_.
     exactly_one
       (update_stacks (\<lambda>r. sk_name r = stack)
          (\<lambda>r. r\<lparr>sk_desired := ''running'', sk_observed := ''starting'', sk_updated := now\<rparr>))
       (stack_subject stack)))))))))"

section \<open>Restarting one service\<close>

definition begin_restart :: "string \<Rightarrow> string \<Rightarrow> string \<Rightarrow> int \<Rightarrow> unit tx" where
  "begin_restart request stack service clk =
     tx_bind (tx_lift (unix_time clk)) (\<lambda>now.
     tx_bind (reject_unfinished_operation stack) (\<lambda>_.
     tx_bind (tx_read (\<lambda>d. ok_or (NotFound (running_subject stack service))
        (case (committed_revision stack d, current_rootfs stack service (\<lambda>v. sv_desired v = ''running'') d) of
           (Some revision, Some (v, r)) \<Rightarrow> Some (revision, v, r)
         | _ \<Rightarrow> None))) (\<lambda>(revision, v, r).
     tx_bind (tx_check (rg_state r = ''installed'' \<and> sv_observed v = ''running''
                        \<and> sv_session v \<noteq> None \<and> sv_pid v \<noteq> None)
       (Conflict [Txt ''service '', Dbg stack, Txt ''/'', Dbg service,
                  Txt '' is not a qualified running service on an installed current rootfs''])) (\<lambda>_.
     tx_bind (insert_operation
       (current_operation request stack ''restart'' ''restart_stop_intent'' None None revision (Some service) now)) (\<lambda>_.
     tx_bind (insert_opservice
       (new_opservice request stack service 0 ''restart_stop_intent'' None (Some (rg_generation r)))) (\<lambda>_.
     exactly_one
       (update_services (the_service stack service)
          (\<lambda>r. r\<lparr>sv_phase := ''restart_stop_intent'', sv_updated := now\<rparr>))
       (service_subject stack service)))))))"

definition unfinished_restart :: "string \<Rightarrow> operation_row \<Rightarrow> bool" where
  "unfinished_restart request r \<longleftrightarrow>
     op_request r = request \<and> op_operation r = ''restart'' \<and> op_outcome r = None"

definition restart_subject :: "string \<Rightarrow> msg" where
  "restart_subject request = [Txt ''restart operation '', Dbg request]"

text \<open>One step of a manual restart: the phase of its service moves from one value to the next.\<close>

definition move_opservice :: "string \<Rightarrow> string \<Rightarrow> string \<Rightarrow> string \<Rightarrow> string \<Rightarrow> nat tx" where
  "move_opservice request stack service from_phase to_phase =
     update_opservices (\<lambda>c. the_opservice request stack service c \<and> os_phase c = from_phase \<and> os_outcome c = None)
       (\<lambda>c. c\<lparr>os_phase := to_phase\<rparr>)"

definition mark_restart_stop_invoked :: "string \<Rightarrow> string \<Rightarrow> string \<Rightarrow> int \<Rightarrow> unit tx" where
  "mark_restart_stop_invoked request stack service clk =
     tx_bind (tx_lift (unix_time clk)) (\<lambda>now.
     tx_bind (exactly_one (move_opservice request stack service ''restart_stop_intent'' ''restart_stop_invoked'')
       [Txt ''restart stop intent '', Dbg request, Txt ''/'', Dbg service]) (\<lambda>_.
     tx_bind (exactly_one
       (update_services (\<lambda>r. the_service stack service r \<and> sv_session r \<noteq> None \<and> sv_pid r \<noteq> None)
          (\<lambda>r. r\<lparr>sv_observed := ''stopping'', sv_phase := ''restart_stop_invoked'', sv_updated := now\<rparr>))
       [Txt ''owned service '', Dbg stack, Txt ''/'', Dbg service]) (\<lambda>_.
     tx_bind (exactly_one
       (update_operations (unfinished_restart request)
          (\<lambda>r. r\<lparr>op_phase := ''restart_stop_invoked'', op_updated := now\<rparr>))
       (restart_subject request)) (\<lambda>_.
     refresh_stack_state stack now))))"

definition mark_restart_stopped ::
    "string \<Rightarrow> string \<Rightarrow> string \<Rightarrow> int option \<Rightarrow> int option \<Rightarrow> int \<Rightarrow> unit tx" where
  "mark_restart_stopped request stack service exit_code exit_signal clk =
     tx_bind (tx_lift (unix_time clk)) (\<lambda>now.
     tx_bind (exactly_one (move_opservice request stack service ''restart_stop_invoked'' ''shutdown_proven'')
       [Txt ''invoked restart stop '', Dbg request, Txt ''/'', Dbg service]) (\<lambda>_.
     tx_bind (exactly_one
       (update_services (\<lambda>r. the_service stack service r \<and> sv_desired r = ''running'')
          (shutdown_proven exit_code exit_signal now))
       (running_subject stack service)) (\<lambda>_.
     tx_bind (exactly_one
       (update_operations (unfinished_restart request)
          (\<lambda>r. r\<lparr>op_phase := ''shutdown_proven'', op_updated := now\<rparr>))
       (restart_subject request)) (\<lambda>_.
     refresh_stack_state stack now))))"

definition finish_start_current :: "string \<Rightarrow> string \<Rightarrow> int \<Rightarrow> unit tx" where
  "finish_start_current request stack clk =
     tx_bind (tx_lift (unix_time clk)) (\<lambda>now.
     tx_bind (tx_query (incomplete_count request)) (\<lambda>incomplete.
     tx_bind (tx_check (incomplete = 0)
       (Conflict [Txt ''cannot finish start operation '', Dbg request, Txt '': '', Num (int incomplete),
                  Txt '' service(s) are not running''])) (\<lambda>_.
     tx_bind (tx_query (operation_rows request)) (\<lambda>rows.
     tx_bind (tx_check (rows \<noteq> [] \<and> \<not> list_ex (\<lambda>c. os_stack c \<noteq> stack) rows)
       (NotFound [Txt ''start operation '', Dbg request, Txt '' for stack '', Dbg stack])) (\<lambda>_.
     tx_bind (tx_for rows (\<lambda>row. exactly_one
       (update_services (\<lambda>r. the_service stack (os_service row) r \<and> sv_observed r = ''running'')
          (\<lambda>r. r\<lparr>sv_phase := ''committed'', sv_updated := now\<rparr>))
       (running_subject stack (os_service row)))) (\<lambda>_.
     tx_bind (exactly_one
       (update_operations (unfinished request stack)
          (\<lambda>r. r\<lparr>op_phase := ''committed'', op_outcome := Some ''success'', op_updated := now\<rparr>))
       [Txt ''operation '', Dbg request]) (\<lambda>_.
     refresh_stack_state stack now)))))))"

definition finish_restart :: "string \<Rightarrow> string \<Rightarrow> string \<Rightarrow> int \<Rightarrow> unit tx" where
  "finish_restart request stack service clk =
     tx_bind (tx_query (\<lambda>d. find (\<lambda>r. unfinished_restart request r \<and> op_stack r = stack) (operations_tbl d))) (\<lambda>found.
     tx_bind (tx_check (Option.bind found op_target = Some service)
       (NotFound [Txt ''restart operation '', Dbg request, Txt '' for service '', Dbg stack, Txt ''/'', Dbg service])) (\<lambda>_.
     finish_start_current request stack clk))"

section \<open>Automatic restarts\<close>

definition schedule_restart :: "string \<Rightarrow> string \<Rightarrow> int \<Rightarrow> int \<Rightarrow> int \<Rightarrow> int \<Rightarrow> unit tx" where
  "schedule_restart stack service attempts window_started_at next_attempt_at clk =
     tx_bind (tx_lift (unix_time clk)) (\<lambda>now.
     tx_bind (exactly_one
       (update_services (\<lambda>r. the_service stack service r \<and> sv_desired r = ''running'' \<and> identity_absent r)
          (\<lambda>r. r\<lparr>sv_observed := ''restarting'', sv_phase := ''backoff'', sv_attempts := attempts,
                sv_window := Some window_started_at, sv_next := Some next_attempt_at, sv_updated := now\<rparr>))
       (running_subject stack service)) (\<lambda>_.
     refresh_stack_state stack now))"

definition scheduled_subject :: "string \<Rightarrow> string \<Rightarrow> msg" where
  "scheduled_subject stack service = [Txt ''scheduled restart '', Dbg stack, Txt ''/'', Dbg service]"

definition defer_restart :: "string \<Rightarrow> string \<Rightarrow> int \<Rightarrow> int \<Rightarrow> unit tx" where
  "defer_restart stack service next_attempt_at clk =
     tx_bind (tx_lift (unix_time clk)) (\<lambda>now.
     exactly_one
       (update_services (\<lambda>r. the_service stack service r \<and> in_backoff r
            \<and> (case sv_next r of None \<Rightarrow> False | Some t \<Rightarrow> t < next_attempt_at))
          (\<lambda>r. r\<lparr>sv_next := Some next_attempt_at, sv_updated := now\<rparr>))
       (scheduled_subject stack service))"

definition restore_restart_backoff :: "string \<Rightarrow> string \<Rightarrow> int \<Rightarrow> int \<Rightarrow> unit tx" where
  "restore_restart_backoff stack service next_attempt_at clk =
     tx_bind (tx_lift (unix_time clk)) (\<lambda>now.
     exactly_one
       (update_services (\<lambda>r. the_service stack service r \<and> sv_desired r = ''running''
            \<and> sv_observed r = ''starting'' \<and> sv_phase r = ''restart_invoked''
            \<and> sv_session r = None \<and> sv_pid r = None \<and> sv_starttime r = None \<and> sv_boot r = None)
          (\<lambda>r. r\<lparr>sv_observed := ''restarting'', sv_phase := ''backoff'', sv_next := Some next_attempt_at,
                sv_updated := now\<rparr>))
       [Txt ''invoked restart without child '', Dbg stack, Txt ''/'', Dbg service])"

record scheduled_restart =
  sr_stack :: string
  sr_service :: string
  sr_at :: int
  sr_attempts :: int

definition is_due :: "int \<Rightarrow> service_row \<Rightarrow> bool" where
  "is_due now r \<longleftrightarrow> sv_active r \<and> sv_desired r = ''running'' \<and> sv_observed r = ''restarting''
     \<and> sv_phase r = ''backoff'' \<and> (case sv_next r of None \<Rightarrow> False | Some t \<Rightarrow> t \<le> now) \<and> identity_absent r"

definition due_restarts :: "int \<Rightarrow> db \<Rightarrow> scheduled_restart list" where
  "due_restarts now d =
     map (\<lambda>r. \<lparr>sr_stack = sv_stack r, sr_service = sv_name r, sr_at = the (sv_next r), sr_attempts = sv_attempts r\<rparr>)
       (sort_key (\<lambda>r. (the (sv_next r), sv_stack r, sv_name r)) (filter (is_due now) (services_tbl d)))"

definition mark_restart_invoked :: "string \<Rightarrow> string \<Rightarrow> int \<Rightarrow> unit tx" where
  "mark_restart_invoked stack service clk =
     tx_bind (tx_lift (unix_time clk)) (\<lambda>now.
     exactly_one
       (update_services (\<lambda>r. the_service stack service r \<and> sv_desired r = ''running'' \<and> sv_phase r = ''backoff''
            \<and> sv_next r \<noteq> None \<and> identity_absent r)
          (\<lambda>r. r\<lparr>sv_observed := ''starting'', sv_phase := ''restart_invoked'', sv_next := None, sv_updated := now\<rparr>))
       (scheduled_subject stack service))"

definition mark_restart_starting :: "string \<Rightarrow> string \<Rightarrow> int \<Rightarrow> int \<Rightarrow> string \<Rightarrow> int \<Rightarrow> unit tx" where
  "mark_restart_starting stack service child_pid child_starttime boot_id clk =
     tx_bind (tx_lift (starttime_i64 child_starttime)) (\<lambda>starttime.
     tx_bind (tx_lift (unix_time clk)) (\<lambda>now.
     exactly_one
       (update_services (the_service stack service)
          (\<lambda>r. r\<lparr>sv_observed := ''starting'', sv_phase := ''restart_starting'', sv_pid := Some child_pid,
                sv_starttime := Some starttime, sv_boot := Some boot_id, sv_updated := now\<rparr>))
       (service_subject stack service)))"

definition mark_restart_running :: "string \<Rightarrow> string \<Rightarrow> int \<Rightarrow> int \<Rightarrow> unit tx" where
  "mark_restart_running stack service session_id clk =
     tx_bind (tx_lift (unix_time clk)) (\<lambda>now.
     tx_bind (exactly_one
       (update_services (the_service stack service)
          (\<lambda>r. r\<lparr>sv_observed := ''running'', sv_phase := ''committed'', sv_session := Some session_id,
                sv_next := None, sv_updated := now\<rparr>))
       (service_subject stack service)) (\<lambda>_.
     refresh_stack_state stack now))"

end
