(* ===== verification/Store_Reconcile.thy ===== *)
theory Store_Reconcile
  imports Store_Restart
begin

text \<open>
  Cold start (\<^verbatim>\<open>src/store.rs\<close>, \<^verbatim>\<open>reconcile_cold_start\<close>): what the journal makes of the operations
  and services a dead daemon left behind. Nothing is retried; what may have reached the engine
  becomes unknown.
\<close>

section \<open>What was left behind\<close>

definition unfinished_parents :: "db \<Rightarrow> operation_row list" where
  "unfinished_parents d =
     sort_key (\<lambda>r. (op_stack r, op_created r, op_request r)) (filter (\<lambda>r. op_outcome r = None) (operations_tbl d))"

definition open_request :: "string \<Rightarrow> db \<Rightarrow> bool" where
  "open_request request d \<longleftrightarrow> list_ex (\<lambda>r. op_request r = request \<and> op_outcome r = None) (operations_tbl d)"

definition unfinished_rows :: "db \<Rightarrow> opservice_row list" where
  "unfinished_rows d =
     sort_key (\<lambda>c. (os_stack c, os_ordinal c))
       (filter (\<lambda>c. os_outcome c = None \<and> open_request (os_request c) d) (opservices_tbl d))"

definition active_service :: "service_row \<Rightarrow> bool" where
  "active_service r \<longleftrightarrow> sv_active r \<and> (in_flight (sv_observed r) \<or> sv_session r \<noteq> None \<or> sv_pid r \<noteq> None)"

definition active_service_rows :: "db \<Rightarrow> service_row list" where
  "active_service_rows d = sort_key sv_key (filter active_service (services_tbl d))"

section \<open>Children of unfinished operations\<close>

text \<open>How far an interrupted child had come, by the phase it was left in.\<close>

datatype cold_class = Resumable | Before_Engine | After_Install | Lost

definition safe_before_effect :: "opservice_row \<Rightarrow> bool" where
  "safe_before_effect c \<longleftrightarrow> os_phase c \<in> {''intent'', ''logs_prepared''}"

definition current_start_safe :: "opservice_row \<Rightarrow> db \<Rightarrow> bool" where
  "current_start_safe c d \<longleftrightarrow> os_phase c \<in> {''start_intent'', ''shutdown_proven''}
     \<and> (case os_generation c of
          None \<Rightarrow> False
        | Some g \<Rightarrow> (case find_generation (os_stack c) (os_service c) g d of
              None \<Rightarrow> False
            | Some r \<Rightarrow> rg_role r = ''current''))"

definition cold_class :: "opservice_row \<Rightarrow> db \<Rightarrow> cold_class" where
  "cold_class c d =
     (if current_start_safe c d then Resumable
      else if safe_before_effect c then Before_Engine
      else if os_phase c = ''installed'' then After_Install
      else Lost)"

fun cold_state :: "cold_class \<Rightarrow> string" where
  "cold_state Resumable = ''stopped''"
| "cold_state Before_Engine = ''failed''"
| "cold_state After_Install = ''failed''"
| "cold_state Lost = ''unknown''"

fun cold_phase :: "cold_class \<Rightarrow> string" where
  "cold_phase Resumable = ''shutdown_proven''"
| "cold_phase Before_Engine = ''failed''"
| "cold_phase After_Install = ''failed''"
| "cold_phase Lost = ''unknown''"

fun cold_code :: "cold_class \<Rightarrow> string" where
  "cold_code Resumable = ''interrupted_before_engine''"
| "cold_code Before_Engine = ''interrupted_before_engine''"
| "cold_code After_Install = ''interrupted_after_install''"
| "cold_code Lost = ''cold_start_unknown''"

fun cold_message :: "cold_class \<Rightarrow> string" where
  "cold_message Resumable = ''daemon stopped before invoking start on the committed rootfs''"
| "cold_message Before_Engine = ''daemon stopped before the engine invocation''"
| "cold_message After_Install = ''rootfs was installed but service start was not invoked''"
| "cold_message Lost = ''daemon lost ownership during an engine effect; no effect was retried''"

definition cold_rootfs :: "opservice_row \<Rightarrow> int \<Rightarrow> unit tx" where
  "cold_rootfs c now =
     (case os_generation c of
        None \<Rightarrow> tx_return ()
      | Some g \<Rightarrow>
          if safe_before_effect c then
            any_number (update_rootfs (the_generation (os_stack c) (os_service c) g)
              (\<lambda>r. r\<lparr>rg_state := ''absent'', rg_role := ''retired'', rg_updated := now\<rparr>))
          else if os_phase c = ''install_invoked'' then
            any_number (update_rootfs (the_generation (os_stack c) (os_service c) g)
              (\<lambda>r. r\<lparr>rg_state := ''unknown'', rg_updated := now\<rparr>))
          else tx_return ())"

definition clear_identity :: "string \<Rightarrow> string \<Rightarrow> int \<Rightarrow> service_row \<Rightarrow> service_row" where
  "clear_identity state phase now r =
     r\<lparr>sv_observed := state, sv_phase := phase, sv_session := None, sv_pid := None, sv_starttime := None,
       sv_boot := None, sv_next := None, sv_updated := now\<rparr>"

definition reconcile_row :: "int \<Rightarrow> opservice_row \<Rightarrow> nat \<Rightarrow> nat tx" where
  "reconcile_row now c changed =
     tx_bind (tx_query (cold_class c)) (\<lambda>k.
     tx_bind (cold_rootfs c now) (\<lambda>_.
     tx_bind (update_services
       (\<lambda>r. the_service (os_stack c) (os_service c) r
          \<and> (sv_observed r \<noteq> cold_state k \<or> sv_phase r \<noteq> cold_phase k \<or> sv_session r \<noteq> None \<or> sv_pid r \<noteq> None))
       (clear_identity (cold_state k) (cold_phase k) now)) (\<lambda>n.
     tx_bind (any_number (update_opservices (the_opservice (os_request c) (os_stack c) (os_service c))
       (\<lambda>x. x\<lparr>os_phase := cold_phase k, os_outcome := Some ''failure'', os_error_code := Some (cold_code k),
             os_error_message := Some [Txt (cold_message k)]\<rparr>))) (\<lambda>_.
     tx_return (changed + n)))))"

definition reconcile_active :: "int \<Rightarrow> (string \<times> string) list \<Rightarrow> service_row \<Rightarrow> nat \<Rightarrow> nat tx" where
  "reconcile_active now handled r changed =
     (if sv_key r \<in> set handled \<or> proven_backoff r then tx_return changed
      else tx_bind (update_services (the_service (sv_stack r) (sv_name r))
             (clear_identity ''unknown'' ''unknown'' now)) (\<lambda>n. tx_return (changed + n)))"

section \<open>Parents\<close>

definition EFFECTFUL :: "string list" where
  "EFFECTFUL = [''install_invoked'', ''start_invoked'', ''starting'', ''running'', ''stop_invoked'',
     ''restart_stop_invoked'', ''restart_start_invoked'']"

definition children :: "string \<Rightarrow> db \<Rightarrow> opservice_row list" where
  "children request d = filter (\<lambda>c. os_request c = request) (opservices_tbl d)"

definition active_of :: "string \<Rightarrow> db \<Rightarrow> service_row list" where
  "active_of stack d = filter (\<lambda>r. sv_stack r = stack \<and> sv_active r) (services_tbl d)"

definition fully_stopped :: "service_row \<Rightarrow> bool" where
  "fully_stopped r \<longleftrightarrow> sv_desired r = ''stopped'' \<and> sv_observed r = ''stopped'' \<and> sv_phase r = ''stopped''
     \<and> sv_session r = None \<and> sv_pid r = None \<and> sv_starttime r = None \<and> sv_boot r = None \<and> sv_next r = None"

definition safe_down :: "operation_row \<Rightarrow> db \<Rightarrow> bool" where
  "safe_down p d \<longleftrightarrow> op_operation p = ''down''
     \<and> children (op_request p) d \<noteq> []
     \<and> length (children (op_request p) d) = length (active_of (op_stack p) d)
     \<and> list_all (\<lambda>c. os_outcome c = Some ''success'') (children (op_request p) d)
     \<and> list_all fully_stopped (active_of (op_stack p) d)"

definition ambiguous_parent :: "operation_row \<Rightarrow> db \<Rightarrow> bool" where
  "ambiguous_parent p d \<longleftrightarrow>
     list_ex (\<lambda>c. os_phase c = ''unknown'') (children (op_request p) d)
     \<or> list_ex (\<lambda>r. sv_observed r = ''unknown'' \<or> sv_phase r = ''unknown'') (active_of (op_stack p) d)
     \<or> (children (op_request p) d = [] \<and> op_phase p \<in> set EFFECTFUL)"

definition parent_subject :: "operation_row \<Rightarrow> msg" where
  "parent_subject p = [Txt ''unfinished operation '', Dbg (op_request p)]"

definition fail_parent :: "int \<Rightarrow> operation_row \<Rightarrow> bool \<Rightarrow> unit tx" where
  "fail_parent now p ambiguous =
     exactly_one
       (update_operations (\<lambda>r. op_request r = op_request p \<and> op_outcome r = None)
          (\<lambda>r. r\<lparr>op_phase := (if ambiguous then ''unknown'' else ''failed''), op_outcome := Some ''failure'',
                op_error_code := Some (if ambiguous then ''cold_start_unknown'' else ''interrupted''),
                op_error_message := Some [Txt ''daemon stopped before the operation committed; no effect was retried''],
                op_updated := now\<rparr>))
       (parent_subject p)"

definition reconcile_parent :: "int \<Rightarrow> operation_row \<Rightarrow> unit tx" where
  "reconcile_parent now p =
     tx_bind (tx_query (safe_down p)) (\<lambda>safe.
       if safe then
         tx_bind (exactly_one
           (update_stacks (\<lambda>r. sk_name r = op_stack p)
              (\<lambda>r. r\<lparr>sk_desired := ''stopped'', sk_observed := ''stopped'', sk_updated := now\<rparr>))
           (stack_subject (op_stack p))) (\<lambda>_.
         exactly_one (finish_operation (op_request p) ''stopped'' now) (parent_subject p))
       else tx_bind (tx_query (ambiguous_parent p)) (fail_parent now p))"

definition reconcile_cold_start :: "int \<Rightarrow> nat tx" where
  "reconcile_cold_start clk =
     tx_bind (tx_lift (unix_time clk)) (\<lambda>now.
     tx_bind (tx_query unfinished_parents) (\<lambda>parents.
     tx_bind (tx_query unfinished_rows) (\<lambda>rows.
     tx_bind (tx_fold (reconcile_row now) rows 0) (\<lambda>changed.
     tx_bind (tx_query active_service_rows) (\<lambda>active.
     tx_bind (tx_fold (reconcile_active now (map (\<lambda>c. (os_stack c, os_service c)) rows)) active changed) (\<lambda>changed'.
     tx_bind (tx_for parents (reconcile_parent now)) (\<lambda>_.
     tx_bind (tx_query service_stack_names) (\<lambda>stacks.
     tx_bind (tx_for stacks (\<lambda>stack. refresh_stack_state stack now)) (\<lambda>_.
     tx_return changed')))))))))"

end
