(* ===== verification/Store_Query.thy ===== *)
theory Store_Query
  imports Store_Reconcile
begin

text \<open>
  The read side of the journal (\<^verbatim>\<open>src/store.rs\<close>): the status the daemon reports, the identity
  the runtime acts on, and the records that make requests replayable.
\<close>

section \<open>The candidate of a service\<close>

text \<open>
  The join of both queries: the candidate generation of a service counts while an operation
  that journaled it is open; for a stack that was never committed a failed one counts for
  the status.
\<close>

definition journaled_by :: "(operation_row \<Rightarrow> bool) \<Rightarrow> service_row \<Rightarrow> rootfs_row \<Rightarrow> db \<Rightarrow> bool" where
  "journaled_by p v r d \<longleftrightarrow>
     list_ex (\<lambda>os. os_service os = sv_name v \<and> os_generation os = Some (rg_generation r)
       \<and> list_ex (\<lambda>op. op_request op = os_request os \<and> op_stack op = sv_stack v \<and> op_operation op = ''up'' \<and> p op)
           (operations_tbl d)) (opservices_tbl d)"

definition open_candidate :: "(operation_row \<Rightarrow> bool) \<Rightarrow> service_row \<Rightarrow> db \<Rightarrow> rootfs_row option" where
  "open_candidate p v d =
     find (\<lambda>r. rg_stack r = sv_stack v \<and> rg_service r = sv_name v \<and> rg_role r = ''candidate''
             \<and> journaled_by p v r d) (rootfs_tbl d)"

definition current_of :: "service_row \<Rightarrow> db \<Rightarrow> rootfs_row option" where
  "current_of v d =
     find (\<lambda>r. rg_stack r = sv_stack v \<and> rg_service r = sv_name v \<and> sv_generation v = Some (rg_generation r))
       (rootfs_tbl d)"

text \<open>\<^verbatim>\<open>COALESCE\<close>.\<close>

fun coalesce :: "'a option \<Rightarrow> 'a option \<Rightarrow> 'a option" where
  "coalesce (Some a) _ = Some a"
| "coalesce None b = b"

section \<open>Status\<close>

record service_status =
  ss_name :: string
  ss_desired :: string
  ss_observed :: string
  ss_phase :: string
  ss_rootfs_state :: string
  ss_alias :: "string option"
  ss_generation :: "int option"
  ss_session :: "int option"
  ss_exit_code :: "int option"
  ss_exit_signal :: "int option"
  ss_attempts :: int
  ss_next :: "int option"
  ss_stdout :: string
  ss_stderr :: string

record stack_status =
  st_name :: string
  st_desired :: string
  st_observed :: string
  st_revision :: int
  st_services :: "service_status list"

definition reported_candidate :: "int \<Rightarrow> operation_row \<Rightarrow> bool" where
  "reported_candidate revision op \<longleftrightarrow>
     op_outcome op = None \<or> (revision = 0 \<and> op_outcome op = Some ''failure'')"

definition service_status_of :: "int \<Rightarrow> db \<Rightarrow> service_row \<Rightarrow> service_status" where
  "service_status_of revision d v =
     (let candidate = open_candidate (reported_candidate revision) v d in
      \<lparr>ss_name = sv_name v, ss_desired = sv_desired v, ss_observed = sv_observed v, ss_phase = sv_phase v,
       ss_rootfs_state = (case coalesce (map_option rg_state candidate) (map_option rg_state (current_of v d)) of
          None \<Rightarrow> ''absent'' | Some s \<Rightarrow> s),
       ss_alias = coalesce (map_option rg_alias candidate) (sv_alias v),
       ss_generation = coalesce (map_option rg_generation candidate) (sv_generation v),
       ss_session = sv_session v, ss_exit_code = sv_exit_code v, ss_exit_signal = sv_exit_signal v,
       ss_attempts = sv_attempts v, ss_next = sv_next v, ss_stdout = sv_stdout v, ss_stderr = sv_stderr v\<rparr>)"

definition active_rows :: "string \<Rightarrow> db \<Rightarrow> service_row list" where
  "active_rows stack d = sort_key sv_name (active_of stack d)"

definition stack_status :: "string \<Rightarrow> db \<Rightarrow> stack_status option" where
  "stack_status name d =
     map_option (\<lambda>s. \<lparr>st_name = sk_name s, st_desired = sk_desired s, st_observed = sk_observed s,
        st_revision = sk_revision s,
        st_services = map (service_status_of (sk_revision s) d) (active_rows name d)\<rparr>)
       (find_stack name d)"

definition stack_statuses :: "db \<Rightarrow> store_error + stack_status list" where
  "stack_statuses d =
     map_res (\<lambda>n. ok_or (NotFound (stack_subject n)) (stack_status n d)) (sort (map sk_name (stacks_tbl d)))"

section \<open>Identity\<close>

record service_identity =
  id_alias :: string
  id_generation :: int
  id_session :: "int option"
  id_pid :: "int option"
  id_starttime :: "int option"
  id_boot :: "string option"

text \<open>\<^verbatim>\<open>row.get::<Option<u32>>\<close>: a value outside the range is a conversion error.\<close>

definition get_u32 :: "int option \<Rightarrow> store_error + int option" where
  "get_u32 v = (case v of
     None \<Rightarrow> Inr None
   | Some n \<Rightarrow> if 0 \<le> n \<and> n < 2 ^ 32 then Inr (Some n) else Inl (Sql ''IntegralValueOutOfRange''))"

definition service_identity :: "string \<Rightarrow> string \<Rightarrow> db \<Rightarrow> store_error + service_identity" where
  "service_identity stack service d =
     andthen (ok_or (NotFound (service_subject stack service)) (find_service stack service d)) (\<lambda>v.
     let candidate = open_candidate (\<lambda>op. op_outcome op = None) v d in
     andthen (ok_or (Sql ''InvalidColumnType'') (coalesce (map_option rg_alias candidate) (sv_alias v))) (\<lambda>alias.
     andthen (ok_or (Sql ''InvalidColumnType'') (coalesce (map_option rg_generation candidate) (sv_generation v))) (\<lambda>generation.
     andthen (get_u32 (sv_session v)) (\<lambda>session.
     andthen (get_u32 (sv_pid v)) (\<lambda>pid.
       Inr \<lparr>id_alias = alias, id_generation = generation, id_session = session, id_pid = pid,
            id_starttime = sv_starttime v, id_boot = sv_boot v\<rparr>)))))"

section \<open>Existing stacks\<close>

record existing_service =
  ex_name :: string
  ex_config :: json
  ex_desired :: string
  ex_observed :: string
  ex_phase :: string
  ex_alias :: "string option"
  ex_rootfs_state :: string
  ex_attempts :: int
  ex_window :: "int option"
  ex_next :: "int option"
  ex_stdout :: string
  ex_stderr :: string

record existing_stack =
  es_source :: string
  es_base :: string
  es_revision :: int
  es_desired :: string
  es_observed :: string
  es_services :: "existing_service list"

definition existing_service_of :: "db \<Rightarrow> service_row \<Rightarrow> existing_service" where
  "existing_service_of d v =
     \<lparr>ex_name = sv_name v, ex_config = sv_config v, ex_desired = sv_desired v, ex_observed = sv_observed v,
      ex_phase = sv_phase v, ex_alias = sv_alias v,
      ex_rootfs_state = (case current_of v d of None \<Rightarrow> ''absent'' | Some r \<Rightarrow> rg_state r),
      ex_attempts = sv_attempts v, ex_window = sv_window v, ex_next = sv_next v,
      ex_stdout = sv_stdout v, ex_stderr = sv_stderr v\<rparr>"

definition existing_stack :: "string \<Rightarrow> db \<Rightarrow> existing_stack option" where
  "existing_stack name d =
     map_option (\<lambda>s. \<lparr>es_source = sk_manifest s, es_base = sk_base s, es_revision = sk_revision s,
        es_desired = sk_desired s, es_observed = sk_observed s,
        es_services = map (existing_service_of d) (active_rows name d)\<rparr>) (find_stack name d)"

section \<open>Replay\<close>

record operation_replay =
  or_operation :: string
  or_stack :: string
  or_manifest :: "string option"
  or_base :: "string option"
  or_target :: "string option"
  or_response :: "string option"

definition operation_replay :: "string \<Rightarrow> db \<Rightarrow> operation_replay option" where
  "operation_replay request d =
     map_option (\<lambda>r. \<lparr>or_operation = op_operation r, or_stack = op_stack r, or_manifest = op_manifest r,
        or_base = op_base r, or_target = op_target r, or_response = op_response r\<rparr>)
       (find (\<lambda>r. op_request r = request) (operations_tbl d))"

definition record_noop_up :: "string \<Rightarrow> string \<Rightarrow> string \<Rightarrow> string \<Rightarrow> int \<Rightarrow> unit tx" where
  "record_noop_up request stack candidate_manifest manifest_base clk =
     tx_bind (tx_lift (unix_time clk)) (\<lambda>now.
     tx_bind (tx_read (\<lambda>d. ok_or (Sql ''QueryReturnedNoRows'') (committed_revision stack d))) (\<lambda>revision.
     insert_operation
       ((current_operation request stack ''up'' ''already_running'' (Some candidate_manifest)
           (Some (lossy manifest_base)) revision None now)\<lparr>op_outcome := Some ''success''\<rparr>)))"

text \<open>\<^verbatim>\<open>cache_response\<close>: the text of the response is an argument.\<close>

definition cache_response :: "string \<Rightarrow> string \<Rightarrow> int \<Rightarrow> unit tx" where
  "cache_response request response clk =
     tx_bind (tx_lift (unix_time clk)) (\<lambda>now.
     any_number (update_operations (\<lambda>r. op_request r = request)
       (\<lambda>r. r\<lparr>op_response := Some response, op_updated := now\<rparr>)))"

end
