(* ===== verification/Store_History.thy ===== *)
theory Store_History
  imports Store_Query
begin

text \<open>
  What no operation of the journal can undo (\<^verbatim>\<open>src/store.rs\<close>): generations and their aliases
  stay, and finished operations stay as they ended. It is a relation between databases that
  every operation is proved to keep, statement by statement; a step relation collects the calls.
\<close>

section \<open>Shared facts about statements\<close>

lemma set_change: "set (change p f rs) = f ` {r \<in> set rs. p r} \<union> {r \<in> set rs. \<not> p r}"
  by (auto simp: change_def)

lemma change_in: "r \<in> set rs \<Longrightarrow> (if p r then f r else r) \<in> set (change p f rs)"
  by (auto simp: change_def)

lemma in_change: "r' \<in> set (change p f rs) \<Longrightarrow> \<exists>r \<in> set rs. r' = (if p r then f r else r)"
  by (auto simp: change_def)

lemma find_change:
  assumes "\<And>r. k (f r) = k r"
  shows "find (\<lambda>r. k r = x) (change p f rs)
       = map_option (\<lambda>r. if p r then f r else r) (find (\<lambda>r. k r = x) rs)"
  using assms by (induction rs) (auto simp: change_def)

lemma find_change_other:
  assumes "\<And>r. k (f r) = k r" and "\<And>r. k r = x \<Longrightarrow> \<not> p r"
  shows "find (\<lambda>r. k r = x) (change p f rs) = find (\<lambda>r. k r = x) rs"
  using assms by (induction rs) (auto simp: change_def)

lemma find_SomeD: "find p rs = Some r \<Longrightarrow> r \<in> set rs \<and> p r"
  by (auto simp: find_Some_iff)

lemma find_append: "find p (xs @ ys) = (case find p xs of None \<Rightarrow> find p ys | Some x \<Rightarrow> Some x)"
  by (induction xs) auto

text \<open>Every row of one table has a row of another that a relation accepts as the same.\<close>

definition kept :: "('r \<Rightarrow> 'r \<Rightarrow> bool) \<Rightarrow> 'r list \<Rightarrow> 'r list \<Rightarrow> bool" where
  "kept S xs ys \<longleftrightarrow> (\<forall>x \<in> set xs. \<exists>y \<in> set ys. S x y)"

lemma kept_refl: "(\<And>x. S x x) \<Longrightarrow> kept S xs xs"
  unfolding kept_def by blast

lemma kept_trans:
  assumes "\<And>x y z. S x y \<Longrightarrow> S y z \<Longrightarrow> S x z" and "kept S xs ys" and "kept S ys zs"
  shows "kept S xs zs"
  using assms unfolding kept_def by meson

lemma kept_append: "(\<And>x. S x x) \<Longrightarrow> kept S xs (xs @ ys)"
  unfolding kept_def by auto

lemma kept_change:
  assumes "\<And>x. S x x" and "\<And>x. p x \<Longrightarrow> S x (f x)"
  shows "kept S xs (change p f xs)"
  unfolding kept_def
proof
  fix x assume "x \<in> set xs"
  then show "\<exists>y \<in> set (change p f xs). S x y"
    using change_in [of x xs p f] assms by (cases "p x") auto
qed

section \<open>The history of generations and operations\<close>

definition same_generation :: "rootfs_row \<Rightarrow> rootfs_row \<Rightarrow> bool" where
  "same_generation r r' \<longleftrightarrow> rg_id r' = rg_id r \<and> rg_alias r' = rg_alias r \<and> rg_image r' = rg_image r"

text \<open>
  An operation keeps its request and what it was asked to do; once it has an outcome, it keeps
  its outcome, phase and error as well. Only its cached response may change.
\<close>

definition op_intent :: "operation_row \<Rightarrow> string \<times> string \<times> string \<times> string option \<times> string option \<times> int option \<times> string option \<times> int" where
  "op_intent r = (op_request r, op_stack r, op_operation r, op_manifest r, op_base r, op_revision r,
     op_target r, op_created r)"

definition op_result :: "operation_row \<Rightarrow> string option \<times> string \<times> string option \<times> msg option" where
  "op_result r = (op_outcome r, op_phase r, op_error_code r, op_error_message r)"

text \<open>Requests of \<open>Q\<close> are left out.\<close>

definition same_operation :: "string set \<Rightarrow> operation_row \<Rightarrow> operation_row \<Rightarrow> bool" where
  "same_operation Q r r' \<longleftrightarrow> op_intent r' = op_intent r
     \<and> (op_outcome r \<noteq> None \<longrightarrow> op_request r \<notin> Q \<longrightarrow> op_result r' = op_result r)"

definition same_key :: "('r \<Rightarrow> 'k) \<Rightarrow> 'r \<Rightarrow> 'r \<Rightarrow> bool" where
  "same_key k r r' \<longleftrightarrow> k r' = k r"

definition extends_but :: "string set \<Rightarrow> db \<Rightarrow> db \<Rightarrow> bool" where
  "extends_but Q d d' \<longleftrightarrow>
     kept same_generation (rootfs_tbl d) (rootfs_tbl d')
     \<and> kept (same_operation Q) (operations_tbl d) (operations_tbl d')
     \<and> kept (same_key sv_key) (services_tbl d) (services_tbl d')
     \<and> kept (same_key sk_name) (stacks_tbl d) (stacks_tbl d')
     \<and> (schema_ok d \<longrightarrow> schema_ok d')"

lemma same_generation_refl: "same_generation r r"
  by (simp add: same_generation_def)

lemma same_generation_trans: "same_generation a b \<Longrightarrow> same_generation b c \<Longrightarrow> same_generation a c"
  by (simp add: same_generation_def)

lemma same_operation_refl: "same_operation Q r r"
  by (simp add: same_operation_def)

lemma same_operation_trans:
  assumes "same_operation Q a b" and "same_operation Q b c"
  shows "same_operation Q a c"
proof -
  have "op_request b = op_request a" using assms(1) by (simp add: same_operation_def op_intent_def)
  moreover have "op_outcome b = op_outcome a" if "op_outcome a \<noteq> None" "op_request a \<notin> Q"
    using assms(1) that by (simp add: same_operation_def op_result_def)
  ultimately show ?thesis using assms by (auto simp: same_operation_def)
qed

lemma same_key_refl: "same_key k r r"
  by (simp add: same_key_def)

lemma same_key_trans: "same_key k a b \<Longrightarrow> same_key k b c \<Longrightarrow> same_key k a c"
  by (simp add: same_key_def)

lemmas same_refl = same_generation_refl same_operation_refl same_key_refl

lemma extends_refl: "extends_but Q d d"
  by (simp add: extends_but_def kept_refl same_refl)

lemma extends_trans: "extends_but Q d d' \<Longrightarrow> extends_but Q d' d'' \<Longrightarrow> extends_but Q d d''"
  unfolding extends_but_def
  by (meson kept_trans same_generation_trans same_operation_trans same_key_trans)

interpretation hist: tx_relation "extends_but Q" for Q
  by unfold_locales (auto intro: extends_refl extends_trans)

lemma extends_stacks:
  "(\<And>r. sk_name (f r) = sk_name r) \<Longrightarrow> schema_ok (d\<lparr>stacks_tbl := change p f (stacks_tbl d)\<rparr>) \<Longrightarrow>
     extends_but Q d (d\<lparr>stacks_tbl := change p f (stacks_tbl d)\<rparr>)"
  by (simp add: extends_but_def kept_refl kept_change same_refl) (simp add: kept_change same_key_def)

lemma extends_services:
  "(\<And>r. sv_key (f r) = sv_key r) \<Longrightarrow> schema_ok (d\<lparr>services_tbl := change p f (services_tbl d)\<rparr>) \<Longrightarrow>
     extends_but Q d (d\<lparr>services_tbl := change p f (services_tbl d)\<rparr>)"
  by (simp add: extends_but_def kept_refl kept_change same_refl) (simp add: kept_change same_key_def)

lemma extends_rootfs:
  "(\<And>r. same_generation r (f r)) \<Longrightarrow> schema_ok (d\<lparr>rootfs_tbl := change p f (rootfs_tbl d)\<rparr>) \<Longrightarrow>
     extends_but Q d (d\<lparr>rootfs_tbl := change p f (rootfs_tbl d)\<rparr>)"
  by (simp add: extends_but_def kept_refl kept_change same_refl)

lemma extends_operations:
  "(\<And>r. p r \<Longrightarrow> same_operation Q r (f r)) \<Longrightarrow>
     schema_ok (d\<lparr>operations_tbl := change p f (operations_tbl d)\<rparr>) \<Longrightarrow>
     extends_but Q d (d\<lparr>operations_tbl := change p f (operations_tbl d)\<rparr>)"
  by (simp add: extends_but_def kept_refl kept_change same_refl)

lemma extends_opservices:
  "schema_ok (d\<lparr>opservices_tbl := x\<rparr>) \<Longrightarrow> extends_but Q d (d\<lparr>opservices_tbl := x\<rparr>)"
  by (simp add: extends_but_def kept_refl same_refl)

lemma hist_inserts [intro]:
  "hist.keeps Q (insert_stack r1)" "hist.keeps Q (insert_service r2)" "hist.keeps Q (insert_rootfs r3)"
  "hist.keeps Q (insert_operation r4)" "hist.keeps Q (insert_opservice r5)"
  unfolding insert_stack_def insert_service_def insert_rootfs_def insert_operation_def insert_opservice_def
  by (rule hist.keeps_exec, simp add: extends_but_def kept_append kept_refl same_refl)+

lemma hist_update_stacks: "(\<And>r. sk_name (f r) = sk_name r) \<Longrightarrow> hist.keeps Q (update_stacks p f)"
  unfolding update_stacks_def
  by (intro hist.keeps_bind hist.keeps_query hist.keeps_return hist.keeps_exec extends_stacks)

lemma hist_update_services: "(\<And>r. sv_key (f r) = sv_key r) \<Longrightarrow> hist.keeps Q (update_services p f)"
  unfolding update_services_def
  by (intro hist.keeps_bind hist.keeps_query hist.keeps_return hist.keeps_exec extends_services)

lemma hist_update_rootfs: "(\<And>r. same_generation r (f r)) \<Longrightarrow> hist.keeps Q (update_rootfs p f)"
  unfolding update_rootfs_def
  by (intro hist.keeps_bind hist.keeps_query hist.keeps_return hist.keeps_exec extends_rootfs)

lemma hist_update_operations:
  "(\<And>r. p r \<Longrightarrow> same_operation Q r (f r)) \<Longrightarrow> hist.keeps Q (update_operations p f)"
  unfolding update_operations_def
  by (intro hist.keeps_bind hist.keeps_query hist.keeps_return hist.keeps_exec extends_operations)

lemma hist_update_opservices: "hist.keeps Q (update_opservices p f)"
  unfolding update_opservices_def
  by (intro hist.keeps_bind hist.keeps_query hist.keeps_return hist.keeps_exec extends_opservices)

lemmas hist_rules = hist.keeps_rules hist_inserts hist_update_stacks hist_update_services
  hist_update_rootfs hist_update_operations hist_update_opservices

lemma hist_reject: "hist.keeps Q (reject_unfinished_operation stack)"
  unfolding reject_unfinished_operation_def by (intro hist_rules)

lemma hist_refresh: "hist.keeps Q (refresh_stack_state stack now)"
  unfolding refresh_stack_state_def by (intro hist_rules) simp

lemma hist_set_service_phase: "hist.keeps Q (set_service_phase request stack service phase now)"
  unfolding set_service_phase_def by (intro hist_rules) (simp add: sv_key_def)

lemmas row_defs = sv_key_def rg_id_def same_generation_def same_operation_def op_intent_def op_result_def
  shutdown_proven_def clear_identity_def

lemma hist_tx_order: "hist.keeps Q (order_tx m)"
  unfolding order_tx_def by (intro hist_rules)

lemma hist_retire: "hist.keeps Q (retire_candidate stack service now)"
  unfolding retire_candidate_def by (intro hist_rules) (simp add: row_defs)

lemma hist_begin_up_existing: "hist.keeps Q (begin_up_existing m revision now)"
  unfolding begin_up_existing_def retire_obsolete_def Let_def
  by (intro hist_rules hist_retire) (simp_all add: row_defs)

lemma hist_begin_up_service: "hist.keeps Q (begin_up_service request m ps now iv)"
  unfolding begin_up_service_def Let_def
  by (intro hist_rules hist_retire) (simp_all add: row_defs)

lemma hist_begin_up: "hist.keeps Q (begin_up request source base m ps clk)"
  unfolding begin_up_def Let_def
  by (intro hist_rules hist_reject hist_tx_order hist_begin_up_existing hist_begin_up_service)

lemma hist_recover_service: "hist.keeps Q (recover_service request m ps cs now iv acc)"
  unfolding recover_service_def recovered_generation_def Let_def
  by (intro hist_rules) (simp_all add: row_defs)

lemma hist_recovery: "hist.keeps Q (begin_candidate_recovery request source base m ps clk)"
  unfolding begin_candidate_recovery_def Let_def
  by (intro hist_rules hist_reject hist_tx_order hist_recover_service) (simp_all add: row_defs)

lemma hist_set_candidate_phase: "hist.keeps Q (set_candidate_phase request stack service phase clk)"
  unfolding set_candidate_phase_def by (intro hist_rules hist_set_service_phase)

lemma hist_marks:
  "hist.keeps Q (mark_logs_prepared request stack service clk)"
  "hist.keeps Q (mark_install_invoked request stack service clk)"
  "hist.keeps Q (mark_start_invoked request stack service clk)"
  "hist.keeps Q (mark_stop_invoked request stack service clk)"
  by (simp_all add: mark_logs_prepared_def mark_install_invoked_def mark_start_invoked_def
      mark_stop_invoked_def hist_set_candidate_phase)

lemma hist_set_rootfs_state: "hist.keeps Q (set_rootfs_state stack service g state now)"
  unfolding set_rootfs_state_def by (intro hist_rules) (simp add: row_defs)

lemma hist_mark_installed: "hist.keeps Q (mark_installed request stack service clk)"
  unfolding mark_installed_def by (intro hist_rules hist_set_rootfs_state hist_set_service_phase)

lemma hist_mark_rootfs_unknown: "hist.keeps Q (mark_rootfs_unknown request stack service clk)"
  unfolding mark_rootfs_unknown_def by (intro hist_rules hist_set_rootfs_state)

lemma hist_mark_starting: "hist.keeps Q (mark_starting request stack service pid st boot clk)"
  unfolding mark_starting_def
  by (intro hist_rules hist_set_service_phase hist_refresh) (simp_all add: row_defs)

lemma hist_mark_running: "hist.keeps Q (mark_running request stack service session clk)"
  unfolding mark_running_def by (intro hist_rules hist_refresh) (simp_all add: row_defs)

lemma hist_mark_service_failed:
  "hist.keeps Q (mark_service_failed request stack service code message unknown clk)"
  unfolding mark_service_failed_def Let_def by (intro hist_rules hist_refresh) (simp_all add: row_defs)

lemma hist_finalize_failure: "hist.keeps Q (finalize_operation_failure request stack code message clk)"
  unfolding finalize_operation_failure_def by (intro hist_rules) (simp_all add: row_defs unfinished_def)

lemma hist_finish_operation: "hist.keeps Q (finish_operation request phase now)"
  unfolding finish_operation_def by (intro hist_rules) (simp_all add: row_defs)

lemma hist_commit_service: "hist.keeps Q (commit_service request stack now row)"
  unfolding commit_service_def Let_def by (intro hist_rules) (simp_all add: row_defs)

lemma hist_commit_up: "hist.keeps Q (commit_up request stack clk)"
  unfolding commit_up_def
  by (intro hist_rules hist_commit_service hist_finish_operation) (simp_all add: row_defs)

lemma hist_begin_down_service: "hist.keeps Q (begin_down_service request stack now iv u)"
  unfolding begin_down_service_def Let_def by (intro hist_rules) (simp_all add: row_defs)

lemma hist_begin_down_but: "hist.keeps {request} (begin_down request stack order clk)"
  unfolding begin_down_def
  by (intro hist_rules hist_reject hist_begin_down_service hist_refresh) (simp_all add: row_defs)

lemma hist_mark_stopped: "hist.keeps Q (mark_stopped request stack service code sig clk)"
  unfolding mark_stopped_def by (intro hist_rules hist_refresh) (simp_all add: row_defs)

lemma hist_graceful:
  "hist.keeps Q (record_graceful_stop stack service code sig clk)"
  "hist.keeps Q (record_graceful_backoff_stop stack service clk)"
  unfolding record_graceful_stop_def record_graceful_backoff_stop_def
  by (intro hist_rules hist_refresh, simp add: row_defs)+

lemma hist_finish_down: "hist.keeps Q (finish_down request stack clk)"
  unfolding finish_down_def by (intro hist_rules) (simp_all add: row_defs unfinished_def)

lemma hist_finalize_down: "hist.keeps Q (finalize_down_failure request stack code message clk)"
  unfolding finalize_down_failure_def
  by (intro hist_rules) (simp_all add: row_defs unfinished_def unfinished_down_def)

lemma hist_record_exit: "hist.keeps Q (record_exit stack service code sig clk)"
  unfolding record_exit_def by (intro hist_rules hist_refresh) (simp_all add: row_defs)

lemma hist_mark_runtime_unknown: "hist.keeps Q (mark_runtime_unknown stack service clk)"
  unfolding mark_runtime_unknown_def by (intro hist_rules hist_refresh) (simp_all add: row_defs)

lemma hist_begin_start_current:
  "hist.keeps Q (begin_start_current request stack operation ss target source base clk)"
  unfolding begin_start_current_def start_current_service_def Let_def
  by (intro hist_rules hist_reject) (simp_all add: row_defs)

lemma hist_begin_restart: "hist.keeps Q (begin_restart request stack service clk)"
  unfolding begin_restart_def by (intro hist_rules hist_reject) (simp_all add: row_defs)

lemma hist_restart_stop:
  "hist.keeps Q (mark_restart_stop_invoked request stack service clk)"
  "hist.keeps Q (mark_restart_stopped request stack service code sig clk)"
  unfolding mark_restart_stop_invoked_def mark_restart_stopped_def move_opservice_def
  by (intro hist_rules hist_refresh; simp add: row_defs unfinished_restart_def)+

lemma hist_finish_start_current: "hist.keeps Q (finish_start_current request stack clk)"
  unfolding finish_start_current_def
  by (intro hist_rules hist_refresh) (simp_all add: row_defs unfinished_def)

lemma hist_finish_restart: "hist.keeps Q (finish_restart request stack service clk)"
  unfolding finish_restart_def by (intro hist_rules hist_finish_start_current)

lemma hist_schedule:
  "hist.keeps Q (schedule_restart stack service n w t clk)"
  "hist.keeps Q (defer_restart stack service t clk)"
  "hist.keeps Q (restore_restart_backoff stack service t clk)"
  "hist.keeps Q (mark_restart_invoked stack service clk)"
  "hist.keeps Q (mark_restart_starting stack service pid st boot clk)"
  "hist.keeps Q (mark_restart_running stack service session clk)"
  unfolding schedule_restart_def defer_restart_def restore_restart_backoff_def mark_restart_invoked_def
    mark_restart_starting_def mark_restart_running_def
  by (intro hist_rules hist_refresh; simp add: row_defs)+

lemma hist_reconcile_row: "hist.keeps Q (reconcile_row now c n)"
  unfolding reconcile_row_def cold_rootfs_def by (intro hist_rules) (simp_all add: row_defs)

lemma hist_reconcile_active: "hist.keeps Q (reconcile_active now h r n)"
  unfolding reconcile_active_def by (intro hist_rules) (simp_all add: row_defs)

lemma hist_reconcile_parent: "hist.keeps Q (reconcile_parent now p)"
  unfolding reconcile_parent_def fail_parent_def
  by (intro hist_rules hist_finish_operation) (simp_all add: row_defs)

lemma hist_reconcile: "hist.keeps Q (reconcile_cold_start clk)"
  unfolding reconcile_cold_start_def
  by (intro hist_rules hist_reconcile_row hist_reconcile_active hist_reconcile_parent hist_refresh)

lemma hist_noop: "hist.keeps Q (record_noop_up request stack source base clk)"
  unfolding record_noop_up_def by (intro hist_rules)

lemma hist_cache: "hist.keeps Q (cache_response request response clk)"
  unfolding cache_response_def by (intro hist_rules) (simp_all add: row_defs)

text \<open>
  \<^verbatim>\<open>begin_down\<close> gives its own operation an outcome without asking whether it has one; the
  request was new when the operation was inserted, so no finished operation is touched.
\<close>

lemma reject_same: "reject_unfinished_operation stack d = Inr (u, d') \<Longrightarrow>
    d' = d \<and> (\<forall>r \<in> set (operations_tbl d). op_stack r = stack \<longrightarrow> op_outcome r \<noteq> None)"
  by (auto simp: reject_unfinished_operation_def res_simps find_None_iff split: option.splits)

lemma insert_operation_fresh:
  "insert_operation r d = Inr (u, d') \<Longrightarrow> op_request r \<notin> op_request ` set (operations_tbl d)"
  by (auto simp: insert_operation_def res_simps schema_ok_def operations_ok_def)

lemma begin_down_fresh:
  "begin_down request stack order clk d = Inr (u, d') \<Longrightarrow> request \<notin> op_request ` set (operations_tbl d)"
  by (fastforce simp: begin_down_def res_simps down_operation_def
      dest!: reject_same dest: insert_operation_fresh)

lemma hist_begin_down: "hist.keeps Q (begin_down request stack order clk)"
proof (rule hist.keepsI)
  fix d u d' assume r: "begin_down request stack order clk d = Inr (u, d')"
  have "kept (same_operation {request}) (operations_tbl d) (operations_tbl d')" and
    rest: "kept same_generation (rootfs_tbl d) (rootfs_tbl d')"
      "kept (same_key sv_key) (services_tbl d) (services_tbl d')"
      "kept (same_key sk_name) (stacks_tbl d) (stacks_tbl d')" "schema_ok d \<longrightarrow> schema_ok d'"
    using hist.keepsD [OF hist_begin_down_but r] by (simp_all add: extends_but_def)
  moreover from begin_down_fresh [OF r]
  have "same_operation {request} x y \<Longrightarrow> x \<in> set (operations_tbl d) \<Longrightarrow> same_operation Q x y" for x y
    by (auto simp: same_operation_def)
  ultimately have "kept (same_operation Q) (operations_tbl d) (operations_tbl d')"
    unfolding kept_def by metis
  with rest show "extends_but Q d d'" by (simp add: extends_but_def)
qed

section \<open>Calls of the journal\<close>

text \<open>
  One successful call of an operation that writes. A call that fails leaves the database as it
  was, its transaction rolled back, and is no step.
\<close>

inductive store_step :: "db \<Rightarrow> db \<Rightarrow> bool" where
  step_begin_up: "begin_up r s b m ps clk d = Inr (res, d') \<Longrightarrow> store_step d d'"
| step_recovery: "begin_candidate_recovery r s b m ps clk d = Inr (res, d') \<Longrightarrow> store_step d d'"
| step_logs_prepared: "mark_logs_prepared r s v clk d = Inr (res, d') \<Longrightarrow> store_step d d'"
| step_install_invoked: "mark_install_invoked r s v clk d = Inr (res, d') \<Longrightarrow> store_step d d'"
| step_installed: "mark_installed r s v clk d = Inr (res, d') \<Longrightarrow> store_step d d'"
| step_rootfs_unknown: "mark_rootfs_unknown r s v clk d = Inr (res, d') \<Longrightarrow> store_step d d'"
| step_start_invoked: "mark_start_invoked r s v clk d = Inr (res, d') \<Longrightarrow> store_step d d'"
| step_starting: "mark_starting r s v pid st boot clk d = Inr (res, d') \<Longrightarrow> store_step d d'"
| step_running: "mark_running r s v session clk d = Inr (res, d') \<Longrightarrow> store_step d d'"
| step_service_failed: "mark_service_failed r s v code msg unknown clk d = Inr (res, d') \<Longrightarrow> store_step d d'"
| step_finalize_failure: "finalize_operation_failure r s code msg clk d = Inr (res, d') \<Longrightarrow> store_step d d'"
| step_commit: "commit_up r s clk d = Inr (res, d') \<Longrightarrow> store_step d d'"
| step_begin_down: "begin_down r s order clk d = Inr (res, d') \<Longrightarrow> store_step d d'"
| step_stop_invoked: "mark_stop_invoked r s v clk d = Inr (res, d') \<Longrightarrow> store_step d d'"
| step_stopped: "mark_stopped r s v exit sig clk d = Inr (res, d') \<Longrightarrow> store_step d d'"
| step_graceful_stop: "record_graceful_stop s v exit sig clk d = Inr (res, d') \<Longrightarrow> store_step d d'"
| step_backoff_stop: "record_graceful_backoff_stop s v clk d = Inr (res, d') \<Longrightarrow> store_step d d'"
| step_finish_down: "finish_down r s clk d = Inr (res, d') \<Longrightarrow> store_step d d'"
| step_finalize_down: "finalize_down_failure r s code msg clk d = Inr (res, d') \<Longrightarrow> store_step d d'"
| step_begin_start: "begin_start_current r s operation ss target source base clk d = Inr (res, d') \<Longrightarrow> store_step d d'"
| step_begin_restart: "begin_restart r s v clk d = Inr (res, d') \<Longrightarrow> store_step d d'"
| step_restart_stop_invoked: "mark_restart_stop_invoked r s v clk d = Inr (res, d') \<Longrightarrow> store_step d d'"
| step_restart_stopped: "mark_restart_stopped r s v exit sig clk d = Inr (res, d') \<Longrightarrow> store_step d d'"
| step_finish_restart: "finish_restart r s v clk d = Inr (res, d') \<Longrightarrow> store_step d d'"
| step_finish_start: "finish_start_current r s clk d = Inr (res, d') \<Longrightarrow> store_step d d'"
| step_schedule: "schedule_restart s v n w t clk d = Inr (res, d') \<Longrightarrow> store_step d d'"
| step_defer: "defer_restart s v t clk d = Inr (res, d') \<Longrightarrow> store_step d d'"
| step_restore: "restore_restart_backoff s v t clk d = Inr (res, d') \<Longrightarrow> store_step d d'"
| step_restart_invoked: "mark_restart_invoked s v clk d = Inr (res, d') \<Longrightarrow> store_step d d'"
| step_restart_starting: "mark_restart_starting s v pid st boot clk d = Inr (res, d') \<Longrightarrow> store_step d d'"
| step_restart_running: "mark_restart_running s v session clk d = Inr (res, d') \<Longrightarrow> store_step d d'"
| step_exit: "record_exit s v exit sig clk d = Inr (res, d') \<Longrightarrow> store_step d d'"
| step_runtime_unknown: "mark_runtime_unknown s v clk d = Inr (res, d') \<Longrightarrow> store_step d d'"
| step_reconcile: "reconcile_cold_start clk d = Inr (res, d') \<Longrightarrow> store_step d d'"
| step_noop: "record_noop_up r s source base clk d = Inr (res, d') \<Longrightarrow> store_step d d'"
| step_cache: "cache_response r response clk d = Inr (res, d') \<Longrightarrow> store_step d d'"

inductive reaches :: "db \<Rightarrow> db \<Rightarrow> bool" where
  reaches_refl: "reaches d d"
| reaches_step: "reaches d d' \<Longrightarrow> store_step d' d'' \<Longrightarrow> reaches d d''"

context tx_relation
begin

lemma reaches_keeps:
  assumes "\<And>d d'. store_step d d' \<Longrightarrow> R d d'" and "reaches d d'"
  shows "R d d'"
  using assms(2)
proof induction
  case (reaches_refl d)
  show ?case by (rule R_refl)
next
  case (reaches_step d d' d'')
  from reaches_step.IH assms(1) [OF reaches_step.hyps(2)] show ?case by (rule R_trans)
qed

end

lemmas hist_operations = hist_begin_up hist_recovery hist_marks hist_mark_installed
  hist_mark_rootfs_unknown hist_mark_starting hist_mark_running hist_mark_service_failed
  hist_finalize_failure hist_commit_up hist_begin_down hist_mark_stopped hist_graceful hist_finish_down
  hist_finalize_down hist_record_exit hist_mark_runtime_unknown hist_begin_start_current
  hist_begin_restart hist_restart_stop hist_finish_start_current hist_finish_restart hist_schedule
  hist_reconcile hist_noop hist_cache

lemma store_step_extends: "store_step d d' \<Longrightarrow> extends_but Q d d'"
  by (induction rule: store_step.induct) (rule hist.keepsD, rule hist_operations, assumption)+

lemma reaches_extends: "reaches d d' \<Longrightarrow> extends_but Q d d'"
  by (rule hist.reaches_keeps [OF store_step_extends])

lemma reaches_schema: "reaches d d' \<Longrightarrow> schema_ok d \<Longrightarrow> schema_ok d'"
  using reaches_extends [of d d' "{}"] by (simp add: extends_but_def)

lemma alias_unique:
  assumes "schema_ok d" and "r \<in> set (rootfs_tbl d)" and "r' \<in> set (rootfs_tbl d)"
    and "rg_alias r = rg_alias r'"
  shows "r = r'"
  using assms by (auto simp: constraint_defs distinct_map dest: inj_onD)

end
