(* ===== verification/Store_Sample.thy ===== *)
theory Store_Sample
  imports Store_History
begin

text \<open>
  Concrete states of the journal (\<^verbatim>\<open>src/store.rs\<close>): the first revision of a stack with two
  services is prepared, both services run, the revision is committed and then stopped. The
  properties of the journal are exercised at these states.
\<close>

definition sample_plans :: plans where
  "sample_plans =
     [(''db'', \<lparr>pl_alias = ''d1'', pl_stdout = ''o'', pl_stderr = ''e''\<rparr>),
      (''web'', \<lparr>pl_alias = ''w1'', pl_stdout = ''o'', pl_stderr = ''e''\<rparr>)]"

definition demo_config :: "string \<Rightarrow> json" where
  "demo_config n = (case bt_get (mf_services sample_manifest) n of
     None \<Rightarrow> JNull | Some s \<Rightarrow> service_config_json s)"

definition demo_stack :: "string \<Rightarrow> string \<Rightarrow> bool \<Rightarrow> int \<Rightarrow> stack_row" where
  "demo_stack desired observed committed now =
     \<lparr>sk_name = ''demo'', sk_desired = desired, sk_observed = observed,
      sk_manifest = (if committed then ''text'' else []), sk_base = (if committed then ''/b'' else []),
      sk_revision = (if committed then 1 else 0), sk_created = 5, sk_updated = now\<rparr>"

definition demo_service :: "string \<Rightarrow> string \<Rightarrow> string \<Rightarrow> string option \<Rightarrow> string \<Rightarrow> bool \<Rightarrow> int \<Rightarrow> service_row" where
  "demo_service n desired observed al phase live now =
     \<lparr>sv_stack = ''demo'', sv_name = n, sv_active = True, sv_config = demo_config n,
      sv_desired = desired, sv_observed = observed, sv_alias = al,
      sv_generation = (if al = None then None else Some 1), sv_phase = phase,
      sv_session = (if live then Some 21 else None), sv_pid = (if live then Some 20 else None),
      sv_starttime = (if live then Some 30 else None), sv_boot = (if live then Some ''boot'' else None),
      sv_exit_code = None, sv_exit_signal = None, sv_attempts = 0, sv_window = None, sv_next = None,
      sv_stdout = ''o'', sv_stderr = ''e'', sv_created = 5, sv_updated = now\<rparr>"

definition demo_rootfs :: "string \<Rightarrow> string \<Rightarrow> string \<Rightarrow> string \<Rightarrow> string \<Rightarrow> int \<Rightarrow> rootfs_row" where
  "demo_rootfs n al img state role now =
     \<lparr>rg_stack = ''demo'', rg_service = n, rg_generation = 1, rg_alias = al, rg_image = img,
      rg_state = state, rg_role = role, rg_created = 5, rg_updated = now\<rparr>"

definition demo_opservice :: "string \<Rightarrow> int \<Rightarrow> string \<Rightarrow> string option \<Rightarrow> opservice_row" where
  "demo_opservice n ordinal phase outcome =
     \<lparr>os_request = ''r1'', os_stack = ''demo'', os_service = n, os_ordinal = ordinal, os_phase = phase,
      os_outcome = outcome, os_config = Some (demo_config n), os_generation = Some 1,
      os_error_code = None, os_error_message = None\<rparr>"

definition demo_up :: "string \<Rightarrow> string option \<Rightarrow> int \<Rightarrow> operation_row" where
  "demo_up phase outcome now =
     (up_operation ''r1'' ''demo'' phase ''text'' ''/b'' 1 5)\<lparr>op_outcome := outcome, op_updated := now\<rparr>"

lemmas demo_defs = demo_config_def demo_stack_def demo_service_def demo_rootfs_def demo_opservice_def demo_up_def

definition sample_begun :: db where
  "sample_begun =
     \<lparr>stacks_tbl = [demo_stack ''running'' ''starting'' False 5],
      services_tbl = [demo_service ''db'' ''running'' ''preparing'' None ''intent'' False 5,
                      demo_service ''web'' ''running'' ''preparing'' None ''intent'' False 5],
      rootfs_tbl = [demo_rootfs ''db'' ''d1'' ''postgres'' ''preparing'' ''candidate'' 5,
                    demo_rootfs ''web'' ''w1'' ''nginx'' ''preparing'' ''candidate'' 5],
      operations_tbl = [demo_up ''intent'' None 5],
      opservices_tbl = [demo_opservice ''db'' 0 ''intent'' None, demo_opservice ''web'' 1 ''intent'' None]\<rparr>"

text \<open>The first service runs, the second is being installed.\<close>

definition sample_half :: db where
  "sample_half =
     \<lparr>stacks_tbl = [demo_stack ''running'' ''starting'' False 11],
      services_tbl = [demo_service ''db'' ''running'' ''running'' None ''running'' True 11,
                      demo_service ''web'' ''running'' ''preparing'' None ''install_invoked'' False 7],
      rootfs_tbl = [demo_rootfs ''db'' ''d1'' ''postgres'' ''installed'' ''candidate'' 8,
                    demo_rootfs ''web'' ''w1'' ''nginx'' ''preparing'' ''candidate'' 5],
      operations_tbl = [demo_up ''intent'' None 5],
      opservices_tbl = [demo_opservice ''db'' 0 ''running'' (Some ''success''),
                        demo_opservice ''web'' 1 ''install_invoked'' None]\<rparr>"

definition sample_running :: db where
  "sample_running =
     \<lparr>stacks_tbl = [demo_stack ''running'' ''running'' False 11],
      services_tbl = [demo_service ''db'' ''running'' ''running'' None ''running'' True 11,
                      demo_service ''web'' ''running'' ''running'' None ''running'' True 11],
      rootfs_tbl = [demo_rootfs ''db'' ''d1'' ''postgres'' ''installed'' ''candidate'' 8,
                    demo_rootfs ''web'' ''w1'' ''nginx'' ''installed'' ''candidate'' 8],
      operations_tbl = [demo_up ''intent'' None 5],
      opservices_tbl = [demo_opservice ''db'' 0 ''running'' (Some ''success''),
                        demo_opservice ''web'' 1 ''running'' (Some ''success'')]\<rparr>"

definition sample_committed :: db where
  "sample_committed =
     \<lparr>stacks_tbl = [demo_stack ''running'' ''running'' True 12],
      services_tbl = [demo_service ''db'' ''running'' ''running'' (Some ''d1'') ''committed'' True 12,
                      demo_service ''web'' ''running'' ''running'' (Some ''w1'') ''committed'' True 12],
      rootfs_tbl = [demo_rootfs ''db'' ''d1'' ''postgres'' ''installed'' ''current'' 12,
                    demo_rootfs ''web'' ''w1'' ''nginx'' ''installed'' ''current'' 12],
      operations_tbl = [demo_up ''committed'' (Some ''success'') 12],
      opservices_tbl = [demo_opservice ''db'' 0 ''running'' (Some ''success''),
                        demo_opservice ''web'' 1 ''running'' (Some ''success'')]\<rparr>"

definition sample_stopping :: db where
  "sample_stopping = sample_committed
     \<lparr>stacks_tbl := [demo_stack ''stopped'' ''stopping'' True 13],
      services_tbl := [demo_service ''db'' ''stopped'' ''stopping'' (Some ''d1'') ''stop_intent'' True 13,
                      demo_service ''web'' ''stopped'' ''stopping'' (Some ''w1'') ''stop_intent'' True 13],
      operations_tbl := operations_tbl sample_committed @ [down_operation ''r2'' ''demo'' 1 13],
      opservices_tbl := opservices_tbl sample_committed
        @ [down_opservice ''r2'' ''demo'' ''web'' 0 To_Stop False,
           down_opservice ''r2'' ''demo'' ''db'' 1 To_Stop False]\<rparr>"

lemma sample_begin: "begin_up ''r1'' ''text'' ''/b'' sample_manifest sample_plans 5 empty_db = Inr (1, sample_begun)"
  by code_simp

lemma sample_launch:
  "tx_bind (mark_logs_prepared ''r1'' ''demo'' ''db'' 6) (\<lambda>_.
   tx_bind (mark_install_invoked ''r1'' ''demo'' ''db'' 7) (\<lambda>_.
   tx_bind (mark_installed ''r1'' ''demo'' ''db'' 8) (\<lambda>_.
   tx_bind (mark_start_invoked ''r1'' ''demo'' ''db'' 9) (\<lambda>_.
   tx_bind (mark_starting ''r1'' ''demo'' ''db'' 20 30 ''boot'' 10) (\<lambda>_.
   tx_bind (mark_running ''r1'' ''demo'' ''db'' 21 11) (\<lambda>_.
   tx_bind (mark_logs_prepared ''r1'' ''demo'' ''web'' 6) (\<lambda>_.
   mark_install_invoked ''r1'' ''demo'' ''web'' 7))))))) sample_begun = Inr ((), sample_half)"
  by code_simp

lemma sample_commit: "commit_up ''r1'' ''demo'' 12 sample_running = Inr ((), sample_committed)"
  by code_simp

lemma sample_stop: "begin_down ''r2'' ''demo'' [''web'', ''db''] 13 sample_committed = Inr ((), sample_stopping)"
  by code_simp

lemma sample_schema:
  "schema_ok sample_begun" "schema_ok sample_half" "schema_ok sample_running" "schema_ok sample_committed"
  "schema_ok sample_stopping"
  by code_simp+

lemma sample_reaches: "reaches sample_running sample_stopping"
  by (rule reaches_step [OF reaches_step [OF reaches_refl step_commit [OF sample_commit]]
        step_begin_down [OF sample_stop]])

end
