(* ===== verification/Store_Published.thy ===== *)
theory Store_Published
  imports Store_Sample
begin

text \<open>
  What a stack has published (\<^verbatim>\<open>src/store.rs\<close>): its manifest, its revision and, for every
  service, the configuration and root file system the engine runs. The abstract specification
  of the journal is that this view changes in one step only, the commit of a candidate, which
  replaces all of it at once; every operation is proved to refine it.
\<close>

section \<open>The published view\<close>

text \<open>Nothing is published before the first commit, whose revision is 1.\<close>

definition published :: "string \<Rightarrow> db \<Rightarrow> (string \<times> string \<times> int) option" where
  "published stack d = (case find_stack stack d of
     None \<Rightarrow> None
   | Some s \<Rightarrow> if 0 < sk_revision s then Some (sk_manifest s, sk_base s, sk_revision s) else None)"

definition published_service :: "string \<Rightarrow> string \<Rightarrow> db \<Rightarrow> (json \<times> string option \<times> int) option" where
  "published_service stack service d =
     (case find (\<lambda>v. sv_key v = (stack, service)) (services_tbl d) of
        None \<Rightarrow> None
      | Some v \<Rightarrow> (case sv_generation v of None \<Rightarrow> None | Some g \<Rightarrow> Some (sv_config v, sv_alias v, g)))"

definition same_published :: "string set \<Rightarrow> db \<Rightarrow> db \<Rightarrow> bool" where
  "same_published T d d' \<longleftrightarrow> (\<forall>stack. stack \<notin> T \<longrightarrow>
     published stack d' = published stack d
     \<and> (\<forall>service. published_service stack service d' = published_service stack service d))"

interpretation pub: tx_relation "same_published T" for T
  by unfold_locales (simp_all add: same_published_def)

section \<open>Statements\<close>

definition keeps_stack_view :: "stack_row \<Rightarrow> stack_row \<Rightarrow> bool" where
  "keeps_stack_view r r' \<longleftrightarrow> sk_name r' = sk_name r \<and> sk_manifest r' = sk_manifest r
     \<and> sk_base r' = sk_base r \<and> sk_revision r' = sk_revision r"

definition keeps_service_view :: "service_row \<Rightarrow> service_row \<Rightarrow> bool" where
  "keeps_service_view r r' \<longleftrightarrow> sv_key r' = sv_key r \<and> sv_config r' = sv_config r
     \<and> sv_alias r' = sv_alias r \<and> sv_generation r' = sv_generation r"

lemma published_change:
  assumes "\<And>r. keeps_stack_view r (f r)"
  shows "published stack (d\<lparr>stacks_tbl := change p f (stacks_tbl d)\<rparr>) = published stack d"
proof -
  have "find (\<lambda>r. sk_name r = stack) (change p f (stacks_tbl d))
      = map_option (\<lambda>r. if p r then f r else r) (find (\<lambda>r. sk_name r = stack) (stacks_tbl d))"
    by (rule find_change) (use assms in \<open>simp add: keeps_stack_view_def\<close>)
  then show ?thesis
    using assms by (auto simp: published_def find_stack_def keeps_stack_view_def split: option.splits)
qed

lemma published_service_change:
  assumes "\<And>r. keeps_service_view r (f r)"
  shows "published_service stack service (d\<lparr>services_tbl := change p f (services_tbl d)\<rparr>)
       = published_service stack service d"
proof -
  have "find (\<lambda>r. sv_key r = (stack, service)) (change p f (services_tbl d))
      = map_option (\<lambda>r. if p r then f r else r) (find (\<lambda>r. sv_key r = (stack, service)) (services_tbl d))"
    by (rule find_change) (use assms in \<open>simp add: keeps_service_view_def\<close>)
  then show ?thesis
    using assms by (auto simp: published_service_def keeps_service_view_def split: option.splits)
qed

lemma published_tables [simp]:
  "published stack (d\<lparr>services_tbl := x1\<rparr>) = published stack d"
  "published stack (d\<lparr>rootfs_tbl := x2\<rparr>) = published stack d"
  "published stack (d\<lparr>operations_tbl := x3\<rparr>) = published stack d"
  "published stack (d\<lparr>opservices_tbl := x4\<rparr>) = published stack d"
  "published_service stack service (d\<lparr>stacks_tbl := x5\<rparr>) = published_service stack service d"
  "published_service stack service (d\<lparr>rootfs_tbl := x2\<rparr>) = published_service stack service d"
  "published_service stack service (d\<lparr>operations_tbl := x3\<rparr>) = published_service stack service d"
  "published_service stack service (d\<lparr>opservices_tbl := x4\<rparr>) = published_service stack service d"
  by (simp_all add: published_def published_service_def find_stack_def)

lemma pub_update_stacks: "(\<And>r. keeps_stack_view r (f r)) \<Longrightarrow> pub.keeps T (update_stacks p f)"
  unfolding update_stacks_def
  by (intro pub.keeps_bind pub.keeps_query pub.keeps_return pub.keeps_exec)
    (simp add: same_published_def published_change)

text \<open>Inside an excepted stack anything may be written.\<close>

lemma pub_update_stacks_but:
  assumes "\<And>r. p r \<Longrightarrow> sk_name r \<in> T" and "\<And>r. sk_name (f r) = sk_name r"
  shows "pub.keeps T (update_stacks p f)"
proof -
  have "published stack (d\<lparr>stacks_tbl := change p f (stacks_tbl d)\<rparr>) = published stack d"
    if "stack \<notin> T" for stack d
  proof -
    have "find (\<lambda>r. sk_name r = stack) (change p f (stacks_tbl d)) = find (\<lambda>r. sk_name r = stack) (stacks_tbl d)"
      by (rule find_change_other) (use assms that in auto)
    then show ?thesis by (simp add: published_def find_stack_def)
  qed
  then show ?thesis unfolding update_stacks_def
    by (intro pub.keeps_bind pub.keeps_query pub.keeps_return pub.keeps_exec) (simp add: same_published_def)
qed

lemma pub_update_services: "(\<And>r. keeps_service_view r (f r)) \<Longrightarrow> pub.keeps T (update_services p f)"
  unfolding update_services_def
  by (intro pub.keeps_bind pub.keeps_query pub.keeps_return pub.keeps_exec)
    (simp add: same_published_def published_service_change)

lemma pub_update_services_but:
  assumes "\<And>r. p r \<Longrightarrow> sv_stack r \<in> T" and "\<And>r. sv_key (f r) = sv_key r"
  shows "pub.keeps T (update_services p f)"
proof -
  have "published_service stack service (d\<lparr>services_tbl := change p f (services_tbl d)\<rparr>)
      = published_service stack service d" if "stack \<notin> T" for stack service d
  proof -
    have "find (\<lambda>r. sv_key r = (stack, service)) (change p f (services_tbl d))
        = find (\<lambda>r. sv_key r = (stack, service)) (services_tbl d)"
      by (rule find_change_other) (use assms that in \<open>auto simp: sv_key_def\<close>)
    then show ?thesis by (simp add: published_service_def)
  qed
  then show ?thesis unfolding update_services_def
    by (intro pub.keeps_bind pub.keeps_query pub.keeps_return pub.keeps_exec) (simp add: same_published_def)
qed

lemma pub_update_others [intro]:
  "pub.keeps T (update_rootfs p2 f2)" "pub.keeps T (update_operations p3 f3)"
  "pub.keeps T (update_opservices p4 f4)"
  unfolding update_rootfs_def update_operations_def update_opservices_def
  by (intro pub.keeps_bind pub.keeps_query pub.keeps_return pub.keeps_exec, simp add: same_published_def)+

lemma pub_insert_stack: "sk_revision r = 0 \<Longrightarrow> pub.keeps T (insert_stack r)"
  unfolding insert_stack_def
  by (rule pub.keeps_exec)
    (auto simp: same_published_def published_def find_stack_def find_append split: option.splits)

lemma pub_insert_service: "sv_generation r = None \<Longrightarrow> pub.keeps T (insert_service r)"
  unfolding insert_service_def
  by (rule pub.keeps_exec)
    (auto simp: same_published_def published_service_def find_append split: option.splits)

lemma pub_inserts [intro]:
  "pub.keeps T (insert_rootfs r3)" "pub.keeps T (insert_operation r4)" "pub.keeps T (insert_opservice r5)"
  unfolding insert_rootfs_def insert_operation_def insert_opservice_def
  by (rule pub.keeps_exec, simp add: same_published_def)+

lemmas pub_rules = pub.keeps_rules pub_update_stacks pub_update_services pub_update_others
  pub_insert_stack pub_insert_service pub_inserts

lemmas view_defs = keeps_stack_view_def keeps_service_view_def sv_key_def shutdown_proven_def clear_identity_def

section \<open>Operations\<close>

lemma pub_reject: "pub.keeps T (reject_unfinished_operation stack)"
  unfolding reject_unfinished_operation_def by (intro pub_rules)

lemma pub_refresh: "pub.keeps T (refresh_stack_state stack now)"
  unfolding refresh_stack_state_def by (intro pub_rules) (simp add: view_defs)

lemma pub_set_service_phase: "pub.keeps T (set_service_phase request stack service phase now)"
  unfolding set_service_phase_def by (intro pub_rules) (simp add: view_defs)

lemma pub_begin_up: "pub.keeps T (begin_up request source base m ps clk)"
  unfolding begin_up_def begin_up_existing_def begin_up_service_def retire_obsolete_def retire_candidate_def
    order_tx_def Let_def
  by (intro pub_rules pub_reject) (simp_all add: view_defs)

lemma pub_recovery: "pub.keeps T (begin_candidate_recovery request source base m ps clk)"
  unfolding begin_candidate_recovery_def recover_service_def recovered_generation_def order_tx_def Let_def
  by (intro pub_rules pub_reject) (simp_all add: view_defs)

lemma pub_marks:
  "pub.keeps T (mark_logs_prepared request stack service clk)"
  "pub.keeps T (mark_install_invoked request stack service clk)"
  "pub.keeps T (mark_start_invoked request stack service clk)"
  "pub.keeps T (mark_stop_invoked request stack service clk)"
  unfolding mark_logs_prepared_def mark_install_invoked_def mark_start_invoked_def mark_stop_invoked_def
    set_candidate_phase_def
  by (intro pub_rules pub_set_service_phase)+

lemma pub_engine_marks:
  "pub.keeps T (mark_installed request stack service clk)"
  "pub.keeps T (mark_rootfs_unknown request stack service clk)"
  "pub.keeps T (mark_starting request stack service pid st boot clk)"
  "pub.keeps T (mark_running request stack service session clk)"
  unfolding mark_installed_def mark_rootfs_unknown_def set_rootfs_state_def mark_starting_def mark_running_def
  by (intro pub_rules pub_set_service_phase pub_refresh; simp add: view_defs)+

lemma pub_failures:
  "pub.keeps T (mark_service_failed request stack service code message unknown clk)"
  "pub.keeps T (finalize_operation_failure request stack code message clk)"
  "pub.keeps T (finalize_down_failure request stack code message clk)"
  "pub.keeps T (mark_runtime_unknown stack service clk)"
  unfolding mark_service_failed_def finalize_operation_failure_def finalize_down_failure_def
    mark_runtime_unknown_def Let_def
  by (intro pub_rules pub_refresh; simp add: view_defs)+

lemma pub_stops:
  "pub.keeps T (begin_down request stack order clk)"
  "pub.keeps T (mark_stopped request stack service code sig clk)"
  "pub.keeps T (record_graceful_stop stack service code sig clk)"
  "pub.keeps T (record_graceful_backoff_stop stack service clk)"
  "pub.keeps T (finish_down request stack clk)"
  "pub.keeps T (record_exit stack service code sig clk)"
  unfolding begin_down_def begin_down_service_def mark_stopped_def record_graceful_stop_def
    record_graceful_backoff_stop_def finish_down_def record_exit_def Let_def
  by (intro pub_rules pub_reject pub_refresh; simp add: view_defs)+

lemma pub_starts:
  "pub.keeps T (begin_start_current request stack operation ss target source base clk)"
  "pub.keeps T (begin_restart request stack service clk)"
  "pub.keeps T (mark_restart_stop_invoked request stack service clk)"
  "pub.keeps T (mark_restart_stopped request stack service code sig clk)"
  "pub.keeps T (finish_restart request stack service clk)"
  "pub.keeps T (finish_start_current request stack clk)"
  unfolding begin_start_current_def start_current_service_def begin_restart_def mark_restart_stop_invoked_def
    mark_restart_stopped_def move_opservice_def finish_restart_def finish_start_current_def Let_def
  by (intro pub_rules pub_reject pub_refresh; simp add: view_defs)+

lemma pub_schedule:
  "pub.keeps T (schedule_restart stack service n w t clk)"
  "pub.keeps T (defer_restart stack service t clk)"
  "pub.keeps T (restore_restart_backoff stack service t clk)"
  "pub.keeps T (mark_restart_invoked stack service clk)"
  "pub.keeps T (mark_restart_starting stack service pid st boot clk)"
  "pub.keeps T (mark_restart_running stack service session clk)"
  unfolding schedule_restart_def defer_restart_def restore_restart_backoff_def mark_restart_invoked_def
    mark_restart_starting_def mark_restart_running_def
  by (intro pub_rules pub_refresh; simp add: view_defs)+

lemma pub_reconcile: "pub.keeps T (reconcile_cold_start clk)"
  unfolding reconcile_cold_start_def reconcile_row_def cold_rootfs_def reconcile_active_def
    reconcile_parent_def fail_parent_def finish_operation_def
  by (intro pub_rules pub_refresh) (simp_all add: view_defs)

lemma pub_records:
  "pub.keeps T (record_noop_up request stack source base clk)"
  "pub.keeps T (cache_response request response clk)"
  unfolding record_noop_up_def cache_response_def by (intro pub_rules)+

lemma pub_commit_service: "pub.keeps {stack} (commit_service request stack now row)"
  unfolding commit_service_def Let_def
  by (intro pub.keeps_rules pub_update_others pub_update_services_but) (auto simp: the_service_def sv_key_def)

lemma pub_commit: "pub.keeps {stack} (commit_up request stack clk)"
  unfolding commit_up_def finish_operation_def
  by (intro pub.keeps_rules pub_update_others pub_commit_service pub_update_stacks_but) auto

lemmas pub_operations = pub_begin_up pub_recovery pub_marks pub_engine_marks pub_failures pub_stops
  pub_starts pub_schedule pub_reconcile pub_records

lemma step_cases_published:
  "store_step d d' \<Longrightarrow>
     (\<exists>request stack clk u. commit_up request stack clk d = Inr (u, d')) \<or> same_published {} d d'"
  by (induction rule: store_step.induct)
    ((rule disjI2, rule pub.keepsD, rule pub_operations, assumption) | blast)+

lemma step_published:
  assumes "store_step d d'" and "\<not> (\<exists>request clk. commit_up request stack clk d = Inr ((), d'))"
  shows "published stack d' = published stack d
    \<and> published_service stack service d' = published_service stack service d"
  using step_cases_published [OF assms(1)]
proof
  assume "\<exists>request s clk u. commit_up request s clk d = Inr (u, d')"
  then obtain request s clk u where c: "commit_up request s clk d = Inr (u, d')" by blast
  then have "same_published {s} d d'" by (rule pub.keepsD [OF pub_commit])
  moreover have "stack \<noteq> s" using assms(2) c by auto
  ultimately show ?thesis by (simp add: same_published_def)
qed (simp add: same_published_def)

section \<open>The commit\<close>

lemma exactly_one_Inr [res_simps]:
  "exactly_one m s d = Inr (u, d') \<longleftrightarrow> m d = Inr (1, d')"
  by (auto simp: exactly_one_def res_simps)

lemma any_number_Inr [res_simps]: "any_number m d = Inr (u, d') \<longleftrightarrow> (\<exists>n. m d = Inr (n, d'))"
  by (auto simp: any_number_def res_simps)

lemma update_Inr [res_simps]:
  "update_stacks p1 f1 d = Inr (n, d') \<longleftrightarrow>
     n = matching p1 (stacks_tbl d) \<and> d' = d\<lparr>stacks_tbl := change p1 f1 (stacks_tbl d)\<rparr> \<and> schema_ok d'"
  "update_services p2 f2 d = Inr (n, d') \<longleftrightarrow>
     n = matching p2 (services_tbl d) \<and> d' = d\<lparr>services_tbl := change p2 f2 (services_tbl d)\<rparr> \<and> schema_ok d'"
  "update_rootfs p3 f3 d = Inr (n, d') \<longleftrightarrow>
     n = matching p3 (rootfs_tbl d) \<and> d' = d\<lparr>rootfs_tbl := change p3 f3 (rootfs_tbl d)\<rparr> \<and> schema_ok d'"
  "update_operations p4 f4 d = Inr (n, d') \<longleftrightarrow>
     n = matching p4 (operations_tbl d) \<and> d' = d\<lparr>operations_tbl := change p4 f4 (operations_tbl d)\<rparr> \<and> schema_ok d'"
  "update_opservices p5 f5 d = Inr (n, d') \<longleftrightarrow>
     n = matching p5 (opservices_tbl d) \<and> d' = d\<lparr>opservices_tbl := change p5 f5 (opservices_tbl d)\<rparr> \<and> schema_ok d'"
  by (auto simp: update_stacks_def update_services_def update_rootfs_def update_operations_def
      update_opservices_def res_simps)

lemma find_unique: "distinct (map k rs) \<Longrightarrow> r \<in> set rs \<Longrightarrow> find (\<lambda>x. k x = k r) rs = Some r"
  by (induction rs) auto

lemma matching_one:
  assumes "matching p rs = 1"
  shows "\<exists>r \<in> set rs. p r"
proof (cases "filter p rs")
  case Nil
  with assms show ?thesis by (simp add: matching_def)
next
  case (Cons r qs)
  then have "r \<in> set (filter p rs)" by simp
  then show ?thesis by auto
qed

text \<open>One service of a commit: its view is the journaled candidate, the others keep theirs.\<close>

lemma commit_service_view:
  assumes "commit_service request stack now row d = Inr (u, d')"
  shows "\<exists>g config r. os_generation row = Some g \<and> os_config row = Some config
    \<and> r \<in> set (rootfs_tbl d) \<and> rg_id r = (stack, os_service row, g) \<and> rg_state r = ''installed''
    \<and> rg_role r = ''candidate''
    \<and> published_service stack (os_service row) d' = Some (config, Some (rg_alias r), g)
    \<and> (\<forall>v. v \<noteq> os_service row \<longrightarrow> published_service stack v d' = published_service stack v d)
    \<and> published stack d' = published stack d
    \<and> operations_tbl d' = operations_tbl d \<and> stacks_tbl d' = stacks_tbl d"
proof -
  let ?v = "os_service row"
  from assms obtain g config al rs where
    g: "os_generation row = Some g" "os_config row = Some config"
    and al: "candidate_alias stack ?v g d = Inr al"
    and d': "d' = d\<lparr>rootfs_tbl := rs, services_tbl := change (the_service stack ?v)
         (\<lambda>r. r\<lparr>sv_config := config, sv_alias := Some al, sv_generation := Some g,
                 sv_desired := ''running'', sv_observed := ''running'', sv_phase := ''committed'',
                 sv_updated := now\<rparr>) (services_tbl d)\<rparr>"
    and one: "matching (the_service stack ?v) (services_tbl d) = 1" and ok: "schema_ok d'"
    by (auto simp: commit_service_def Let_def res_simps)
  let ?f = "\<lambda>r. r\<lparr>sv_config := config, sv_alias := Some al, sv_generation := Some g,
                 sv_desired := ''running'', sv_observed := ''running'', sv_phase := ''committed'',
                 sv_updated := now\<rparr>"
  from al obtain r where r: "r \<in> set (rootfs_tbl d)" "the_generation stack ?v g r"
    "rg_state r = ''installed''" "rg_role r = ''candidate''" "al = rg_alias r"
    by (auto simp: candidate_alias_def res_simps dest!: find_SomeD)
  obtain s where s: "s \<in> set (services_tbl d)" "the_service stack ?v s"
    using matching_one [OF one] by blast
  have "?f s \<in> set (services_tbl d')" unfolding d' using change_in [OF s(1), of "the_service stack ?v" ?f] s(2) by simp
  moreover have "distinct (map sv_key (services_tbl d'))" using ok by (simp add: constraint_defs)
  ultimately have "find (\<lambda>x. sv_key x = sv_key (?f s)) (services_tbl d') = Some (?f s)"
    by (intro find_unique)
  moreover have "sv_key (?f s) = (stack, ?v)" using s(2) by (simp add: the_service_def sv_key_def)
  ultimately have view: "published_service stack ?v d' = Some (config, Some (rg_alias r), g)"
    using r(5) by (simp add: published_service_def)
  have "published_service stack v d' = published_service stack v d" if "v \<noteq> ?v" for v
  proof -
    have "find (\<lambda>r. sv_key r = (stack, v)) (change (the_service stack ?v) ?f (services_tbl d))
        = find (\<lambda>r. sv_key r = (stack, v)) (services_tbl d)"
      by (rule find_change_other) (use that in \<open>auto simp: sv_key_def the_service_def\<close>)
    then show ?thesis by (simp add: published_service_def d')
  qed
  moreover have "published stack d' = published stack d" by (simp add: published_def find_stack_def d')
  ultimately show ?thesis
    using g r view d' by (intro exI [of _ g] exI [of _ config] exI [of _ r])
      (simp add: rg_id_def the_generation_def)
qed

definition row_published :: "string \<Rightarrow> opservice_row \<Rightarrow> db \<Rightarrow> bool" where
  "row_published stack row d \<longleftrightarrow>
     (\<exists>g config. os_generation row = Some g \<and> os_config row = Some config
      \<and> (\<exists>r \<in> set (rootfs_tbl d). rg_id r = (stack, os_service row, g)
          \<and> published_service stack (os_service row) d = Some (config, Some (rg_alias r), g)))"

lemma commit_service_row:
  assumes "commit_service request stack now row d = Inr (u, d')"
  shows "row_published stack row d'"
proof -
  from commit_service_view [OF assms] obtain g config r where
    v: "os_generation row = Some g" "os_config row = Some config" "r \<in> set (rootfs_tbl d)"
      "rg_id r = (stack, os_service row, g)"
      "published_service stack (os_service row) d' = Some (config, Some (rg_alias r), g)" by blast
  have "kept same_generation (rootfs_tbl d) (rootfs_tbl d')"
    using hist.keepsD [OF hist_commit_service assms, of "{}"] by (simp add: extends_but_def)
  with v(3) obtain r' where "r' \<in> set (rootfs_tbl d')" "same_generation r r'" unfolding kept_def by blast
  with v show ?thesis unfolding row_published_def same_generation_def by auto
qed

lemma row_published_later:
  assumes "row_published stack row d" and "kept same_generation (rootfs_tbl d) (rootfs_tbl d')"
    and "published_service stack (os_service row) d' = published_service stack (os_service row) d"
  shows "row_published stack row d'"
  using assms unfolding row_published_def kept_def same_generation_def by metis

lemma commit_services_view:
  assumes "tx_for rows (commit_service request stack now) d = Inr (u, d')"
    and "distinct (map os_service rows)"
  shows "(\<forall>row \<in> set rows. row_published stack row d')
    \<and> (\<forall>v. v \<notin> os_service ` set rows \<longrightarrow> published_service stack v d' = published_service stack v d)
    \<and> stacks_tbl d' = stacks_tbl d \<and> operations_tbl d' = operations_tbl d
    \<and> kept same_generation (rootfs_tbl d) (rootfs_tbl d')"
  using assms
proof (induction rows arbitrary: d)
  case Nil
  then show ?case by (simp add: kept_refl same_refl)
next
  case (Cons row rows)
  from Cons.prems(1) obtain u1 d1 where c: "commit_service request stack now row d = Inr (u1, d1)"
    and rest: "tx_for rows (commit_service request stack now) d1 = Inr (u, d')" by (auto simp: res_simps)
  have new: "os_service row \<notin> os_service ` set rows" "distinct (map os_service rows)"
    using Cons.prems(2) by auto
  note IH = Cons.IH [OF rest new(2)]
  have k: "kept same_generation (rootfs_tbl d) (rootfs_tbl d1)"
    using hist.keepsD [OF hist_commit_service c, of "{}"] by (simp add: extends_but_def)
  have k2: "kept same_generation (rootfs_tbl d1) (rootfs_tbl d')" using IH by blast
  have "kept same_generation (rootfs_tbl d) (rootfs_tbl d')"
    by (rule kept_trans [OF same_generation_trans k k2])
  moreover have "row_published stack row d'"
    using row_published_later [OF commit_service_row [OF c] k2] IH new(1) by blast
  moreover have "\<forall>v. v \<notin> os_service ` set (row # rows) \<longrightarrow> published_service stack v d' = published_service stack v d"
    using IH commit_service_view [OF c] by auto
  moreover have "stacks_tbl d1 = stacks_tbl d" "operations_tbl d1 = operations_tbl d"
    using commit_service_view [OF c] by blast+
  ultimately show ?case using IH by simp
qed

lemma operation_rows_set: "set (operation_rows request d) = {c \<in> set (opservices_tbl d). os_request c = request}"
  by (auto simp: operation_rows_def)

lemma operation_rows_distinct:
  assumes "schema_ok d"
  shows "distinct (map os_service (operation_rows request d))"
proof -
  let ?rows = "filter (\<lambda>r. os_request r = request) (opservices_tbl d)"
  have "distinct (map (\<lambda>r. (os_request r, os_service r)) (opservices_tbl d))"
    using assms by (simp add: constraint_defs)
  then have "inj_on (\<lambda>r. (os_request r, os_service r)) (set (opservices_tbl d))" "distinct (opservices_tbl d)"
    by (simp_all add: distinct_map)
  then have "inj_on os_service (set ?rows)" "distinct ?rows" by (auto simp: inj_on_def)
  then show ?thesis by (simp add: operation_rows_def distinct_map)
qed

lemma incomplete_0: "incomplete_count request d = 0 \<longleftrightarrow>
    (\<forall>c \<in> set (opservices_tbl d). os_request c = request \<longrightarrow> os_outcome c = Some ''success'')"
  by (auto simp: incomplete_count_def matching_def filter_empty_conv)

text \<open>What one successful commit has done, in terms of the published view.\<close>

lemma commit_up_view:
  assumes "commit_up request stack clk d = Inr (u, d')" and "schema_ok d"
  shows "\<exists>source base revision old. candidate_of request stack d = Inr (source, base, revision)
    \<and> committed_revision stack d = Some old \<and> old < revision
    \<and> published stack d' = Some (source, base, revision)
    \<and> (\<forall>c \<in> set (opservices_tbl d). os_request c = request \<longrightarrow>
         os_outcome c = Some ''success'' \<and> row_published stack c d')
    \<and> (\<forall>v. v \<notin> os_service ` {c \<in> set (opservices_tbl d). os_request c = request} \<longrightarrow>
         published_service stack v d' = published_service stack v d)"
proof -
  from assms(1) obtain now source base revision d1 where
    cand: "candidate_of request stack d = Inr (source, base, revision)"
    and inc: "incomplete_count request d = 0"
    and loop: "tx_for (operation_rows request d) (commit_service request stack now) d = Inr ((), d1)"
    and one: "matching (\<lambda>r. sk_name r = stack \<and> sk_revision r < revision) (stacks_tbl d1) = 1"
    and st: "stacks_tbl d' = change (\<lambda>r. sk_name r = stack \<and> sk_revision r < revision)
          (\<lambda>r. r\<lparr>sk_desired := ''running'', sk_observed := ''running'', sk_manifest := source,
                sk_base := base, sk_revision := revision, sk_updated := now\<rparr>) (stacks_tbl d1)"
    and sv: "services_tbl d' = services_tbl d1" "rootfs_tbl d' = rootfs_tbl d1"
    by (auto simp: commit_up_def finish_operation_def res_simps)
  note view = commit_services_view [OF loop operation_rows_distinct [OF assms(2)]]
  have st1: "stacks_tbl d1 = stacks_tbl d" using view by simp
  obtain s where s: "s \<in> set (stacks_tbl d)" "sk_name s = stack" "sk_revision s < revision"
    using matching_one [OF one] st1 by auto
  have dist: "distinct (map sk_name (stacks_tbl d))" "0 \<le> sk_revision s"
    using assms(2) s(1) by (auto simp: constraint_defs)
  have f: "find (\<lambda>r. sk_name r = stack) (stacks_tbl d) = Some s"
    using find_unique [OF dist(1) s(1)] s(2) by simp
  have "find (\<lambda>r. sk_name r = stack) (stacks_tbl d')
      = map_option (\<lambda>r. if sk_name r = stack \<and> sk_revision r < revision then r\<lparr>sk_desired := ''running'',
            sk_observed := ''running'', sk_manifest := source, sk_base := base, sk_revision := revision,
            sk_updated := now\<rparr> else r) (find (\<lambda>r. sk_name r = stack) (stacks_tbl d))"
    unfolding st st1 by (rule find_change) simp
  with f s dist(2) have p: "published stack d' = Some (source, base, revision)"
    by (simp add: published_def find_stack_def)
  have old: "committed_revision stack d = Some (sk_revision s)"
    using f by (simp add: committed_revision_def find_stack_def)
  have ps: "published_service stack v d' = published_service stack v d1" for v
    by (simp add: published_service_def sv)
  have rows: "row_published stack c d'" if "c \<in> set (opservices_tbl d)" "os_request c = request" for c
  proof -
    have "row_published stack c d1" using view that by (simp add: operation_rows_set)
    then show ?thesis by (simp add: row_published_def sv ps)
  qed
  have "\<forall>v. v \<notin> os_service ` {c \<in> set (opservices_tbl d). os_request c = request} \<longrightarrow>
         published_service stack v d' = published_service stack v d"
    using view unfolding ps operation_rows_set by blast
  moreover have "\<forall>c \<in> set (opservices_tbl d). os_request c = request \<longrightarrow> os_outcome c = Some ''success''"
    using inc by (simp add: incomplete_0)
  ultimately show ?thesis using cand old s(3) p rows by blast
qed

text \<open>
  Claim C14. Whatever sequence of journal operations runs, no generation of a root file system
  is forgotten or given another alias or image, and its alias is never given to another
  generation; an operation keeps what it was asked, and once it has an outcome keeps it.
\<close>

theorem history_append_only:
  assumes "reaches d d'" and "schema_ok d"
  shows "(\<forall>r \<in> set (rootfs_tbl d). \<exists>r' \<in> set (rootfs_tbl d').
            rg_id r' = rg_id r \<and> rg_alias r' = rg_alias r \<and> rg_image r' = rg_image r
            \<and> (\<forall>x \<in> set (rootfs_tbl d'). rg_alias x = rg_alias r \<longrightarrow> rg_id x = rg_id r))
    \<and> (\<forall>r \<in> set (operations_tbl d). \<exists>r' \<in> set (operations_tbl d').
            op_intent r' = op_intent r \<and> (op_outcome r \<noteq> None \<longrightarrow> op_result r' = op_result r))"
proof (intro conjI ballI)
  fix r assume r: "r \<in> set (rootfs_tbl d)"
  have "kept same_generation (rootfs_tbl d) (rootfs_tbl d')"
    using reaches_extends [OF assms(1)] by (simp add: extends_but_def)
  with r obtain r' where r': "r' \<in> set (rootfs_tbl d')" "same_generation r r'"
    unfolding kept_def by blast
  have "rg_id x = rg_id r" if "x \<in> set (rootfs_tbl d')" "rg_alias x = rg_alias r" for x
    using alias_unique [OF reaches_schema [OF assms] that(1) r'(1)] that(2) r'(2)
    by (simp add: same_generation_def)
  with r' show "\<exists>r' \<in> set (rootfs_tbl d'). rg_id r' = rg_id r \<and> rg_alias r' = rg_alias r
      \<and> rg_image r' = rg_image r \<and> (\<forall>x \<in> set (rootfs_tbl d'). rg_alias x = rg_alias r \<longrightarrow> rg_id x = rg_id r)"
    by (auto simp: same_generation_def)
next
  fix r assume "r \<in> set (operations_tbl d)"
  moreover have "kept (same_operation {}) (operations_tbl d) (operations_tbl d')"
    using reaches_extends [OF assms(1)] by (simp add: extends_but_def)
  ultimately show "\<exists>r' \<in> set (operations_tbl d'). op_intent r' = op_intent r
      \<and> (op_outcome r \<noteq> None \<longrightarrow> op_result r' = op_result r)"
    unfolding kept_def same_operation_def by auto
qed

lemma history_append_only_witness:
  "\<exists>r' \<in> set (rootfs_tbl sample_stopping). rg_id r' = (''demo'', ''db'', 1) \<and> rg_alias r' = ''d1''"
proof -
  have "demo_rootfs ''db'' ''d1'' ''postgres'' ''installed'' ''candidate'' 8 \<in> set (rootfs_tbl sample_running)"
    by (simp add: sample_running_def)
  from history_append_only [OF sample_reaches sample_schema(3), THEN conjunct1, rule_format, OF this]
  show ?thesis by (auto simp: demo_rootfs_def rg_id_def)
qed

section \<open>Published revisions\<close>

definition same_view :: "string \<Rightarrow> db \<Rightarrow> db \<Rightarrow> bool" where
  "same_view stack d d' \<longleftrightarrow> published stack d' = published stack d
     \<and> (\<forall>v. published_service stack v d' = published_service stack v d)"

text \<open>
  Claim C3. What a stack has published, its manifest, revision and the configuration and root
  file system of every service, is changed by no call of the journal but a commit of that very
  stack, and that commit publishes the journaled candidate as a whole: every service of the
  operation had succeeded and now shows its journaled configuration and generation, the others
  are as they were, and the revision has grown.
\<close>

theorem published_only_by_commit:
  assumes "store_step d d'" and "schema_ok d" and "\<not> same_view stack d d'"
  shows "\<exists>request clk source base revision old. commit_up request stack clk d = Inr ((), d')
    \<and> candidate_of request stack d = Inr (source, base, revision)
    \<and> committed_revision stack d = Some old \<and> old < revision
    \<and> published stack d' = Some (source, base, revision)
    \<and> (\<forall>c \<in> set (opservices_tbl d). os_request c = request \<longrightarrow>
         os_outcome c = Some ''success'' \<and> row_published stack c d')
    \<and> (\<forall>v. v \<notin> os_service ` {c \<in> set (opservices_tbl d). os_request c = request} \<longrightarrow>
         published_service stack v d' = published_service stack v d)"
proof -
  have "\<exists>request clk. commit_up request stack clk d = Inr ((), d')"
    using step_published [OF assms(1)] assms(3) unfolding same_view_def by blast
  then obtain request clk where c: "commit_up request stack clk d = Inr ((), d')" by blast
  with commit_up_view [OF c assms(2)] show ?thesis by blast
qed

lemma sample_publishes: "\<not> same_view ''demo'' sample_running sample_committed"
proof -
  have "published ''demo'' sample_running \<noteq> published ''demo'' sample_committed" by code_simp
  then show ?thesis by (auto simp: same_view_def)
qed

lemma published_only_by_commit_witness:
  "\<exists>request clk source base. commit_up request ''demo'' clk sample_running = Inr ((), sample_committed)
    \<and> published ''demo'' sample_committed = Some (source, base, 1)"
proof -
  have "published ''demo'' sample_committed = Some (''text'', ''/b'', 1)" by code_simp
  then show ?thesis
    using published_only_by_commit [OF step_commit [OF sample_commit] sample_schema(3) sample_publishes]
    by auto
qed

definition revision_of :: "string \<Rightarrow> db \<Rightarrow> int" where
  "revision_of stack d = (case published stack d of None \<Rightarrow> 0 | Some (m, b, r) \<Rightarrow> r)"

definition grows :: "db \<Rightarrow> db \<Rightarrow> bool" where
  "grows d d' \<longleftrightarrow> schema_ok d \<longrightarrow> schema_ok d' \<and>
     (\<forall>stack. same_view stack d d' \<or> revision_of stack d < revision_of stack d')"

lemma same_view_revision: "same_view stack d d' \<Longrightarrow> revision_of stack d' = revision_of stack d"
  by (simp add: same_view_def revision_of_def)

lemma same_view_trans: "same_view stack d d' \<Longrightarrow> same_view stack d' d'' \<Longrightarrow> same_view stack d d''"
  by (simp add: same_view_def)

lemma grows_trans:
  assumes "grows d d'" and "grows d' d''"
  shows "grows d d''"
  unfolding grows_def
proof (intro impI conjI allI)
  assume ok: "schema_ok d"
  then have ok': "schema_ok d'" using assms(1) by (simp add: grows_def)
  then show "schema_ok d''" using assms(2) by (simp add: grows_def)
  fix stack
  have "same_view stack d d' \<or> revision_of stack d < revision_of stack d'"
    "same_view stack d' d'' \<or> revision_of stack d' < revision_of stack d''"
    using assms ok ok' by (simp_all add: grows_def)
  then show "same_view stack d d'' \<or> revision_of stack d < revision_of stack d''"
    using same_view_trans [of stack d d' d''] same_view_revision [of stack d d']
      same_view_revision [of stack d' d''] by linarith
qed

interpretation rev: tx_relation grows
  by unfold_locales (simp add: grows_def same_view_def, rule grows_trans)

lemma committed_revision_of:
  assumes "committed_revision stack d = Some old" and "schema_ok d"
  shows "revision_of stack d = old"
proof -
  from assms(1) obtain s where s: "find_stack stack d = Some s" "old = sk_revision s"
    by (auto simp: committed_revision_def)
  then have "s \<in> set (stacks_tbl d)" by (auto simp: find_stack_def dest: find_SomeD)
  with assms(2) have "0 \<le> sk_revision s" by (simp add: constraint_defs)
  with s show ?thesis by (simp add: revision_of_def published_def)
qed

lemma step_grows: "store_step d d' \<Longrightarrow> grows d d'"
  unfolding grows_def
proof (intro impI conjI allI)
  assume step: "store_step d d'" and ok: "schema_ok d"
  show "schema_ok d'" using reaches_schema [OF reaches_step [OF reaches_refl step] ok] .
  fix stack
  show "same_view stack d d' \<or> revision_of stack d < revision_of stack d'"
  proof (rule disjCI)
    assume "\<not> revision_of stack d < revision_of stack d'"
    then have "\<not> (\<exists>request clk. commit_up request stack clk d = Inr ((), d'))"
      using commit_up_view [OF _ ok] committed_revision_of [OF _ ok] unfolding revision_of_def [of stack d']
      by fastforce
    then show "same_view stack d d'" using step_published [OF step] unfolding same_view_def by blast
  qed
qed

lemma reaches_grows: "reaches d d' \<Longrightarrow> grows d d'"
  by (rule rev.reaches_keeps [OF step_grows])

text \<open>
  Claim C26. Over any sequence of journal operations the revision of a stack never goes back,
  and a revision number stands for one content: as long as the number is the same, so are the
  manifest and the configuration, root file system and generation of every service.
\<close>

theorem revision_determines_published:
  assumes "reaches d d'" and "schema_ok d"
    and "published stack d = Some (m, b, r)" and "published stack d' = Some (m', b', r')"
  shows "r \<le> r' \<and> (r = r' \<longrightarrow> m = m' \<and> b = b'
    \<and> (\<forall>v. published_service stack v d' = published_service stack v d))"
proof -
  have "same_view stack d d' \<or> revision_of stack d < revision_of stack d'"
    using reaches_grows [OF assms(1)] assms(2) by (simp add: grows_def)
  then show ?thesis using assms(3,4) by (auto simp: same_view_def revision_of_def)
qed

lemma revision_determines_published_witness:
  "published_service ''demo'' ''db'' sample_stopping = published_service ''demo'' ''db'' sample_committed"
proof -
  have r: "reaches sample_committed sample_stopping"
    by (rule reaches_step [OF reaches_refl step_begin_down [OF sample_stop]])
  have p: "published ''demo'' sample_committed = Some (''text'', ''/b'', 1)"
    "published ''demo'' sample_stopping = Some (''text'', ''/b'', 1)" by code_simp+
  show ?thesis using revision_determines_published [OF r sample_schema(4) p] by simp
qed

end
