(* ===== verification/Store_Total.thy ===== *)
theory Store_Total
  imports Store_Published
begin

text \<open>
  Total correctness of a transaction of the journal (\<^verbatim>\<open>src/store.rs\<close>): from every database
  that meets the precondition the transaction succeeds and the postcondition holds. The triples
  follow the syntax of the transaction, with an invariant for each of its loops, and the
  statements that cannot violate a constraint are shown once for each table.
\<close>

section \<open>Total correctness\<close>

definition total :: "(db \<Rightarrow> bool) \<Rightarrow> 'a tx \<Rightarrow> ('a \<Rightarrow> db \<Rightarrow> bool) \<Rightarrow> bool" where
  "total P m Q \<longleftrightarrow> (\<forall>d. P d \<longrightarrow> (\<exists>a d'. m d = Inr (a, d') \<and> Q a d'))"

lemma totalI: "(\<And>d. P d \<Longrightarrow> \<exists>a d'. m d = Inr (a, d') \<and> Q a d') \<Longrightarrow> total P m Q"
  by (simp add: total_def)

lemma totalD: "total P m Q \<Longrightarrow> P d \<Longrightarrow> \<exists>a d'. m d = Inr (a, d') \<and> Q a d'"
  by (simp add: total_def)

lemma total_bind: "total P m Q \<Longrightarrow> (\<And>a. total (Q a) (k a) R) \<Longrightarrow> total P (tx_bind m k) R"
  unfolding total_def tx_bind_def by (fastforce simp: andthen_Inr_iff)

lemma total_return: "(\<And>d. P d \<Longrightarrow> Q a d) \<Longrightarrow> total P (tx_return a) Q"
  by (simp add: total_def)

lemma total_query: "(\<And>d. P d \<Longrightarrow> Q (f d) d) \<Longrightarrow> total P (tx_query f) Q"
  by (simp add: total_def)

lemma total_read: "(\<And>d. P d \<Longrightarrow> \<exists>a. f d = Inr a \<and> Q a d) \<Longrightarrow> total P (tx_read f) Q"
  by (fastforce simp: total_def tx_read_def andthen_Inr_iff)

lemma total_lift: "r = Inr a \<Longrightarrow> (\<And>d. P d \<Longrightarrow> Q a d) \<Longrightarrow> total P (tx_lift r) Q"
  by (auto simp: total_def tx_lift_def)

lemma total_exec: "(\<And>d. P d \<Longrightarrow> schema_ok (f d) \<and> Q () (f d)) \<Longrightarrow> total P (tx_exec f) Q"
  by (simp add: total_def tx_exec_def)

lemma total_if: "(b \<Longrightarrow> total P m Q) \<Longrightarrow> (\<not> b \<Longrightarrow> total P m' Q) \<Longrightarrow> total P (if b then m else m') Q"
  by simp

lemma total_pre: "total P' m Q \<Longrightarrow> (\<And>d. P d \<Longrightarrow> P' d) \<Longrightarrow> total P m Q"
  by (simp add: total_def)

lemma total_post: "total P m Q' \<Longrightarrow> (\<And>a d. Q' a d \<Longrightarrow> Q a d) \<Longrightarrow> total P m Q"
  unfolding total_def by blast

text \<open>The invariants of loops speak of the elements still to come.\<close>

lemma total_for:
  assumes "\<And>x ys. total (I (x # ys)) (f x) (\<lambda>_. I ys)"
  shows "total (I xs) (tx_for xs f) (\<lambda>_. I [])"
proof (induction xs)
  case (Cons x xs)
  show ?case by (simp, rule total_bind [OF assms]) (rule Cons.IH)
qed (simp add: total_def)

lemma total_fold:
  assumes "\<And>x ys s. total (I (x # ys)) (f x s) (\<lambda>_. I ys)"
  shows "total (I xs) (tx_fold f xs s) (\<lambda>_. I [])"
proof (induction xs arbitrary: s)
  case (Cons x xs)
  show ?case by (simp, rule total_bind [OF assms]) (rule Cons.IH)
qed (simp add: total_def)

section \<open>Updates that cannot fail\<close>

lemma map_change: "(\<And>r. k (f r) = k r) \<Longrightarrow> map k (change p f rs) = map k rs"
  by (simp add: change_def)

lemma key_set_change: "(\<And>r. k (f r) = k r) \<Longrightarrow> k ` set (change p f rs) = k ` set rs"
  using map_change [of k f p rs] by (metis set_map)

lemma ball_change: "(\<And>r. Q r \<Longrightarrow> p r \<Longrightarrow> Q (f r)) \<Longrightarrow> \<forall>r \<in> set rs. Q r \<Longrightarrow> \<forall>r \<in> set (change p f rs). Q r"
  by (auto simp: change_def)

lemma distinct_filter_change:
  assumes "\<And>r. k (f r) = k r" and "\<And>r. q (f r) \<Longrightarrow> q r"
  shows "distinct (map k (filter q rs)) \<Longrightarrow> distinct (map k (filter q (change p f rs)))"
proof (induction rs)
  case (Cons r rs)
  have sub: "k ` {x \<in> set (change p f rs). q x} \<subseteq> k ` {x \<in> set rs. q x}"
  proof
    fix y assume "y \<in> k ` {x \<in> set (change p f rs). q x}"
    then obtain x where x: "x \<in> set (change p f rs)" "q x" "y = k x" by auto
    from in_change [OF x(1)] obtain z where z: "z \<in> set rs" "x = (if p z then f z else z)" by blast
    with x have "q z" "y = k z" using assms by (auto split: if_splits)
    with z(1) show "y \<in> k ` {x \<in> set rs. q x}" by blast
  qed
  have "distinct (map k (filter q (change p f rs)))" using Cons by (auto split: if_splits)
  moreover have "k r \<notin> k ` {x \<in> set (change p f rs). q x}" if "q r"
    using Cons.prems that sub by auto
  moreover have "change p f (r # rs) = (if p r then f r else r) # change p f rs" by (simp add: change_def)
  ultimately show ?case using assms by auto
qed (simp add: change_def)

lemma ok_change_stacks:
  assumes "schema_ok d" and "\<And>r. sk_name (f r) = sk_name r" and "\<And>r. 0 \<le> sk_revision r \<Longrightarrow> 0 \<le> sk_revision (f r)"
  shows "schema_ok (d\<lparr>stacks_tbl := change p f (stacks_tbl d)\<rparr>)"
proof -
  have "\<forall>r \<in> set (change p f (stacks_tbl d)). 0 \<le> sk_revision r"
    by (rule ball_change) (use assms in \<open>simp_all add: constraint_defs\<close>)
  with assms(1) show ?thesis
    by (simp add: constraint_defs map_change [of sk_name f, OF assms(2)] key_set_change [of sk_name f, OF assms(2)])
qed

lemma ok_change_services:
  assumes "schema_ok d" and "\<And>r. sv_key (f r) = sv_key r"
    and "\<And>r. 0 \<le> sv_attempts r \<and> (sv_alias r = None) = (sv_generation r = None) \<Longrightarrow>
           0 \<le> sv_attempts (f r) \<and> (sv_alias (f r) = None) = (sv_generation (f r) = None)"
  shows "schema_ok (d\<lparr>services_tbl := change p f (services_tbl d)\<rparr>)"
proof -
  have s: "sv_stack (f r) = sv_stack r" for r using assms(2) [of r] by (simp add: sv_key_def)
  have "\<forall>r \<in> set (services_tbl d). sv_stack r \<in> sk_name ` set (stacks_tbl d)
      \<and> 0 \<le> sv_attempts r \<and> (sv_alias r = None) = (sv_generation r = None)"
    using assms(1) by (simp add: schema_ok_def services_ok_def)
  then have "\<forall>r \<in> set (change p f (services_tbl d)). sv_stack r \<in> sk_name ` set (stacks_tbl d)
      \<and> 0 \<le> sv_attempts r \<and> (sv_alias r = None) = (sv_generation r = None)"
    by (rule ball_change [rotated]) (use assms(3) s in metis)
  with assms(1) show ?thesis
    by (simp add: constraint_defs map_change [of sv_key f, OF assms(2)] key_set_change [of sv_key f, OF assms(2)])
qed

lemma ok_change_rootfs:
  assumes "schema_ok d" and "\<And>r. rg_id (f r) = rg_id r" and "\<And>r. rg_alias (f r) = rg_alias r"
    and role: "\<And>r. rg_role (f r) = rg_role r \<or> rg_role (f r) = ''retired''"
  shows "schema_ok (d\<lparr>rootfs_tbl := change p f (rootfs_tbl d)\<rparr>)"
proof -
  have k: "rg_key (f r) = rg_key r" "rg_generation (f r) = rg_generation r" for r
    using assms(2) [of r] by (simp_all add: rg_id_def rg_key_def)
  have "\<forall>r \<in> set (change p f (rootfs_tbl d)). rg_key r \<in> sv_key ` set (services_tbl d)
          \<and> 0 < rg_generation r \<and> rg_role r \<in> {''candidate'', ''current'', ''retired''}"
  proof
    fix r' assume "r' \<in> set (change p f (rootfs_tbl d))"
    from in_change [OF this] obtain r where r: "r \<in> set (rootfs_tbl d)" "r' = r \<or> r' = f r" by metis
    have "rg_key r \<in> sv_key ` set (services_tbl d)" "0 < rg_generation r"
      "rg_role r \<in> {''candidate'', ''current'', ''retired''}"
      using assms(1) r(1) by (simp_all add: schema_ok_def rootfs_ok_def)
    moreover have "rg_key r' = rg_key r" "rg_generation r' = rg_generation r"
      "rg_role r' = rg_role r \<or> rg_role r' = ''retired''" using r(2) k role by metis+
    ultimately show "rg_key r' \<in> sv_key ` set (services_tbl d) \<and> 0 < rg_generation r'
        \<and> rg_role r' \<in> {''candidate'', ''current'', ''retired''}" by auto
  qed
  moreover have "distinct (map rg_key (filter (\<lambda>r. rg_role r = x) (change p f (rootfs_tbl d))))"
    if "distinct (map rg_key (filter (\<lambda>r. rg_role r = x) (rootfs_tbl d)))" and "x \<noteq> ''retired''" for x
    by (rule distinct_filter_change [OF k(1) _ that(1)]) (metis role that(2))
  ultimately show ?thesis using assms(1)
    by (simp add: constraint_defs map_change [of rg_id f, OF assms(2)] map_change [of rg_alias f, OF assms(3)])
qed

lemma ok_change_operations:
  assumes "schema_ok d" and "\<And>r. op_request (f r) = op_request r" and "\<And>r. op_stack (f r) = op_stack r"
    and "\<And>r. op_outcome (f r) = None \<Longrightarrow> op_outcome r = None"
  shows "schema_ok (d\<lparr>operations_tbl := change p f (operations_tbl d)\<rparr>)"
proof -
  have "\<forall>r \<in> set (change p f (operations_tbl d)). op_stack r \<in> sk_name ` set (stacks_tbl d)"
    by (rule ball_change) (use assms in \<open>auto simp: constraint_defs\<close>)
  moreover have "distinct (map op_stack (filter (\<lambda>r. op_outcome r = None) (change p f (operations_tbl d))))"
    by (rule distinct_filter_change) (use assms in \<open>auto simp: constraint_defs\<close>)
  ultimately show ?thesis using assms(1)
    by (simp add: constraint_defs map_change [of op_request f, OF assms(2)] key_set_change [of op_request f, OF assms(2)])
qed

lemma ok_change_opservices:
  assumes "schema_ok d" and "\<And>r. os_request (f r) = os_request r" and "\<And>r. os_service (f r) = os_service r"
    and "\<And>r. os_ordinal (f r) = os_ordinal r"
  shows "schema_ok (d\<lparr>opservices_tbl := change p f (opservices_tbl d)\<rparr>)"
proof -
  have "\<forall>r \<in> set (change p f (opservices_tbl d)). os_request r \<in> op_request ` set (operations_tbl d) \<and> 0 \<le> os_ordinal r"
    by (rule ball_change) (use assms in \<open>auto simp: constraint_defs\<close>)
  moreover have "map (\<lambda>r. (os_request r, os_service r)) (change p f rs) = map (\<lambda>r. (os_request r, os_service r)) rs"
    "map (\<lambda>r. (os_request r, os_ordinal r)) (change p f rs) = map (\<lambda>r. (os_request r, os_ordinal r)) rs" for rs
    by (rule map_change, simp add: assms)+
  ultimately show ?thesis using assms(1) by (simp add: constraint_defs)
qed

text \<open>The triples of the statements: the new table is known, and only the schema is asked for.\<close>

lemma total_update_stacks:
  assumes "\<And>r. sk_name (f r) = sk_name r" and "\<And>r. 0 \<le> sk_revision r \<Longrightarrow> 0 \<le> sk_revision (f r)"
    and "\<And>d. P d \<Longrightarrow> schema_ok d \<and> (schema_ok (d\<lparr>stacks_tbl := change p f (stacks_tbl d)\<rparr>) \<longrightarrow>
           Q (matching p (stacks_tbl d)) (d\<lparr>stacks_tbl := change p f (stacks_tbl d)\<rparr>))"
  shows "total P (update_stacks p f) Q"
  using assms ok_change_stacks [OF _ assms(1,2)] by (intro totalI) (auto simp: res_simps)

lemma total_update_services:
  assumes "\<And>r. sv_key (f r) = sv_key r"
    and "\<And>r. 0 \<le> sv_attempts r \<and> (sv_alias r = None) = (sv_generation r = None) \<Longrightarrow>
           0 \<le> sv_attempts (f r) \<and> (sv_alias (f r) = None) = (sv_generation (f r) = None)"
    and "\<And>d. P d \<Longrightarrow> schema_ok d \<and> (schema_ok (d\<lparr>services_tbl := change p f (services_tbl d)\<rparr>) \<longrightarrow>
           Q (matching p (services_tbl d)) (d\<lparr>services_tbl := change p f (services_tbl d)\<rparr>))"
  shows "total P (update_services p f) Q"
  using assms ok_change_services [OF _ assms(1,2)] by (intro totalI) (auto simp: res_simps)

lemma total_update_rootfs:
  assumes "\<And>r. rg_id (f r) = rg_id r" and "\<And>r. rg_alias (f r) = rg_alias r"
    and "\<And>r. rg_role (f r) = rg_role r \<or> rg_role (f r) = ''retired''"
    and "\<And>d. P d \<Longrightarrow> schema_ok d \<and> (schema_ok (d\<lparr>rootfs_tbl := change p f (rootfs_tbl d)\<rparr>) \<longrightarrow>
           Q (matching p (rootfs_tbl d)) (d\<lparr>rootfs_tbl := change p f (rootfs_tbl d)\<rparr>))"
  shows "total P (update_rootfs p f) Q"
  using assms ok_change_rootfs [OF _ assms(1-3)] by (intro totalI) (auto simp: res_simps)

lemma total_update_operations:
  assumes "\<And>r. op_request (f r) = op_request r" and "\<And>r. op_stack (f r) = op_stack r"
    and "\<And>r. op_outcome (f r) = None \<Longrightarrow> op_outcome r = None"
    and "\<And>d. P d \<Longrightarrow> schema_ok d \<and> (schema_ok (d\<lparr>operations_tbl := change p f (operations_tbl d)\<rparr>) \<longrightarrow>
           Q (matching p (operations_tbl d)) (d\<lparr>operations_tbl := change p f (operations_tbl d)\<rparr>))"
  shows "total P (update_operations p f) Q"
  using assms ok_change_operations [OF _ assms(1-3)] by (intro totalI) (auto simp: res_simps)

lemma total_update_opservices:
  assumes "\<And>r. os_request (f r) = os_request r" and "\<And>r. os_service (f r) = os_service r"
    and "\<And>r. os_ordinal (f r) = os_ordinal r"
    and "\<And>d. P d \<Longrightarrow> schema_ok d \<and> (schema_ok (d\<lparr>opservices_tbl := change p f (opservices_tbl d)\<rparr>) \<longrightarrow>
           Q (matching p (opservices_tbl d)) (d\<lparr>opservices_tbl := change p f (opservices_tbl d)\<rparr>))"
  shows "total P (update_opservices p f) Q"
  using assms ok_change_opservices [OF _ assms(1-3)] by (intro totalI) (auto simp: res_simps)

lemma total_exactly_one: "total P m (\<lambda>n d. n = 1 \<and> Q () d) \<Longrightarrow> total P (exactly_one m s) Q"
  by (fastforce simp: total_def res_simps)

lemma total_any_number: "total P m (\<lambda>n d. Q () d) \<Longrightarrow> total P (any_number m) Q"
  by (fastforce simp: total_def res_simps)

end
