(* ===== verification/Store_Cold.thy ===== *)
theory Store_Cold
  imports Store_Total
begin

text \<open>
  What a cold start guarantees (\<^verbatim>\<open>src/store.rs\<close>, \<^verbatim>\<open>reconcile_cold_start\<close>): it cannot fail, and
  it leaves no operation unfinished and no service that claims to be alive. One invariant for
  each of its loops.
\<close>

section \<open>Settled services\<close>

definition quiet :: "service_row \<Rightarrow> bool" where
  "quiet v \<longleftrightarrow> sv_session v = None \<and> sv_pid v = None \<and> \<not> in_flight (sv_observed v)"

lemma quiet_active: "sv_active v \<Longrightarrow> active_service v \<longleftrightarrow> \<not> quiet v"
  by (auto simp: active_service_def quiet_def)

lemma quiet_clear [simp]: "quiet (clear_identity (cold_state k) p now v)" "quiet (clear_identity ''unknown'' p now v)"
  by (cases k; simp add: quiet_def clear_identity_def in_flight_def)+

lemma clear_key [simp]: "sv_key (clear_identity s p now v) = sv_key v"
  "sv_active (clear_identity s p now v) = sv_active v"
  "sv_attempts (clear_identity s p now v) = sv_attempts v"
  "sv_alias (clear_identity s p now v) = sv_alias v"
  "sv_generation (clear_identity s p now v) = sv_generation v"
  by (simp_all add: clear_identity_def sv_key_def)

definition row_key :: "opservice_row \<Rightarrow> string \<times> string" where
  "row_key c = (os_stack c, os_service c)"

text \<open>The children of unfinished operations: what remains is to handle \<open>xs\<close>.\<close>

definition settled :: "(string \<times> string) set \<Rightarrow> db \<Rightarrow> bool" where
  "settled K d \<longleftrightarrow> (\<forall>v \<in> set (services_tbl d). sv_active v \<longrightarrow> sv_key v \<in> K \<longrightarrow> quiet v)"

definition rows_inv :: "opservice_row list \<Rightarrow> db \<Rightarrow> opservice_row list \<Rightarrow> db \<Rightarrow> bool" where
  "rows_inv rows d0 xs d \<longleftrightarrow> schema_ok d \<and> operations_tbl d = operations_tbl d0 \<and> stacks_tbl d = stacks_tbl d0
     \<and> (\<exists>done. rows = done @ xs \<and> settled (row_key ` set done) d)"

lemma settled_clear:
  assumes "settled K d"
    and "\<And>v. sv_active v \<Longrightarrow> sv_key v = k \<Longrightarrow> p v \<or> quiet v"
    and "\<And>v. quiet (f v)" and "\<And>v. sv_key (f v) = sv_key v" and "\<And>v. sv_active (f v) = sv_active v"
  shows "settled (insert k K) (d\<lparr>services_tbl := change p f (services_tbl d)\<rparr>)"
  unfolding settled_def
proof (intro ballI impI)
  fix v' assume v': "v' \<in> set (services_tbl (d\<lparr>services_tbl := change p f (services_tbl d)\<rparr>))"
    "sv_active v'" "sv_key v' \<in> insert k K"
  then obtain v where v: "v \<in> set (services_tbl d)" "v' = (if p v then f v else v)"
    using in_change [of v' p f "services_tbl d"] by auto
  show "quiet v'"
  proof (cases "p v")
    case False
    with v v' assms(1,2) show ?thesis by (auto simp: settled_def)
  qed (use v assms(3) in simp)
qed

lemma settled_other [simp]:
  "settled K (d\<lparr>stacks_tbl := x1\<rparr>) = settled K d" "settled K (d\<lparr>rootfs_tbl := x2\<rparr>) = settled K d"
  "settled K (d\<lparr>operations_tbl := x3\<rparr>) = settled K d" "settled K (d\<lparr>opservices_tbl := x4\<rparr>) = settled K d"
  by (simp_all add: settled_def)

lemma total_cold_rootfs: "total (rows_inv rows d0 xs) (cold_rootfs c now) (\<lambda>_. rows_inv rows d0 xs)"
  unfolding cold_rootfs_def
  by (auto split: option.splits intro!: total_return total_any_number total_update_rootfs
      simp: rows_inv_def rg_id_def)

lemma total_reconcile_row:
  "total (rows_inv rows d0 (c # xs)) (reconcile_row now c n) (\<lambda>_. rows_inv rows d0 xs)"
proof -
  have services: "total (rows_inv rows d0 (c # xs)) (update_services
       (\<lambda>r. the_service (os_stack c) (os_service c) r
          \<and> (sv_observed r \<noteq> cold_state k \<or> sv_phase r \<noteq> cold_phase k \<or> sv_session r \<noteq> None \<or> sv_pid r \<noteq> None))
       (clear_identity (cold_state k) (cold_phase k) now)) (\<lambda>_. rows_inv rows d0 xs)" for k
  proof (rule total_update_services)
    fix d assume inv: "rows_inv rows d0 (c # xs) d"
    then obtain dn where dn: "rows = dn @ c # xs" "settled (row_key ` set dn) d"
      by (auto simp: rows_inv_def)
    let ?p = "\<lambda>r. the_service (os_stack c) (os_service c) r
          \<and> (sv_observed r \<noteq> cold_state k \<or> sv_phase r \<noteq> cold_phase k \<or> sv_session r \<noteq> None \<or> sv_pid r \<noteq> None)"
    have "settled (insert (row_key c) (row_key ` set dn)) (d\<lparr>services_tbl := change ?p
        (clear_identity (cold_state k) (cold_phase k) now) (services_tbl d)\<rparr>)"
    proof (rule settled_clear [OF dn(2)])
      fix v :: service_row assume "sv_active v" "sv_key v = row_key c"
      then show "?p v \<or> quiet v"
        by (cases k) (auto simp: the_service_def sv_key_def row_key_def quiet_def in_flight_def)
    qed simp_all
    moreover have "row_key ` set (dn @ [c]) = insert (row_key c) (row_key ` set dn)" by auto
    ultimately show "schema_ok d \<and> (schema_ok (d\<lparr>services_tbl := change ?p
        (clear_identity (cold_state k) (cold_phase k) now) (services_tbl d)\<rparr>) \<longrightarrow>
        rows_inv rows d0 xs (d\<lparr>services_tbl := change ?p
        (clear_identity (cold_state k) (cold_phase k) now) (services_tbl d)\<rparr>))"
      using inv dn(1) by (auto simp: rows_inv_def intro!: exI [of _ "dn @ [c]"])
  qed simp_all
  have opservices: "total (rows_inv rows d0 xs) (any_number (update_opservices
      (the_opservice (os_request c) (os_stack c) (os_service c))
       (\<lambda>x. x\<lparr>os_phase := cold_phase k, os_outcome := Some ''failure'', os_error_code := Some (cold_code k),
             os_error_message := Some [Txt (cold_message k)]\<rparr>))) (\<lambda>_. rows_inv rows d0 xs)" for k
    by (intro total_any_number total_update_opservices) (auto simp: rows_inv_def)
  show ?thesis unfolding reconcile_row_def
    by (rule total_bind [OF total_query [where Q = "\<lambda>_. rows_inv rows d0 (c # xs)"]], assumption,
        rule total_bind [OF total_cold_rootfs], rule total_bind [OF services],
        rule total_bind [OF opservices], rule total_return)
qed

lemma rows_fold:
  assumes "schema_ok d0"
  shows "total (\<lambda>d. d = d0) (tx_fold (reconcile_row now) rows n)
    (\<lambda>_ d. schema_ok d \<and> operations_tbl d = operations_tbl d0 \<and> stacks_tbl d = stacks_tbl d0
       \<and> settled (row_key ` set rows) d)"
proof -
  have "total (rows_inv rows d0 rows) (tx_fold (reconcile_row now) rows n) (\<lambda>_. rows_inv rows d0 [])"
    by (rule total_fold) (rule total_reconcile_row)
  then show ?thesis
    by (rule total_post [OF total_pre]) (use assms in \<open>auto simp: rows_inv_def settled_def\<close>)
qed

section \<open>Services outside an operation\<close>

definition active_inv :: "db \<Rightarrow> service_row list \<Rightarrow> db \<Rightarrow> bool" where
  "active_inv d1 ys d \<longleftrightarrow> schema_ok d \<and> operations_tbl d = operations_tbl d1 \<and> stacks_tbl d = stacks_tbl d1
     \<and> set ys \<subseteq> set (services_tbl d1)
     \<and> (\<forall>v \<in> set (services_tbl d). sv_active v \<longrightarrow> \<not> quiet v \<longrightarrow>
          v \<in> set (services_tbl d1) \<and> (sv_key v \<in> sv_key ` set ys \<or> proven_backoff v))"

lemma service_unique:
  "schema_ok d \<Longrightarrow> v \<in> set (services_tbl d) \<Longrightarrow> w \<in> set (services_tbl d) \<Longrightarrow> sv_key v = sv_key w \<Longrightarrow> v = w"
  by (auto simp: schema_ok_def services_ok_def distinct_map dest: inj_onD)

lemma active_inv_skip:
  assumes "schema_ok d1" and "settled (set handled) d1"
    and "sv_key r \<in> set handled \<or> proven_backoff r" and "active_inv d1 (r # ys) d"
  shows "active_inv d1 ys d"
  unfolding active_inv_def
proof (intro conjI ballI impI)
  fix v assume v: "v \<in> set (services_tbl d)" "sv_active v" "\<not> quiet v"
  then have w: "v \<in> set (services_tbl d1)" "sv_key v \<in> sv_key ` set (r # ys) \<or> proven_backoff v"
    using assms(4) by (auto simp: active_inv_def)
  then show "v \<in> set (services_tbl d1)" by simp
  have "r \<in> set (services_tbl d1)" using assms(4) by (simp add: active_inv_def)
  then have "v = r" if "sv_key v = sv_key r" using service_unique [OF assms(1) w(1) _ that] by simp
  moreover have "sv_key v \<notin> set handled" using assms(2) w(1) v(2,3) by (auto simp: settled_def)
  ultimately show "sv_key v \<in> sv_key ` set ys \<or> proven_backoff v" using w(2) assms(3) by auto
qed (use assms(4) in \<open>auto simp: active_inv_def\<close>)

lemma active_inv_clear:
  assumes "active_inv d1 (r # ys) d"
    and "schema_ok (d\<lparr>services_tbl := change (the_service (sv_stack r) (sv_name r)) (clear_identity ''unknown'' p now) (services_tbl d)\<rparr>)"
  shows "active_inv d1 ys
    (d\<lparr>services_tbl := change (the_service (sv_stack r) (sv_name r)) (clear_identity ''unknown'' p now) (services_tbl d)\<rparr>)"
    (is "active_inv d1 ys ?d'")
  unfolding active_inv_def
proof (intro conjI ballI impI)
  fix v' assume v': "v' \<in> set (services_tbl ?d')" "sv_active v'" "\<not> quiet v'"
  then obtain v where v: "v \<in> set (services_tbl d)"
    "v' = (if the_service (sv_stack r) (sv_name r) v then clear_identity ''unknown'' p now v else v)"
    using in_change [of v' _ _ "services_tbl d"] by auto
  then have n: "\<not> the_service (sv_stack r) (sv_name r) v" "v' = v" using v'(3) by (auto split: if_splits)
  then have "sv_key v \<noteq> sv_key r" using v'(2) by (auto simp: the_service_def sv_key_def)
  with n v(1) v'(2,3) assms(1)
  show "v' \<in> set (services_tbl d1)" "sv_key v' \<in> sv_key ` set ys \<or> proven_backoff v'"
    by (auto simp: active_inv_def)
qed (use assms in \<open>auto simp: active_inv_def\<close>)

lemma total_reconcile_active:
  assumes "schema_ok d1" and "settled (set handled) d1"
  shows "total (active_inv d1 (r # ys)) (reconcile_active now handled r n) (\<lambda>_. active_inv d1 ys)"
proof -
  have "total (active_inv d1 (r # ys)) (update_services (the_service (sv_stack r) (sv_name r))
      (clear_identity ''unknown'' ''unknown'' now)) (\<lambda>_. active_inv d1 ys)"
  proof (rule total_update_services)
    fix d assume inv: "active_inv d1 (r # ys) d"
    then show "schema_ok d \<and> (schema_ok (d\<lparr>services_tbl := change (the_service (sv_stack r) (sv_name r))
        (clear_identity ''unknown'' ''unknown'' now) (services_tbl d)\<rparr>) \<longrightarrow>
        active_inv d1 ys (d\<lparr>services_tbl := change (the_service (sv_stack r) (sv_name r))
        (clear_identity ''unknown'' ''unknown'' now) (services_tbl d)\<rparr>))"
      using active_inv_clear [OF inv] by (simp add: active_inv_def)
  qed simp_all
  then have clear: "total (active_inv d1 (r # ys)) (tx_bind (update_services (the_service (sv_stack r) (sv_name r))
      (clear_identity ''unknown'' ''unknown'' now)) (\<lambda>n'. tx_return (n + n'))) (\<lambda>_. active_inv d1 ys)"
    by (rule total_bind) (rule total_return)
  show ?thesis unfolding reconcile_active_def
    by (intro total_if total_return clear, rule active_inv_skip [OF assms])
qed

lemma active_fold:
  assumes "schema_ok d1" and "settled (set handled) d1"
  shows "total (\<lambda>d. d = d1) (tx_fold (reconcile_active now handled) (active_service_rows d1) n)
    (\<lambda>_ d. schema_ok d \<and> operations_tbl d = operations_tbl d1 \<and> stacks_tbl d = stacks_tbl d1
       \<and> (\<forall>v \<in> set (services_tbl d). sv_active v \<longrightarrow> quiet v \<or> proven_backoff v))"
proof -
  have "total (active_inv d1 (active_service_rows d1)) (tx_fold (reconcile_active now handled) (active_service_rows d1) n)
      (\<lambda>_. active_inv d1 [])"
    by (rule total_fold) (rule total_reconcile_active [OF assms])
  then show ?thesis
    by (rule total_post [OF total_pre])
      (use assms(1) in \<open>auto simp: active_inv_def active_service_rows_def quiet_active\<close>)
qed

section \<open>Parents\<close>

lemma matching_unique:
  assumes "distinct (map k rs)" and "r \<in> set rs" and "p r"
  shows "matching (\<lambda>x. k x = k r \<and> p x) rs = 1"
  using assms
proof (induction rs)
  case (Cons x rs)
  have "filter (\<lambda>x. k x = k r \<and> p x) rs = []" if "x = r"
    unfolding filter_empty_conv using Cons.prems(1) that by (metis distinct.simps(2) image_eqI list.map(2) list.set_map)
  then show ?case using Cons by (auto simp: matching_def)
qed simp

lemma matching_name: "distinct (map k rs) \<Longrightarrow> x \<in> k ` set rs \<Longrightarrow> matching (\<lambda>r. k r = x) rs = 1"
  using matching_unique [of k rs _ "\<lambda>_. True"] by auto

definition open_requests :: "db \<Rightarrow> string set" where
  "open_requests d = {op_request r | r. r \<in> set (operations_tbl d) \<and> op_outcome r = None}"

definition parents_inv :: "db \<Rightarrow> operation_row list \<Rightarrow> db \<Rightarrow> bool" where
  "parents_inv d2 ps d \<longleftrightarrow> schema_ok d \<and> services_tbl d = services_tbl d2 \<and> opservices_tbl d = opservices_tbl d2
     \<and> open_requests d = op_request ` set ps \<and> distinct (map op_request ps)
     \<and> (\<forall>p \<in> set ps. op_stack p \<in> sk_name ` set (stacks_tbl d))"

lemma open_requests_change:
  assumes "\<And>r. op_request (f r) = op_request r" and "\<And>r. op_outcome (f r) \<noteq> None"
  shows "open_requests (d\<lparr>operations_tbl := change (\<lambda>r. op_request r = x \<and> op_outcome r = None) f (operations_tbl d)\<rparr>)
       = open_requests d - {x}"
proof -
  show ?thesis
  proof (intro set_eqI iffI)
    fix q assume "q \<in> open_requests (d\<lparr>operations_tbl := change (\<lambda>r. op_request r = x \<and> op_outcome r = None) f (operations_tbl d)\<rparr>)"
    then obtain r where r: "r \<in> set (change (\<lambda>r. op_request r = x \<and> op_outcome r = None) f (operations_tbl d))"
      "op_request r = q" "op_outcome r = None" by (auto simp: open_requests_def)
    from in_change [OF r(1)] obtain y where y: "y \<in> set (operations_tbl d)"
      "r = (if op_request y = x \<and> op_outcome y = None then f y else y)" by blast
    with r(3) assms(2) [of y] have "r = y" "\<not> (op_request y = x \<and> op_outcome y = None)"
      by (auto split: if_splits)
    with y(1) r(2,3) show "q \<in> open_requests d - {x}" by (auto simp: open_requests_def)
  next
    fix q assume "q \<in> open_requests d - {x}"
    then obtain r where r: "r \<in> set (operations_tbl d)" "op_request r = q" "op_outcome r = None" "q \<noteq> x"
      by (auto simp: open_requests_def)
    from change_in [OF r(1), of "\<lambda>r. op_request r = x \<and> op_outcome r = None" f] r
    show "q \<in> open_requests (d\<lparr>operations_tbl := change (\<lambda>r. op_request r = x \<and> op_outcome r = None) f (operations_tbl d)\<rparr>)"
      by (auto simp: open_requests_def)
  qed
qed

text \<open>Closing one parent, whatever its outcome.\<close>

lemma total_close_parent:
  assumes "\<And>r. op_request (f r) = op_request r" and "\<And>r. op_stack (f r) = op_stack r"
    and "\<And>r. op_outcome (f r) \<noteq> None"
  shows "total (parents_inv d2 (p # ps))
     (exactly_one (update_operations (\<lambda>r. op_request r = op_request p \<and> op_outcome r = None) f) s)
     (\<lambda>_. parents_inv d2 ps)"
proof (intro total_exactly_one total_update_operations conjI impI)
  fix d assume inv: "parents_inv d2 (p # ps) d"
  then have ok: "schema_ok d" and "op_request p \<in> open_requests d" by (simp_all add: parents_inv_def)
  then obtain r where r: "r \<in> set (operations_tbl d)" "op_request r = op_request p" "op_outcome r = None"
    by (auto simp: open_requests_def)
  have dist: "distinct (map op_request (operations_tbl d))" using ok by (simp add: constraint_defs)
  show "schema_ok d" by (rule ok)
  show "matching (\<lambda>r. op_request r = op_request p \<and> op_outcome r = None) (operations_tbl d) = 1"
    using matching_unique [OF dist r(1), of "\<lambda>x. op_outcome x = None"] r(2,3) by simp
  assume "schema_ok (d\<lparr>operations_tbl := change (\<lambda>r. op_request r = op_request p \<and> op_outcome r = None) f (operations_tbl d)\<rparr>)"
  with inv show "parents_inv d2 ps
      (d\<lparr>operations_tbl := change (\<lambda>r. op_request r = op_request p \<and> op_outcome r = None) f (operations_tbl d)\<rparr>)"
    using open_requests_change [OF assms(1,3), where d = d and x = "op_request p"] by (auto simp: parents_inv_def)
qed (use assms in auto)

lemma total_parent_stack:
  assumes "\<And>r. sk_name (f r) = sk_name r" and "\<And>r. sk_revision (f r) = sk_revision r"
  shows "total (parents_inv d2 (p # ps)) (exactly_one (update_stacks (\<lambda>r. sk_name r = op_stack p) f) s)
     (\<lambda>_. parents_inv d2 (p # ps))"
proof (intro total_exactly_one total_update_stacks conjI impI)
  fix d assume inv: "parents_inv d2 (p # ps) d"
  then show "schema_ok d" by (simp add: parents_inv_def)
  then show "matching (\<lambda>r. sk_name r = op_stack p) (stacks_tbl d) = 1"
    using inv by (intro matching_name) (auto simp: parents_inv_def constraint_defs)
  assume "schema_ok (d\<lparr>stacks_tbl := change (\<lambda>r. sk_name r = op_stack p) f (stacks_tbl d)\<rparr>)"
  with inv show "parents_inv d2 (p # ps) (d\<lparr>stacks_tbl := change (\<lambda>r. sk_name r = op_stack p) f (stacks_tbl d)\<rparr>)"
    using key_set_change [of sk_name f, OF assms(1)] by (simp add: parents_inv_def open_requests_def)
qed (use assms in auto)

lemma total_reconcile_parent:
  "total (parents_inv d2 (p # ps)) (reconcile_parent now p) (\<lambda>_. parents_inv d2 ps)"
proof -
  have safe: "total (parents_inv d2 (p # ps))
      (tx_bind (exactly_one (update_stacks (\<lambda>r. sk_name r = op_stack p)
              (\<lambda>r. r\<lparr>sk_desired := ''stopped'', sk_observed := ''stopped'', sk_updated := now\<rparr>)) s)
        (\<lambda>_. exactly_one (finish_operation (op_request p) ''stopped'' now) t)) (\<lambda>_. parents_inv d2 ps)" for s t
    unfolding finish_operation_def
    by (rule total_bind [OF total_parent_stack total_close_parent]) simp_all
  have fail: "total (parents_inv d2 (p # ps)) (fail_parent now p b) (\<lambda>_. parents_inv d2 ps)" for b
    unfolding fail_parent_def by (rule total_close_parent) simp_all
  show ?thesis unfolding reconcile_parent_def
    by (rule total_bind [OF total_query [where Q = "\<lambda>_. parents_inv d2 (p # ps)"]], assumption,
        intro total_if, rule safe,
        rule total_bind [OF total_query [where Q = "\<lambda>_. parents_inv d2 (p # ps)"]], assumption, rule fail)
qed

lemma parents_for:
  "total (parents_inv d2 ps) (tx_for ps (reconcile_parent now)) (\<lambda>_. parents_inv d2 [])"
  by (rule total_for) (rule total_reconcile_parent)

section \<open>The state of the stacks\<close>

definition derived :: "int \<Rightarrow> db \<Rightarrow> stack_row \<Rightarrow> stack_row" where
  "derived now d r = r\<lparr>sk_observed := derive_state (sk_desired r) (observed_states (sk_name r) d), sk_updated := now\<rparr>"

lemma change_cong: "(\<And>r. r \<in> set rs \<Longrightarrow> p r \<Longrightarrow> f r = g r) \<Longrightarrow> change p f rs = change p g rs"
  by (auto simp: change_def)

lemma refresh_total:
  assumes "schema_ok d" and "stack \<in> sk_name ` set (stacks_tbl d)"
  shows "refresh_stack_state stack now d =
      Inr ((), d\<lparr>stacks_tbl := change (\<lambda>r. sk_name r = stack) (derived now d) (stacks_tbl d)\<rparr>)"
proof -
  have dist: "distinct (map sk_name (stacks_tbl d))" using assms(1) by (simp add: constraint_defs)
  obtain s where s: "s \<in> set (stacks_tbl d)" "sk_name s = stack" using assms(2) by auto
  have f: "find_stack stack d = Some s" using find_unique [OF dist s(1)] s(2) by (simp add: find_stack_def)
  have "r = s" if "r \<in> set (stacks_tbl d)" "sk_name r = stack" for r
    using dist s that by (auto simp: distinct_map dest: inj_onD)
  then have "change (\<lambda>r. sk_name r = stack) (\<lambda>r. r\<lparr>sk_observed := derive_state (sk_desired s) (observed_states stack d),
        sk_updated := now\<rparr>) (stacks_tbl d) = change (\<lambda>r. sk_name r = stack) (derived now d) (stacks_tbl d)"
    by (intro change_cong) (auto simp: derived_def)
  moreover have "schema_ok (d\<lparr>stacks_tbl := change (\<lambda>r. sk_name r = stack) (derived now d) (stacks_tbl d)\<rparr>)"
    by (rule ok_change_stacks [OF assms(1)]) (simp_all add: derived_def)
  moreover have "matching (\<lambda>r. sk_name r = stack) (stacks_tbl d) = 1"
    by (rule matching_name [OF dist assms(2)])
  ultimately show ?thesis
    by (simp add: refresh_stack_state_def tx_bind_def tx_read_def ok_or_def f exactly_one_def update_stacks_def
        tx_exec_def tx_lift_def require_one_def)
qed

definition refresh_inv :: "db \<Rightarrow> string set \<Rightarrow> string list \<Rightarrow> db \<Rightarrow> bool" where
  "refresh_inv d3 S xs d \<longleftrightarrow> schema_ok d \<and> services_tbl d = services_tbl d3 \<and> operations_tbl d = operations_tbl d3
     \<and> set xs \<subseteq> sk_name ` set (stacks_tbl d)
     \<and> (\<forall>r \<in> set (stacks_tbl d). sk_name r \<in> S \<longrightarrow> sk_name r \<notin> set xs \<longrightarrow>
          sk_observed r = derive_state (sk_desired r) (observed_states (sk_name r) d))"

lemma observed_states_stacks [simp]: "observed_states s (d\<lparr>stacks_tbl := x\<rparr>) = observed_states s d"
  by (simp add: observed_states_def)

lemma derived_simps [simp]:
  "sk_name (derived now d r) = sk_name r" "sk_desired (derived now d r) = sk_desired r"
  "sk_observed (derived now d r) = derive_state (sk_desired r) (observed_states (sk_name r) d)"
  by (simp_all add: derived_def)

lemma total_refresh:
  "total (refresh_inv d3 S (x # xs)) (refresh_stack_state x now) (\<lambda>_. refresh_inv d3 S xs)"
proof (rule totalI)
  fix d assume inv: "refresh_inv d3 S (x # xs) d"
  let ?d' = "d\<lparr>stacks_tbl := change (\<lambda>r. sk_name r = x) (derived now d) (stacks_tbl d)\<rparr>"
  have run: "refresh_stack_state x now d = Inr ((), ?d')"
    by (rule refresh_total) (use inv in \<open>auto simp: refresh_inv_def\<close>)
  have ok: "schema_ok ?d'"
    by (rule ok_change_stacks) (use inv in \<open>simp_all add: refresh_inv_def derived_def\<close>)
  have "sk_observed r' = derive_state (sk_desired r') (observed_states (sk_name r') d)"
    if "r' \<in> set (stacks_tbl ?d')" "sk_name r' \<in> S" "sk_name r' \<notin> set xs" for r'
  proof -
    from that(1) obtain r where r: "r \<in> set (stacks_tbl d)" "r' = (if sk_name r = x then derived now d r else r)"
      using in_change [of r' _ _ "stacks_tbl d"] by auto
    then show ?thesis using inv that(2,3) by (auto simp: refresh_inv_def split: if_splits)
  qed
  then have "refresh_inv d3 S xs ?d'"
    using inv ok key_set_change [of sk_name "derived now d"] by (auto simp: refresh_inv_def)
  with run show "\<exists>a d'. refresh_stack_state x now d = Inr (a, d') \<and> refresh_inv d3 S xs d'" by blast
qed

definition refreshed :: "db \<Rightarrow> bool" where
  "refreshed d \<longleftrightarrow> (\<forall>s \<in> set (stacks_tbl d). sk_name s \<in> set (service_stack_names d) \<longrightarrow>
     sk_observed s = derive_state (sk_desired s) (observed_states (sk_name s) d))"

lemma service_stack_names_set: "set (service_stack_names d) = sv_stack ` {v \<in> set (services_tbl d). sv_active v}"
  by (auto simp: service_stack_names_def)

lemma stacks_for:
  "total (\<lambda>d. d = d3 \<and> schema_ok d3) (tx_for (service_stack_names d3) (\<lambda>stack. refresh_stack_state stack now))
     (\<lambda>_ d. schema_ok d \<and> services_tbl d = services_tbl d3 \<and> operations_tbl d = operations_tbl d3 \<and> refreshed d)"
proof -
  let ?S = "set (service_stack_names d3)"
  have "total (refresh_inv d3 ?S (service_stack_names d3))
      (tx_for (service_stack_names d3) (\<lambda>stack. refresh_stack_state stack now)) (\<lambda>_. refresh_inv d3 ?S [])"
    by (rule total_for) (rule total_refresh)
  then show ?thesis
  proof (rule total_post [OF total_pre])
    fix d assume d: "d = d3 \<and> schema_ok d3"
    then have "?S \<subseteq> sk_name ` set (stacks_tbl d)"
      unfolding service_stack_names_set by (auto simp: constraint_defs)
    with d show "refresh_inv d3 ?S (service_stack_names d3) d" by (auto simp: refresh_inv_def)
  next
    fix a d assume inv: "refresh_inv d3 ?S [] d"
    then have "service_stack_names d = service_stack_names d3"
      by (simp add: refresh_inv_def service_stack_names_def)
    with inv show "schema_ok d \<and> services_tbl d = services_tbl d3 \<and> operations_tbl d = operations_tbl d3 \<and> refreshed d"
      by (simp add: refresh_inv_def refreshed_def)
  qed
qed

section \<open>The cold start\<close>

lemma unix_time_ok: "0 \<le> clk \<Longrightarrow> clk < 2 ^ 63 \<Longrightarrow> unix_time clk = Inr clk"
  by (simp add: unix_time_def)

definition settled_db :: "db \<Rightarrow> bool" where
  "settled_db d \<longleftrightarrow> (\<forall>v \<in> set (services_tbl d). sv_active v \<longrightarrow> quiet v \<or> proven_backoff v)"

lemma parents_start:
  assumes "schema_ok d2" and "operations_tbl d2 = operations_tbl d" and "stacks_tbl d2 = stacks_tbl d"
  shows "parents_inv d2 (unfinished_parents d) d2"
proof -
  have "distinct (map op_request (operations_tbl d2))" using assms(1) by (simp add: constraint_defs)
  then have "distinct (map op_request (filter (\<lambda>r. op_outcome r = None) (operations_tbl d2)))"
    by (rule distinct_map_filter)
  then have "distinct (map op_request (unfinished_parents d))"
    unfolding unfinished_parents_def assms(2) [symmetric] distinct_map by simp
  with assms show ?thesis
    by (auto simp: parents_inv_def unfinished_parents_def open_requests_def constraint_defs)
qed

lemma cold_start_run:
  assumes "schema_ok d" and "0 \<le> clk" and "clk < 2 ^ 63"
  shows "\<exists>n d'. reconcile_cold_start clk d = Inr (n, d') \<and> schema_ok d'
    \<and> open_requests d' = {} \<and> settled_db d' \<and> refreshed d'"
proof -
  let ?rows = "unfinished_rows d" and ?handled = "map (\<lambda>c. (os_stack c, os_service c)) (unfinished_rows d)"
  have h: "set ?handled = row_key ` set ?rows" by (auto simp: row_key_def)
  obtain n1 d1 where r1: "tx_fold (reconcile_row clk) ?rows 0 d = Inr (n1, d1)"
    and d1: "schema_ok d1" "operations_tbl d1 = operations_tbl d" "stacks_tbl d1 = stacks_tbl d" "settled (set ?handled) d1"
    using totalD [OF rows_fold [OF assms(1)] refl, of clk ?rows 0] unfolding h by blast
  obtain n2 d2 where r2: "tx_fold (reconcile_active clk ?handled) (active_service_rows d1) n1 d1 = Inr (n2, d2)"
    and d2: "schema_ok d2" "operations_tbl d2 = operations_tbl d1" "stacks_tbl d2 = stacks_tbl d1" "settled_db d2"
    using totalD [OF active_fold [OF d1(1,4)] refl, of clk n1] unfolding settled_db_def by blast
  have "parents_inv d2 (unfinished_parents d) d2"
    by (rule parents_start) (use d1 d2 in simp_all)
  from totalD [OF parents_for this] obtain u d3 where r3: "tx_for (unfinished_parents d) (reconcile_parent clk) d2 = Inr (u, d3)"
    and d3: "parents_inv d2 [] d3" by blast
  have d3': "schema_ok d3" "services_tbl d3 = services_tbl d2" "open_requests d3 = {}"
    using d3 by (simp_all add: parents_inv_def)
  obtain u' d4 where r4: "tx_for (service_stack_names d3) (\<lambda>stack. refresh_stack_state stack clk) d3 = Inr (u', d4)"
    and d4: "schema_ok d4" "services_tbl d4 = services_tbl d3" "operations_tbl d4 = operations_tbl d3" "refreshed d4"
    using totalD [OF stacks_for, of d3 d3 clk] d3'(1) by blast
  have "reconcile_cold_start clk d = Inr (n2, d4)"
    using r1 r2 r3 r4 by (simp add: reconcile_cold_start_def tx_bind_def tx_lift_def unix_time_ok [OF assms(2,3)])
  moreover have "open_requests d4 = {}" using d3'(3) d4(3) by (simp add: open_requests_def)
  moreover have "settled_db d4" using d2(4) d3'(2) d4(2) by (simp add: settled_db_def)
  ultimately show ?thesis using d4 by blast
qed

text \<open>
  Claim C15. The cold start always succeeds on a database that meets its schema, and leaves it
  settled: no operation is unfinished, no active service has a session, a process or a state
  that claims activity, except one waiting for its journaled restart, and the state of every
  stack is the one derived from its services.
\<close>

theorem cold_start_settles:
  assumes "schema_ok d" and "0 \<le> clk" and "clk < 2 ^ 63"
  shows "\<exists>n d'. reconcile_cold_start clk d = Inr (n, d') \<and> schema_ok d'
    \<and> (\<forall>p \<in> set (operations_tbl d'). op_outcome p \<noteq> None)
    \<and> (\<forall>v \<in> set (services_tbl d'). sv_active v \<longrightarrow>
         sv_session v = None \<and> sv_pid v = None \<and> (in_flight (sv_observed v) \<longrightarrow> proven_backoff v))
    \<and> (\<forall>s \<in> set (stacks_tbl d'). sk_name s \<in> set (service_stack_names d') \<longrightarrow>
         sk_observed s = derive_state (sk_desired s) (observed_states (sk_name s) d'))"
proof -
  from cold_start_run [OF assms] obtain n d' where r: "reconcile_cold_start clk d = Inr (n, d')" "schema_ok d'"
    "open_requests d' = {}" "settled_db d'" "refreshed d'" by blast
  have "\<forall>p \<in> set (operations_tbl d'). op_outcome p \<noteq> None" using r(3) by (auto simp: open_requests_def)
  moreover have "\<forall>v \<in> set (services_tbl d'). sv_active v \<longrightarrow>
         sv_session v = None \<and> sv_pid v = None \<and> (in_flight (sv_observed v) \<longrightarrow> proven_backoff v)"
    using r(4) by (auto simp: settled_db_def quiet_def proven_backoff_def identity_absent_def)
  ultimately show ?thesis using r(1,2,5) unfolding refreshed_def by blast
qed

text \<open>The state in which a daemon dies while the second service is installed.\<close>

lemma cold_start_settles_witness:
  "\<exists>n d'. reconcile_cold_start 50 sample_half = Inr (n, d') \<and> schema_ok d'"
  using cold_start_settles [OF sample_schema(2), of 50] by auto

end
