(* ===== verification/Store_Evidence.thy ===== *)
theory Store_Evidence
  imports Store_Cold
begin

text \<open>
  What a cold start may claim (\<^verbatim>\<open>src/store.rs\<close>, \<^verbatim>\<open>reconcile_cold_start\<close>): it records as stopped
  or failed only what the phase of an interrupted child proves, an operation succeeds only when
  everything it asked for is proven, and running it again changes nothing.
\<close>

section \<open>Evidence\<close>

context tx_relation
begin

lemma keeps_bind_query: "(\<And>d. keeps (k (f d))) \<Longrightarrow> keeps (tx_bind (tx_query f) k)"
  by (auto simp: keeps_def res_simps)

end

text \<open>What a cold start may record of a service, given the children it found unfinished.\<close>

definition justified :: "opservice_row list \<Rightarrow> service_row \<Rightarrow> bool" where
  "justified rows v \<longleftrightarrow> sv_observed v = ''unknown''
     \<or> (\<exists>c \<in> set rows. row_key c = sv_key v
          \<and> (sv_observed v = ''failed'' \<and> os_phase c \<in> {''intent'', ''logs_prepared'', ''installed''}
             \<or> sv_observed v = ''stopped'' \<and> os_phase c \<in> {''start_intent'', ''shutdown_proven''}))"

definition service_evidence :: "opservice_row list \<Rightarrow> service_row \<Rightarrow> service_row \<Rightarrow> bool" where
  "service_evidence rows v v' \<longleftrightarrow> v' = v \<or>
     (sv_key v' = sv_key v \<and> sv_active v' = sv_active v \<and> sv_config v' = sv_config v
      \<and> sv_desired v' = sv_desired v \<and> sv_alias v' = sv_alias v \<and> sv_generation v' = sv_generation v
      \<and> sv_attempts v' = sv_attempts v \<and> justified rows v')"

definition rootfs_evidence :: "opservice_row list \<Rightarrow> rootfs_row \<Rightarrow> rootfs_row \<Rightarrow> bool" where
  "rootfs_evidence rows r r' \<longleftrightarrow> r' = r \<or>
     (rg_id r' = rg_id r \<and> rg_alias r' = rg_alias r \<and> rg_image r' = rg_image r
      \<and> (\<exists>c \<in> set rows. row_key c = rg_key r \<and> os_generation c = Some (rg_generation r)
           \<and> (rg_state r' = ''absent'' \<and> rg_role r' = ''retired'' \<and> os_phase c \<in> {''intent'', ''logs_prepared''}
              \<or> rg_state r' = ''unknown'' \<and> os_phase c = ''install_invoked'')))"

definition cold_rel :: "opservice_row list \<Rightarrow> db \<Rightarrow> db \<Rightarrow> bool" where
  "cold_rel rows d d' \<longleftrightarrow>
     (\<forall>v' \<in> set (services_tbl d'). \<exists>v \<in> set (services_tbl d). service_evidence rows v v')
     \<and> (\<forall>r' \<in> set (rootfs_tbl d'). \<exists>r \<in> set (rootfs_tbl d). rootfs_evidence rows r r')"

lemma service_evidence_trans:
  "service_evidence rows a b \<Longrightarrow> service_evidence rows b c \<Longrightarrow> service_evidence rows a c"
  by (auto simp: service_evidence_def)

lemma rootfs_evidence_trans:
  assumes "rootfs_evidence rows a b" and "rootfs_evidence rows b c"
  shows "rootfs_evidence rows a c"
proof (cases "c = b \<or> b = a")
  case False
  then have "rg_id b = rg_id a" using assms(1) by (auto simp: rootfs_evidence_def)
  then have "rg_key b = rg_key a" "rg_generation b = rg_generation a" by (simp_all add: rg_id_def rg_key_def)
  with False assms show ?thesis by (auto simp: rootfs_evidence_def)
qed (use assms in auto)

lemma cold_rel_trans:
  assumes "cold_rel rows d d'" and "cold_rel rows d' d''"
  shows "cold_rel rows d d''"
  using assms unfolding cold_rel_def by (meson service_evidence_trans rootfs_evidence_trans)

lemma cold_rel_refl: "cold_rel rows d d"
  by (auto simp: cold_rel_def service_evidence_def rootfs_evidence_def)

interpretation cold: tx_relation "cold_rel rows" for rows
  by unfold_locales (rule cold_rel_refl, rule cold_rel_trans)

lemma cold_other:
  "cold_rel rows d (d\<lparr>stacks_tbl := x1\<rparr>)" "cold_rel rows d (d\<lparr>operations_tbl := x3\<rparr>)"
  "cold_rel rows d (d\<lparr>opservices_tbl := x4\<rparr>)"
  by (auto simp: cold_rel_def service_evidence_def rootfs_evidence_def)

lemma cold_updates:
  "cold.keeps rows (update_stacks p1 f1)" "cold.keeps rows (update_operations p3 f3)"
  "cold.keeps rows (update_opservices p4 f4)"
  unfolding update_stacks_def update_operations_def update_opservices_def
  by (intro cold.keeps_bind cold.keeps_query cold.keeps_return cold.keeps_exec cold_other)+

lemma cold_update_services:
  assumes "\<And>v. p v \<Longrightarrow> service_evidence rows v (f v)"
  shows "cold.keeps rows (update_services p f)"
  unfolding update_services_def
proof (intro cold.keeps_bind cold.keeps_query cold.keeps_return cold.keeps_exec)
  fix d show "cold_rel rows d (d\<lparr>services_tbl := change p f (services_tbl d)\<rparr>)"
    unfolding cold_rel_def
  proof (intro conjI ballI)
    fix v' assume "v' \<in> set (services_tbl (d\<lparr>services_tbl := change p f (services_tbl d)\<rparr>))"
    then obtain v where "v \<in> set (services_tbl d)" "v' = (if p v then f v else v)"
      using in_change [of v' p f "services_tbl d"] by auto
    then show "\<exists>v \<in> set (services_tbl d). service_evidence rows v v'"
      using assms by (cases "p v") (auto simp: service_evidence_def)
  qed (auto simp: rootfs_evidence_def)
qed

lemma cold_update_rootfs:
  assumes "\<And>r. p r \<Longrightarrow> rootfs_evidence rows r (f r)"
  shows "cold.keeps rows (update_rootfs p f)"
  unfolding update_rootfs_def
proof (intro cold.keeps_bind cold.keeps_query cold.keeps_return cold.keeps_exec)
  fix d show "cold_rel rows d (d\<lparr>rootfs_tbl := change p f (rootfs_tbl d)\<rparr>)"
    unfolding cold_rel_def
  proof (intro conjI ballI)
    fix r' assume "r' \<in> set (rootfs_tbl (d\<lparr>rootfs_tbl := change p f (rootfs_tbl d)\<rparr>))"
    then obtain r where "r \<in> set (rootfs_tbl d)" "r' = (if p r then f r else r)"
      using in_change [of r' p f "rootfs_tbl d"] by auto
    then show "\<exists>r \<in> set (rootfs_tbl d). rootfs_evidence rows r r'"
      using assms by (cases "p r") (auto simp: rootfs_evidence_def)
  qed (auto simp: service_evidence_def)
qed

lemmas cold_rules = cold.keeps_rules cold_updates

lemma cold_refresh: "cold.keeps rows (refresh_stack_state stack now)"
  unfolding refresh_stack_state_def by (intro cold_rules)

lemma cold_cold_rootfs: "c \<in> set rows \<Longrightarrow> cold.keeps rows (cold_rootfs c now)"
  unfolding cold_rootfs_def
  by (intro cold_rules cold_update_rootfs)
    (auto simp: rootfs_evidence_def rg_id_def rg_key_def row_key_def the_generation_def safe_before_effect_def
      intro!: bexI [of _ c])

lemma class_evidence:
  assumes "c \<in> set rows" and "sv_key v = row_key c" and "k = cold_class c d"
  shows "service_evidence rows v (clear_identity (cold_state k) (cold_phase k) now v)"
proof -
  let ?v = "clear_identity (cold_state k) (cold_phase k) now v"
  have "k = Resumable \<Longrightarrow> os_phase c \<in> {''start_intent'', ''shutdown_proven''}"
    "k = Before_Engine \<Longrightarrow> os_phase c \<in> {''intent'', ''logs_prepared''}"
    "k = After_Install \<Longrightarrow> os_phase c = ''installed''"
    using assms(3) by (auto simp: cold_class_def current_start_safe_def safe_before_effect_def split: if_splits)
  moreover have "sv_observed ?v = cold_state k" "sv_key ?v = row_key c"
    using assms(2) by (simp_all add: clear_identity_def sv_key_def)
  ultimately have "justified rows ?v"
    using assms(1) unfolding justified_def by (cases k) auto
  then show ?thesis by (simp add: service_evidence_def clear_identity_def sv_key_def)
qed

lemma cold_reconcile_row: "c \<in> set rows \<Longrightarrow> cold.keeps rows (reconcile_row now c n)"
  unfolding reconcile_row_def
  by (intro cold.keeps_bind_query cold_rules cold_cold_rootfs cold_update_services class_evidence)
    (auto simp: the_service_def sv_key_def row_key_def)

lemma cold_reconcile_active: "cold.keeps rows (reconcile_active now handled r n)"
  unfolding reconcile_active_def
  by (intro cold_rules cold_update_services)
    (simp add: service_evidence_def justified_def clear_identity_def sv_key_def)

lemma cold_reconcile_parent: "cold.keeps rows (reconcile_parent now p)"
  unfolding reconcile_parent_def fail_parent_def finish_operation_def by (intro cold_rules)

lemma reconcile_evidence:
  assumes "reconcile_cold_start clk d = Inr (n, d')"
  shows "cold_rel (unfinished_rows d) d d'"
proof -
  let ?rows = "unfinished_rows d"
  from assms obtain now n1 d1 n2 d2 d3 u where
    r1: "tx_fold (reconcile_row now) ?rows 0 d = Inr (n1, d1)"
    and r2: "tx_fold (reconcile_active now (map (\<lambda>c. (os_stack c, os_service c)) ?rows)) (active_service_rows d1) n1 d1 = Inr (n2, d2)"
    and r3: "tx_for (unfinished_parents d) (reconcile_parent now) d2 = Inr ((), d3)"
    and r4: "tx_for (service_stack_names d3) (\<lambda>stack. refresh_stack_state stack now) d3 = Inr (u, d')"
    by (auto simp: reconcile_cold_start_def res_simps)
  have "cold_rel ?rows d d1"
    by (rule cold.keepsD [OF cold.keeps_fold r1]) (rule cold_reconcile_row)
  moreover have "cold_rel ?rows d1 d2"
    by (rule cold.keepsD [OF cold.keeps_fold r2]) (rule cold_reconcile_active)
  moreover have "cold_rel ?rows d2 d3"
    by (rule cold.keepsD [OF cold.keeps_for r3]) (rule cold_reconcile_parent)
  moreover have "cold_rel ?rows d3 d'"
    by (rule cold.keepsD [OF cold.keeps_for r4]) (rule cold_refresh)
  ultimately show ?thesis by (blast intro: cold_rel_trans)
qed

text \<open>
  Claim C4. A cold start invents nothing: every service is as it was, or became unknown, or was
  the service of an interrupted child whose journaled phase proves what is recorded (failed
  before the start, stopped on a proven shutdown); a root file system changes only to absent
  when its installation was never invoked, or to unknown when it was.
\<close>

theorem cold_start_evidence:
  assumes "reconcile_cold_start clk d = Inr (n, d')"
  shows "(\<forall>v' \<in> set (services_tbl d'). \<exists>v \<in> set (services_tbl d). v' = v \<or>
        (sv_key v' = sv_key v \<and> sv_active v' = sv_active v \<and> sv_config v' = sv_config v
         \<and> sv_desired v' = sv_desired v \<and> sv_alias v' = sv_alias v \<and> sv_generation v' = sv_generation v
         \<and> sv_attempts v' = sv_attempts v \<and> justified (unfinished_rows d) v'))
    \<and> (\<forall>r' \<in> set (rootfs_tbl d'). \<exists>r \<in> set (rootfs_tbl d). rootfs_evidence (unfinished_rows d) r r')"
  using reconcile_evidence [OF assms] unfolding cold_rel_def service_evidence_def by blast

text \<open>The interrupted installation becomes unknown, its service and its stack with it.\<close>

definition sample_restarted :: db where
  "sample_restarted =
     \<lparr>stacks_tbl = [demo_stack ''running'' ''unknown'' False 50],
      services_tbl = [demo_service ''db'' ''running'' ''unknown'' None ''unknown'' False 50,
                      demo_service ''web'' ''running'' ''unknown'' None ''unknown'' False 50],
      rootfs_tbl = [demo_rootfs ''db'' ''d1'' ''postgres'' ''installed'' ''candidate'' 8,
                    demo_rootfs ''web'' ''w1'' ''nginx'' ''unknown'' ''candidate'' 50],
      operations_tbl = [(demo_up ''unknown'' (Some ''failure'') 50)
         \<lparr>op_error_code := Some ''cold_start_unknown'',
          op_error_message := Some [Txt ''daemon stopped before the operation committed; no effect was retried'']\<rparr>],
      opservices_tbl = [demo_opservice ''db'' 0 ''running'' (Some ''success''),
                        (demo_opservice ''web'' 1 ''unknown'' (Some ''failure''))
         \<lparr>os_error_code := Some ''cold_start_unknown'',
          os_error_message := Some [Txt ''daemon lost ownership during an engine effect; no effect was retried'']\<rparr>]\<rparr>"

lemma sample_restart: "reconcile_cold_start 50 sample_half = Inr (2, sample_restarted)"
  by code_simp

lemma cold_start_evidence_witness:
  "\<exists>r \<in> set (rootfs_tbl sample_half). rootfs_evidence (unfinished_rows sample_half) r
     (demo_rootfs ''web'' ''w1'' ''nginx'' ''unknown'' ''candidate'' 50)"
proof -
  have "demo_rootfs ''web'' ''w1'' ''nginx'' ''unknown'' ''candidate'' 50 \<in> set (rootfs_tbl sample_restarted)"
    by (simp add: sample_restarted_def)
  with cold_start_evidence [OF sample_restart] show ?thesis by blast
qed

section \<open>Outcomes\<close>

text \<open>Everything a \<^verbatim>\<open>down\<close> asked for is proven.\<close>

definition down_proven :: "operation_row \<Rightarrow> db \<Rightarrow> bool" where
  "down_proven p d \<longleftrightarrow> op_operation p = ''down'' \<and> children (op_request p) d \<noteq> []
     \<and> list_all (\<lambda>c. os_outcome c = Some ''success'') (children (op_request p) d)
     \<and> list_all fully_stopped (active_of (op_stack p) d)"

definition outcome_rel :: "db \<Rightarrow> db \<Rightarrow> bool" where
  "outcome_rel d d' \<longleftrightarrow> services_tbl d' = services_tbl d \<and> opservices_tbl d' = opservices_tbl d
     \<and> (\<forall>p' \<in> set (operations_tbl d'). \<exists>p \<in> set (operations_tbl d). p' = p \<or>
          (op_outcome p = None \<and> op_intent p' = op_intent p
           \<and> (op_outcome p' = Some ''failure'' \<or> op_outcome p' = Some ''success'' \<and> down_proven p d)))"

lemma down_proven_cong:
  "services_tbl d' = services_tbl d \<Longrightarrow> opservices_tbl d' = opservices_tbl d \<Longrightarrow> down_proven p d' = down_proven p d"
  by (simp add: down_proven_def children_def active_of_def)

lemma outcome_rel_trans:
  assumes ab: "outcome_rel a b" and bc: "outcome_rel b c"
  shows "outcome_rel a c"
  unfolding outcome_rel_def
proof (intro conjI ballI)
  fix p' assume "p' \<in> set (operations_tbl c)"
  with bc obtain q where q: "q \<in> set (operations_tbl b)" "p' = q \<or> (op_outcome q = None \<and> op_intent p' = op_intent q
      \<and> (op_outcome p' = Some ''failure'' \<or> op_outcome p' = Some ''success'' \<and> down_proven q b))"
    unfolding outcome_rel_def by blast
  from ab q(1) obtain p where p: "p \<in> set (operations_tbl a)" "q = p \<or> (op_outcome p = None \<and> op_intent q = op_intent p
      \<and> (op_outcome q = Some ''failure'' \<or> op_outcome q = Some ''success'' \<and> down_proven p a))"
    unfolding outcome_rel_def by blast
  have "down_proven q b = down_proven q a" using ab by (intro down_proven_cong) (simp_all add: outcome_rel_def)
  with p q show "\<exists>p \<in> set (operations_tbl a). p' = p \<or> (op_outcome p = None \<and> op_intent p' = op_intent p
      \<and> (op_outcome p' = Some ''failure'' \<or> op_outcome p' = Some ''success'' \<and> down_proven p a))"
    by (intro bexI [OF _ p(1)]) auto
qed (use assms in \<open>simp_all add: outcome_rel_def\<close>)

lemma outcome_rel_refl: "outcome_rel d d"
  by (auto simp: outcome_rel_def)

interpretation outcome: tx_relation outcome_rel
  by unfold_locales (rule outcome_rel_refl, rule outcome_rel_trans)

lemma outcome_update_stacks: "outcome.keeps (update_stacks p f)"
  unfolding update_stacks_def
  by (intro outcome.keeps_bind outcome.keeps_query outcome.keeps_return outcome.keeps_exec)
    (auto simp: outcome_rel_def)

lemma outcome_fail:
  assumes "\<And>r. p r \<Longrightarrow> op_outcome r = None"
    and "\<And>r. op_intent (f r) = op_intent r" and "\<And>r. op_outcome (f r) = Some ''failure''"
  shows "outcome.keeps (update_operations p f)"
  unfolding update_operations_def
proof (intro outcome.keeps_bind outcome.keeps_query outcome.keeps_return outcome.keeps_exec)
  fix d show "outcome_rel d (d\<lparr>operations_tbl := change p f (operations_tbl d)\<rparr>)"
    using assms by (fastforce simp: outcome_rel_def dest!: in_change split: if_splits)
qed

lemma reconcile_parent_unfold:
  "reconcile_parent now p d =
     (if safe_down p d then
        tx_bind (exactly_one
           (update_stacks (\<lambda>r. sk_name r = op_stack p)
              (\<lambda>r. r\<lparr>sk_desired := ''stopped'', sk_observed := ''stopped'', sk_updated := now\<rparr>))
           (stack_subject (op_stack p))) (\<lambda>_.
         exactly_one (finish_operation (op_request p) ''stopped'' now) (parent_subject p)) d
      else fail_parent now p (ambiguous_parent p d) d)"
  by (simp add: reconcile_parent_def tx_bind_def [of "tx_query _"])

definition same_intent :: "operation_row \<Rightarrow> db \<Rightarrow> bool" where
  "same_intent p d \<longleftrightarrow> (\<forall>r \<in> set (operations_tbl d). op_request r = op_request p \<longrightarrow> op_intent r = op_intent p)"

lemma outcome_parent:
  assumes "reconcile_parent now p d = Inr (u, d')" and "same_intent p d"
  shows "outcome_rel d d'"
proof (cases "safe_down p d")
  case False
  have "outcome.keeps (fail_parent now p b)" for b
    unfolding fail_parent_def by (intro outcome.keeps_exactly_one outcome_fail) (simp_all add: op_intent_def)
  then show ?thesis
    by (rule outcome.keepsD) (use assms(1) False in \<open>simp add: reconcile_parent_unfold\<close>)
next
  case True
  let ?f = "\<lambda>r. r\<lparr>op_phase := ''stopped'', op_outcome := Some ''success'', op_updated := now\<rparr>"
  from assms(1) True obtain st where d': "d' = d\<lparr>stacks_tbl := st, operations_tbl :=
      change (\<lambda>r. op_request r = op_request p \<and> op_outcome r = None) ?f (operations_tbl d)\<rparr>"
    by (auto simp: reconcile_parent_unfold finish_operation_def res_simps)
  show ?thesis unfolding outcome_rel_def
  proof (intro conjI ballI)
    fix q assume "q \<in> set (operations_tbl d')"
    then obtain r where r: "r \<in> set (operations_tbl d)"
      "q = (if op_request r = op_request p \<and> op_outcome r = None then ?f r else r)"
      using in_change [of q _ ?f "operations_tbl d"] by (auto simp: d')
    have "down_proven r d" if "op_request r = op_request p"
      using True assms(2) r(1) that
      by (auto simp: same_intent_def op_intent_def down_proven_def safe_down_def)
    with r show "\<exists>r \<in> set (operations_tbl d). q = r \<or> (op_outcome r = None \<and> op_intent q = op_intent r
        \<and> (op_outcome q = Some ''failure'' \<or> op_outcome q = Some ''success'' \<and> down_proven r d))"
      by (intro bexI [OF _ r(1)]) (auto simp: op_intent_def)
  qed (simp_all add: d')
qed

lemma same_intent_later: "outcome_rel d d' \<Longrightarrow> same_intent p d \<Longrightarrow> same_intent p d'"
  unfolding outcome_rel_def same_intent_def by (metis (mono_tags, lifting) op_intent_def prod.inject)

lemma outcome_parents:
  assumes "tx_for ps (reconcile_parent now) d = Inr (u, d')" and "\<forall>p \<in> set ps. same_intent p d"
  shows "outcome_rel d d'"
  using assms
proof (induction ps arbitrary: d)
  case (Cons p ps)
  then obtain d1 where r: "reconcile_parent now p d = Inr ((), d1)" "tx_for ps (reconcile_parent now) d1 = Inr (u, d')"
    by (auto simp: res_simps)
  have o: "outcome_rel d d1" by (rule outcome_parent [OF r(1)]) (use Cons.prems(2) in simp)
  moreover have "outcome_rel d1 d'"
    by (rule Cons.IH [OF r(2)]) (use Cons.prems(2) o same_intent_later in auto)
  ultimately show ?case by (rule outcome_rel_trans)
qed (simp add: outcome_rel_refl)

lemma outcome_refresh: "outcome.keeps (refresh_stack_state stack now)"
  unfolding refresh_stack_state_def by (intro outcome.keeps_rules outcome_update_stacks)

text \<open>The first two loops leave the operations alone.\<close>

interpretation ops: tx_relation "\<lambda>d d'. operations_tbl d' = operations_tbl d"
  by unfold_locales simp_all

lemma ops_loops:
  "ops.keeps (reconcile_row now c n)" "ops.keeps (reconcile_active now h r n)"
  unfolding reconcile_row_def reconcile_active_def cold_rootfs_def update_rootfs_def update_services_def
    update_opservices_def
  by (intro ops.keeps_rules ops.keeps_exec; simp)+

lemma reconcile_outcomes:
  assumes "reconcile_cold_start clk d = Inr (n, d')" and "schema_ok d"
  shows "\<exists>d2. operations_tbl d2 = operations_tbl d \<and> outcome_rel d2 d'"
proof -
  from assms obtain now n1 d1 n2 d2 d3 u where
    r1: "tx_fold (reconcile_row now) (unfinished_rows d) 0 d = Inr (n1, d1)"
    and r2: "tx_fold (reconcile_active now (map (\<lambda>c. (os_stack c, os_service c)) (unfinished_rows d)))
               (active_service_rows d1) n1 d1 = Inr (n2, d2)"
    and r3: "tx_for (unfinished_parents d) (reconcile_parent now) d2 = Inr ((), d3)"
    and r4: "tx_for (service_stack_names d3) (\<lambda>stack. refresh_stack_state stack now) d3 = Inr (u, d')"
    by (auto simp: reconcile_cold_start_def res_simps)
  have o1: "operations_tbl d1 = operations_tbl d"
    by (rule ops.keepsD [OF ops.keeps_fold r1]) (rule ops_loops)
  have o2: "operations_tbl d2 = operations_tbl d1"
    by (rule ops.keepsD [OF ops.keeps_fold r2]) (rule ops_loops)
  have "inj_on op_request (set (operations_tbl d))" using assms(2) by (simp add: constraint_defs distinct_map)
  then have "\<forall>p \<in> set (unfinished_parents d). same_intent p d2"
    using o1 o2 by (auto simp: same_intent_def unfinished_parents_def dest: inj_onD)
  from outcome_parents [OF r3 this] have "outcome_rel d2 d3" .
  moreover have "outcome_rel d3 d'"
    by (rule outcome.keepsD [OF outcome.keeps_for r4]) (rule outcome_refresh)
  ultimately show ?thesis using o1 o2 by (metis outcome_rel_trans)
qed



section \<open>Running it again\<close>

text \<open>Equal but for the times at which stacks were written.\<close>

definition timeless :: "stack_row \<Rightarrow> stack_row" where
  "timeless r = r\<lparr>sk_updated := 0\<rparr>"

definition same_but_times :: "db \<Rightarrow> db \<Rightarrow> bool" where
  "same_but_times d d' \<longleftrightarrow> services_tbl d' = services_tbl d \<and> rootfs_tbl d' = rootfs_tbl d
     \<and> operations_tbl d' = operations_tbl d \<and> opservices_tbl d' = opservices_tbl d
     \<and> map timeless (stacks_tbl d') = map timeless (stacks_tbl d)"

lemma same_but_times_refl: "same_but_times d d"
  by (simp add: same_but_times_def)

lemma timeless_eq: "timeless r = timeless s \<longleftrightarrow> sk_name r = sk_name s \<and> sk_desired r = sk_desired s
    \<and> sk_observed r = sk_observed s \<and> sk_manifest r = sk_manifest s \<and> sk_base r = sk_base s
    \<and> sk_revision r = sk_revision s \<and> sk_created r = sk_created s"
  by (cases r; cases s) (simp add: timeless_def)

lemma timeless_stacks:
  assumes "map timeless xs = map timeless ys" and "x \<in> set xs"
  shows "\<exists>y \<in> set ys. timeless x = timeless y"
proof -
  have "timeless x \<in> timeless ` set ys" using assms by (metis imageI list.set_map)
  then show ?thesis by auto
qed

definition again_inv :: "db \<Rightarrow> string list \<Rightarrow> db \<Rightarrow> bool" where
  "again_inv d0 xs d \<longleftrightarrow> schema_ok d \<and> same_but_times d0 d \<and> set xs \<subseteq> set (service_stack_names d0)"

lemma total_again:
  assumes "refreshed d0" and "schema_ok d0"
  shows "total (again_inv d0 (x # xs)) (refresh_stack_state x now) (\<lambda>_. again_inv d0 xs)"
proof (rule totalI)
  fix d assume inv: "again_inv d0 (x # xs) d"
  then have x: "x \<in> set (service_stack_names d0)" and same: "same_but_times d0 d" and ok: "schema_ok d"
    by (auto simp: again_inv_def)
  have obs: "observed_states s d = observed_states s d0" for s
    using same by (simp add: same_but_times_def observed_states_def)
  have tl: "map timeless (stacks_tbl d) = map timeless (stacks_tbl d0)"
    using same by (simp add: same_but_times_def)
  have "x \<in> sk_name ` set (stacks_tbl d)"
    using x ok same unfolding service_stack_names_set by (auto simp: same_but_times_def constraint_defs)
  from refresh_total [OF ok this] have run: "refresh_stack_state x now d =
      Inr ((), d\<lparr>stacks_tbl := change (\<lambda>r. sk_name r = x) (derived now d) (stacks_tbl d)\<rparr>)" (is "_ = Inr ((), ?d')") .
  have "timeless (derived now d r) = timeless r" if "r \<in> set (stacks_tbl d)" "sk_name r = x" for r
  proof -
    from timeless_stacks [OF tl that(1)] obtain s where s: "s \<in> set (stacks_tbl d0)" "timeless r = timeless s" by blast
    then have "sk_observed s = derive_state (sk_desired s) (observed_states (sk_name s) d0)"
      using assms(1) x that(2) by (simp add: refreshed_def timeless_eq)
    with s(2) obs show ?thesis by (simp add: timeless_eq derived_def)
  qed
  then have "map timeless (change (\<lambda>r. sk_name r = x) (derived now d) (stacks_tbl d)) = map timeless (stacks_tbl d)"
    by (simp add: change_def)
  moreover have "schema_ok ?d'" by (rule ok_change_stacks [OF ok]) (simp_all add: derived_def)
  ultimately have "again_inv d0 xs ?d'" using inv by (simp add: again_inv_def same_but_times_def)
  with run show "\<exists>a d'. refresh_stack_state x now d = Inr (a, d') \<and> again_inv d0 xs d'" by blast
qed

lemma reconcile_active_idle:
  "\<forall>r \<in> set rs. proven_backoff r \<Longrightarrow> tx_fold (reconcile_active now h) rs n d = Inr (n, d)"
  by (induction rs) (simp_all add: reconcile_active_def tx_bind_def)

lemma settled_again:
  assumes ok: "schema_ok d" and closed: "open_requests d = {}" and quiet: "settled_db d" and ref: "refreshed d"
    and clk: "0 \<le> clk" "clk < 2 ^ 63"
  shows "\<exists>d'. reconcile_cold_start clk d = Inr (0, d') \<and> same_but_times d d'"
proof -
  have none: "op_outcome r \<noteq> None" if "r \<in> set (operations_tbl d)" for r
    using closed that by (auto simp: open_requests_def)
  then have p: "unfinished_parents d = []"
    unfolding unfinished_parents_def by (simp add: filter_empty_conv)
  have "\<not> open_request q d" for q using none by (auto simp: open_request_def list_ex_iff)
  then have r: "unfinished_rows d = []" by (simp add: unfinished_rows_def)
  have "\<forall>v \<in> set (active_service_rows d). proven_backoff v"
  proof
    fix v assume "v \<in> set (active_service_rows d)"
    then have v: "v \<in> set (services_tbl d)" "active_service v" by (auto simp: active_service_rows_def)
    then have "sv_active v" by (simp add: active_service_def)
    with v quiet show "proven_backoff v" using quiet_active by (auto simp: settled_db_def)
  qed
  then have a: "tx_fold (reconcile_active clk []) (active_service_rows d) 0 d = Inr (0, d)"
    by (rule reconcile_active_idle)
  have "total (again_inv d (service_stack_names d))
      (tx_for (service_stack_names d) (\<lambda>stack. refresh_stack_state stack clk)) (\<lambda>_. again_inv d [])"
    by (rule total_for) (rule total_again [OF ref ok])
  moreover have "again_inv d (service_stack_names d) d" using ok by (simp add: again_inv_def same_but_times_refl)
  ultimately obtain u d' where t: "tx_for (service_stack_names d) (\<lambda>stack. refresh_stack_state stack clk) d = Inr (u, d')"
    and d': "same_but_times d d'" unfolding again_inv_def by (blast dest: totalD)
  have "reconcile_cold_start clk d = Inr (0, d')"
    using p r a t by (simp add: reconcile_cold_start_def tx_bind_def tx_lift_def unix_time_ok [OF clk])
  with d' show ?thesis by blast
qed

text \<open>
  Claim C31. A cold start is idempotent: the next one, at any later time, counts no change and
  leaves every table as it is, but for the times at which the stacks were written.
\<close>

theorem cold_start_idempotent:
  assumes "schema_ok d" and "0 \<le> clk" and "clk < 2 ^ 63" and "clk \<le> clk'" and "clk' < 2 ^ 63"
    and "reconcile_cold_start clk d = Inr (n, d')"
  shows "\<exists>d''. reconcile_cold_start clk' d' = Inr (0, d'') \<and> same_but_times d' d''"
proof -
  from cold_start_run [OF assms(1-3)] assms(6) have "schema_ok d'" "open_requests d' = {}" "settled_db d'" "refreshed d'"
    by auto
  then show ?thesis by (rule settled_again) (use assms in linarith)+
qed

lemma cold_start_idempotent_witness:
  "\<exists>d''. reconcile_cold_start 60 sample_restarted = Inr (0, d'') \<and> same_but_times sample_restarted d''"
  by (rule cold_start_idempotent [OF sample_schema(2) _ _ _ _ sample_restart]) simp_all

end
