(* ===== verification/Store_Down.thy ===== *)
theory Store_Down
  imports Store_Evidence
begin

text \<open>
  What a \<^verbatim>\<open>down\<close> may claim (\<^verbatim>\<open>src/store.rs\<close>, \<^verbatim>\<open>begin_down\<close>, \<^verbatim>\<open>finish_down\<close> and
  \<^verbatim>\<open>finalize_down_failure\<close>): nothing is recorded as stopped whose absence is not proven, and an
  operation that met a service of unknown ownership is closed at once.
\<close>

section \<open>Stopping claims nothing\<close>

definition down_evidence :: "service_row \<Rightarrow> service_row \<Rightarrow> bool" where
  "down_evidence v v' \<longleftrightarrow> v' = v \<or>
     (sv_key v' = sv_key v \<and> sv_active v \<and> sv_session v' = sv_session v \<and> sv_pid v' = sv_pid v
      \<and> sv_starttime v' = sv_starttime v \<and> sv_boot v' = sv_boot v
      \<and> sv_desired v' = ''stopped'' \<and> sv_next v' = None
      \<and> sv_observed v' \<in> {''stopped'', ''unknown'', ''stopping''}
      \<and> (sv_observed v' = ''stopped'' \<longrightarrow> stop_class v = Proven_Absent))"

lemma stop_class_proven:
  "stop_class v = Proven_Absent \<longleftrightarrow>
     identity_absent v \<and> (sv_observed v = ''stopped'' \<or> sv_observed v = ''failed'' \<or> proven_backoff v)"
  by (auto simp: stop_class_def Let_def)

lemma class_observed_stopped: "class_observed k = ''stopped'' \<longleftrightarrow> k = Proven_Absent"
  by (cases k) simp_all

definition down_rel :: "db \<Rightarrow> db \<Rightarrow> bool" where
  "down_rel d d' \<longleftrightarrow> rootfs_tbl d' = rootfs_tbl d
     \<and> (\<forall>v' \<in> set (services_tbl d'). \<exists>v \<in> set (services_tbl d). down_evidence v v')"

lemma down_evidence_trans:
  assumes "down_evidence a b" and "down_evidence b c"
  shows "down_evidence a c"
proof (cases "b = a \<or> c = b")
  case False
  with assms have b: "sv_observed b \<in> {''stopped'', ''unknown'', ''stopping''}" "sv_next b = None"
      "sv_observed b = ''stopped'' \<longrightarrow> stop_class a = Proven_Absent"
    and c: "sv_observed c = ''stopped'' \<longrightarrow> stop_class b = Proven_Absent"
    unfolding down_evidence_def by blast+
  have "stop_class b = Proven_Absent \<Longrightarrow> sv_observed b = ''stopped''"
    using b(1,2) by (auto simp: stop_class_proven proven_backoff_def)
  with b(3) c have "sv_observed c = ''stopped'' \<longrightarrow> stop_class a = Proven_Absent" by blast
  with False assms show ?thesis by (simp add: down_evidence_def)
qed (use assms in auto)

lemma down_rel_trans: "down_rel a b \<Longrightarrow> down_rel b c \<Longrightarrow> down_rel a c"
  unfolding down_rel_def by (metis down_evidence_trans)

lemma down_rel_refl: "down_rel d d"
  by (auto simp: down_rel_def down_evidence_def)

interpretation down: tx_relation down_rel
  by unfold_locales (rule down_rel_refl, rule down_rel_trans)

lemma down_updates [intro]:
  "down.keeps (update_stacks p1 f1)" "down.keeps (update_operations p3 f3)" "down.keeps (insert_operation r4)"
  "down.keeps (insert_opservice r5)"
  unfolding update_stacks_def update_operations_def insert_operation_def insert_opservice_def
  by (intro down.keeps_rules down.keeps_exec; auto simp: down_rel_def down_evidence_def)+

lemma down_refresh: "down.keeps (refresh_stack_state stack now)"
  unfolding refresh_stack_state_def by (intro down.keeps_rules down_updates)

lemma down_reject: "down.keeps (reject_unfinished_operation stack)"
  unfolding reject_unfinished_operation_def by (intro down.keeps_rules)

lemma find_service_unique:
  assumes "schema_ok d" and "find_service stack service d = Some row"
    and "v \<in> set (services_tbl d)" and "the_service stack service v"
  shows "v = row"
proof -
  from assms(2) have "row \<in> set (services_tbl d)" "the_service stack service row"
    by (auto simp: find_service_def dest: find_SomeD)
  with assms show ?thesis by (intro service_unique [of d]) (auto simp: the_service_def sv_key_def)
qed

lemma begin_down_service_run:
  assumes "begin_down_service request stack now iv b d = Inr (b', d')" and "schema_ok d"
  shows "down_rel d d' \<and> operations_tbl d' = operations_tbl d
    \<and> (\<exists>c. opservices_tbl d' = opservices_tbl d @ [c] \<and> os_request c = request \<and> os_service c = snd iv
          \<and> (b' \<longleftrightarrow> b \<or> os_outcome c = Some ''failure''))"
proof -
  let ?s = "snd iv"
  from assms(1) obtain row where row: "find_service stack ?s d = Some row"
    and d': "d' = d\<lparr>services_tbl := change (the_service stack ?s)
        (\<lambda>r. r\<lparr>sv_desired := ''stopped'', sv_observed := class_observed (stop_class row),
              sv_phase := class_phase (stop_class row), sv_next := None, sv_updated := now\<rparr>) (services_tbl d),
        opservices_tbl := opservices_tbl d
          @ [down_opservice request stack ?s (fst iv) (stop_class row) (stop_class row = Unowned)]\<rparr>"
    and b': "b' \<longleftrightarrow> b \<or> stop_class row = Unowned"
    by (auto simp: begin_down_service_def Let_def insert_opservice_def res_simps)
  let ?f = "\<lambda>r. r\<lparr>sv_desired := ''stopped'', sv_observed := class_observed (stop_class row),
              sv_phase := class_phase (stop_class row), sv_next := None, sv_updated := now\<rparr>"
  have "down_rel d d'"
    unfolding down_rel_def
  proof (intro conjI ballI)
    fix v' assume "v' \<in> set (services_tbl d')"
    then obtain v where v: "v \<in> set (services_tbl d)" "v' = (if the_service stack ?s v then ?f v else v)"
      using in_change [of v' "the_service stack ?s" ?f "services_tbl d"] by (auto simp: d')
    have "down_evidence v v'"
    proof (cases "the_service stack ?s v")
      case True
      with find_service_unique [OF assms(2) row v(1)] have "v = row" by simp
      with True v(2) show ?thesis
        by (cases "stop_class row") (auto simp: down_evidence_def sv_key_def the_service_def)
    qed (use v(2) in \<open>simp add: down_evidence_def\<close>)
    with v(1) show "\<exists>v \<in> set (services_tbl d). down_evidence v v'" by blast
  qed (simp add: d')
  moreover have "(os_outcome (down_opservice request stack ?s n (stop_class row) u) = Some ''failure'') \<longleftrightarrow>
      stop_class row = Unowned" for n u
    by (cases "stop_class row") (simp_all add: down_opservice_def)
  ultimately show ?thesis using b' by (simp add: d' down_opservice_def)
qed

lemma begin_down_loop:
  assumes "tx_fold (begin_down_service request stack now) ivs b d = Inr (b', d')" and "schema_ok d"
  shows "down_rel d d' \<and> operations_tbl d' = operations_tbl d
    \<and> (\<exists>cs. opservices_tbl d' = opservices_tbl d @ cs \<and> map os_service cs = map snd ivs
          \<and> (\<forall>c \<in> set cs. os_request c = request)
          \<and> (b' \<longleftrightarrow> b \<or> (\<exists>c \<in> set cs. os_outcome c = Some ''failure'')))"
  using assms
proof (induction ivs arbitrary: b d)
  case (Cons iv ivs)
  then obtain b1 d1 where r: "begin_down_service request stack now iv b d = Inr (b1, d1)"
    "tx_fold (begin_down_service request stack now) ivs b1 d1 = Inr (b', d')" by (auto simp: res_simps)
  have ok: "schema_ok d1"
    using hist.keepsD [OF hist_begin_down_service r(1), of "{}"] Cons.prems(2) by (simp add: extends_but_def)
  from begin_down_service_run [OF r(1) Cons.prems(2)] obtain c where c: "down_rel d d1" "operations_tbl d1 = operations_tbl d"
    "opservices_tbl d1 = opservices_tbl d @ [c]" "os_request c = request" "os_service c = snd iv"
    "b1 \<longleftrightarrow> b \<or> os_outcome c = Some ''failure''" by blast
  from Cons.IH [OF r(2) ok] obtain cs where cs: "down_rel d1 d'" "operations_tbl d' = operations_tbl d1"
    "opservices_tbl d' = opservices_tbl d1 @ cs" "map os_service cs = map snd ivs" "\<forall>c \<in> set cs. os_request c = request"
    "b' \<longleftrightarrow> b1 \<or> (\<exists>c \<in> set cs. os_outcome c = Some ''failure'')" by blast
  have "down_rel d d'" using c(1) cs(1) by (rule down_rel_trans)
  with c cs show ?case by (intro conjI exI [of _ "c # cs"]) auto
qed (simp add: down_rel_refl)

lemma refresh_opservices:
  "refresh_stack_state stack now d = Inr (u, d') \<Longrightarrow>
     opservices_tbl d' = opservices_tbl d \<and> operations_tbl d' = operations_tbl d \<and> services_tbl d' = services_tbl d
     \<and> rootfs_tbl d' = rootfs_tbl d"
  by (auto simp: refresh_stack_state_def res_simps)

text \<open>One run of \<^verbatim>\<open>begin_down\<close>: its evidence, its children and the fate of its operation.\<close>

lemma begin_down_run:
  assumes run: "begin_down request stack order clk d = Inr (u, d')" and ok: "schema_ok d"
  shows "down_rel d d'"
    and "map os_service (children request d') = order"
    and "(\<exists>c \<in> set (children request d'). os_outcome c = Some ''failure'') \<Longrightarrow>
           \<forall>r \<in> set (operations_tbl d'). op_request r = request \<longrightarrow> op_outcome r = Some ''failure''"
proof -
  from run obtain now rev d1 d2 d3 b d4 where
    d1: "insert_operation (down_operation request stack rev now) d = Inr ((), d1)"
    and d2: "update_stacks (\<lambda>r. sk_name r = stack)
          (\<lambda>r. r\<lparr>sk_desired := ''stopped'', sk_observed := ''stopping'', sk_updated := now\<rparr>) d1 = Inr (1, d2)"
    and loop: "tx_fold (begin_down_service request stack now) (enumerate 0 order) False d2 = Inr (b, d3)"
    and d4: "refresh_stack_state stack now d3 = Inr ((), d4)"
    and fin: "if b then update_operations (\<lambda>r. op_request r = request)
             (\<lambda>r. r\<lparr>op_phase := ''unknown'', op_outcome := Some ''failure'',
                   op_error_code := Some ''unowned_unknown'',
                   op_error_message := Some [Txt ''one or more services have ambiguous ownership; no unowned process was signalled''],
                   op_updated := now\<rparr>) d4 = Inr (1, d') else d' = d4"
    by (fastforce simp: begin_down_def tx_bind_Inr tx_lift_Inr tx_check_Inr tx_read_Inr tx_when_Inr exactly_one_Inr
        dest!: reject_same split: if_splits)
  have ok2: "schema_ok d2" using d2 unfolding update_Inr by blast
  from begin_down_loop [OF loop ok2] obtain cs where l: "down_rel d2 d3"
    "opservices_tbl d3 = opservices_tbl d2 @ cs" "map os_service cs = order" "\<forall>c \<in> set cs. os_request c = request"
    "b \<longleftrightarrow> (\<exists>c \<in> set cs. os_outcome c = Some ''failure'')" by auto
  have "down_rel d d1" by (rule down.keepsD [OF down_updates(3) d1])
  moreover have "down_rel d1 d2" by (rule down.keepsD [OF down_updates(1) d2])
  moreover have "down_rel d3 d4" by (rule down.keepsD [OF down_refresh d4])
  moreover have "down_rel d4 d'"
    using fin down.keepsD [OF down_updates(2)] down_rel_refl by (auto split: if_splits)
  ultimately show "down_rel d d'" using l(1) by (meson down_rel_trans)
  have base: "opservices_tbl d2 = opservices_tbl d"
    using d1 d2 by (auto simp: insert_operation_def tx_exec_Inr update_Inr)
  have "opservices_tbl d' = opservices_tbl d4" using fin by (auto simp: update_Inr split: if_splits)
  then have rows: "opservices_tbl d' = opservices_tbl d @ cs"
    using l(2) base refresh_opservices [OF d4] by simp
  have "request \<notin> op_request ` set (operations_tbl d)" by (rule begin_down_fresh [OF run])
  then have "filter (\<lambda>c. os_request c = request) (opservices_tbl d) = []"
    using ok unfolding filter_empty_conv by (auto simp: schema_ok_def opservices_ok_def)
  with rows l(4) have ch: "children request d' = cs" by (simp add: children_def)
  with l(3) show "map os_service (children request d') = order" by simp
  assume "\<exists>c \<in> set (children request d'). os_outcome c = Some ''failure''"
  with ch l(5) fin show "\<forall>r \<in> set (operations_tbl d'). op_request r = request \<longrightarrow> op_outcome r = Some ''failure''"
    by (auto simp: update_Inr dest!: in_change split: if_splits)
qed

text \<open>
  Claim C13. A \<^verbatim>\<open>down\<close> records as stopped only what is proven absent: a service it marks stopped
  had no session and no process, and was stopped, failed or waiting for a journaled restart.
  The identity of every service it means to stop is kept, and no root file system changes.
\<close>

theorem begin_down_evidence:
  assumes "begin_down request stack order clk d = Inr (u, d')" and "schema_ok d"
  shows "rootfs_tbl d' = rootfs_tbl d
    \<and> (\<forall>v' \<in> set (services_tbl d'). \<exists>v \<in> set (services_tbl d). v' = v \<or>
         (sv_key v' = sv_key v \<and> sv_active v \<and> sv_session v' = sv_session v \<and> sv_pid v' = sv_pid v
          \<and> sv_starttime v' = sv_starttime v \<and> sv_boot v' = sv_boot v
          \<and> sv_desired v' = ''stopped'' \<and> sv_next v' = None
          \<and> sv_observed v' \<in> {''stopped'', ''unknown'', ''stopping''}
          \<and> (sv_observed v' = ''stopped'' \<longrightarrow> sv_session v = None \<and> sv_pid v = None
               \<and> (sv_observed v = ''stopped'' \<or> sv_observed v = ''failed''
                  \<or> sv_observed v = ''restarting'' \<and> sv_phase v = ''backoff'' \<and> sv_next v \<noteq> None))))"
  using begin_down_run(1) [OF assms]
  unfolding down_rel_def down_evidence_def stop_class_proven proven_backoff_def identity_absent_def by blast

lemma begin_down_evidence_witness:
  "\<exists>v \<in> set (services_tbl sample_committed).
     sv_session (demo_service ''db'' ''stopped'' ''stopping'' (Some ''d1'') ''stop_intent'' True 13) = sv_session v"
proof -
  have m: "demo_service ''db'' ''stopped'' ''stopping'' (Some ''d1'') ''stop_intent'' True 13 \<in> set (services_tbl sample_stopping)"
    by (simp add: sample_stopping_def)
  from begin_down_evidence [OF sample_stop sample_schema(4), THEN conjunct2, rule_format, OF m]
  show ?thesis by (elim bexE disjE conjE, intro bexI) (erule arg_cong, assumption, intro bexI)
qed

section \<open>Services of unknown ownership\<close>

text \<open>
  Claim C32. When a \<^verbatim>\<open>down\<close> meets a service whose ownership is unknown, its operation is already
  closed as a failure by \<^verbatim>\<open>begin_down\<close>, so that neither of the calls meant to end it can:
  \<^verbatim>\<open>finish_down\<close> reports a conflict, and \<^verbatim>\<open>finalize_down_failure\<close>, called to record that
  failure, finds no unfinished operation.
\<close>

theorem down_unknown_is_closed:
  assumes "begin_down request stack order clk d = Inr (u, d')" and "schema_ok d"
    and "c \<in> set (opservices_tbl d')" and "os_request c = request" and "os_outcome c = Some ''failure''"
    and "0 \<le> clk'" and "clk' < 2 ^ 63"
  shows "(\<exists>why. finish_down request stack clk' d' = Inl (Conflict why))
    \<and> (\<exists>why. finalize_down_failure request stack code message clk' d' = Inl (NotFound why))"
proof -
  have "c \<in> set (children request d')" using assms(3,4) by (simp add: children_def)
  with assms(5) have closed: "\<forall>r \<in> set (operations_tbl d'). op_request r = request \<longrightarrow> op_outcome r = Some ''failure''"
    using begin_down_run(3) [OF assms(1,2)] by blast
  have "incomplete_count request d' \<noteq> 0" using assms(3-5) by (auto simp: incomplete_0)
  then have "\<exists>why. finish_down request stack clk' d' = Inl (Conflict why)"
    by (simp add: finish_down_def tx_bind_def tx_lift_def tx_check_def unix_time_ok [OF assms(6,7)])
  moreover have "\<not> list_ex (unfinished_down request stack) (operations_tbl d')"
    using closed by (auto simp: list_ex_iff unfinished_down_def unfinished_def)
  then have "\<exists>why. finalize_down_failure request stack code message clk' d' = Inl (NotFound why)"
    by (simp add: finalize_down_failure_def tx_bind_def tx_lift_def tx_check_def unix_time_ok [OF assms(6,7)])
  ultimately show ?thesis ..
qed

text \<open>After the interrupted installation both services are unknown, and \<^verbatim>\<open>down\<close> is asked for.\<close>

definition sample_refused :: db where
  "sample_refused = sample_restarted
     \<lparr>stacks_tbl := [demo_stack ''stopped'' ''unknown'' False 61],
      services_tbl := [demo_service ''db'' ''stopped'' ''unknown'' None ''unknown'' False 61,
                      demo_service ''web'' ''stopped'' ''unknown'' None ''unknown'' False 61],
      operations_tbl := operations_tbl sample_restarted @ [(down_operation ''r3'' ''demo'' 0 61)
         \<lparr>op_phase := ''unknown'', op_outcome := Some ''failure'', op_error_code := Some ''unowned_unknown'',
          op_error_message := Some [Txt ''one or more services have ambiguous ownership; no unowned process was signalled'']\<rparr>],
      opservices_tbl := opservices_tbl sample_restarted
        @ [down_opservice ''r3'' ''demo'' ''web'' 0 Unowned True, down_opservice ''r3'' ''demo'' ''db'' 1 Unowned True]\<rparr>"

lemma sample_down_unknown:
  "begin_down ''r3'' ''demo'' [''web'', ''db''] 61 sample_restarted = Inr ((), sample_refused)"
  by code_simp

lemma down_unknown_is_closed_witness:
  "\<exists>why. finalize_down_failure ''r3'' ''demo'' ''stop_failed'' [] 62 sample_refused = Inl (NotFound why)"
proof -
  have "schema_ok sample_restarted" by code_simp
  moreover have "down_opservice ''r3'' ''demo'' ''web'' 0 Unowned True \<in> set (opservices_tbl sample_refused)"
    by (simp add: sample_refused_def)
  ultimately show ?thesis
    using down_unknown_is_closed [OF sample_down_unknown, of "down_opservice ''r3'' ''demo'' ''web'' 0 Unowned True" 62]
    by (simp add: down_opservice_def)
qed

end
