(* ===== verification/Paths.thy ===== *)
theory Paths
  imports Manifest_Text
begin

unbundle bit_operations_syntax

text \<open>
  Path texts as the program builds them (\<^verbatim>\<open>src/paths.rs\<close>): joining, the parent of a path, the
  fixed layout under the prefix, and the creation of private directories, over a file system
  that maps paths to what they name.
\<close>

section \<open>Path texts\<close>

definition is_absolute :: "string \<Rightarrow> bool" where
  "is_absolute p \<longleftrightarrow> starts_with ''/'' p"

text \<open>\<^verbatim>\<open>Path::join\<close>: an absolute second path replaces the first.\<close>

definition join_path :: "string \<Rightarrow> string \<Rightarrow> string" where
  "join_path a b =
     (if is_absolute b then b
      else if a = [] \<or> ends_with ''/'' a then a @ b
      else a @ ''/'' @ b)"

text \<open>\<^verbatim>\<open>Path::parent\<close>, on the reversed text: separators and current-directory components at the end do not count.\<close>

fun trim_rev :: "string \<Rightarrow> string" where
  "trim_rev [] = []"
| "trim_rev [c] = [c]"
| "trim_rev (c # d # r) =
     (if c = CHR ''/'' then trim_rev (d # r)
      else if c = CHR ''.'' \<and> d = CHR ''/'' then trim_rev (d # r)
      else c # d # r)"

definition path_parent :: "string \<Rightarrow> string option" where
  "path_parent p =
     (let t = trim_rev (rev p) in
      if t = [] \<or> t = ''/'' then None
      else Some (rev (trim_rev (dropWhile (\<lambda>c. c \<noteq> CHR ''/'') t))))"

section \<open>The layout\<close>

record runtime_paths =
  pa_prefix :: string
  pa_state_dir :: string
  pa_logs_dir :: string
  pa_run_dir :: string
  pa_lock_path :: string
  pa_socket_path :: string

definition new_paths :: "string \<Rightarrow> runtime_paths" where
  "new_paths prefix =
     (let state_dir = join_path prefix ''var/lib/termux-stacks'';
          run_dir = join_path prefix ''var/run/termux-stacks'' in
      \<lparr>pa_prefix = prefix, pa_state_dir = state_dir, pa_logs_dir = join_path state_dir ''logs'',
       pa_run_dir = run_dir, pa_lock_path = join_path run_dir ''daemon.lock'',
       pa_socket_path = join_path run_dir ''daemon.sock''\<rparr>)"

definition database_path :: "runtime_paths \<Rightarrow> string" where
  "database_path p = join_path (pa_state_dir p) ''state.db''"

definition volume_path :: "runtime_paths \<Rightarrow> string \<Rightarrow> string \<Rightarrow> string" where
  "volume_path p stack volume = join_path (join_path (join_path (pa_state_dir p) ''volumes'') stack) volume"

definition log_paths :: "runtime_paths \<Rightarrow> string \<Rightarrow> string \<Rightarrow> string \<times> string" where
  "log_paths p stack service =
     (join_path (join_path (pa_logs_dir p) stack) (service @ ''.stdout.log''),
      join_path (join_path (pa_logs_dir p) stack) (service @ ''.stderr.log''))"

section \<open>The file system\<close>

text \<open>
  What a path names, without following a final symbolic link: directories and files with their
  permission bits, links, and everything else. Permission bits are octal digits written in
  decimal, so \<^verbatim>\<open>0o700\<close> is \<open>448\<close>.
\<close>

datatype inode = Dir nat | Regular nat | Symlink | Special nat

record fs =
  fs_node :: "string \<Rightarrow> inode option"
  fs_umask :: nat
  fs_fault :: "string \<Rightarrow> string option" \<comment> \<open>a path whose metadata cannot be read or that cannot be created\<close>

datatype io_error_kind = NotFoundIo | InvalidInput | OtherIo

record io_err =
  io_kind :: io_error_kind
  io_message :: msg

definition other_io :: "string \<Rightarrow> io_err" where
  "other_io s = \<lparr>io_kind = OtherIo, io_message = [Txt s]\<rparr>"

definition symlink_metadata :: "fs \<Rightarrow> string \<Rightarrow> io_err + inode" where
  "symlink_metadata f p =
     (case fs_fault f p of
        Some e \<Rightarrow> Inl (other_io e)
      | None \<Rightarrow> (case fs_node f p of
            None \<Rightarrow> Inl \<lparr>io_kind = NotFoundIo, io_message = [Txt ''No such file or directory'']\<rparr>
          | Some n \<Rightarrow> Inr n))"

text \<open>\<^verbatim>\<open>DirBuilder::create\<close> with a mode: the bits of the mask are cleared.\<close>

definition create_dir :: "nat \<Rightarrow> string \<Rightarrow> fs \<Rightarrow> io_err + fs" where
  "create_dir mode p f =
     (case fs_fault f p of
        Some e \<Rightarrow> Inl (other_io e)
      | None \<Rightarrow> (case fs_node f p of
            Some _ \<Rightarrow> Inl (other_io ''File exists'')
          | None \<Rightarrow> Inr (f\<lparr>fs_node := (fs_node f)(p \<mapsto> Dir (mode - (mode AND fs_umask f))) \<rparr>)))"

definition invalid_path :: "string \<Rightarrow> string \<Rightarrow> io_err" where
  "invalid_path p reason = \<lparr>io_kind = InvalidInput, io_message = [Txt (utf8_lossy p), Txt '': '', Txt reason]\<rparr>"

definition verify_private_directory :: "fs \<Rightarrow> string \<Rightarrow> io_err + unit" where
  "verify_private_directory f p =
     andthen (symlink_metadata f p) (\<lambda>n. case n of
       Dir mode \<Rightarrow> if mode AND 511 \<noteq> 448 then Inl (invalid_path p ''private directory mode must be 0700'') else Inr ()
     | _ \<Rightarrow> Inl (invalid_path p ''private path is not a real directory''))"

text \<open>One component: what was created before an error stays.\<close>

definition ensure_private :: "string \<Rightarrow> fs \<Rightarrow> (io_err + unit) \<times> fs" where
  "ensure_private p f =
     (case symlink_metadata f p of
        Inr n \<Rightarrow> (case n of
            Dir _ \<Rightarrow> (verify_private_directory f p, f)
          | _ \<Rightarrow> (Inl (invalid_path p ''private path is not a real directory''), f))
      | Inl e \<Rightarrow>
          if io_kind e = NotFoundIo then
            (case create_dir 448 p f of
               Inl e' \<Rightarrow> (Inl e', f)
             | Inr f' \<Rightarrow> (verify_private_directory f' p, f'))
          else (Inl e, f))"

fun ensure_private_all :: "string \<Rightarrow> string list \<Rightarrow> fs \<Rightarrow> (io_err + unit) \<times> fs" where
  "ensure_private_all current [] f = (Inr (), f)"
| "ensure_private_all current (c # cs) f =
     (let p = join_path current c in
      case ensure_private p f of
        (Inl e, f') \<Rightarrow> (Inl e, f')
      | (Inr _, f') \<Rightarrow> ensure_private_all p cs f')"

definition ensure_private_subtree :: "string \<Rightarrow> string list \<Rightarrow> fs \<Rightarrow> (io_err + unit) \<times> fs" where
  "ensure_private_subtree base components f =
     (case verify_private_directory f base of
        Inl e \<Rightarrow> (Inl e, f)
      | Inr _ \<Rightarrow> ensure_private_all base components f)"

text \<open>The tree from the prefix down: only its last component is created private.\<close>

definition ensure_directory :: "bool \<Rightarrow> string \<Rightarrow> fs \<Rightarrow> (io_err + unit) \<times> fs" where
  "ensure_directory is_last p f =
     (case symlink_metadata f p of
        Inr n \<Rightarrow> (case n of
            Symlink \<Rightarrow> (Inl (invalid_path p ''symbolic links are not allowed''), f)
          | Dir _ \<Rightarrow> (Inr (), f)
          | _ \<Rightarrow> (Inl (invalid_path p ''path component is not a directory''), f))
      | Inl e \<Rightarrow>
          if io_kind e = NotFoundIo then
            (case create_dir (if is_last then 448 else 511) p f of
               Inl e' \<Rightarrow> (Inl e', f)
             | Inr f' \<Rightarrow> (case symlink_metadata f' p of
                   Inl e' \<Rightarrow> (Inl e', f')
                 | Inr (Dir _) \<Rightarrow> (Inr (), f')
                 | Inr _ \<Rightarrow> (Inl (invalid_path p ''directory changed while it was being created''), f')))
          else (Inl e, f))"

fun ensure_directories :: "string \<Rightarrow> string list \<Rightarrow> fs \<Rightarrow> (io_err + unit) \<times> fs" where
  "ensure_directories current [] f = (Inr (), f)"
| "ensure_directories current (c # cs) f =
     (let p = join_path current c in
      case ensure_directory (cs = []) p f of
        (Inl e, f') \<Rightarrow> (Inl e, f')
      | (Inr _, f') \<Rightarrow> ensure_directories p cs f')"

definition ensure_directory_tree :: "string \<Rightarrow> string list \<Rightarrow> fs \<Rightarrow> (io_err + unit) \<times> fs" where
  "ensure_directory_tree prefix components f =
     (case symlink_metadata f prefix of
        Inl e \<Rightarrow> (Inl e, f)
      | Inr (Dir _) \<Rightarrow> ensure_directories prefix components f
      | Inr _ \<Rightarrow> (Inl (invalid_path prefix ''prefix is not a real directory''), f))"

definition prepare_stack_log_directory :: "runtime_paths \<Rightarrow> string \<Rightarrow> fs \<Rightarrow> (io_err + unit) \<times> fs" where
  "prepare_stack_log_directory p stack = ensure_private_subtree (pa_state_dir p) [''logs'', stack]"

definition prepare_volume_directory :: "runtime_paths \<Rightarrow> string \<Rightarrow> string \<Rightarrow> fs \<Rightarrow> (io_err + string) \<times> fs" where
  "prepare_volume_directory p stack volume f =
     (case ensure_private_subtree (pa_state_dir p) [''volumes'', stack, volume] f of
        (Inl e, f') \<Rightarrow> (Inl e, f')
      | (Inr _, f') \<Rightarrow> (Inr (volume_path p stack volume), f'))"

definition prepare_paths :: "runtime_paths \<Rightarrow> fs \<Rightarrow> (io_err + unit) \<times> fs" where
  "prepare_paths p f =
     (case ensure_directory_tree (pa_prefix p) [''var'', ''lib'', ''termux-stacks''] f of
        (Inl e, f') \<Rightarrow> (Inl e, f')
      | (Inr _, f') \<Rightarrow>
          (case ensure_directory_tree (pa_prefix p) [''var'', ''run'', ''termux-stacks''] f' of
             (Inl e, f'') \<Rightarrow> (Inl e, f'')
           | (Inr _, f'') \<Rightarrow>
               (andthen (verify_private_directory f'' (pa_state_dir p))
                  (\<lambda>_. verify_private_directory f'' (pa_run_dir p)), f'')))"

section \<open>Creating directories\<close>

definition private_dir :: "fs \<Rightarrow> string \<Rightarrow> bool" where
  "private_dir f p \<longleftrightarrow> (\<exists>mode. fs_node f p = Some (Dir mode) \<and> mode AND 511 = 448)"

text \<open>The second file system has what the first has, and new directories.\<close>

definition grows_dirs :: "fs \<Rightarrow> fs \<Rightarrow> bool" where
  "grows_dirs f f' \<longleftrightarrow> fs_umask f' = fs_umask f \<and> fs_fault f' = fs_fault f
     \<and> (\<forall>p. fs_node f' p = fs_node f p \<or> fs_node f p = None \<and> (\<exists>mode. fs_node f' p = Some (Dir mode)))"

lemma grows_refl: "grows_dirs f f"
  by (simp add: grows_dirs_def)

lemma grows_dirs_trans: "grows_dirs f f' \<Longrightarrow> grows_dirs f' f'' \<Longrightarrow> grows_dirs f f''"
  unfolding grows_dirs_def by metis

lemma verify_private: "verify_private_directory f p = Inr u \<Longrightarrow> private_dir f p"
  by (auto simp: verify_private_directory_def symlink_metadata_def private_dir_def res_simps
      split: option.splits inode.splits if_splits)

lemma private_later: "grows_dirs f f' \<Longrightarrow> private_dir f p \<Longrightarrow> private_dir f' p"
  unfolding grows_dirs_def private_dir_def by (metis option.distinct(1))

lemma create_grows: "create_dir mode p f = Inr f' \<Longrightarrow> grows_dirs f f'"
  by (auto simp: create_dir_def grows_dirs_def split: option.splits if_splits)

lemma ensure_private_run:
  assumes "ensure_private p f = (r, f')"
  shows "grows_dirs f f' \<and> (r = Inr () \<longrightarrow> private_dir f' p)"
  using assms
  by (auto simp: ensure_private_def grows_refl verify_private intro: create_grows
      split: sum.splits inode.splits if_splits)

lemma ensure_private_all_run:
  assumes "ensure_private_all current cs f = (r, f')"
  shows "grows_dirs f f' \<and> (r = Inr () \<longrightarrow> (\<forall>n < length cs. private_dir f' (foldl join_path current (take (Suc n) cs))))"
  using assms
proof (induction cs arbitrary: current f)
  case (Cons c cs)
  obtain r1 f1 where one: "ensure_private (join_path current c) f = (r1, f1)" by fastforce
  note run = ensure_private_run [OF one]
  show ?case
  proof (cases r1)
    case (Inl e)
    with one Cons.prems run show ?thesis by auto
  next
    case (Inr u)
    with one Cons.prems have rest: "ensure_private_all (join_path current c) cs f1 = (r, f')" by simp
    note IH = Cons.IH [OF rest]
    have "private_dir f' (foldl join_path current (take (Suc n) (c # cs)))" if "r = Inr ()" "n < length (c # cs)" for n
      using IH run Inr that private_later by (cases n) auto
    with IH run show ?thesis by (blast intro: grows_dirs_trans)
  qed
qed (simp add: grows_refl)

lemma private_subtree_run:
  assumes "ensure_private_subtree base components f = (r, f')"
  shows "grows_dirs f f' \<and> (r = Inr () \<longrightarrow> private_dir f' base
    \<and> (\<forall>n < length components. private_dir f' (foldl join_path base (take (Suc n) components))))"
proof (cases "verify_private_directory f base")
  case (Inl e)
  with assms show ?thesis by (auto simp: ensure_private_subtree_def grows_refl)
next
  case (Inr u)
  with assms have run: "ensure_private_all base components f = (r, f')" by (simp add: ensure_private_subtree_def)
  show ?thesis using ensure_private_all_run [OF run] verify_private [OF Inr] private_later by blast
qed

text \<open>
  Claim C34. Preparing a private subtree never changes or removes what is there: the file
  system afterwards has only new directories, whether the call succeeds or not. When it
  succeeds, the base and every level down to the last component is a real directory with mode
  0700, so that neither a link nor a shared directory is ever used.
\<close>

theorem private_subtree_ok:
  assumes "ensure_private_subtree base components f = (r, f')"
  shows "grows_dirs f f' \<and> (r = Inr () \<longrightarrow> private_dir f' base
    \<and> (\<forall>n < length components. private_dir f' (foldl join_path base (take (Suc n) components))))"
  using private_subtree_run [OF assms] .

definition sample_fs :: fs where
  "sample_fs = \<lparr>fs_node = [''/s'' \<mapsto> Dir 448, ''/s/logs'' \<mapsto> Dir 448], fs_umask = 63, fs_fault = (\<lambda>_. None)\<rparr>"

lemma sample_subtree:
  "ensure_private_subtree ''/s'' [''logs'', ''demo''] sample_fs
     = (Inr (), sample_fs\<lparr>fs_node := (fs_node sample_fs)(''/s/logs/demo'' \<mapsto> Dir 448)\<rparr>)"
  by (simp add: ensure_private_subtree_def ensure_private_def verify_private_directory_def symlink_metadata_def
      sample_fs_def join_path_def is_absolute_def starts_with_def ends_with_def create_dir_def)

lemma private_subtree_ok_witness:
  "grows_dirs sample_fs (sample_fs\<lparr>fs_node := (fs_node sample_fs)(''/s/logs/demo'' \<mapsto> Dir 448)\<rparr>)"
  using private_subtree_ok [OF sample_subtree] by blast

section \<open>Separation\<close>

text \<open>Joining a component to a managed directory only appends it after a separator.\<close>

lemma join_component:
  "a \<noteq> [] \<Longrightarrow> last a \<noteq> CHR ''/'' \<Longrightarrow> c \<noteq> [] \<Longrightarrow> hd c \<noteq> CHR ''/'' \<Longrightarrow> join_path a c = a @ CHR ''/'' # c"
  by (cases c; cases a rule: rev_cases) (auto simp: join_path_def is_absolute_def starts_with_def ends_with_def)

lemma name_ends:
  assumes "valid_name n"
  shows "hd n \<noteq> CHR ''/''" "last n \<noteq> CHR ''/''"
  using valid_name_component(1,2) [OF assms] by (metis hd_in_set, metis last_in_set)

lemma join_relative:
  assumes "c \<noteq> []" "hd c \<noteq> CHR ''/''" "last c \<noteq> CHR ''/''"
  shows "join_path a c \<noteq> []" "last (join_path a c) \<noteq> CHR ''/''"
  using assms by (cases c; auto simp: join_path_def is_absolute_def starts_with_def)+

lemma state_dir_ends:
  "pa_state_dir (new_paths prefix) \<noteq> []" "last (pa_state_dir (new_paths prefix)) \<noteq> CHR ''/''"
  by (simp_all add: new_paths_def Let_def join_relative)

lemma managed_path:
  assumes "valid_name s" "c \<noteq> []" "hd c \<noteq> CHR ''/''" "area \<noteq> []" "hd area \<noteq> CHR ''/''" "last area \<noteq> CHR ''/''"
  shows "join_path (join_path (join_path (pa_state_dir (new_paths prefix)) area) s) c
    = pa_state_dir (new_paths prefix) @ CHR ''/'' # area @ CHR ''/'' # s @ CHR ''/'' # c"
  using assms name_ends [OF assms(1)] valid_name_component(1) [OF assms(1)] state_dir_ends [of prefix]
  by (simp add: join_component)

lemma volume_path_text:
  assumes "valid_name s" "valid_name v"
  shows "volume_path (new_paths prefix) s v
    = pa_state_dir (new_paths prefix) @ ''/volumes/'' @ s @ CHR ''/'' # v"
  using managed_path [of s v "''volumes''" prefix] assms name_ends [of v] valid_name_component(1) [of v]
  by (simp add: volume_path_def)

lemma log_paths_text:
  assumes "valid_name s" "valid_name a"
  shows "log_paths (new_paths prefix) s a
    = (pa_state_dir (new_paths prefix) @ ''/logs/'' @ s @ CHR ''/'' # a @ ''.stdout.log'',
       pa_state_dir (new_paths prefix) @ ''/logs/'' @ s @ CHR ''/'' # a @ ''.stderr.log'')"
  using managed_path [of s "a @ ''.stdout.log''" "''logs''" prefix] managed_path [of s "a @ ''.stderr.log''" "''logs''" prefix]
    assms name_ends [of a] valid_name_component(1) [of a]
  by (simp add: log_paths_def new_paths_def Let_def hd_append)

lemma slash_split:
  "CHR ''/'' \<notin> set s \<Longrightarrow> CHR ''/'' \<notin> set s' \<Longrightarrow>
     s @ CHR ''/'' # t = s' @ CHR ''/'' # t' \<longleftrightarrow> s = s' \<and> t = t'"
  by (auto simp: append_eq_append_conv2 Cons_eq_append_conv append_eq_Cons_conv)


text \<open>
  Claim C35. Managed paths are kept apart: for valid names, the volume directories of two
  different volumes (of one stack or of two) are different and none lies inside the other, the
  log files of two different services are different, a service's two log files differ, and no
  volume directory is a log file or the database.
\<close>

theorem managed_paths_apart:
  assumes "valid_name s" "valid_name v" "valid_name a" "valid_name s'" "valid_name v'" "valid_name a'"
    and "p = new_paths prefix"
  shows "(volume_path p s v = volume_path p s' v' \<longleftrightarrow> s = s' \<and> v = v')
    \<and> \<not> starts_with (volume_path p s v @ ''/'') (volume_path p s' v')
    \<and> (fst (log_paths p s a) = fst (log_paths p s' a') \<longleftrightarrow> s = s' \<and> a = a')
    \<and> (snd (log_paths p s a) = snd (log_paths p s' a') \<longleftrightarrow> s = s' \<and> a = a')
    \<and> fst (log_paths p s a) \<noteq> snd (log_paths p s' a')
    \<and> volume_path p s v \<notin> {fst (log_paths p s' a'), snd (log_paths p s' a'), database_path p}"
proof -
  note [simp] = assms valid_name_component(2) [OF assms(1)] valid_name_component(2) [OF assms(2)]
    valid_name_component(2) [OF assms(4)] valid_name_component(2) [OF assms(5)] slash_split
    volume_path_text log_paths_text
  have split_suffix: "x = y" if "x @ ''.stdout.log'' = y @ ''.stderr.log''" for x y :: string
    using arg_cong [OF that, of "\<lambda>z. take 5 (drop 4 (rev z))"] by simp
  have nested: "\<not> starts_with (volume_path p s v @ ''/'') (volume_path p s' v')"
  proof
    assume "starts_with (volume_path p s v @ ''/'') (volume_path p s' v')"
    then obtain r where "volume_path p s' v' = volume_path p s v @ CHR ''/'' # r"
      unfolding starts_with_iff by (metis append_Cons append_Nil append_assoc)
    then have "s' @ CHR ''/'' # v' = s @ CHR ''/'' # v @ CHR ''/'' # r" by simp
    then have "v' = v @ CHR ''/'' # r" by simp
    then show False using valid_name_component(2) [OF assms(5)] by simp
  qed
  have db: "database_path p = pa_state_dir p @ ''/state.db''"
    using state_dir_ends [of prefix] by (simp add: database_path_def join_component)
  have outs: "fst (log_paths p s a) \<noteq> snd (log_paths p s' a')"
    using arg_cong [of "s @ CHR ''/'' # a @ ''.stdout.log''" "s' @ CHR ''/'' # a' @ ''.stderr.log''" "\<lambda>z. take 5 (drop 4 (rev z))"]
    by auto
  from nested db outs show ?thesis by simp
qed

lemma managed_paths_apart_witness:
  "volume_path (new_paths ''/p'') ''demo'' ''data'' \<noteq> volume_path (new_paths ''/p'') ''demo-data'' ''data''"
  using managed_paths_apart [of "''demo''" "''data''" "''web''" "''demo-data''" "''data''" "''web''" "new_paths ''/p''" "''/p''"]
  by (simp add: valid_name_def is_lower_def is_digit_def starts_with_def)

end
