(* ===== verification/Store_Migrate.thy ===== *)
theory Store_Migrate
  imports Store_Total Paths
begin

text \<open>
  Opening the journal (\<^verbatim>\<open>src/store.rs\<close>, \<^verbatim>\<open>Store::open\<close>): the file is checked or created private,
  a new one gets the schema and an identifier, one of version 2 is migrated in a single
  transaction, any other version is refused. The tables of version 2 are the rows the migration
  reads; readings of the clock, random bytes and failures of SQLite are arguments.
\<close>

section \<open>Version 2\<close>

record v2_stack =
  s2_name :: string
  s2_desired :: string
  s2_observed :: string
  s2_manifest :: string
  s2_created :: int
  s2_updated :: int

record v2_service =
  w2_stack :: string
  w2_name :: string
  w2_image :: string
  w2_command :: string
  w2_alias :: string
  w2_observed :: string
  w2_rootfs :: string
  w2_exit :: "int option"
  w2_stdout :: string
  w2_stderr :: string

record v2_operation =
  p2_request :: string
  p2_stack :: string
  p2_operation :: string
  p2_phase :: string
  p2_outcome :: "string option"
  p2_error_code :: "string option"
  p2_error_message :: "string option"
  p2_response :: "string option"
  p2_created :: int
  p2_updated :: int

record v2_db =
  v2_stacks :: "v2_stack list"
  v2_services :: "v2_service list"
  v2_operations :: "v2_operation list"

definition load_v2_stacks :: "v2_db \<Rightarrow> v2_stack list" where
  "load_v2_stacks v = sort_key s2_name (v2_stacks v)"

definition load_v2_services :: "v2_db \<Rightarrow> v2_service list" where
  "load_v2_services v = sort_key (\<lambda>w. (w2_stack w, w2_name w)) (v2_services v)"

definition load_v2_operations :: "v2_db \<Rightarrow> v2_operation list" where
  "load_v2_operations v = sort_key (\<lambda>p. (p2_created p, p2_request p)) (v2_operations v)"

section \<open>Migration\<close>

definition successful_up :: "v2_operation list \<Rightarrow> string list" where
  "successful_up ps =
     bs_of (map p2_stack (filter (\<lambda>p. p2_operation p = ''up'' \<and> p2_outcome p = Some ''success'') ps))"

definition incomplete_stacks :: "v2_operation list \<Rightarrow> string list" where
  "incomplete_stacks ps = bs_of (map p2_stack (filter (\<lambda>p. p2_outcome p = None) ps))"

text \<open>A service version 2 may have left in the middle of an effect.\<close>

definition ambiguous_service :: "v2_service \<Rightarrow> bool" where
  "ambiguous_service w \<longleftrightarrow> w2_observed w \<in> {''preparing'', ''starting'', ''running'', ''stopping''}
     \<or> w2_rootfs w \<in> {''preparing'', ''unknown''}"

definition migrated_stack :: "v2_service list \<Rightarrow> v2_operation list \<Rightarrow> v2_stack \<Rightarrow> stack_row" where
  "migrated_stack ws ps s =
     (let ambiguous = s2_name s \<in> set (incomplete_stacks ps)
            \<or> list_ex (\<lambda>w. w2_stack w = s2_name s \<and> ambiguous_service w) ws;
          committed = s2_name s \<in> set (successful_up ps) in
      \<lparr>sk_name = s2_name s, sk_desired = s2_desired s,
       sk_observed = (if ambiguous then ''unknown'' else s2_observed s),
       sk_manifest = (if committed then s2_manifest s else []), sk_base = [],
       sk_revision = (if committed then 1 else 0), sk_created = s2_created s, sk_updated = s2_updated s\<rparr>)"

definition ambiguous_in :: "v2_operation list \<Rightarrow> v2_service \<Rightarrow> bool" where
  "ambiguous_in ps w \<longleftrightarrow> w2_stack w \<in> set (incomplete_stacks ps) \<or> ambiguous_service w"

definition known_current :: "v2_operation list \<Rightarrow> v2_service \<Rightarrow> bool" where
  "known_current ps w \<longleftrightarrow> w2_stack w \<in> set (successful_up ps) \<and> \<not> ambiguous_in ps w
     \<and> w2_rootfs w = ''installed'' \<and> w2_observed w \<in> {''stopped'', ''failed''}"

definition migrated_config :: "(string \<Rightarrow> json option) \<Rightarrow> v2_service \<Rightarrow> json" where
  "migrated_config from_str w = JObj
     [(''command'', case from_str (w2_command w) of Some j \<Rightarrow> j | None \<Rightarrow> JNull),
      (''dependsOn'', JArr []), (''environment'', JObj []), (''image'', JStr (w2_image w)),
      (''mounts'', JArr []), (''ports'', JArr []), (''restart'', JStr ''no'')]"

definition migrated_service :: "(string \<Rightarrow> json option) \<Rightarrow> v2_operation list \<Rightarrow> int \<Rightarrow> v2_service \<Rightarrow> service_row" where
  "migrated_service from_str ps now w =
     (let ambiguous = ambiguous_in ps w; current = known_current ps w;
          observed = (if ambiguous then ''unknown'' else w2_observed w) in
      \<lparr>sv_stack = w2_stack w, sv_name = w2_name w, sv_active = True, sv_config = migrated_config from_str w,
       sv_desired = (if w2_observed w = ''stopped'' then ''stopped'' else ''running''), sv_observed = observed,
       sv_alias = (if current then Some (w2_alias w) else None), sv_generation = (if current then Some 1 else None),
       sv_phase = (if ambiguous then ''unknown'' else if current then ''committed'' else observed),
       sv_session = None, sv_pid = None, sv_starttime = None, sv_boot = None,
       sv_exit_code = w2_exit w, sv_exit_signal = None, sv_attempts = 0, sv_window = None, sv_next = None,
       sv_stdout = w2_stdout w, sv_stderr = w2_stderr w, sv_created = now, sv_updated = now\<rparr>)"

definition migrated_rootfs :: "v2_operation list \<Rightarrow> int \<Rightarrow> v2_service \<Rightarrow> rootfs_row" where
  "migrated_rootfs ps now w =
     \<lparr>rg_stack = w2_stack w, rg_service = w2_name w, rg_generation = 1, rg_alias = w2_alias w, rg_image = w2_image w,
      rg_state = (if ambiguous_in ps w then ''unknown'' else w2_rootfs w),
      rg_role = (if known_current ps w then ''current'' else ''retired''), rg_created = now, rg_updated = now\<rparr>"

text \<open>The clock is read once for the row of a service and once more for that of its generation.\<close>

definition migrate_service :: "(string \<Rightarrow> json option) \<Rightarrow> (nat \<Rightarrow> int) \<Rightarrow> v2_operation list \<Rightarrow> nat \<times> v2_service \<Rightarrow> unit tx" where
  "migrate_service from_str clock ps iw =
     (let w = snd iw in
      tx_bind (tx_lift (unix_time (clock (2 * fst iw)))) (\<lambda>now.
      tx_bind (insert_service (migrated_service from_str ps now w)) (\<lambda>_.
      tx_when (w2_alias w \<noteq> [])
        (tx_bind (tx_lift (unix_time (clock (2 * fst iw + 1)))) (\<lambda>now.
         insert_rootfs (migrated_rootfs ps now w))))))"

definition incomplete_message :: string where
  "incomplete_message = ''v2 operation was incomplete at migration; no engine effect was retried''"

definition migrated_operation :: "v2_stack list \<Rightarrow> v2_operation \<Rightarrow> operation_row" where
  "migrated_operation ss p =
     (let incomplete = p2_outcome p = None;
          manifest = (if p2_operation p = ''up''
            then map_option s2_manifest (find (\<lambda>s. s2_name s = p2_stack p) ss) else None) in
      \<lparr>op_request = p2_request p, op_stack = p2_stack p, op_operation = p2_operation p,
       op_phase = (if incomplete then ''unknown'' else p2_phase p),
       op_manifest = manifest, op_base = map_option (\<lambda>_. []) manifest,
       op_revision = (if p2_operation p = ''up'' then Some 1 else None), op_target = None,
       op_outcome = (if incomplete then Some ''failure'' else p2_outcome p),
       op_error_code = (if incomplete then Some ''migration_unknown'' else p2_error_code p),
       op_error_message = (if incomplete then Some [Txt incomplete_message]
         else map_option (\<lambda>t. [Txt t]) (p2_error_message p)),
       op_response = p2_response p, op_created = p2_created p, op_updated = p2_updated p\<rparr>)"

definition migrated_opservice :: "v2_operation \<Rightarrow> json \<Rightarrow> nat \<times> v2_service \<Rightarrow> opservice_row" where
  "migrated_opservice p config iw =
     (let incomplete = p2_outcome p = None; w = snd iw in
      \<lparr>os_request = p2_request p, os_stack = p2_stack p, os_service = w2_name w, os_ordinal = int (fst iw),
       os_phase = (if incomplete then ''unknown'' else p2_phase p),
       os_outcome = (if incomplete then Some ''failure'' else p2_outcome p),
       os_config = (if p2_operation p = ''up'' then Some config else None),
       os_generation = (if p2_operation p = ''up'' \<and> w2_alias w \<noteq> [] then Some 1 else None),
       os_error_code = (if incomplete then Some ''migration_unknown'' else p2_error_code p),
       os_error_message = (if incomplete then Some [Txt incomplete_message]
         else map_option (\<lambda>t. [Txt t]) (p2_error_message p))\<rparr>)"

definition service_row_of :: "string \<Rightarrow> string \<Rightarrow> db \<Rightarrow> service_row option" where
  "service_row_of stack service d = find (\<lambda>r. sv_stack r = stack \<and> sv_name r = service) (services_tbl d)"

definition migrate_opservice :: "v2_operation \<Rightarrow> nat \<times> v2_service \<Rightarrow> unit tx" where
  "migrate_opservice p iw =
     tx_bind (tx_read (\<lambda>d. ok_or (Sql ''QueryReturnedNoRows'') (service_row_of (w2_stack (snd iw)) (w2_name (snd iw)) d)))
       (\<lambda>row. insert_opservice (migrated_opservice p (sv_config row) iw))"

definition migrate_operation :: "v2_stack list \<Rightarrow> v2_service list \<Rightarrow> v2_operation \<Rightarrow> unit tx" where
  "migrate_operation ss ws p =
     tx_bind (insert_operation (migrated_operation ss p)) (\<lambda>_.
     tx_for (enumerate 0 (filter (\<lambda>w. w2_stack w = p2_stack p) ws)) (migrate_opservice p))"

definition migrate_tables :: "(string \<Rightarrow> json option) \<Rightarrow> (nat \<Rightarrow> int) \<Rightarrow> v2_stack list \<Rightarrow> v2_service list \<Rightarrow> v2_operation list \<Rightarrow> unit tx" where
  "migrate_tables from_str clock ss ws ps =
     tx_bind (tx_for ss (\<lambda>s. insert_stack (migrated_stack ws ps s))) (\<lambda>_.
     tx_bind (tx_for (enumerate 0 ws) (migrate_service from_str clock ps)) (\<lambda>_.
     tx_for ps (migrate_operation ss ws)))"

definition migrate_v2_to_v3 :: "(string \<Rightarrow> json option) \<Rightarrow> (nat \<Rightarrow> int) \<Rightarrow> v2_db \<Rightarrow> store_error + db" where
  "migrate_v2_to_v3 from_str clock v =
     andthen (migrate_tables from_str clock (load_v2_stacks v) (load_v2_services v) (load_v2_operations v) empty_db)
       (\<lambda>(_, d). Inr d)"

section \<open>Opening\<close>

text \<open>What the file holds, by the version it claims and the identifier of the installation.\<close>

datatype content = Blank | Version_2 string v2_db | Version_3 string db | Other_Version int

fun user_version :: "content \<Rightarrow> int" where
  "user_version Blank = 0"
| "user_version (Version_2 _ _) = 2"
| "user_version (Version_3 _ _) = 3"
| "user_version (Other_Version n) = n"

record open_env =
  oe_open :: "store_error + unit"           \<comment> \<open>the connection and the version\<close>
  oe_pragmas :: "store_error + unit"
  oe_random :: "store_error + 8 word list"  \<comment> \<open>sixteen bytes of the random device\<close>
  oe_commit :: "store_error + unit"         \<comment> \<open>a failure of SQLite inside the transaction\<close>
  oe_limit :: "store_error + unit"          \<comment> \<open>the storage limit of debug builds\<close>
  oe_clock :: "nat \<Rightarrow> int"
  oe_json :: "string \<Rightarrow> json option"

definition create_file :: "nat \<Rightarrow> string \<Rightarrow> fs \<Rightarrow> io_err + fs" where
  "create_file mode p f =
     (case fs_fault f p of
        Some e \<Rightarrow> Inl (other_io e)
      | None \<Rightarrow> (case fs_node f p of
            Some _ \<Rightarrow> Inl (other_io ''File exists'')
          | None \<Rightarrow> Inr (f\<lparr>fs_node := (fs_node f)(p \<mapsto> Regular (mode - (mode AND fs_umask f)))\<rparr>)))"

definition prepare_database_file :: "string \<Rightarrow> fs \<times> content \<Rightarrow> store_error + fs \<times> content" where
  "prepare_database_file p fc =
     (case symlink_metadata (fst fc) p of
        Inr (Regular mode) \<Rightarrow> if mode AND 63 \<noteq> 0 then Inl (UnsafePath p) else Inr fc
      | Inr _ \<Rightarrow> Inl (UnsafePath p)
      | Inl _ \<Rightarrow> andthen (map_err (\<lambda>x. Io (io_message x)) (create_file 384 p (fst fc))) (\<lambda>f. Inr (f, Blank)))"

definition random_identifier :: "store_error + 8 word list \<Rightarrow> store_error + string" where
  "random_identifier r =
     andthen r (\<lambda>bytes. Inr (concat (map (\<lambda>b. [hex_char (unat b div 16), hex_char (unat b mod 16)]) bytes)))"

definition initialize_schema :: "open_env \<Rightarrow> store_error + content" where
  "initialize_schema oe =
     andthen (random_identifier (oe_random oe)) (\<lambda>installation.
     andthen (oe_commit oe) (\<lambda>_. Inr (Version_3 installation empty_db)))"

definition upgrade :: "open_env \<Rightarrow> content \<Rightarrow> store_error + content" where
  "upgrade oe c = (case c of
     Blank \<Rightarrow> initialize_schema oe
   | Version_2 installation v \<Rightarrow>
       andthen (migrate_v2_to_v3 (oe_json oe) (oe_clock oe) v) (\<lambda>d.
       andthen (oe_commit oe) (\<lambda>_. Inr (Version_3 installation d)))
   | Version_3 installation d \<Rightarrow> Inr c
   | Other_Version n \<Rightarrow> Inl (Sql ''not a database of this program''))"

definition read_installation :: "content \<Rightarrow> store_error + string \<times> db" where
  "read_installation c = (case c of
     Version_3 installation d \<Rightarrow> Inr (installation, d)
   | _ \<Rightarrow> Inl (Sql ''QueryReturnedNoRows''))"

definition open_store :: "open_env \<Rightarrow> string \<Rightarrow> fs \<times> content \<Rightarrow> (store_error + string \<times> db) \<times> (fs \<times> content)" where
  "open_store oe p fc =
     (case prepare_database_file p fc of
        Inl x \<Rightarrow> (Inl x, fc)
      | Inr (f, c) \<Rightarrow>
          (case andthen (oe_open oe) (\<lambda>_.
                if user_version c \<notin> {0, 2, 3} then Inl (Schema (user_version c))
                else andthen (oe_pragmas oe) (\<lambda>_. upgrade oe c)) of
             Inl x \<Rightarrow> (Inl x, (f, c))
           | Inr c' \<Rightarrow> (andthen (oe_limit oe) (\<lambda>_. read_installation c'), (f, c'))))"

end
