(* ===== verification/Store_Migrated.thy ===== *)
theory Store_Migrated
  imports Store_Migrate
begin

text \<open>
  What the migration of a version 2 journal yields (\<^verbatim>\<open>src/store.rs\<close>, \<^verbatim>\<open>migrate_v2_to_v3\<close>): the
  tables it builds in closed form, when it succeeds, and what it claims; and that opening a
  journal is repeatable.
\<close>

section \<open>The migrated tables\<close>

type_synonym numbered = "(nat \<times> v2_service) list"

definition service_rows :: "(string \<Rightarrow> json option) \<Rightarrow> (nat \<Rightarrow> int) \<Rightarrow> v2_operation list \<Rightarrow> numbered \<Rightarrow> service_row list" where
  "service_rows from_str clock ps iws =
     map (\<lambda>iw. migrated_service from_str ps (clock (2 * fst iw)) (snd iw)) iws"

definition rootfs_rows :: "(nat \<Rightarrow> int) \<Rightarrow> v2_operation list \<Rightarrow> numbered \<Rightarrow> rootfs_row list" where
  "rootfs_rows clock ps iws =
     map (\<lambda>iw. migrated_rootfs ps (clock (2 * fst iw + 1)) (snd iw)) (filter (\<lambda>iw. w2_alias (snd iw) \<noteq> []) iws)"

definition child_rows :: "(string \<Rightarrow> json option) \<Rightarrow> v2_operation \<Rightarrow> numbered \<Rightarrow> opservice_row list" where
  "child_rows from_str p iws = map (\<lambda>iw. migrated_opservice p (migrated_config from_str (snd iw)) iw) iws"

definition children_of :: "v2_service list \<Rightarrow> v2_operation \<Rightarrow> numbered" where
  "children_of ws p = enumerate 0 (filter (\<lambda>w. w2_stack w = p2_stack p) ws)"

definition migrated_db ::
    "(string \<Rightarrow> json option) \<Rightarrow> (nat \<Rightarrow> int) \<Rightarrow> v2_stack list \<Rightarrow> v2_service list \<Rightarrow> v2_operation list \<Rightarrow> db" where
  "migrated_db from_str clock ss ws ps =
     \<lparr>stacks_tbl = map (migrated_stack ws ps) ss,
      services_tbl = service_rows from_str clock ps (enumerate 0 ws),
      rootfs_tbl = rootfs_rows clock ps (enumerate 0 ws),
      operations_tbl = map (migrated_operation ss) ps,
      opservices_tbl = concat (map (\<lambda>p. child_rows from_str p (children_of ws p)) ps)\<rparr>"

lemmas table_rows_defs = service_rows_def rootfs_rows_def child_rows_def

lemma migrated_keys [simp]:
  "sk_name (migrated_stack ws ps s) = s2_name s"
  "sv_key (migrated_service from_str ps now w) = (w2_stack w, w2_name w)"
  "sv_stack (migrated_service from_str ps now w) = w2_stack w"
  "sv_config (migrated_service from_str ps now w) = migrated_config from_str w"
  "sv_attempts (migrated_service from_str ps now w) = 0"
  "(sv_alias (migrated_service from_str ps now w) = None) = (sv_generation (migrated_service from_str ps now w) = None)"
  "rg_key (migrated_rootfs ps now w) = (w2_stack w, w2_name w)"
  "rg_id (migrated_rootfs ps now w) = (w2_stack w, w2_name w, 1)"
  "rg_alias (migrated_rootfs ps now w) = w2_alias w"
  "rg_generation (migrated_rootfs ps now w) = 1"
  "rg_role (migrated_rootfs ps now w) = (if known_current ps w then ''current'' else ''retired'')"
  "op_request (migrated_operation ss p) = p2_request p"
  "op_stack (migrated_operation ss p) = p2_stack p"
  "os_request (migrated_opservice p config iw) = p2_request p"
  "os_service (migrated_opservice p config iw) = w2_name (snd iw)"
  "os_ordinal (migrated_opservice p config iw) = int (fst iw)"
  by (simp_all add: migrated_stack_def migrated_service_def migrated_rootfs_def migrated_operation_def
      migrated_opservice_def sv_key_def rg_key_def rg_id_def Let_def)

lemma migrated_revision [simp]: "0 \<le> sk_revision (migrated_stack ws ps s)"
  by (simp add: migrated_stack_def Let_def)

lemma migrated_outcome [simp]: "op_outcome (migrated_operation ss p) \<noteq> None"
  by (simp add: migrated_operation_def Let_def)

section \<open>What the loops do\<close>

lemma unix_time_Inr [res_simps]: "unix_time c = Inr now \<longleftrightarrow> now = c \<and> 0 \<le> c \<and> c < 2 ^ 63"
  by (auto simp: unix_time_def)

lemma run_stacks:
  "tx_for ss (\<lambda>s. insert_stack (f s)) d = Inr (u, d') \<Longrightarrow> d' = d\<lparr>stacks_tbl := stacks_tbl d @ map f ss\<rparr>"
proof (induction ss arbitrary: d)
  case (Cons s ss)
  then have "tx_for ss (\<lambda>s. insert_stack (f s)) (d\<lparr>stacks_tbl := stacks_tbl d @ [f s]\<rparr>) = Inr (u, d')"
    by (auto simp: res_simps insert_stack_def)
  from Cons.IH [OF this] show ?case by simp
qed simp

lemma run_services:
  "tx_for iws (migrate_service from_str clock ps) d = Inr (u, d') \<Longrightarrow>
   d' = d\<lparr>services_tbl := services_tbl d @ service_rows from_str clock ps iws,
          rootfs_tbl := rootfs_tbl d @ rootfs_rows clock ps iws\<rparr>"
proof (induction iws arbitrary: d)
  case (Cons iw iws)
  then obtain d1 where d1: "migrate_service from_str clock ps iw d = Inr ((), d1)"
    "tx_for iws (migrate_service from_str clock ps) d1 = Inr (u, d')" by (auto simp: res_simps)
  from d1(1) have "d1 = d\<lparr>services_tbl := services_tbl d @ service_rows from_str clock ps [iw],
      rootfs_tbl := rootfs_tbl d @ rootfs_rows clock ps [iw]\<rparr>"
    by (auto simp: migrate_service_def Let_def res_simps insert_service_def insert_rootfs_def table_rows_defs
        split: if_splits)
  with Cons.IH [OF d1(2)] show ?case by (simp add: table_rows_defs)
qed (simp add: table_rows_defs)

text \<open>The configuration of a child is read back from the row of its service.\<close>

definition configs_kept :: "(string \<Rightarrow> json option) \<Rightarrow> v2_service list \<Rightarrow> db \<Rightarrow> bool" where
  "configs_kept from_str ws d \<longleftrightarrow> (\<forall>w \<in> set ws. \<forall>r.
     service_row_of (w2_stack w) (w2_name w) d = Some r \<longrightarrow> sv_config r = migrated_config from_str w)"

lemma configs_kept_table:
  "services_tbl d = services_tbl d' \<Longrightarrow> configs_kept from_str ws d = configs_kept from_str ws d'"
  by (simp add: configs_kept_def service_row_of_def)

lemma run_children:
  assumes "snd ` set iws \<subseteq> set ws"
  shows "configs_kept from_str ws d \<Longrightarrow> tx_for iws (migrate_opservice p) d = Inr (u, d') \<Longrightarrow>
    d' = d\<lparr>opservices_tbl := opservices_tbl d @ child_rows from_str p iws\<rparr>"
  using assms
proof (induction iws arbitrary: d)
  case (Cons iw iws)
  then obtain d1 where d1: "migrate_opservice p iw d = Inr ((), d1)" "tx_for iws (migrate_opservice p) d1 = Inr (u, d')"
    by (auto simp: res_simps)
  from d1(1) Cons.prems(1,3) have 1: "d1 = d\<lparr>opservices_tbl := opservices_tbl d @ child_rows from_str p [iw]\<rparr>"
    by (auto simp: migrate_opservice_def res_simps insert_opservice_def table_rows_defs configs_kept_def)
  then have "configs_kept from_str ws d1" using Cons.prems(1) configs_kept_table [of d1 d] by simp
  with Cons.IH [OF _ d1(2)] Cons.prems(3) 1 show ?case by (simp add: table_rows_defs)
qed (simp add: table_rows_defs)

lemma in_set_enumerate: "iw \<in> set (enumerate k ws) \<Longrightarrow> snd iw \<in> set ws"
  by (cases iw) (auto simp: enumerate_eq_zip dest: set_zip_rightD)

lemma children_subset: "snd ` set (children_of ws p) \<subseteq> set ws"
  unfolding children_of_def by (auto dest: in_set_enumerate)

lemma run_operations:
  "configs_kept from_str ws d \<Longrightarrow> tx_for ps (migrate_operation ss ws) d = Inr (u, d') \<Longrightarrow>
   d' = d\<lparr>operations_tbl := operations_tbl d @ map (migrated_operation ss) ps,
          opservices_tbl := opservices_tbl d @ concat (map (\<lambda>p. child_rows from_str p (children_of ws p)) ps)\<rparr>"
proof (induction ps arbitrary: d)
  case (Cons p ps)
  then obtain d1 d2 where d1: "insert_operation (migrated_operation ss p) d = Inr ((), d1)"
    and d2: "tx_for (children_of ws p) (migrate_opservice p) d1 = Inr ((), d2)"
    and d3: "tx_for ps (migrate_operation ss ws) d2 = Inr (u, d')"
    by (auto simp: tx_bind_Inr migrate_operation_def [of ss ws p] children_of_def)
  have 1: "d1 = d\<lparr>operations_tbl := operations_tbl d @ [migrated_operation ss p]\<rparr>"
    using d1 by (simp add: insert_operation_def res_simps)
  then have "configs_kept from_str ws d1" using Cons.prems(1) configs_kept_table [of d1 d] by simp
  from run_children [OF children_subset this d2] have 2:
    "d2 = d1\<lparr>opservices_tbl := opservices_tbl d1 @ child_rows from_str p (children_of ws p)\<rparr>" .
  then have "configs_kept from_str ws d2" using 1 Cons.prems(1) configs_kept_table [of d2 d] by simp
  from Cons.IH [OF this d3] 1 2 show ?case by simp
qed simp

section \<open>The migration in closed form\<close>

lemma configs_kept_migrated:
  assumes "distinct (map (\<lambda>w. (w2_stack w, w2_name w)) ws)"
    and "services_tbl d = service_rows from_str clock ps (enumerate 0 ws)"
  shows "configs_kept from_str ws d"
  unfolding configs_kept_def
proof (intro ballI allI impI)
  fix w r assume w: "w \<in> set ws" and f: "service_row_of (w2_stack w) (w2_name w) d = Some r"
  from f have r: "r \<in> set (services_tbl d)" "sv_key r = (w2_stack w, w2_name w)"
    by (auto simp: service_row_of_def sv_key_def dest!: find_SomeD)
  then obtain iw where iw: "iw \<in> set (enumerate 0 ws)" "r = migrated_service from_str ps (clock (2 * fst iw)) (snd iw)"
    using assms(2) by (auto simp: service_rows_def)
  then have "snd iw \<in> set ws" by (auto dest: in_set_enumerate)
  moreover have "(w2_stack (snd iw), w2_name (snd iw)) = (w2_stack w, w2_name w)" using iw(2) r(2) by simp
  ultimately have "snd iw = w" using assms(1) w by (auto simp: distinct_map dest: inj_onD)
  with iw(2) show "sv_config r = migrated_config from_str w" by simp
qed

lemma sv_keys_rows: "map sv_key (service_rows from_str clock ps (enumerate k ws)) = map (\<lambda>w. (w2_stack w, w2_name w)) ws"
  by (induction ws arbitrary: k) (simp_all add: service_rows_def)

text \<open>Every table while the loops run, by what they have inserted.\<close>

definition tables ::
    "(string \<Rightarrow> json option) \<Rightarrow> (nat \<Rightarrow> int) \<Rightarrow> v2_stack list \<Rightarrow> v2_service list \<Rightarrow> v2_operation list
       \<Rightarrow> v2_stack list \<Rightarrow> numbered \<Rightarrow> numbered \<Rightarrow> v2_operation list \<Rightarrow> opservice_row list \<Rightarrow> db" where
  "tables from_str clock ss ws ps zs iws jws qs oss =
     \<lparr>stacks_tbl = map (migrated_stack ws ps) zs, services_tbl = service_rows from_str clock ps iws,
      rootfs_tbl = rootfs_rows clock ps jws, operations_tbl = map (migrated_operation ss) qs, opservices_tbl = oss\<rparr>"

lemma closed_form:
  assumes "migrate_tables from_str clock ss ws ps empty_db = Inr (u, d)"
  shows "d = migrated_db from_str clock ss ws ps" and "schema_ok d"
proof -
  obtain d1 d2 where 1: "tx_for ss (\<lambda>s. insert_stack (migrated_stack ws ps s)) empty_db = Inr ((), d1)"
    and 2: "tx_for (enumerate 0 ws) (migrate_service from_str clock ps) d1 = Inr ((), d2)"
    and 3: "tx_for ps (migrate_operation ss ws) d2 = Inr (u, d)"
    using assms by (auto simp: migrate_tables_def tx_bind_Inr)
  have keep: "schema.keeps (migrate_service from_str clock ps iw)" "schema.keeps (migrate_opservice p iw)"
    "schema.keeps (migrate_operation ss ws p)" for iw p
    by (auto simp: migrate_service_def migrate_opservice_def migrate_operation_def Let_def
        intro!: schema.keeps_bind schema.keeps_lift schema.keeps_read schema.keeps_when schema.keeps_for)
  have "schema_ok empty_db" by (simp add: empty_db_def constraint_defs)
  then have "schema_ok d1" using schema.keepsD [OF schema.keeps_for 1] by blast
  then have ok2: "schema_ok d2" using schema.keepsD [OF schema.keeps_for 2] keep by blast
  then show "schema_ok d" using schema.keepsD [OF schema.keeps_for 3] keep by blast
  have d2: "d2 = tables from_str clock ss ws ps ss (enumerate 0 ws) (enumerate 0 ws) [] []"
    using run_stacks [OF 1] run_services [OF 2] by (simp add: empty_db_def tables_def)
  then have "distinct (map (\<lambda>w. (w2_stack w, w2_name w)) ws)"
    using ok2 by (simp add: schema_ok_def services_ok_def tables_def sv_keys_rows)
  then have "configs_kept from_str ws d2" by (rule configs_kept_migrated) (simp add: d2 tables_def)
  from run_operations [OF this 3] show "d = migrated_db from_str clock ss ws ps"
    by (simp add: d2 tables_def migrated_db_def)
qed

section \<open>When it succeeds\<close>

text \<open>The keys of the version 2 schema, and the one thing it did not ask for.\<close>

definition v2_keys :: "v2_stack list \<Rightarrow> v2_service list \<Rightarrow> v2_operation list \<Rightarrow> bool" where
  "v2_keys ss ws ps \<longleftrightarrow> distinct (map s2_name ss)
     \<and> distinct (map (\<lambda>w. (w2_stack w, w2_name w)) ws) \<and> list_all (\<lambda>w. w2_stack w \<in> s2_name ` set ss) ws
     \<and> distinct (map w2_alias (filter (\<lambda>w. w2_alias w \<noteq> []) ws)) \<and> distinct (map p2_request ps)"

definition v2_owned :: "v2_stack list \<Rightarrow> v2_operation list \<Rightarrow> bool" where
  "v2_owned ss ps \<longleftrightarrow> list_all (\<lambda>p. p2_stack p \<in> s2_name ` set ss) ps"

definition batch_ok :: "v2_operation list \<Rightarrow> opservice_row list \<Rightarrow> bool" where
  "batch_ok qs oss \<longleftrightarrow> distinct (map (\<lambda>r. (os_request r, os_service r)) oss)
     \<and> distinct (map (\<lambda>r. (os_request r, os_ordinal r)) oss)
     \<and> (\<forall>r \<in> set oss. os_request r \<in> p2_request ` set qs \<and> 0 \<le> os_ordinal r)"

definition wkey :: "nat \<times> v2_service \<Rightarrow> string \<times> string" where
  "wkey iw = (w2_stack (snd iw), w2_name (snd iw))"

lemma tables_ok:
  assumes "distinct (map s2_name zs)" and "distinct (map wkey iws)" and "\<forall>iw \<in> set iws. w2_stack (snd iw) \<in> s2_name ` set zs"
    and "distinct (map wkey jws)" and "set jws \<subseteq> set iws"
    and "distinct (map (w2_alias \<circ> snd) (filter (\<lambda>iw. w2_alias (snd iw) \<noteq> []) jws))"
    and "distinct (map p2_request qs)" and "\<forall>q \<in> set qs. p2_stack q \<in> s2_name ` set zs" and "batch_ok qs oss"
  shows "schema_ok (tables from_str clock ss ws ps zs iws jws qs oss)"
proof -
  have key: "map rg_key (rootfs_rows clock ps jws) = map wkey (filter (\<lambda>iw. w2_alias (snd iw) \<noteq> []) jws)"
    "map rg_id (rootfs_rows clock ps jws) = map (\<lambda>iw. (w2_stack (snd iw), w2_name (snd iw), 1)) (filter (\<lambda>iw. w2_alias (snd iw) \<noteq> []) jws)"
    "map rg_alias (rootfs_rows clock ps jws) = map (w2_alias \<circ> snd) (filter (\<lambda>iw. w2_alias (snd iw) \<noteq> []) jws)"
    "map sv_key (service_rows from_str clock ps iws) = map wkey iws"
    by (simp_all add: table_rows_defs wkey_def comp_def)
  have d: "distinct (map wkey (filter (\<lambda>iw. w2_alias (snd iw) \<noteq> []) jws))"
    using assms(4) by (simp add: distinct_map_filter)
  then have ids: "distinct (map rg_id (rootfs_rows clock ps jws))"
    unfolding key(2) by (auto simp: distinct_map inj_on_def wkey_def)
  have "distinct (map rg_key (rootfs_rows clock ps jws))" using d key(1) by simp
  then have one: "distinct (map rg_key (filter P (rootfs_rows clock ps jws)))" for P by (rule distinct_map_filter)
  have foreign: "rg_key r \<in> sv_key ` set (service_rows from_str clock ps iws)" if "r \<in> set (rootfs_rows clock ps jws)" for r
  proof -
    from that have "rg_key r \<in> wkey ` set iws" using assms(5) by (force simp: table_rows_defs wkey_def)
    with key(4) show ?thesis by (metis set_map)
  qed
  let ?d = "tables from_str clock ss ws ps zs iws jws qs oss"
  have "stacks_ok ?d" using assms(1) by (simp add: stacks_ok_def tables_def comp_def)
  moreover have "distinct (map sv_key (service_rows from_str clock ps iws))" using assms(2) key(4) by simp
  then have "services_ok ?d" using assms(3)
    by (auto simp: services_ok_def tables_def image_image) (auto simp: service_rows_def)
  moreover have "distinct (map rg_alias (rootfs_rows clock ps jws))" using assms(6) key(3) by simp
  then have "rootfs_ok ?d" using ids one foreign
    by (auto simp: rootfs_ok_def tables_def) (auto simp: rootfs_rows_def split: if_splits)
  moreover have "filter (\<lambda>r. op_outcome r = None) (map (migrated_operation ss) qs) = []"
    by (simp add: filter_empty_conv del: not_None_eq)
  then have "operations_ok ?d" using assms(7,8)
    by (auto simp: operations_ok_def tables_def comp_def image_image)
  moreover have "opservices_ok ?d" using assms(9)
    by (auto simp: opservices_ok_def tables_def batch_ok_def image_image)
  ultimately show ?thesis by (simp add: schema_ok_def)
qed

lemma distinct_prefix: "distinct (map k (xs @ ys)) \<Longrightarrow> distinct (map k xs)"
  by simp

lemma wkeys_enumerate: "map wkey (enumerate k ws) = map (\<lambda>w. (w2_stack w, w2_name w)) ws"
  by (induction ws arbitrary: k) (simp_all add: wkey_def)

lemma aliases_enumerate:
  "map (w2_alias \<circ> snd) (filter (\<lambda>iw. w2_alias (snd iw) \<noteq> []) (enumerate k ws)) =
   map w2_alias (filter (\<lambda>w. w2_alias w \<noteq> []) ws)"
  by (induction ws arbitrary: k) simp_all

lemma stacks_run:
  "v2_keys ss ws ps \<Longrightarrow> ss = zs @ ys \<Longrightarrow>
   tx_for ys (\<lambda>s. insert_stack (migrated_stack ws ps s)) (tables from_str clock ss ws ps zs [] [] [] [])
   = Inr ((), tables from_str clock ss ws ps ss [] [] [] [])"
proof (induction ys arbitrary: zs)
  case (Cons s ys)
  have "distinct (map s2_name (zs @ [s]))" using Cons.prems by (simp add: v2_keys_def)
  then have "schema_ok (tables from_str clock ss ws ps (zs @ [s]) [] [] [] [])"
    by (rule tables_ok) (simp_all add: batch_ok_def)
  then have "insert_stack (migrated_stack ws ps s) (tables from_str clock ss ws ps zs [] [] [] [])
      = Inr ((), tables from_str clock ss ws ps (zs @ [s]) [] [] [] [])"
    by (simp add: insert_stack_def res_simps tables_def)
  with Cons.IH [of "zs @ [s]"] Cons.prems show ?case by (simp add: tx_bind_def)
qed simp

lemma services_ok_prefix:
  assumes "v2_keys ss ws ps" and "enumerate 0 ws = zws @ yws" and "set jws \<subseteq> set zws" and "distinct jws"
  shows "schema_ok (tables from_str clock ss ws ps ss zws jws [] [])"
proof -
  have keys: "distinct (map wkey (zws @ yws))"
    using assms(1) by (simp only: assms(2) [symmetric] wkeys_enumerate v2_keys_def)
  have als: "distinct (map (w2_alias \<circ> snd) (filter (\<lambda>iw. w2_alias (snd iw) \<noteq> []) (zws @ yws)))"
    using assms(1) by (simp only: assms(2) [symmetric] aliases_enumerate v2_keys_def)
  have inj: "inj_on wkey (set jws)" "inj_on (w2_alias \<circ> snd) {iw \<in> set jws. w2_alias (snd iw) \<noteq> []}"
    using keys als assms(3) by (auto simp: distinct_map intro: inj_on_subset)
  show ?thesis
  proof (rule tables_ok)
    show "distinct (map wkey zws)" using keys by simp
    show "\<forall>iw \<in> set zws. w2_stack (snd iw) \<in> s2_name ` set ss"
    proof
      fix iw assume "iw \<in> set zws"
      then have "snd iw \<in> set ws" by (intro in_set_enumerate [of iw 0 ws]) (simp add: assms(2))
      with assms(1) show "w2_stack (snd iw) \<in> s2_name ` set ss" by (simp add: v2_keys_def list_all_iff)
    qed
    show "distinct (map wkey jws)" using inj(1) assms(4) by (simp add: distinct_map)
    show "distinct (map (w2_alias \<circ> snd) (filter (\<lambda>iw. w2_alias (snd iw) \<noteq> []) jws))"
      using inj(2) assms(4) by (simp add: distinct_map)
  qed (use assms in \<open>simp_all add: v2_keys_def batch_ok_def\<close>)
qed

lemma services_run:
  assumes keys: "v2_keys ss ws ps" and clock: "\<And>i. 0 \<le> clock i \<and> clock i < 2 ^ 63"
  shows "enumerate 0 ws = zws @ yws \<Longrightarrow>
    tx_for yws (migrate_service from_str clock ps) (tables from_str clock ss ws ps ss zws zws [] [])
    = Inr ((), tables from_str clock ss ws ps ss (enumerate 0 ws) (enumerate 0 ws) [] [])"
proof (induction yws arbitrary: zws)
  case (Cons iw yws)
  let ?T = "\<lambda>zws jws. tables from_str clock ss ws ps ss zws jws [] []"
  have "distinct (zws @ iw # yws)" using Cons.prems distinct_enumerate [of 0 ws] by simp
  then have d: "distinct zws" "distinct (zws @ [iw])" by auto
  have ok: "schema_ok (?T (zws @ [iw]) zws)" "schema_ok (?T (zws @ [iw]) (zws @ [iw]))"
    by (rule services_ok_prefix [OF keys, of _ yws]; use Cons.prems d in auto)+
  have now: "unix_time (clock i) = Inr (clock i)" for i using clock [of i] by (simp add: res_simps)
  have 1: "insert_service (migrated_service from_str ps (clock (2 * fst iw)) (snd iw)) (?T zws zws) = Inr ((), ?T (zws @ [iw]) zws)"
    using ok(1) by (simp add: insert_service_def res_simps tables_def service_rows_def)
  have 2: "insert_rootfs (migrated_rootfs ps (clock (2 * fst iw + 1)) (snd iw)) (?T (zws @ [iw]) zws)
      = Inr ((), ?T (zws @ [iw]) (zws @ [iw]))" if "w2_alias (snd iw) \<noteq> []"
    using ok(2) that by (simp add: insert_rootfs_def res_simps tables_def rootfs_rows_def)
  have 3: "?T (zws @ [iw]) (zws @ [iw]) = ?T (zws @ [iw]) zws" if "w2_alias (snd iw) = []"
    using that by (simp add: tables_def rootfs_rows_def)
  have "migrate_service from_str clock ps iw (?T zws zws) = Inr ((), ?T (zws @ [iw]) (zws @ [iw]))"
    using 1 2 3 now by (simp add: migrate_service_def Let_def tx_bind_def tx_lift_def tx_when_def)
  with Cons.IH [of "zws @ [iw]"] Cons.prems show ?case by (simp add: tx_bind_def)
qed simp

section \<open>Operations\<close>

lemma children_extend:
  assumes "batch_ok qs oss" and "p2_request p \<notin> p2_request ` set qs"
    and "distinct (map (\<lambda>iw. w2_name (snd iw)) zws)" and "distinct (map fst zws)"
  shows "batch_ok (qs @ [p]) (oss @ child_rows from_str p zws)"
proof -
  have k: "map (\<lambda>r. (os_request r, os_service r)) (child_rows from_str p zws) = map (Pair (p2_request p)) (map (\<lambda>iw. w2_name (snd iw)) zws)"
    "map (\<lambda>r. (os_request r, os_ordinal r)) (child_rows from_str p zws) = map (Pair (p2_request p) \<circ> int) (map fst zws)"
    "\<forall>r \<in> set (child_rows from_str p zws). os_request r = p2_request p \<and> 0 \<le> os_ordinal r"
    by (auto simp: child_rows_def)
  have "distinct (map (Pair (p2_request p)) (map (\<lambda>iw. w2_name (snd iw)) zws))"
    "distinct (map (Pair (p2_request p) \<circ> int) (map fst zws))"
    using assms(3,4) by (auto simp: distinct_map inj_on_def)
  then have d: "distinct (map (\<lambda>r. (os_request r, os_service r)) (child_rows from_str p zws))"
    "distinct (map (\<lambda>r. (os_request r, os_ordinal r)) (child_rows from_str p zws))" using k(1,2) by simp_all
  have apart: "os_request r \<noteq> os_request r'" if "r \<in> set oss" "r' \<in> set (child_rows from_str p zws)" for r r'
    using that k(3) assms(1,2) unfolding batch_ok_def by (metis imageE)
  have "distinct (map (\<lambda>r. (os_request r, os_service r)) (oss @ child_rows from_str p zws))"
    "distinct (map (\<lambda>r. (os_request r, os_ordinal r)) (oss @ child_rows from_str p zws))"
    using assms(1) d apart by (auto simp: batch_ok_def)
  moreover have "\<forall>r \<in> set (oss @ child_rows from_str p zws). os_request r \<in> p2_request ` set (qs @ [p]) \<and> 0 \<le> os_ordinal r"
    using assms(1) k(3) by (auto simp: batch_ok_def)
  ultimately show ?thesis unfolding batch_ok_def by blast
qed

lemma children_keys:
  assumes "distinct (map (\<lambda>w. (w2_stack w, w2_name w)) ws)"
  shows "distinct (map (\<lambda>iw. w2_name (snd iw)) (children_of ws p))" and "distinct (map fst (children_of ws p))"
proof -
  have names_of: "map (\<lambda>iw. w2_name (snd iw)) (enumerate k vs) = map w2_name vs" for k vs
    by (induction vs arbitrary: k) simp_all
  have "distinct (map w2_name (filter (\<lambda>w. w2_stack w = p2_stack p) ws))"
    using assms by (auto simp: distinct_map inj_on_def)
  then show "distinct (map (\<lambda>iw. w2_name (snd iw)) (children_of ws p))"
    unfolding children_of_def names_of .
  show "distinct (map fst (children_of ws p))" by (simp add: children_of_def)
qed

lemma operations_tables_ok:
  assumes "v2_keys ss ws ps" and "v2_owned ss ps" and "set qs \<subseteq> set ps" and "distinct (map p2_request qs)"
    and "batch_ok qs oss"
  shows "schema_ok (tables from_str clock ss ws ps ss (enumerate 0 ws) (enumerate 0 ws) qs oss)"
proof (rule tables_ok)
  show "\<forall>iw \<in> set (enumerate 0 ws). w2_stack (snd iw) \<in> s2_name ` set ss"
    using assms(1) in_set_enumerate by (fastforce simp: v2_keys_def list_all_iff)
qed (use assms in \<open>auto simp: v2_keys_def v2_owned_def list_all_iff wkeys_enumerate aliases_enumerate\<close>)

lemma children_run:
  assumes keys: "v2_keys ss ws ps" "v2_owned ss ps" and qs: "set (qs @ [p]) \<subseteq> set ps" "distinct (map p2_request (qs @ [p]))"
    and ok: "batch_ok qs oss"
  shows "children_of ws p = zws @ yws \<Longrightarrow>
    tx_for yws (migrate_opservice p)
      (tables from_str clock ss ws ps ss (enumerate 0 ws) (enumerate 0 ws) (qs @ [p]) (oss @ child_rows from_str p zws))
    = Inr ((), tables from_str clock ss ws ps ss (enumerate 0 ws) (enumerate 0 ws) (qs @ [p]) (oss @ child_rows from_str p (children_of ws p)))"
proof (induction yws arbitrary: zws)
  case (Cons iw yws)
  let ?T = "\<lambda>zws. tables from_str clock ss ws ps ss (enumerate 0 ws) (enumerate 0 ws) (qs @ [p]) (oss @ child_rows from_str p zws)"
  have dk: "distinct (map (\<lambda>w. (w2_stack w, w2_name w)) ws)" using keys(1) by (simp add: v2_keys_def)
  from children_keys [OF dk, of p] have "distinct (map (\<lambda>iw. w2_name (snd iw)) (zws @ [iw]))" "distinct (map fst (zws @ [iw]))"
    by (simp_all add: Cons.prems)
  from children_extend [OF ok _ this] qs(2) have "batch_ok (qs @ [p]) (oss @ child_rows from_str p (zws @ [iw]))" by simp
  then have ok': "schema_ok (?T (zws @ [iw]))" by (rule operations_tables_ok [OF keys qs])
  have "iw \<in> set (children_of ws p)" by (simp add: Cons.prems)
  then have w: "snd iw \<in> set ws" using children_subset by blast
  have "(w2_stack (snd iw), w2_name (snd iw)) \<in> sv_key ` set (services_tbl (?T zws))"
    using w unfolding tables_def db.simps set_map [symmetric] sv_keys_rows by auto
  then obtain r where r: "service_row_of (w2_stack (snd iw)) (w2_name (snd iw)) (?T zws) = Some r"
    by (cases "service_row_of (w2_stack (snd iw)) (w2_name (snd iw)) (?T zws)")
      (auto simp: service_row_of_def find_None_iff sv_key_def)
  have "configs_kept from_str ws (?T zws)" by (rule configs_kept_migrated [OF dk]) (simp add: tables_def)
  then have "sv_config r = migrated_config from_str (snd iw)" using w r by (simp add: configs_kept_def)
  with r have "migrate_opservice p iw (?T zws)
      = insert_opservice (migrated_opservice p (migrated_config from_str (snd iw)) iw) (?T zws)"
    by (simp add: migrate_opservice_def tx_bind_def tx_read_def ok_or_def)
  also have "\<dots> = Inr ((), ?T (zws @ [iw]))" using ok' by (simp add: insert_opservice_def res_simps tables_def child_rows_def)
  finally show ?case using Cons.IH [of "zws @ [iw]"] Cons.prems by (simp add: tx_bind_def)
qed simp

lemma operations_run:
  assumes keys: "v2_keys ss ws ps" "v2_owned ss ps"
  shows "ps = qs @ rs \<Longrightarrow> batch_ok qs oss \<Longrightarrow>
    tx_for rs (migrate_operation ss ws) (tables from_str clock ss ws ps ss (enumerate 0 ws) (enumerate 0 ws) qs oss)
    = Inr ((), tables from_str clock ss ws ps ss (enumerate 0 ws) (enumerate 0 ws) ps
        (oss @ concat (map (\<lambda>p. child_rows from_str p (children_of ws p)) rs)))"
proof (induction rs arbitrary: qs oss)
  case (Cons p rs)
  let ?T = "tables from_str clock ss ws ps ss (enumerate 0 ws) (enumerate 0 ws)"
  have dk: "distinct (map (\<lambda>w. (w2_stack w, w2_name w)) ws)" using keys(1) by (simp add: v2_keys_def)
  have qs: "set (qs @ [p]) \<subseteq> set ps" "distinct (map p2_request (qs @ [p]))"
    using Cons.prems(1) keys(1) by (auto simp: v2_keys_def)
  then have fresh: "p2_request p \<notin> p2_request ` set qs" by simp
  have "batch_ok (qs @ [p]) (oss @ child_rows from_str p [])"
    by (rule children_extend [OF Cons.prems(2) fresh]) simp_all
  then have "batch_ok (qs @ [p]) oss" by (simp add: child_rows_def)
  then have "schema_ok (?T (qs @ [p]) oss)" by (rule operations_tables_ok [OF keys qs])
  then have 1: "insert_operation (migrated_operation ss p) (?T qs oss) = Inr ((), ?T (qs @ [p]) (oss @ child_rows from_str p []))"
    by (simp add: insert_operation_def res_simps tables_def child_rows_def)
  have 2: "tx_for (children_of ws p) (migrate_opservice p) (?T (qs @ [p]) (oss @ child_rows from_str p []))
      = Inr ((), ?T (qs @ [p]) (oss @ child_rows from_str p (children_of ws p)))"
    by (rule children_run [OF keys qs Cons.prems(2)]) simp
  have "migrate_operation ss ws p (?T qs oss) = Inr ((), ?T (qs @ [p]) (oss @ child_rows from_str p (children_of ws p)))"
    using 1 2 by (simp add: migrate_operation_def tx_bind_def children_of_def)
  moreover have "batch_ok (qs @ [p]) (oss @ child_rows from_str p (children_of ws p))"
    by (rule children_extend [OF Cons.prems(2) fresh children_keys [OF dk]])
  ultimately show ?case using Cons.IH [of "qs @ [p]"] Cons.prems(1) by (simp add: tx_bind_def)
qed simp

lemma migration_succeeds:
  assumes "v2_keys ss ws ps" and "v2_owned ss ps" and clock: "\<And>i. 0 \<le> clock i \<and> clock i < 2 ^ 63"
  shows "migrate_tables from_str clock ss ws ps empty_db = Inr ((), migrated_db from_str clock ss ws ps)"
proof -
  have e: "empty_db = tables from_str clock ss ws ps [] [] [] [] []"
    by (simp add: empty_db_def tables_def table_rows_defs)
  have m: "migrated_db from_str clock ss ws ps = tables from_str clock ss ws ps ss (enumerate 0 ws) (enumerate 0 ws) ps
      ([] @ concat (map (\<lambda>p. child_rows from_str p (children_of ws p)) ps))"
    by (simp add: migrated_db_def tables_def)
  show ?thesis
    using stacks_run [OF assms(1), of "[]"] services_run [OF assms(1) clock, of "[]"]
      operations_run [OF assms(1,2), of "[]" ps "[]"]
    unfolding migrate_tables_def e m by (simp add: tx_bind_def batch_ok_def)
qed

section \<open>Claims of the migrated journal\<close>

lemma set_sort_key_filter [simp]:
  "set (load_v2_stacks v) = set (v2_stacks v)" "set (load_v2_services v) = set (v2_services v)"
  "set (load_v2_operations v) = set (v2_operations v)"
  by (simp_all add: load_v2_stacks_def load_v2_services_def load_v2_operations_def)

text \<open>What version 2 must record of a service for its rootfs to become the current one.\<close>

definition proven_installed :: "v2_db \<Rightarrow> string \<times> string \<Rightarrow> string \<Rightarrow> bool" where
  "proven_installed v key a \<longleftrightarrow>
     list_ex (\<lambda>w. (w2_stack w, w2_name w) = key \<and> w2_alias w = a \<and> w2_rootfs w = ''installed''
       \<and> w2_observed w \<in> {''stopped'', ''failed''}) (v2_services v)
     \<and> list_ex (\<lambda>p. p2_stack p = fst key \<and> p2_operation p = ''up'' \<and> p2_outcome p = Some ''success'') (v2_operations v)
     \<and> list_all (\<lambda>p. p2_stack p \<noteq> fst key \<or> p2_outcome p \<noteq> None) (v2_operations v)"

text \<open>A service of the new journal: no process, no restart, a rootfs only on proof.\<close>

definition claims_little :: "v2_db \<Rightarrow> service_row \<Rightarrow> bool" where
  "claims_little v r \<longleftrightarrow> sv_session r = None \<and> sv_pid r = None \<and> sv_starttime r = None \<and> sv_boot r = None
     \<and> sv_next r = None \<and> sv_attempts r = 0
     \<and> sv_observed r \<notin> {''preparing'', ''starting'', ''running'', ''stopping''}
     \<and> (case sv_alias r of None \<Rightarrow> True | Some a \<Rightarrow> proven_installed v (sv_key r) a)"

text \<open>An operation of the new journal: finished, as version 2 had it or as a failure.\<close>

definition outcome_kept :: "v2_operation \<Rightarrow> operation_row \<Rightarrow> bool" where
  "outcome_kept p r \<longleftrightarrow> op_request r = p2_request p \<and> op_stack r = p2_stack p \<and> op_response r = p2_response p
     \<and> (case p2_outcome p of
          Some x \<Rightarrow> op_outcome r = Some x \<and> op_phase r = p2_phase p
        | None \<Rightarrow> op_outcome r = Some ''failure'' \<and> op_error_code r = Some ''migration_unknown'')"

definition stack_kept :: "v2_db \<Rightarrow> v2_stack \<Rightarrow> stack_row \<Rightarrow> bool" where
  "stack_kept v s r \<longleftrightarrow> sk_name r = s2_name s
     \<and> (if list_ex (\<lambda>p. p2_stack p = s2_name s \<and> p2_operation p = ''up'' \<and> p2_outcome p = Some ''success'') (v2_operations v)
        then sk_revision r = 1 \<and> sk_manifest r = s2_manifest s else sk_revision r = 0 \<and> sk_manifest r = [])
     \<and> (sk_observed r = ''unknown'' \<or> sk_observed r = s2_observed s)"

lemma successful_up_iff:
  "x \<in> set (successful_up ps) \<longleftrightarrow> list_ex (\<lambda>p. p2_stack p = x \<and> p2_operation p = ''up'' \<and> p2_outcome p = Some ''success'') ps"
  by (auto simp: successful_up_def list_ex_iff)

lemma incomplete_iff: "x \<notin> set (incomplete_stacks ps) \<longleftrightarrow> list_all (\<lambda>p. p2_stack p \<noteq> x \<or> p2_outcome p \<noteq> None) ps"
  by (auto simp: incomplete_stacks_def list_all_iff simp del: not_None_eq)

lemma list_ex_set: "set xs = set ys \<Longrightarrow> list_ex P xs = list_ex P ys"
  by (simp add: list_ex_iff)

lemma list_all_set: "set xs = set ys \<Longrightarrow> list_all P xs = list_all P ys"
  by (simp add: list_all_iff)

lemma service_claims:
  assumes "w \<in> set (v2_services v)"
  shows "claims_little v (migrated_service from_str (load_v2_operations v) now w)"
proof -
  let ?ps = "load_v2_operations v"
  have "proven_installed v (w2_stack w, w2_name w) (w2_alias w)" if "known_current ?ps w"
    using that assms list_ex_set [of ?ps "v2_operations v"] list_all_set [of ?ps "v2_operations v"]
    by (auto simp: proven_installed_def known_current_def ambiguous_in_def successful_up_iff incomplete_iff list_ex_iff)
  moreover have "(if ambiguous_in ?ps w then ''unknown'' else w2_observed w) \<notin> {''preparing'', ''starting'', ''running'', ''stopping''}"
    by (auto simp: ambiguous_in_def ambiguous_service_def)
  ultimately show ?thesis by (auto simp: claims_little_def migrated_service_def Let_def sv_key_def)
qed

lemma list_all2_map_sorted: "(\<And>x. x \<in> set xs \<Longrightarrow> Q x (f x)) \<Longrightarrow> list_all2 Q xs (map f xs)"
  by (simp add: list_all2_conv_all_nth)

lemma stack_kept_migrated:
  "stack_kept v s (migrated_stack ws (load_v2_operations v) s)"
  using list_ex_set [of "load_v2_operations v" "v2_operations v"]
  by (simp add: stack_kept_def migrated_stack_def Let_def successful_up_iff)

lemma outcome_kept_migrated: "outcome_kept p (migrated_operation ss p)"
  by (auto simp: outcome_kept_def migrated_operation_def Let_def split: option.split)


text \<open>
  Claim C29. Under the keys of the version 2 schema and a clock in range, the migration succeeds
  exactly when the stack of every operation has a row, which version 2 did not ask for; an
  operation without one makes the whole migration fail.
\<close>

theorem migration_exact:
  assumes "v2_keys (load_v2_stacks v) (load_v2_services v) (load_v2_operations v)"
    and "\<And>i. 0 \<le> clock i \<and> clock i < 2 ^ 63"
  shows "(\<exists>d. migrate_v2_to_v3 from_str clock v = Inr d) \<longleftrightarrow> v2_owned (v2_stacks v) (v2_operations v)"
proof -
  let ?ss = "load_v2_stacks v" and ?ws = "load_v2_services v" and ?ps = "load_v2_operations v"
  have owned: "v2_owned ?ss ?ps = v2_owned (v2_stacks v) (v2_operations v)"
    by (simp add: v2_owned_def list_all_iff)
  show ?thesis
  proof
    assume "\<exists>d. migrate_v2_to_v3 from_str clock v = Inr d"
    then obtain d where run: "migrate_tables from_str clock ?ss ?ws ?ps empty_db = Inr ((), d)"
      by (auto simp: migrate_v2_to_v3_def res_simps)
    from closed_form(2) [OF run] have "operations_ok d" by (simp add: schema_ok_def)
    then have "v2_owned ?ss ?ps"
      by (auto simp: closed_form(1) [OF run] operations_ok_def migrated_db_def v2_owned_def list_all_iff image_image)
    then show "v2_owned (v2_stacks v) (v2_operations v)" by (simp add: owned)
  next
    assume "v2_owned (v2_stacks v) (v2_operations v)"
    then show "\<exists>d. migrate_v2_to_v3 from_str clock v = Inr d"
      using migration_succeeds [OF assms(1) _ assms(2)] by (simp add: migrate_v2_to_v3_def owned)
  qed
qed

text \<open>A journal of version 2 with an idle stack and one that was running.\<close>

definition sample_v2 :: v2_db where
  "sample_v2 = \<lparr>
     v2_stacks = [\<lparr>s2_name = ''idle'', s2_desired = ''stopped'', s2_observed = ''stopped'', s2_manifest = ''m'',
                   s2_created = 1, s2_updated = 2\<rparr>,
                  \<lparr>s2_name = ''busy'', s2_desired = ''running'', s2_observed = ''running'', s2_manifest = ''n'',
                   s2_created = 1, s2_updated = 2\<rparr>],
     v2_services = [\<lparr>w2_stack = ''idle'', w2_name = ''app'', w2_image = ''alpine'', w2_command = ''null'', w2_alias = ''a1'',
                     w2_observed = ''stopped'', w2_rootfs = ''installed'', w2_exit = Some 0, w2_stdout = ''o'', w2_stderr = ''e''\<rparr>,
                    \<lparr>w2_stack = ''busy'', w2_name = ''app'', w2_image = ''alpine'', w2_command = ''null'', w2_alias = ''a2'',
                     w2_observed = ''running'', w2_rootfs = ''installed'', w2_exit = None, w2_stdout = ''o'', w2_stderr = ''e''\<rparr>],
     v2_operations = [\<lparr>p2_request = ''r1'', p2_stack = ''idle'', p2_operation = ''up'', p2_phase = ''committed'',
                       p2_outcome = Some ''success'', p2_error_code = None, p2_error_message = None,
                       p2_response = None, p2_created = 1, p2_updated = 1\<rparr>,
                      \<lparr>p2_request = ''r2'', p2_stack = ''busy'', p2_operation = ''up'', p2_phase = ''starting'',
                       p2_outcome = None, p2_error_code = None, p2_error_message = None,
                       p2_response = None, p2_created = 1, p2_updated = 1\<rparr>]\<rparr>"

lemma migration_exact_witness:
  "\<exists>d. migrate_v2_to_v3 (\<lambda>_. None) (\<lambda>_. 1000) sample_v2 = Inr d"
  by (subst migration_exact) (auto simp: v2_keys_def v2_owned_def sample_v2_def load_v2_stacks_def load_v2_services_def
      load_v2_operations_def)

section \<open>Opening\<close>

definition private_file :: "string \<Rightarrow> fs \<Rightarrow> bool" where
  "private_file p f \<longleftrightarrow> (case symlink_metadata f p of Inr (Regular mode) \<Rightarrow> mode AND 63 = 0 | _ \<Rightarrow> False)"

text \<open>What an attempt may leave in the file: what was there, a new empty file, or a finished journal.\<close>

definition whole :: "open_env \<Rightarrow> string \<Rightarrow> fs \<times> content \<Rightarrow> content \<Rightarrow> bool" where
  "whole oe p fc c' \<longleftrightarrow>
     (let start = (if fs_node (fst fc) p = None then Blank else snd fc) in
      c' = snd fc \<or> c' = start \<or> upgrade oe start = Inr c')"

lemma and63: "x AND 63 = x mod (64::nat)"
  using take_bit_eq_mask [of 6 x] by (simp add: take_bit_eq_mod mask_eq_exp_minus_1)

lemma and127: "x AND 127 = x mod (128::nat)"
  using take_bit_eq_mask [of 7 x] by (simp add: take_bit_eq_mod mask_eq_exp_minus_1)

lemma masked_mode: "(384 - (384 AND m)) AND 63 = (0::nat)"
proof -
  have "(384 AND m) AND 127 = (m AND (384 AND 127))" by (simp only: ac_simps)
  then have "(384 AND m) mod 128 = 0" by (simp add: and127)
  then obtain k where "384 AND m = 128 * k" by auto
  then have "384 - (384 AND m) = 64 * (6 - 2 * k)" by (simp add: diff_mult_distrib2)
  then show ?thesis by (simp add: and63)
qed

lemma prepared:
  assumes "prepare_database_file p fc = Inr (f, c)"
  shows "private_file p f" and "c = (if fs_node (fst fc) p = None then Blank else snd fc)"
proof -
  have "private_file p f \<and> c = (if fs_node (fst fc) p = None then Blank else snd fc)"
  proof (cases "symlink_metadata (fst fc) p")
    case (Inl x)
    with assms obtain "create_file 384 p (fst fc) = Inr f" "c = Blank"
      by (auto simp: prepare_database_file_def res_simps)
    then show ?thesis
      by (auto simp: create_file_def private_file_def symlink_metadata_def masked_mode split: option.splits)
  next
    case (Inr n)
    then have "fs_node (fst fc) p = Some n" by (auto simp: symlink_metadata_def split: option.splits)
    with assms Inr show ?thesis
      by (auto simp: prepare_database_file_def private_file_def split: inode.splits if_splits)
  qed
  then show "private_file p f" and "c = (if fs_node (fst fc) p = None then Blank else snd fc)" by simp_all
qed

lemma prepared_again: "private_file p f \<Longrightarrow> prepare_database_file p (f, c) = Inr (f, c)"
  by (auto simp: prepare_database_file_def private_file_def split: sum.splits inode.splits)

lemma upgraded_once: "upgrade oe c = Inr c' \<Longrightarrow> upgrade oe c' = Inr c'"
  by (auto simp: upgrade_def initialize_schema_def res_simps split: content.splits)

lemma upgraded_version: "upgrade oe c = Inr c' \<Longrightarrow> \<exists>installation d. c' = Version_3 installation d"
  by (auto simp: upgrade_def initialize_schema_def res_simps split: content.splits)

text \<open>
  Claim C28. Opening the journal is repeatable and never leaves it half migrated: when it
  succeeds, the file is a private regular file of the current version that holds the identifier
  and the database returned, and opening it again returns the same and changes nothing; when it
  fails, the file is as it was, or new and empty, or completely migrated.
\<close>

theorem open_store_repeatable:
  "case open_store oe p fc of
     (Inl _, (f', c')) \<Rightarrow> whole oe p fc c'
   | (Inr (installation, d), (f', c')) \<Rightarrow> whole oe p fc c' \<and> private_file p f' \<and> c' = Version_3 installation d
       \<and> open_store oe p (f', c') = (Inr (installation, d), (f', c'))"
proof (cases "prepare_database_file p fc")
  case (Inl x)
  then show ?thesis by (simp add: open_store_def whole_def Let_def split: prod.split)
next
  case (Inr fc1)
  obtain f c where fc1: "fc1 = (f, c)" by fastforce
  note ready = prepared [OF Inr [unfolded fc1]]
  let ?run = "\<lambda>c. andthen (oe_open oe) (\<lambda>_. if user_version c \<notin> {0, 2, 3} then Inl (Schema (user_version c))
                else andthen (oe_pragmas oe) (\<lambda>_. upgrade oe c))"
  have o: "open_store oe p fc = (case ?run c of Inl x \<Rightarrow> (Inl x, (f, c))
      | Inr c' \<Rightarrow> (andthen (oe_limit oe) (\<lambda>_. read_installation c'), (f, c')))"
    by (simp add: open_store_def Inr fc1)
  show ?thesis
  proof (cases "?run c")
    case (Inl x)
    then show ?thesis using ready(2) by (simp add: o whole_def Let_def)
  next
    case (Inr c')
    then have parts: "oe_open oe = Inr ()" "oe_pragmas oe = Inr ()" "upgrade oe c = Inr c'"
      by (auto simp: res_simps split: if_splits)
    then obtain installation d where c': "c' = Version_3 installation d" using upgraded_version by blast
    have w: "whole oe p fc c'" using parts(3) ready(2) by (simp add: whole_def Let_def)
    have one: "open_store oe p fc = (andthen (oe_limit oe) (\<lambda>_. read_installation c'), (f, c'))"
      by (simp only: o Inr sum.case)
    have "open_store oe p (f, c') = (andthen (oe_limit oe) (\<lambda>_. read_installation c'), (f, c'))"
      using parts upgraded_once [OF parts(3)] by (simp add: open_store_def prepared_again [OF ready(1)] c')
    with w ready(1) show ?thesis
      by (cases "oe_limit oe") (simp_all add: one c' read_installation_def)
  qed
qed

text \<open>A journal that was new or migrated meets the constraints of the schema.\<close>

lemma opened_schema:
  assumes "open_store oe p (f, c) = (Inr (installation, d), fc)"
  shows "case c of Version_3 _ _ \<Rightarrow> True | _ \<Rightarrow> schema_ok d"
proof -
  obtain f1 c1 where prepare: "prepare_database_file p (f, c) = Inr (f1, c1)"
    and up: "upgrade oe c1 = Inr (Version_3 installation d)"
    using assms by (auto simp: open_store_def read_installation_def res_simps split: sum.splits prod.splits if_splits content.splits)
  have "c1 = c \<or> c1 = Blank" using prepared(2) [OF prepare] by (simp split: if_splits)
  moreover have "schema_ok empty_db" by (simp add: empty_db_def constraint_defs)
  moreover have "schema_ok d" if "migrate_v2_to_v3 (oe_json oe) (oe_clock oe) v = Inr d" for v
    using that closed_form(2) by (auto simp: migrate_v2_to_v3_def res_simps)
  ultimately show ?thesis using up
    by (auto simp: upgrade_def initialize_schema_def res_simps split: content.splits)
qed

end
