(* ===== verification/Engine.thy ===== *)
theory Engine
  imports Manifest_Text
begin

text \<open>
  The container engine as the daemon uses it (\<^verbatim>\<open>src/engine.rs\<close>): the command lines passed to
  \<^verbatim>\<open>proot-distro\<close>, the reading of its output, and the identity of a process as \<^verbatim>\<open>/proc\<close> shows it.
  The engine itself and \<^verbatim>\<open>/proc\<close> are parameters: a function from an invocation to the outcome
  of running it, and a function from a path to the contents of a file.
\<close>

section \<open>Text\<close>

text \<open>\<^verbatim>\<open>str::lines\<close>: a final newline ends the last line, and a carriage return before a newline is dropped.\<close>

definition strip_cr :: "string \<Rightarrow> string" where
  "strip_cr s = (if s \<noteq> [] \<and> last s = CHR 0x0D then butlast s else s)"

definition str_lines :: "string \<Rightarrow> string list" where
  "str_lines s =
     (let ws = split_at CHR 0x0A s in
      map strip_cr (butlast ws) @ (if last ws = [] then [] else [last ws]))"

text \<open>\<^verbatim>\<open>str::trim\<close>: the characters with the Unicode property White_Space, in UTF-8.\<close>

definition WHITESPACE :: "string list" where
  "WHITESPACE =
     [[CHR 0x09], [CHR 0x0A], [CHR 0x0B], [CHR 0x0C], [CHR 0x0D], [CHR 0x20], [CHR 0xC2, CHR 0x85], [CHR 0xC2, CHR 0xA0],
      [CHR 0xE1, CHR 0x9A, CHR 0x80], [CHR 0xE2, CHR 0x80, CHR 0xA8], [CHR 0xE2, CHR 0x80, CHR 0xA9],
      [CHR 0xE2, CHR 0x80, CHR 0xAF], [CHR 0xE2, CHR 0x81, CHR 0x9F], [CHR 0xE3, CHR 0x80, CHR 0x80]]
     @ map (\<lambda>n. [CHR 0xE2, CHR 0x80, char_of (128 + n :: nat)]) [0..<11]"

function strip_any :: "string list \<Rightarrow> string \<Rightarrow> string" where
  "strip_any ws s =
     (case find (\<lambda>w. w \<noteq> [] \<and> starts_with w s) ws of
        None \<Rightarrow> s
      | Some w \<Rightarrow> strip_any ws (drop (length w) s))"
  by pat_completeness auto
termination
  by (relation "measure (\<lambda>(ws, s). length s)")
    (auto simp: find_Some_iff starts_with_iff)

declare strip_any.simps [simp del]

definition trim :: "string \<Rightarrow> string" where
  "trim s = rev (strip_any (map rev WHITESPACE) (rev (strip_any WHITESPACE s)))"

text \<open>\<^verbatim>\<open>str::split_ascii_whitespace\<close>.\<close>

definition ascii_whitespace :: "char \<Rightarrow> bool" where
  "ascii_whitespace c \<longleftrightarrow> c \<in> {CHR 0x20, CHR 0x09, CHR 0x0A, CHR 0x0C, CHR 0x0D}"

definition split_whitespace :: "string \<Rightarrow> string list" where
  "split_whitespace s =
     filter (\<lambda>w. w \<noteq> []) (split_at CHR 0x20 (map (\<lambda>c. if ascii_whitespace c then CHR 0x20 else c) s))"

fun contains_text :: "string \<Rightarrow> string \<Rightarrow> bool" where
  "contains_text p [] \<longleftrightarrow> p = []"
| "contains_text p (c # s) \<longleftrightarrow> starts_with p (c # s) \<or> contains_text p s"

section \<open>Invocations and outcomes\<close>

definition SUPPORTED_VERSION :: string where "SUPPORTED_VERSION = ''5.6.0''"

record engine =
  en_binary :: string
  en_architecture :: string

record engine_bind =
  eb_source :: string
  eb_target :: string

record run_options =
  ro_command :: "string list option"
  ro_environment :: "(string \<times> string) list"
  ro_binds :: "engine_bind list"

record exit_status =
  es_code :: "int option"
  es_signal :: "int option"
  es_text :: string

definition exit_success :: "exit_status \<Rightarrow> bool" where
  "exit_success s \<longleftrightarrow> es_code s = Some 0"

record engine_output =
  eo_status :: exit_status
  eo_stdout :: string
  eo_stderr :: string

record invocation =
  in_binary :: string
  in_args :: "string list"
  in_environment :: "(string \<times> string) list"

datatype engine_error =
    UnsupportedHost string
  | Spawn string string                \<comment> \<open>operation, cause\<close>
  | Failed string exit_status string   \<comment> \<open>operation, status, diagnostics\<close>
  | Capability msg
  | InvalidSessionOutput string
  | InvalidArgument msg

definition engine_error_text :: "engine_error \<Rightarrow> msg" where
  "engine_error_text e = (case e of
     UnsupportedHost a \<Rightarrow> [Txt ''unsupported host architecture '', Dbg a]
   | Spawn operation s \<Rightarrow> [Txt ''cannot start proot-distro '', Txt operation, Txt '': '', Txt s]
   | Failed operation st err \<Rightarrow> [Txt ''proot-distro '', Txt operation, Txt '' failed with '', Txt (es_text st), Txt '': '', Txt (trim err)]
   | Capability m \<Rightarrow> m
   | InvalidSessionOutput l \<Rightarrow> [Txt ''invalid proot-distro ps --quiet line '', Dbg l]
   | InvalidArgument m \<Rightarrow> m)"

definition discover :: "string \<Rightarrow> engine_error + engine" where
  "discover arch =
     (if arch = ''aarch64'' then Inr \<lparr>en_binary = ''proot-distro'', en_architecture = ''aarch64''\<rparr>
      else if arch = ''arm'' then Inr \<lparr>en_binary = ''proot-distro'', en_architecture = ''arm''\<rparr>
      else if arch = ''x86_64'' then Inr \<lparr>en_binary = ''proot-distro'', en_architecture = ''x86_64''\<rparr>
      else if arch = ''x86'' then Inr \<lparr>en_binary = ''proot-distro'', en_architecture = ''i686''\<rparr>
      else Inl (UnsupportedHost arch))"

definition engine_command :: "engine \<Rightarrow> string list \<Rightarrow> invocation" where
  "engine_command e args = \<lparr>in_binary = en_binary e, in_args = args,
     in_environment = [(''PD_FORCE_NO_COLORS'', ''true''), (''COLUMNS'', ''240'')]\<rparr>"

definition bounded_text :: "string \<Rightarrow> string" where
  "bounded_text bytes =
     (let t = utf8_lossy (take (16 * 1024) bytes) in
      if 16 * 1024 < length bytes then t @ [CHR 0x0A] @ ''[diagnostic truncated]'' else t)"

definition engine_failed :: "string \<Rightarrow> engine_output \<Rightarrow> engine_error" where
  "engine_failed operation out = Failed operation (eo_status out) (bounded_text (eo_stderr out))"

text \<open>\<^verbatim>\<open>output\<close>, on what running the invocation gave.\<close>

definition engine_outcome :: "string \<Rightarrow> string + engine_output \<Rightarrow> engine_error + engine_output" where
  "engine_outcome operation r = map_err (Spawn operation) r"

section \<open>Operations\<close>

text \<open>The words of a text between characters that are neither digits nor dots.\<close>

definition version_tokens :: "string \<Rightarrow> string list" where
  "version_tokens s = split_at CHR 0x20 (map (\<lambda>c. if is_digit c \<or> c = CHR ''.'' then c else CHR 0x20) s)"

definition probe_invocation :: "engine \<Rightarrow> invocation" where
  "probe_invocation e = engine_command e [''help'']"

definition probe_result :: "string + engine_output \<Rightarrow> engine_error + unit" where
  "probe_result r =
     andthen (engine_outcome ''capability probe'' r) (\<lambda>out.
       if \<not> exit_success (eo_status out) then Inl (engine_failed ''capability probe'' out)
       else let combined = utf8_lossy (eo_stdout out) @ [CHR 0x0A] @ utf8_lossy (eo_stderr out) in
         if SUPPORTED_VERSION \<notin> set (version_tokens combined) then
           Inl (Capability [Txt ''proot-distro capability probe does not confirm version '', Txt SUPPORTED_VERSION])
         else case find (\<lambda>r. \<not> contains_text r combined) [''install'', ''run'', ''ps'', ''kill'', ''remove''] of
           Some r \<Rightarrow> Inl (Capability [Txt ''proot-distro capability probe does not confirm '', Dbg r])
         | None \<Rightarrow> Inr ())"

definition install_invocation :: "engine \<Rightarrow> string \<Rightarrow> string \<Rightarrow> invocation" where
  "install_invocation e name img =
     engine_command e [''install'', ''--architecture'', en_architecture e, ''--name'', name, img]"

definition status_result :: "string \<Rightarrow> string + engine_output \<Rightarrow> engine_error + unit" where
  "status_result operation r =
     andthen (engine_outcome operation r) (\<lambda>out.
       if exit_success (eo_status out) then Inr () else Inl (engine_failed operation out))"

definition install_result :: "string + engine_output \<Rightarrow> engine_error + unit" where
  "install_result = status_result ''install''"

definition environment_args :: "(string \<times> string) list \<Rightarrow> string list" where
  "environment_args env = concat (map (\<lambda>(k, v). [''--env'', k @ ''='' @ v]) env)"

definition bind_args :: "engine_bind \<Rightarrow> engine_error + string list" where
  "bind_args b =
     (if \<not> utf8_valid (eb_source b) then
        Inl (InvalidArgument [Txt ''bind source is not UTF-8: '', Txt (utf8_lossy (eb_source b))])
      else if CHR '':'' \<in> set (eb_source b) then
        Inl (InvalidArgument [Txt (''bind source contains unsupported '' @ [CHR 0x27] @ '':'' @ [CHR 0x27] @ '' character: ''),
          Txt (utf8_lossy (eb_source b))])
      else Inr [''--bind'', eb_source b @ '':'' @ eb_target b])"

definition run_invocation :: "engine \<Rightarrow> string \<Rightarrow> run_options \<Rightarrow> engine_error + invocation" where
  "run_invocation e name opts =
     andthen (map_res bind_args (ro_binds opts)) (\<lambda>binds.
       Inr (engine_command e ([''run'', ''--isolated''] @ environment_args (ro_environment opts) @ concat binds
         @ [name] @ (case ro_command opts of None \<Rightarrow> [] | Some c \<Rightarrow> ''--'' # c))))"

definition run_result :: "string + 'p \<Rightarrow> engine_error + 'p" where
  "run_result r = map_err (Spawn ''run'') r"

fun parse_sessions :: "string list \<Rightarrow> 32 word list \<Rightarrow> engine_error + 32 word list" where
  "parse_sessions [] sessions = Inr sessions"
| "parse_sessions (l # ls) sessions =
     (if l = [] then parse_sessions ls sessions
      else if \<not> list_all is_digit l then Inl (InvalidSessionOutput l)
      else case parse_u32 l of
        None \<Rightarrow> Inl (InvalidSessionOutput l)
      | Some v \<Rightarrow>
          if v = 0 \<or> word_of_int v \<in> set sessions then Inl (InvalidSessionOutput l)
          else parse_sessions ls (sessions @ [word_of_int v]))"

definition parse_session_output :: "string \<Rightarrow> engine_error + 32 word list" where
  "parse_session_output bytes =
     (if \<not> utf8_valid bytes then Inl (InvalidSessionOutput ''<non-UTF-8>'')
      else parse_sessions (str_lines bytes) [])"

definition sessions_invocation :: "engine \<Rightarrow> invocation" where
  "sessions_invocation e = engine_command e [''ps'', ''--quiet'']"

definition sessions_result :: "string + engine_output \<Rightarrow> engine_error + 32 word list" where
  "sessions_result r =
     andthen (engine_outcome ''ps --quiet'' r) (\<lambda>out.
       if \<not> exit_success (eo_status out) then Inl (engine_failed ''ps --quiet'' out)
       else parse_session_output (eo_stdout out))"

definition kill_invocation :: "engine \<Rightarrow> 32 word \<Rightarrow> invocation" where
  "kill_invocation e session = engine_command e [''kill'', show_nat (unat session)]"

definition kill_result :: "string + engine_output \<Rightarrow> engine_error + unit" where
  "kill_result = status_result ''kill''"

section \<open>Process identity\<close>

text \<open>\<^verbatim>\<open>str::rfind\<close> of the text that closes the command name, and what follows it.\<close>

fun after_last :: "string \<Rightarrow> string \<Rightarrow> string option" where
  "after_last p [] = (if p = [] then Some [] else None)"
| "after_last p (c # s) =
     (case after_last p s of
        Some r \<Rightarrow> Some r
      | None \<Rightarrow> if starts_with p (c # s) then Some (drop (length p) (c # s)) else None)"

definition stat_path :: "32 word \<Rightarrow> string" where
  "stat_path pid = ''/proc/'' @ show_nat (unat pid) @ ''/stat''"

definition starttime_of_stat :: "string \<Rightarrow> string + 64 word" where
  "starttime_of_stat stat =
     andthen (ok_or ''invalid /proc stat'' (after_last '') '' stat)) (\<lambda>r.
       let fields = split_whitespace r in
       if length fields \<le> 19 then Inl ''short /proc stat''
       else andthen (ok_or ''invalid process starttime'' (parse_u64 (fields ! 19))) (\<lambda>v. Inr (word_of_int v)))"

definition process_starttime :: "(string \<Rightarrow> string + string) \<Rightarrow> 32 word \<Rightarrow> string + 64 word" where
  "process_starttime read pid =
     andthen (read (stat_path pid)) (\<lambda>bytes.
       if utf8_valid bytes then starttime_of_stat bytes else Inl ''stream did not contain valid UTF-8'')"

definition boot_id :: "(string \<Rightarrow> string + string) \<Rightarrow> string + string" where
  "boot_id read =
     andthen (read ''/proc/sys/kernel/random/boot_id'') (\<lambda>bytes.
       if utf8_valid bytes then Inr (trim bytes) else Inl ''stream did not contain valid UTF-8'')"

section \<open>Sessions\<close>

lemma utf8_valid_Cons_ascii: "byte c < 128 \<Longrightarrow> utf8_valid (c # s) = utf8_valid s"
  using utf8_valid_step [of "[c]" 1 s] by (simp add: utf8_head_def)

lemma utf8_valid_ascii: "\<forall>c \<in> set s. byte c < 128 \<Longrightarrow> utf8_valid s"
  by (induction s) (auto simp: utf8_valid_Cons_ascii)

lemma parse_int_digits:
  assumes "list_all is_digit l" "l \<noteq> []"
  shows "parse_int lo hi l = (if lo \<le> digits_val l \<and> digits_val l \<le> hi then Some (digits_val l) else None)"
proof -
  from assms have "is_digit (hd l)" by (cases l) auto
  then have "hd l \<noteq> CHR ''-'' \<and> hd l \<noteq> CHR ''+''" by (auto simp: is_digit_def less_eq_char_def)
  with assms show ?thesis by (simp add: parse_int_def Let_def)
qed

text \<open>A line the parser takes as a session: a decimal number that is positive and fits 32 bits.\<close>

definition session_line :: "string \<Rightarrow> bool" where
  "session_line l \<longleftrightarrow> list_all is_digit l \<and> 0 < digits_val l \<and> digits_val l < 2 ^ 32"

definition session_number :: "string \<Rightarrow> 32 word" where
  "session_number l = word_of_int (digits_val l)"

lemma digits_val_nonneg: "list_all is_digit l \<Longrightarrow> 0 \<le> digits_val l"
proof (induction l rule: rev_induct)
  case (snoc c l)
  have "0 \<le> digit_val c" using snoc.prems by (auto simp: digit_val_def is_digit_def less_eq_char_def)
  with snoc show ?case by (simp add: digits_val_def)
qed (simp add: digits_val_def)

lemma parse_u32_line: "list_all is_digit l \<Longrightarrow> l \<noteq> [] \<Longrightarrow>
  parse_u32 l = (if digits_val l < 2 ^ 32 then Some (digits_val l) else None)"
  using digits_val_nonneg [of l] by (simp add: parse_u32_def parse_int_digits)

lemma parse_sessions_iff:
  assumes "distinct acc"
  shows "parse_sessions ls acc = Inr ws \<longleftrightarrow>
    (let ne = filter (\<lambda>l. l \<noteq> []) ls in
     list_all session_line ne \<and> ws = acc @ map session_number ne \<and> distinct ws)"
  using assms
proof (induction ls acc rule: parse_sessions.induct)
  case (2 l ls acc)
  show ?case
  proof (cases "l = []")
    case True
    with 2 show ?thesis by simp
  next
    case nonempty: False
    show ?thesis
    proof (cases "session_line l")
      case False
      then show ?thesis using nonempty digits_val_nonneg [of l]
        by (auto simp: session_line_def parse_u32_line Let_def)
    next
      case True
      then have line: "list_all is_digit l" "parse_u32 l = Some (digits_val l)" "digits_val l \<noteq> 0"
        using nonempty by (auto simp: session_line_def parse_u32_line)
      show ?thesis
      proof (cases "session_number l \<in> set acc")
        case True
        then show ?thesis using nonempty line by (auto simp: session_number_def Let_def)
      next
        case False
        have IH: "parse_sessions ls (acc @ [session_number l]) = Inr ws \<longleftrightarrow>
          (let ne = filter (\<lambda>l. l \<noteq> []) ls in
           list_all session_line ne \<and> ws = (acc @ [session_number l]) @ map session_number ne \<and> distinct ws)"
          using 2(2) [OF nonempty _ line(2)] 2(3) line False by (simp add: session_number_def [of l])
        have "parse_sessions (l # ls) acc = parse_sessions ls (acc @ [session_number l])"
          using nonempty line False by (simp add: session_number_def)
        with IH True nonempty show ?thesis by (simp add: Let_def)
      qed
    qed
  qed
qed (auto simp: Let_def)

text \<open>
  Claim C37. The session list is read exactly: the output of the engine is accepted if and only
  if it is UTF-8 and every line that is not empty is a positive decimal number below 2^32, all
  of them different; the result is then those numbers in order. Anything else the engine might
  print is refused as a whole, so no session is ever guessed.
\<close>

theorem parse_session_output_exact:
  "parse_session_output bytes = Inr ws \<longleftrightarrow>
    utf8_valid bytes \<and> (\<forall>l. l \<in> set (str_lines bytes) \<and> l \<noteq> [] \<longrightarrow> session_line l)
    \<and> ws = map session_number (filter (\<lambda>l. l \<noteq> []) (str_lines bytes)) \<and> distinct ws \<and> 0 \<notin> set ws"
proof -
  have nonzero: "0 \<notin> session_number ` set ne" if "list_all session_line ne" for ne
  proof
    assume "0 \<in> session_number ` set ne"
    then obtain l where l: "0 = session_number l" "l \<in> set ne" by (rule imageE)
    then have line: "session_line l" using that by (simp add: list_all_iff)
    then have "uint (word_of_int (digits_val l) :: 32 word) = 0" using l by (simp add: session_number_def)
    then have "digits_val l mod 2 ^ 32 = 0" by (simp add: uint_word_of_int)
    with line show False by (simp add: session_line_def)
  qed
  show ?thesis
    using parse_sessions_iff [of "[]" "str_lines bytes" ws] nonzero [of "filter (\<lambda>l. l \<noteq> []) (str_lines bytes)"]
    by (auto simp: parse_session_output_def Let_def list_all_iff)
qed

lemma parse_session_output_exact_witness:
  "parse_session_output (''7'' @ [CHR 0x0A, CHR 0x0A] @ ''12'') = Inr [7, 12]"
proof -
  have "utf8_valid (''7'' @ [CHR 0x0A, CHR 0x0A] @ ''12'')" by code_simp
  moreover have "str_lines (''7'' @ [CHR 0x0A, CHR 0x0A] @ ''12'') = [''7'', [], ''12'']"
    by (simp add: str_lines_def strip_cr_def)
  moreover have "digits_val ''7'' = 7" "digits_val ''12'' = 12" "list_all is_digit ''7''" "list_all is_digit ''12''"
    by code_simp+
  ultimately show ?thesis
    by (auto simp: parse_session_output_exact session_line_def session_number_def)
qed

lemma str_lines_line:
  "CHR 0x0A \<notin> set l \<Longrightarrow> str_lines (l @ CHR 0x0A # s) = strip_cr l # str_lines s"
  by (simp add: str_lines_def Let_def split_at_append split_at_word butlast_append)

lemma str_lines_concat:
  "(\<And>l. l \<in> set ls \<Longrightarrow> CHR 0x0A \<notin> set l \<and> CHR 0x0D \<notin> set l) \<Longrightarrow>
     str_lines (concat (map (\<lambda>l. l @ [CHR 0x0A]) ls)) = ls"
proof (induction ls)
  case Nil
  show ?case by (simp add: str_lines_def)
next
  case (Cons l ls)
  then have "CHR 0x0D \<notin> set l" by simp
  then have "strip_cr l = l" unfolding strip_cr_def by (metis last_in_set)
  with Cons show ?case by (simp add: str_lines_line)
qed

definition print_sessions :: "32 word list \<Rightarrow> string" where
  "print_sessions ws = concat (map (\<lambda>w. show_nat (unat w) @ [CHR 0x0A]) ws)"

lemma digits_ascii: "c \<in> set (show_nat n) \<Longrightarrow> byte c < 128 \<and> c \<noteq> CHR 0x0A \<and> c \<noteq> CHR 0x0D"
  using show_nat_digits [of n] by (auto simp: list_all_iff is_digit_def less_eq_char_def byte_def)

text \<open>
  A listing printed in the documented form is read back: for every list of different
  non-zero session numbers, the text with one number per line is parsed to that list.
\<close>

theorem print_sessions_round_trip:
  assumes "distinct ws" "0 \<notin> set ws"
  shows "parse_session_output (print_sessions ws) = Inr ws"
proof -
  let ?ls = "map (\<lambda>w. show_nat (unat w)) ws"
  have lines: "str_lines (print_sessions ws) = ?ls"
    using str_lines_concat [of ?ls] digits_ascii by (fastforce simp: print_sessions_def comp_def)
  have utf8: "utf8_valid (print_sessions ws)"
    by (rule utf8_valid_ascii) (auto simp: print_sessions_def byte_def [of "CHR 0x0A"] dest: digits_ascii)
  have num: "session_line (show_nat (unat w)) \<and> session_number (show_nat (unat w)) = w" if "w \<in> set ws" for w
  proof -
    have "uint w \<noteq> 0" using that assms(2) by (auto simp: uint_0_iff)
    then have "0 < uint w" using uint_nonnegative [of w] by linarith
    then show ?thesis using show_nat_digits [of "unat w"] unsigned_less [of w]
      by (simp add: session_line_def session_number_def)
  qed
  have "filter (\<lambda>l. l \<noteq> []) ?ls = ?ls" using show_nat_digits by (auto simp: filter_id_conv)
  moreover have "map session_number ?ls = ws" using num by (simp add: map_idI)
  ultimately show ?thesis
    using lines utf8 num assms by (auto simp: parse_session_output_exact)
qed

lemma print_sessions_round_trip_witness:
  "parse_session_output (print_sessions [77, 4294967295]) = Inr [77, 4294967295]"
  using print_sessions_round_trip [of "[77, 4294967295]"] by simp

section \<open>The command line of a container\<close>

text \<open>
  How the engine reads its command line: options up to the first word that is not one, a
  variable split at its first equals sign and a bind at its first colon, then the container,
  then the command after a double dash.
\<close>

definition split_first :: "char \<Rightarrow> string \<Rightarrow> string \<times> string" where
  "split_first c s = (takeWhile (\<lambda>x. x \<noteq> c) s, drop 1 (dropWhile (\<lambda>x. x \<noteq> c) s))"

fun decode_options :: "string list \<Rightarrow> (string \<times> string) list \<times> (string \<times> string) list \<times> string list" where
  "decode_options (w # v # r) =
     (if w = ''--env'' then (case decode_options r of (env, binds, rest) \<Rightarrow> (split_first CHR ''='' v # env, binds, rest))
      else if w = ''--bind'' then (case decode_options r of (env, binds, rest) \<Rightarrow> (env, split_first CHR '':'' v # binds, rest))
      else ([], [], w # v # r))"
| "decode_options ws = ([], [], ws)"

definition decode_run :: "string list \<Rightarrow> ((string \<times> string) list \<times> (string \<times> string) list \<times> string \<times> string list option) option" where
  "decode_run args =
     (case args of
        a # i # r \<Rightarrow> (case decode_options r of
            (env, binds, [name]) \<Rightarrow> if a = ''run'' \<and> i = ''--isolated'' then Some (env, binds, name, None) else None
          | (env, binds, name # d # c) \<Rightarrow>
              if a = ''run'' \<and> i = ''--isolated'' \<and> d = ''--'' then Some (env, binds, name, Some c) else None
          | _ \<Rightarrow> None)
      | _ \<Rightarrow> None)"

lemma split_first_at: "c \<notin> set k \<Longrightarrow> split_first c (k @ c # v) = (k, v)"
  by (induction k) (auto simp: split_first_def)

lemma decode_environment:
  "\<forall>e \<in> set env. CHR ''='' \<notin> set (fst e) \<Longrightarrow>
     decode_options (environment_args env @ rest) =
       (case decode_options rest of (env', binds, r) \<Rightarrow> (env @ env', binds, r))"
  by (induction env) (auto simp: environment_args_def split_first_at split: prod.splits)

lemma decode_binds:
  "map_res bind_args bs = Inr ws \<Longrightarrow>
     decode_options (concat ws @ rest) =
       (case decode_options rest of (env, binds, r) \<Rightarrow> (env, map (\<lambda>b. (eb_source b, eb_target b)) bs @ binds, r))"
  by (induction bs arbitrary: ws)
    (auto simp: res_simps bind_args_def split_first_at split: prod.splits if_splits)

lemma bind_args_accepted:
  "(\<exists>ws. map_res bind_args bs = Inr ws) \<longleftrightarrow>
     (\<forall>b \<in> set bs. utf8_valid (eb_source b) \<and> CHR '':'' \<notin> set (eb_source b))"
  by (induction bs) (auto simp: bind_args_def res_simps)

lemma run_invocation_accepted:
  "(\<exists>inv. run_invocation e name opts = Inr inv) \<longleftrightarrow>
     (\<forall>b \<in> set (ro_binds opts). utf8_valid (eb_source b) \<and> CHR '':'' \<notin> set (eb_source b))"
  unfolding bind_args_accepted [symmetric] by (auto simp: run_invocation_def res_simps)

text \<open>
  Claim C38. The command line means what was asked: whenever it is built, reading it back as
  the engine does gives the same variables, bind mounts, container and command, so that no
  value of a manifest can turn into an option, another mount or another container. It is
  built exactly when every bind source is UTF-8 without a colon.
\<close>

theorem run_invocation_decodes:
  assumes "\<And>k v. (k, v) \<in> set (ro_environment opts) \<Longrightarrow> CHR ''='' \<notin> set k"
    and "name \<noteq> ''--env''" "name \<noteq> ''--bind''"
  shows "(\<exists>inv. run_invocation e name opts = Inr inv \<and> in_binary inv = en_binary e
      \<and> decode_run (in_args inv) = Some (ro_environment opts,
           map (\<lambda>b. (eb_source b, eb_target b)) (ro_binds opts), name, ro_command opts))
    \<longleftrightarrow> (\<forall>b \<in> set (ro_binds opts). utf8_valid (eb_source b) \<and> CHR '':'' \<notin> set (eb_source b))"
    (is "?built \<longleftrightarrow> ?sources")
proof -
  have tail: "decode_options (name # (case ro_command opts of None \<Rightarrow> [] | Some c \<Rightarrow> ''--'' # c))
    = ([], [], name # (case ro_command opts of None \<Rightarrow> [] | Some c \<Rightarrow> ''--'' # c))"
    using assms(2,3) by (simp split: option.splits)
  have "\<forall>x \<in> set (ro_environment opts). CHR ''='' \<notin> set (fst x)" using assms(1) by auto
  note env = decode_environment [OF this]
  have "?built \<longleftrightarrow> (\<exists>ws. map_res bind_args (ro_binds opts) = Inr ws)"
  proof
    assume "\<exists>ws. map_res bind_args (ro_binds opts) = Inr ws"
    then obtain ws where ws: "map_res bind_args (ro_binds opts) = Inr ws" by blast
    then show ?built
      using tail env decode_binds [OF ws]
      by (auto simp: run_invocation_def engine_command_def decode_run_def split: option.splits)
  qed (auto simp: run_invocation_def res_simps)
  then show ?thesis by (simp add: bind_args_accepted)
qed

definition sample_run_options :: run_options where
  "sample_run_options = \<lparr>ro_command = Some [''sh'', ''-c'', ''--bind''], ro_environment = [(''A'', ''x=--env'')],
     ro_binds = [\<lparr>eb_source = ''/data'', eb_target = ''/srv:ro''\<rparr>]\<rparr>"

definition sample_engine :: engine where
  "sample_engine = \<lparr>en_binary = ''proot-distro'', en_architecture = ''aarch64''\<rparr>"

lemma run_invocation_decodes_witness:
  "\<exists>inv. run_invocation sample_engine ''c1'' sample_run_options = Inr inv
     \<and> decode_run (in_args inv) = Some ([(''A'', ''x=--env'')], [(''/data'', ''/srv:ro'')], ''c1'', Some [''sh'', ''-c'', ''--bind''])"
proof -
  have "utf8_valid ''/data''" by code_simp
  then show ?thesis
    using run_invocation_decodes [of sample_run_options "''c1''" sample_engine] by (auto simp: sample_run_options_def)
qed

section \<open>The start time of a process\<close>

lemma after_last_None: "(\<And>a b. s \<noteq> a @ p @ b) \<Longrightarrow> after_last p s = None"
proof (induction s)
  case Nil
  from Nil [of "[]" "[]"] show ?case by auto
next
  case (Cons c s)
  have "s \<noteq> a @ p @ b" for a b using Cons.prems [of "c # a" b] by simp
  then have "after_last p s = None" by (rule Cons.IH)
  moreover have "\<not> starts_with p (c # s)" using Cons.prems [of "[]"] by (auto simp: starts_with_iff)
  ultimately show ?case by simp
qed

lemma after_last_append: "after_last p s = Some r \<Longrightarrow> after_last p (t @ s) = Some r"
  by (induction t) auto

lemma after_last_close:
  assumes "CHR 0x29 \<notin> set rest"
  shows "after_last '') '' (t @ '') '' @ rest) = Some rest"
proof -
  have "after_last '') '' (CHR 0x20 # rest) = None"
  proof (rule after_last_None)
    fix a b show "CHR 0x20 # rest \<noteq> a @ '') '' @ b"
    proof
      assume "CHR 0x20 # rest = a @ '') '' @ b"
      then have "CHR 0x29 \<in> set (CHR 0x20 # rest)" by simp
      with assms show False by simp
    qed
  qed
  then have "after_last '') '' ('') '' @ rest) = Some rest" by (simp add: starts_with_def)
  then show ?thesis by (rule after_last_append)
qed

lemma split_whitespace_fields:
  assumes "\<And>w. w \<in> set fs \<Longrightarrow> w \<noteq> [] \<and> (\<forall>c \<in> set w. \<not> ascii_whitespace c)" and "fs \<noteq> []"
  shows "split_whitespace (join_with CHR 0x20 fs @ [CHR 0x0A]) = fs"
proof -
  let ?f = "\<lambda>c. if ascii_whitespace c then CHR 0x20 else c"
  have word: "map ?f w = w" if "w \<in> set fs" for w
    using assms(1) [OF that] by (intro map_idI) auto
  have sp: "ascii_whitespace CHR 0x20" "ascii_whitespace CHR 0x0A" by (simp_all add: ascii_whitespace_def)
  have "map ?f (join_with CHR 0x20 ws) = join_with CHR 0x20 ws" if "set ws \<subseteq> set fs" for ws
    using that sp by (induction "CHR 0x20" ws rule: join_with.induct) (auto simp: word)
  then have "map ?f (join_with CHR 0x20 fs) = join_with CHR 0x20 fs" by blast
  moreover have "split_at CHR 0x20 (join_with CHR 0x20 fs) = fs"
    using assms sp by (intro split_join) auto
  moreover have "filter (\<lambda>w. w \<noteq> []) fs = fs" using assms(1) by (auto simp: filter_id_conv)
  ultimately show ?thesis
    using sp split_at_append [of "CHR 0x20" "join_with CHR 0x20 fs" "[]"]
    by (simp add: split_whitespace_def)
qed

text \<open>
  The start time is that of the process, whatever the process is called: in the
  format of \<^verbatim>\<open>/proc/PID/stat\<close>, where the name is in parentheses and may itself contain spaces
  and parentheses, the value read is the twentieth field after the last closing parenthesis.
  No name a container gives itself can forge the identity the daemon compares before a kill.
\<close>

theorem starttime_any_name:
  assumes "19 < length fs" and "fs ! 19 = show_nat n" and "n < 2 ^ 64"
    and "\<And>w. w \<in> set fs \<Longrightarrow> w \<noteq> [] \<and> CHR 0x29 \<notin> set w \<and> (\<forall>c \<in> set w. \<not> ascii_whitespace c)"
  shows "starttime_of_stat (show_nat pid @ '' ('' @ comm @ '') '' @ join_with CHR 0x20 fs @ [CHR 0x0A]) = Inr (of_nat n)"
proof -
  have paren: "CHR 0x29 \<notin> set (join_with CHR 0x20 ws)" if "set ws \<subseteq> set fs" for ws
    using that assms(4) by (induction "CHR 0x20" ws rule: join_with.induct) auto
  have "split_whitespace (join_with CHR 0x20 fs @ [CHR 0x0A]) = fs"
    using assms(1,4) by (intro split_whitespace_fields) auto
  moreover have "parse_u64 (show_nat n) = Some (int n)"
    using assms(3) by (simp add: parse_u64_def parse_int_show)
  ultimately show ?thesis
    using assms(1,2) paren [OF subset_refl] after_last_close [of "join_with CHR 0x20 fs @ [CHR 0x0A]" "show_nat pid @ '' ('' @ comm"]
    by (simp add: starttime_of_stat_def Let_def)
qed

lemma starttime_any_name_witness:
  "starttime_of_stat (''7 (a) S 1) '' @ join_with CHR 0x20 (replicate 19 ''0'' @ [''42'']) @ [CHR 0x0A]) = Inr 42"
proof -
  have "show_nat 42 = ''42''" "show_nat 7 = ''7''" by code_simp+
  moreover have "w \<noteq> [] \<and> CHR 0x29 \<notin> set w \<and> (\<forall>c \<in> set w. \<not> ascii_whitespace c)"
    if "w \<in> set (replicate 19 ''0'' @ [''42''])" for w
    using that by (auto simp: ascii_whitespace_def)
  ultimately show ?thesis
    using starttime_any_name [of "replicate 19 ''0'' @ [''42'']" 42 7 "''a) S 1''"]
    by (simp add: nth_append)
qed

end
