(* ===== verification/Resources.thy ===== *)
theory Resources
  imports Manifest Paths Engine
begin

text \<open>
  The resources of a service outside its container (\<^verbatim>\<open>src/resources.rs\<close>): the resolution of
  mount sources and the check that its ports are free. \<^verbatim>\<open>canonicalize\<close> and \<^verbatim>\<open>metadata\<close> follow
  symbolic links, which the file system of the development does not resolve, so both are
  arguments; the directories of volumes are created in the file system.
\<close>

section \<open>Operations\<close>

datatype resource_error =
    ResIo io_err
  | InvalidBase string
  | InvalidBind string
  | PortUnavailable "16 word" string

definition resource_error_text :: "resource_error \<Rightarrow> msg" where
  "resource_error_text e = (case e of
     ResIo i \<Rightarrow> [Txt ''resource preparation failed: ''] @ io_message i
   | InvalidBase p \<Rightarrow> [Txt ''manifest base is not a canonical real directory: '', Txt (utf8_lossy p)]
   | InvalidBind p \<Rightarrow> [Txt ''bind source is unavailable or cannot be represented safely: '', Txt (utf8_lossy p)]
   | PortUnavailable n s \<Rightarrow> [Txt ''loopback port '', Num (uint n), Txt '' is unavailable: '', Txt s])"

text \<open>What the calls that follow links answer, in a given file system.\<close>

record follow =
  fo_canonicalize :: "fs \<Rightarrow> string \<Rightarrow> string + string"
  fo_metadata :: "fs \<Rightarrow> string \<Rightarrow> string + inode"

text \<open>Paths are equal when their components are: repeated separators and inner dots do not count.\<close>

definition path_components :: "string \<Rightarrow> string list" where
  "path_components p =
     (let parts = split_at CHR ''/'' p in
      (if is_absolute p then [''/''] else if hd parts = ''.'' then [''.''] else [])
      @ filter (\<lambda>c. c \<noteq> [] \<and> c \<noteq> ''.'') parts)"

definition path_eq :: "string \<Rightarrow> string \<Rightarrow> bool" where
  "path_eq a b \<longleftrightarrow> path_components a = path_components b"

definition is_dir :: "inode \<Rightarrow> bool" where
  "is_dir n = (case n of Dir _ \<Rightarrow> True | _ \<Rightarrow> False)"

definition canonical_base :: "follow \<Rightarrow> fs \<Rightarrow> string \<Rightarrow> resource_error + string" where
  "canonical_base w f base =
     andthen (map_err (\<lambda>_. InvalidBase base) (fo_canonicalize w f base)) (\<lambda>canonical.
       if \<not> is_absolute base \<or> \<not> path_eq canonical base
          \<or> \<not> (case fo_metadata w f canonical of Inl _ \<Rightarrow> False | Inr n \<Rightarrow> is_dir n)
       then Inl (InvalidBase base) else Inr canonical)"

definition unsafe_source :: "fs \<Rightarrow> string \<Rightarrow> bool" where
  "unsafe_source f source \<longleftrightarrow>
     \<not> utf8_valid source \<or> CHR '':'' \<in> set (utf8_lossy source)
     \<or> \<not> (case symlink_metadata f source of Inl _ \<Rightarrow> False | Inr n \<Rightarrow> n \<noteq> Symlink)"

definition resolve_bind_source :: "follow \<Rightarrow> fs \<Rightarrow> string \<Rightarrow> string \<Rightarrow> resource_error + string" where
  "resolve_bind_source w f base configured =
     (let candidate = (if is_absolute configured then configured else join_path base configured) in
      andthen (map_err (\<lambda>_. InvalidBind candidate) (fo_canonicalize w f candidate)) (\<lambda>source.
        if unsafe_source f source then Inl (InvalidBind source) else Inr source))"

definition mount_source :: "follow \<Rightarrow> runtime_paths \<Rightarrow> string \<Rightarrow> manifest \<Rightarrow> mount \<Rightarrow> fs \<Rightarrow> (resource_error + string) \<times> fs" where
  "mount_source w p base m mo f =
     (case mo_kind mo of
        Volume \<Rightarrow> (case prepare_volume_directory p (mf_name m) (mo_source mo) f of (r, f') \<Rightarrow> (map_err ResIo r, f'))
      | Bind \<Rightarrow> (resolve_bind_source w f base (mo_source mo), f))"

fun resolve_mounts :: "follow \<Rightarrow> runtime_paths \<Rightarrow> string \<Rightarrow> manifest \<Rightarrow> mount list \<Rightarrow> engine_bind list \<Rightarrow> fs
    \<Rightarrow> (resource_error + engine_bind list) \<times> fs" where
  "resolve_mounts w p base m [] bindings f = (Inr bindings, f)"
| "resolve_mounts w p base m (mo # ms) bindings f =
     (case mount_source w p base m mo f of
        (Inl e, f') \<Rightarrow> (Inl e, f')
      | (Inr source, f') \<Rightarrow>
          if unsafe_source f' source then (Inl (InvalidBind source), f')
          else resolve_mounts w p base m ms (bindings @ [\<lparr>eb_source = source, eb_target = mo_target mo\<rparr>]) f')"

definition resolve_binds :: "follow \<Rightarrow> runtime_paths \<Rightarrow> string \<Rightarrow> manifest \<Rightarrow> service \<Rightarrow> fs
    \<Rightarrow> (resource_error + engine_bind list) \<times> fs" where
  "resolve_binds w p base m s f =
     (case canonical_base w f base of
        Inl e \<Rightarrow> (Inl e, f)
      | Inr canonical \<Rightarrow> resolve_mounts w p canonical m (se_mounts s) [] f)"

definition validate_bind_sources :: "follow \<Rightarrow> fs \<Rightarrow> string \<Rightarrow> manifest \<Rightarrow> resource_error + unit" where
  "validate_bind_sources w f base m =
     andthen (canonical_base w f base) (\<lambda>canonical.
       fold_res (\<lambda>s _. fold_res (\<lambda>mo _.
           if mo_kind mo = Bind then andthen (resolve_bind_source w f canonical (mo_source mo)) (\<lambda>_. Inr ()) else Inr ())
         (se_mounts s) ()) (map snd (mf_services m)) ())"

text \<open>Each port is bound while the earlier ones are held; all are released at the end.\<close>

fun hold_ports :: "(16 word list \<Rightarrow> 16 word \<Rightarrow> string + unit) \<Rightarrow> 16 word list \<Rightarrow> port list \<Rightarrow> resource_error + unit" where
  "hold_ports listen held [] = Inr ()"
| "hold_ports listen held (p # ps) =
     (case listen held (po_port p) of
        Inl e \<Rightarrow> Inl (PortUnavailable (po_port p) e)
      | Inr _ \<Rightarrow> hold_ports listen (held @ [po_port p]) ps)"

definition preflight_ports :: "(16 word list \<Rightarrow> 16 word \<Rightarrow> string + unit) \<Rightarrow> service \<Rightarrow> resource_error + unit" where
  "preflight_ports listen s = hold_ports listen [] (se_ports s)"

section \<open>What resolution gives\<close>

text \<open>A source that can be passed to the engine: UTF-8 without a colon, there and not a link.\<close>

definition safe_source :: "fs \<Rightarrow> string \<Rightarrow> bool" where
  "safe_source f source \<longleftrightarrow> utf8_valid source \<and> CHR '':'' \<notin> set source
     \<and> (\<exists>n. fs_node f source = Some n \<and> n \<noteq> Symlink)"

lemma not_unsafe: "\<not> unsafe_source f source \<Longrightarrow> safe_source f source"
  by (auto simp: unsafe_source_def safe_source_def symlink_metadata_def utf8_lossy_id
      split: sum.splits option.splits)

lemma safe_later: "grows_dirs f f' \<Longrightarrow> safe_source f source \<Longrightarrow> safe_source f' source"
  unfolding grows_dirs_def safe_source_def by (metis option.distinct(1))

lemma prepare_volume_grows:
  assumes "prepare_volume_directory p stack v f = (r, f')"
  shows "grows_dirs f f' \<and> (\<forall>s. r = Inr s \<longrightarrow> s = volume_path p stack v \<and> private_dir f' s)"
proof -
  obtain r1 where run: "ensure_private_subtree (pa_state_dir p) [''volumes'', stack, v] f = (r1, f')"
    and r: "r = (case r1 of Inl e \<Rightarrow> Inl e | Inr _ \<Rightarrow> Inr (volume_path p stack v))"
    using assms by (auto simp: prepare_volume_directory_def split: prod.splits sum.splits)
  have "grows_dirs f f'" using run private_subtree_run by blast
  moreover have "private_dir f' (volume_path p stack v)" if "r1 = Inr ()"
    using private_subtree_run [OF run] that by (auto simp: volume_path_def dest: spec [of _ 2])
  ultimately show ?thesis using r by (cases r1) auto
qed

lemma mount_source_grows:
  assumes "mount_source w p base m mo f = (r, f')"
  shows "grows_dirs f f' \<and> (\<forall>s. r = Inr s \<and> mo_kind mo = Volume \<longrightarrow>
    s = volume_path p (mf_name m) (mo_source mo) \<and> private_dir f' s)"
  using assms
  by (auto simp: mount_source_def grows_refl res_simps split: mount_kind.splits prod.splits
      dest: prepare_volume_grows)

definition bind_ok :: "runtime_paths \<Rightarrow> manifest \<Rightarrow> fs \<Rightarrow> mount \<Rightarrow> engine_bind \<Rightarrow> bool" where
  "bind_ok p m f mo b \<longleftrightarrow> eb_target b = mo_target mo \<and> safe_source f (eb_source b)
     \<and> (mo_kind mo = Volume \<longrightarrow> eb_source b = volume_path p (mf_name m) (mo_source mo) \<and> private_dir f (eb_source b))"

lemma bind_ok_later: "grows_dirs f f' \<Longrightarrow> bind_ok p m f mo b \<Longrightarrow> bind_ok p m f' mo b"
  by (auto simp: bind_ok_def intro: safe_later private_later)

lemma resolve_mounts_run:
  assumes "resolve_mounts w p base m ms bindings f = (r, f')" and "list_all2 (bind_ok p m f) done bindings"
  shows "grows_dirs f f' \<and> (\<forall>bs. r = Inr bs \<longrightarrow> list_all2 (bind_ok p m f') (done @ ms) bs)"
  using assms
proof (induction ms arbitrary: bindings f "done")
  case (Cons mo ms)
  obtain r1 f1 where one: "mount_source w p base m mo f = (r1, f1)" by fastforce
  note src = mount_source_grows [OF one]
  show ?case
  proof (cases "\<exists>s. r1 = Inr s \<and> \<not> unsafe_source f1 s")
    case False
    with one Cons.prems(1) src show ?thesis by (auto split: sum.splits if_splits)
  next
    case True
    then obtain s where s: "r1 = Inr s" "\<not> unsafe_source f1 s" by blast
    let ?b = "\<lparr>eb_source = s, eb_target = mo_target mo\<rparr>"
    have rest: "resolve_mounts w p base m ms (bindings @ [?b]) f1 = (r, f')"
      using one Cons.prems(1) s by simp
    have "bind_ok p m f1 mo ?b" using src s not_unsafe by (auto simp: bind_ok_def)
    moreover have "list_all2 (bind_ok p m f1) done bindings"
      using Cons.prems(2) src by (auto intro: list_all2_mono bind_ok_later)
    ultimately have "list_all2 (bind_ok p m f1) (done @ [mo]) (bindings @ [?b])"
      by (simp add: list_all2_appendI)
    from Cons.IH [OF rest this] src show ?thesis by (auto intro: grows_dirs_trans)
  qed
qed (auto simp: grows_refl)

text \<open>
  Claim C20. Resolving the mounts of a service only creates directories, whether it succeeds or
  not. When it succeeds there is one bind per mount, in order and with the mount's target;
  each source exists, is not a symbolic link and can be written on the engine's command line,
  so that building the command line cannot fail on it; and the source of a volume is its own
  private directory under the state directory.
\<close>

theorem resolve_binds_ok:
  assumes "resolve_binds w p base m s f = (r, f')"
  shows "grows_dirs f f' \<and> (\<forall>bs. r = Inr bs \<longrightarrow> is_absolute base
    \<and> list_all2 (bind_ok p m f') (se_mounts s) bs
    \<and> (\<forall>e name opts. ro_binds opts = bs \<longrightarrow> (\<exists>inv. run_invocation e name opts = Inr inv)))"
proof (cases "canonical_base w f base")
  case (Inl e)
  with assms show ?thesis by (auto simp: resolve_binds_def grows_refl)
next
  case (Inr canonical)
  with assms have run: "resolve_mounts w p canonical m (se_mounts s) [] f = (r, f')"
    by (simp add: resolve_binds_def)
  have abs: "is_absolute base" using Inr by (auto simp: canonical_base_def res_simps split: if_splits)
  from resolve_mounts_run [OF run, of "[]"] have all: "grows_dirs f f'"
    "\<And>bs. r = Inr bs \<Longrightarrow> list_all2 (bind_ok p m f') (se_mounts s) bs" by auto
  have "utf8_valid (eb_source b) \<and> CHR '':'' \<notin> set (eb_source b)" if "r = Inr bs" "b \<in> set bs" for bs b
    using all(2) [OF that(1)] that(2) by (auto simp: list_all2_conv_all_nth in_set_conv_nth bind_ok_def safe_source_def)
  with all abs show ?thesis by (auto simp: run_invocation_accepted)
qed

definition sample_follow :: follow where
  "sample_follow = \<lparr>fo_canonicalize = (\<lambda>_. Inr), fo_metadata = (\<lambda>f p. case fs_node f p of None \<Rightarrow> Inl ''gone'' | Some n \<Rightarrow> Inr n)\<rparr>"

definition sample_home :: fs where
  "sample_home = \<lparr>fs_node = [''/m'' \<mapsto> Dir 493, ''/m/site'' \<mapsto> Dir 493], fs_umask = 63, fs_fault = (\<lambda>_. None)\<rparr>"

definition sample_mounted :: service where
  "sample_mounted = \<lparr>se_name = ''web'', se_image = ''alpine'', se_command = None, se_environment = [],
     se_mounts = [\<lparr>mo_kind = Bind, mo_source = ''site'', mo_target = ''/srv''\<rparr>], se_ports = [], se_depends_on = [], se_restart = No\<rparr>"

lemma sample_resolved:
  "resolve_binds sample_follow (new_paths ''/p'') ''/m'' \<lparr>mf_name = ''demo'', mf_services = [], mf_volumes = []\<rparr> sample_mounted sample_home
     = (Inr [\<lparr>eb_source = ''/m/site'', eb_target = ''/srv''\<rparr>], sample_home)"
proof -
  have "utf8_valid ''/m/site''" by code_simp
  then show ?thesis
    by (simp add: resolve_binds_def canonical_base_def sample_follow_def sample_home_def sample_mounted_def is_absolute_def
        starts_with_def ends_with_def path_eq_def is_dir_def mount_source_def resolve_bind_source_def join_path_def
        unsafe_source_def symlink_metadata_def utf8_lossy_id)
qed

lemma resolve_binds_ok_witness:
  "grows_dirs sample_home sample_home
     \<and> bind_ok (new_paths ''/p'') \<lparr>mf_name = ''demo'', mf_services = [], mf_volumes = []\<rparr> sample_home
         (hd (se_mounts sample_mounted)) \<lparr>eb_source = ''/m/site'', eb_target = ''/srv''\<rparr>"
  using resolve_binds_ok [OF sample_resolved] by (auto simp: sample_mounted_def)

end
