(* ===== verification/Protocol.thy ===== *)
theory Protocol
  imports Store_Schema
begin

text \<open>
  The control protocol (\<^verbatim>\<open>src/protocol.rs\<close>): requests and responses, their validation, and
  the framing of one JSON text per line with a size limit in both directions. Printing and
  parsing JSON is \<^verbatim>\<open>serde_json\<close>, a parameter of the framing.
\<close>

section \<open>Requests and responses\<close>

definition VERSION :: "32 word" where "VERSION = 2"
definition MAX_FRAME_BYTES :: nat where "MAX_FRAME_BYTES = 1024 * 1024"
definition DEFAULT_LOG_TAIL :: "16 word" where "DEFAULT_LOG_TAIL = 200"
definition MAX_LOG_TAIL :: "16 word" where "MAX_LOG_TAIL = 200"

datatype request =
    Up_Request "32 word" string string string          \<comment> \<open>version, request, manifest, manifest base\<close>
  | Status_Request "32 word" string string             \<comment> \<open>version, request, stack\<close>
  | Down_Request "32 word" string string
  | Logs_Request "32 word" string string string "16 word" \<comment> \<open>version, request, stack, service, tail\<close>
  | Restart_Request "32 word" string string string

fun protocol_version :: "request \<Rightarrow> 32 word" where
  "protocol_version (Up_Request v _ _ _) = v"
| "protocol_version (Status_Request v _ _) = v"
| "protocol_version (Down_Request v _ _) = v"
| "protocol_version (Logs_Request v _ _ _ _) = v"
| "protocol_version (Restart_Request v _ _ _) = v"

fun request_id :: "request \<Rightarrow> string" where
  "request_id (Up_Request _ r _ _) = r"
| "request_id (Status_Request _ r _) = r"
| "request_id (Down_Request _ r _) = r"
| "request_id (Logs_Request _ r _ _ _) = r"
| "request_id (Restart_Request _ r _ _) = r"

datatype protocol_error =
    PrIo string
  | MissingNewline
  | FrameTooLarge
  | InvalidJson string
  | Version "32 word"
  | InvalidRequestId
  | InvalidLogTail
  | MismatchedRequestId
  | InvalidResponse

text \<open>\<^verbatim>\<open>Display\<close>.\<close>

definition protocol_text :: "protocol_error \<Rightarrow> msg" where
  "protocol_text e = (case e of
     PrIo s \<Rightarrow> [Txt ''control socket I/O failed: '', Txt s]
   | MissingNewline \<Rightarrow> [Txt ''control frame is not newline terminated'']
   | FrameTooLarge \<Rightarrow> [Txt ''control frame exceeds the '', Num (int MAX_FRAME_BYTES), Txt ''-byte limit'']
   | InvalidJson s \<Rightarrow> [Txt ''invalid control frame: '', Txt s]
   | Version v \<Rightarrow> [Txt ''unsupported protocol version '', Num (uint v), Txt ''; expected '', Num (uint VERSION)]
   | InvalidRequestId \<Rightarrow> [Txt ''invalid request_id'']
   | InvalidLogTail \<Rightarrow> [Txt ''logs tail must be between 1 and '', Num (uint MAX_LOG_TAIL), Txt '' lines'']
   | MismatchedRequestId \<Rightarrow> [Txt ''response request_id does not match'']
   | InvalidResponse \<Rightarrow> [Txt ''invalid response envelope''])"

definition valid_request_id :: "string \<Rightarrow> bool" where
  "valid_request_id r \<longleftrightarrow> r \<noteq> [] \<and> length r \<le> 128
     \<and> list_all (\<lambda>c. is_alnum c \<or> c \<in> {CHR ''-'', CHR ''_'', CHR ''.''}) r"

definition validate_envelope :: "request \<Rightarrow> protocol_error + unit" where
  "validate_envelope q =
     (if protocol_version q \<noteq> VERSION then Inl (Version (protocol_version q))
      else if \<not> valid_request_id (request_id q) then Inl InvalidRequestId
      else case q of
        Logs_Request _ _ _ _ n \<Rightarrow> if n = 0 \<or> MAX_LOG_TAIL < n then Inl InvalidLogTail else Inr ()
      | _ \<Rightarrow> Inr ())"

record response_error =
  re_code :: string
  re_message :: msg

text \<open>The result is a JSON value; the shapes the daemon produces are its argument.\<close>

record 'j response =
  rs_version :: "32 word"
  rs_request :: string
  rs_ok :: bool
  rs_result :: "'j option"
  rs_error :: "response_error option"

definition success :: "string \<Rightarrow> 'j \<Rightarrow> 'j response" where
  "success request v =
     \<lparr>rs_version = VERSION, rs_request = request, rs_ok = True, rs_result = Some v, rs_error = None\<rparr>"

definition failure :: "string \<Rightarrow> string \<Rightarrow> msg \<Rightarrow> 'j response" where
  "failure request code message =
     \<lparr>rs_version = VERSION, rs_request = request, rs_ok = False, rs_result = None,
      rs_error = Some \<lparr>re_code = code, re_message = message\<rparr>\<rparr>"

definition validate_response :: "'j response \<Rightarrow> string \<Rightarrow> protocol_error + unit" where
  "validate_response r request =
     (if rs_version r \<noteq> VERSION then Inl (Version (rs_version r))
      else if rs_request r \<noteq> request then Inl MismatchedRequestId
      else if rs_ok r \<noteq> (rs_result r \<noteq> None) \<or> rs_ok r = (rs_error r \<noteq> None) then Inl InvalidResponse
      else Inr ())"

section \<open>Frames\<close>

text \<open>A reader holds the bytes that are still to come and what ends them: the end or an error.\<close>

record reader =
  rd_bytes :: string
  rd_error :: "string option"

definition newline :: char where "newline = CHR 0x0A"

text \<open>\<^verbatim>\<open>take(limit)\<close> and \<^verbatim>\<open>read_until\<close>: up to a newline, to the limit, or to the end.\<close>

definition until_length :: "nat \<Rightarrow> string \<Rightarrow> nat" where
  "until_length limit s = min limit (min (length s) (Suc (length (takeWhile (\<lambda>c. c \<noteq> newline) s))))"

definition read_until :: "nat \<Rightarrow> reader \<Rightarrow> (string + string) \<times> reader" where
  "read_until limit r =
     (let n = until_length limit (rd_bytes r); frame = take n (rd_bytes r);
          rest = r\<lparr>rd_bytes := drop n (rd_bytes r)\<rparr> in
      case rd_error r of
        None \<Rightarrow> (Inr frame, rest)
      | Some e \<Rightarrow> if n < limit \<and> (frame = [] \<or> last frame \<noteq> newline) then (Inl e, rest) else (Inr frame, rest))"

definition decode_frame :: "(string \<Rightarrow> string + 'a) \<Rightarrow> string \<Rightarrow> protocol_error + 'a option" where
  "decode_frame from_slice frame =
     (if frame = [] then Inr None
      else if last frame \<noteq> newline then
        Inl (if MAX_FRAME_BYTES < length frame then FrameTooLarge else MissingNewline)
      else if MAX_FRAME_BYTES < length (butlast frame) then Inl FrameTooLarge
      else map_err InvalidJson (andthen (from_slice (butlast frame)) (\<lambda>v. Inr (Some v))))"

definition read_json_line :: "(string \<Rightarrow> string + 'a) \<Rightarrow> reader \<Rightarrow> (protocol_error + 'a option) \<times> reader" where
  "read_json_line from_slice r =
     (case read_until (MAX_FRAME_BYTES + 2) r of
        (Inl e, rest) \<Rightarrow> (Inl (PrIo e), rest)
      | (Inr frame, rest) \<Rightarrow> (decode_frame from_slice frame, rest))"

text \<open>A writer takes bytes until it fails: the room left, if it is limited, and the error then.\<close>

record writer =
  wr_bytes :: string
  wr_room :: "nat option"
  wr_error :: string

definition write_all :: "string \<Rightarrow> writer \<Rightarrow> (string + unit) \<times> writer" where
  "write_all s w =
     (case wr_room w of
        None \<Rightarrow> (Inr (), w\<lparr>wr_bytes := wr_bytes w @ s\<rparr>)
      | Some n \<Rightarrow>
          (if length s \<le> n then Inr () else Inl (wr_error w),
           w\<lparr>wr_bytes := wr_bytes w @ take n s, wr_room := Some (n - length s)\<rparr>))"

definition write_frame :: "('a \<Rightarrow> string + string) \<Rightarrow> 'a \<Rightarrow> writer \<Rightarrow> (protocol_error + unit) \<times> writer" where
  "write_frame to_vec v w =
     (case to_vec v of
        Inl e \<Rightarrow> (Inl (InvalidJson e), w)
      | Inr frame \<Rightarrow>
          if MAX_FRAME_BYTES < length frame then (Inl FrameTooLarge, w)
          else case write_all frame w of
            (Inl e, w') \<Rightarrow> (Inl (PrIo e), w')
          | (Inr _, w') \<Rightarrow> (case write_all [newline] w' of
                (Inl e, w'') \<Rightarrow> (Inl (PrIo e), w'')
              | (Inr _, w'') \<Rightarrow> (Inr (), w'')))"

section \<open>What a frame is\<close>

lemma takeWhile_newline: "newline \<notin> set body \<Longrightarrow> takeWhile (\<lambda>c. c \<noteq> newline) (body @ newline # s) = body"
  by (induction body) auto

lemma until_line:
  "newline \<notin> set body \<Longrightarrow> until_length limit (body @ newline # s) = min limit (Suc (length body))"
  by (simp add: until_length_def takeWhile_newline)

lemma line_cases:
  obtains (line) body s where "t = body @ newline # s" "newline \<notin> set body"
    | (rest) "newline \<notin> set t"
  using split_list_first [of newline t] by blast

lemma read_line:
  assumes "newline \<notin> set body" and "rd_bytes r = body @ newline # s" and "length body \<le> MAX_FRAME_BYTES"
  shows "read_json_line from_slice r =
    (map_err InvalidJson (andthen (from_slice body) (\<lambda>v. Inr (Some v))), r\<lparr>rd_bytes := s\<rparr>)"
proof -
  have "until_length (MAX_FRAME_BYTES + 2) (rd_bytes r) = Suc (length body)"
    using assms by (simp add: until_line)
  then have "read_until (MAX_FRAME_BYTES + 2) r = (Inr (body @ [newline]), r\<lparr>rd_bytes := s\<rparr>)"
    using assms(2) by (simp add: read_until_def Let_def split: option.splits)
  then show ?thesis using assms(3) by (simp add: read_json_line_def decode_frame_def)
qed

lemma write_frame_bytes:
  assumes "to_vec v = Inr frame" and "length frame \<le> MAX_FRAME_BYTES" and "wr_room w = None"
  shows "write_frame to_vec v w = (Inr (), w\<lparr>wr_bytes := wr_bytes w @ frame @ [newline]\<rparr>)"
  using assms by (simp add: write_frame_def write_all_def)

text \<open>
  What one side writes the other side reads: a value whose JSON text fits the limit
  is written as a single line and read back as the same value, and the bytes that follow it
  stay in the stream for the next frame. The hypotheses are that the text is parsed back to
  the value it was printed from, and that it contains no newline.
\<close>

theorem frame_round_trip:
  assumes "to_vec v = Inr frame" and "from_slice frame = Inr v" and "newline \<notin> set frame"
    and "length frame \<le> MAX_FRAME_BYTES"
  shows "fst (write_frame to_vec v \<lparr>wr_bytes = [], wr_room = None, wr_error = e\<rparr>) = Inr ()
    \<and> read_json_line from_slice
        \<lparr>rd_bytes = wr_bytes (snd (write_frame to_vec v \<lparr>wr_bytes = [], wr_room = None, wr_error = e\<rparr>)) @ s,
         rd_error = e'\<rparr> = (Inr (Some v), \<lparr>rd_bytes = s, rd_error = e'\<rparr>)"
  using write_frame_bytes [of to_vec v frame "\<lparr>wr_bytes = [], wr_room = None, wr_error = e\<rparr>"] assms(1)
    read_line [OF assms(3), of "\<lparr>rd_bytes = frame @ newline # s, rd_error = e'\<rparr>" s from_slice] assms(2,4)
  by simp

text \<open>A number printed in decimal and read back.\<close>

lemma frame_round_trip_witness:
  "read_json_line (\<lambda>t. if t = ''7'' then Inr (7 :: nat) else Inl ''bad'')
     \<lparr>rd_bytes = wr_bytes (snd (write_frame (\<lambda>n. Inr (show_nat n)) 7 \<lparr>wr_bytes = [], wr_room = None, wr_error = []\<rparr>)) @ ''x'',
      rd_error = None\<rparr> = (Inr (Some 7), \<lparr>rd_bytes = ''x'', rd_error = None\<rparr>)"
proof -
  have "show_nat 7 = ''7''" by code_simp
  then show ?thesis
    using frame_round_trip [of "\<lambda>n. Inr (show_nat n)" 7 "''7''" "\<lambda>t. if t = ''7'' then Inr 7 else Inl ''bad''" "[]" "''x''" None]
    by (simp add: newline_def MAX_FRAME_BYTES_def)
qed

text \<open>A frame that is accepted is a line: the rest of the stream starts after its newline.\<close>

lemma frame_is_line:
  assumes d: "decode_frame from_slice (take n t) = Inr (Some v)" and n: "n = until_length limit t"
  shows "\<exists>body. t = body @ newline # drop n t \<and> newline \<notin> set body \<and> length body \<le> MAX_FRAME_BYTES \<and> from_slice body = Inr v"
proof -
  let ?frame = "take n t"
  from d have l: "?frame \<noteq> []" "last ?frame = newline" "length (butlast ?frame) \<le> MAX_FRAME_BYTES"
    "from_slice (butlast ?frame) = Inr v"
    by (auto simp: decode_frame_def res_simps split: if_splits)
  then have f: "?frame = butlast ?frame @ [newline]" by (metis append_butlast_last_id)
  have "newline \<notin> set (butlast ?frame)"
  proof (cases t rule: line_cases)
    case (line body s)
    have le: "n \<le> length (body @ [newline])" using line by (simp add: n until_line)
    have "?frame = take n ((body @ [newline]) @ s)" by (rule arg_cong [of _ _ "take n"]) (use line(1) in simp)
    also have "\<dots> = take n (body @ [newline])" using le by (subst take_append) simp
    finally have "butlast ?frame = take (n - 1) (body @ [newline])" by (simp only: butlast_take [OF le])
    moreover have "n - 1 \<le> length body" using le by simp
    ultimately have "set (butlast ?frame) \<subseteq> set body" using set_take_subset [of "n - 1" body] by simp
    with line(2) show ?thesis by blast
  next
    case rest
    then show ?thesis by (meson in_set_butlastD in_set_takeD)
  qed
  moreover have "t = butlast ?frame @ newline # drop n t"
    using f append_take_drop_id [of n t] by (metis append.assoc append_Cons append_Nil)
  ultimately show ?thesis using l(3,4) by blast
qed

text \<open>
  Claim C33. Reading a frame is bounded and decided by the bytes alone: at most two bytes over
  the limit are taken whatever the peer sends, a value is returned only for a newline-free
  text within the limit that is followed by a newline, and only an empty stream ends the
  connection quietly.
\<close>

theorem read_frame_bounds:
  assumes "read_json_line from_slice r = (res, r')"
  shows "(\<exists>taken. rd_bytes r = taken @ rd_bytes r' \<and> length taken \<le> MAX_FRAME_BYTES + 2)
    \<and> (\<forall>v. res = Inr (Some v) \<longrightarrow> (\<exists>body. rd_bytes r = body @ newline # rd_bytes r' \<and> newline \<notin> set body
          \<and> length body \<le> MAX_FRAME_BYTES \<and> from_slice body = Inr v))
    \<and> (res = Inr None \<longrightarrow> rd_bytes r = [] \<and> rd_error r = None)"
proof -
  let ?n = "until_length (MAX_FRAME_BYTES + 2) (rd_bytes r)"
  let ?frame = "take ?n (rd_bytes r)"
  have r': "r' = r\<lparr>rd_bytes := drop ?n (rd_bytes r)\<rparr>"
    and res: "res = decode_frame from_slice ?frame \<or> (\<exists>e. rd_error r = Some e \<and> res = Inl (PrIo e))"
    and none: "?frame = [] \<Longrightarrow> res = Inr None \<Longrightarrow> rd_error r = None"
    using assms by (auto simp: read_json_line_def read_until_def Let_def until_length_def split: option.splits if_splits)
  have n: "?n \<le> MAX_FRAME_BYTES + 2" by (simp add: until_length_def)
  have split: "rd_bytes r = ?frame @ rd_bytes r'" by (simp add: r')
  have first: "\<exists>taken. rd_bytes r = taken @ rd_bytes r' \<and> length taken \<le> MAX_FRAME_BYTES + 2"
    using split n by (intro exI [of _ ?frame]) simp
  have second: "\<exists>body. rd_bytes r = body @ newline # rd_bytes r' \<and> newline \<notin> set body
          \<and> length body \<le> MAX_FRAME_BYTES \<and> from_slice body = Inr v" if "res = Inr (Some v)" for v
    using that res frame_is_line [of from_slice ?n "rd_bytes r" v "MAX_FRAME_BYTES + 2"] by (auto simp: r')
  have third: "rd_bytes r = [] \<and> rd_error r = None" if none': "res = Inr None"
  proof -
    from none' res have "decode_frame from_slice ?frame = Inr None" by auto
    then have "?frame = []" by (auto simp: decode_frame_def res_simps split: if_splits)
    moreover have "?n \<noteq> 0" if "rd_bytes r \<noteq> []" using that by (simp add: until_length_def)
    ultimately have "rd_bytes r = []" by (metis take_eq_Nil)
    with none none' \<open>?frame = []\<close> show ?thesis by simp
  qed
  from first second third show ?thesis by blast
qed

lemma read_frame_bounds_witness:
  "\<exists>taken. ''7'' @ [newline] @ ''x'' = taken @ ''x'' \<and> length taken \<le> MAX_FRAME_BYTES + 2"
proof -
  have "read_json_line Inr \<lparr>rd_bytes = ''7'' @ [newline] @ ''x'', rd_error = None\<rparr>
      = (Inr (Some ''7''), \<lparr>rd_bytes = ''x'', rd_error = None\<rparr>)"
    by (subst read_line [of "''7''" _ "''x''"]) (simp_all add: newline_def MAX_FRAME_BYTES_def)
  from read_frame_bounds [OF this] show ?thesis by simp
qed

section \<open>Validation\<close>

text \<open>
  A response that passes validation for a request carries exactly one of a result
  and an error, as its flag says, so that the client may take it without a further check; and
  every response the daemon builds for a request passes it.
\<close>

theorem response_shape:
  "(validate_response r request = Inr () \<longleftrightarrow>
     rs_version r = VERSION \<and> rs_request r = request
     \<and> (if rs_ok r then \<exists>v. rs_result r = Some v \<and> rs_error r = None
        else rs_result r = None \<and> (\<exists>e. rs_error r = Some e)))
   \<and> validate_response (success request v) request = Inr ()
   \<and> validate_response (failure request code message :: 'j response) request = Inr ()"
proof (intro conjI)
  show "validate_response r request = Inr () \<longleftrightarrow>
     rs_version r = VERSION \<and> rs_request r = request
     \<and> (if rs_ok r then \<exists>v. rs_result r = Some v \<and> rs_error r = None
        else rs_result r = None \<and> (\<exists>e. rs_error r = Some e))"
    by (cases "rs_result r"; cases "rs_error r"; simp add: validate_response_def)
qed (simp_all add: validate_response_def success_def failure_def)

end
