(* ===== verification/Cli.thy ===== *)
theory Cli
  imports Resources Protocol
begin

text \<open>
  The command line (\<^verbatim>\<open>src/cli.rs\<close>): parsing of the arguments, the local checks of each command,
  the request it sends to the daemon and the rendering of the reply. Arguments are byte
  strings; what the surroundings answer (the environment, the file system, the socket, the
  clock) is one record. A run gives the lines printed on both streams and the exit code.
\<close>

section \<open>Arguments\<close>

definition HELP :: "string list" where
  "HELP =
     [''Termux Stacks'', '''', ''Usage:'', ''  termux-stacks --help'', ''  termux-stacks --version'',
      ''  termux-stacks config validate FILE'', ''  termux-stacks up FILE'', ''  termux-stacks status STACK'',
      ''  termux-stacks down STACK'', ''  termux-stacks logs STACK SERVICE [--tail N]'',
      ''  termux-stacks restart STACK SERVICE'', ''  termux-stacks daemon'', '''', ''Commands:'',
      ''  config validate FILE  Validate the supported manifest profile locally'',
      ''  up FILE               Reconcile the stack described by FILE'',
      ''  status STACK           Show the persisted and observed stack state'',
      ''  down STACK             Stop the stack; retain rootfs, logs, and volumes'',
      ''  logs STACK SERVICE     Show up to 200 lines from the service logs'',
      ''  restart STACK SERVICE  Restart a service on its current rootfs'',
      ''  daemon                 Run the foreground control-plane process'', '''',
      ''The M1 MVP supports multiple stacks and services within Termux'' @ [CHR 0x27] @ ''s limits.'']"

datatype command =
    Help
  | Show_Version
  | ConfigValidate string
  | Up string
  | Status string
  | Down string
  | Logs string string "16 word"
  | Restart string string
  | Daemon

definition quote :: "string \<Rightarrow> seg" where
  "quote v = Dbg (utf8_lossy v)"

definition no_extra_args :: "string list \<Rightarrow> command \<Rightarrow> msg + command" where
  "no_extra_args args c = (case args of
     extra # _ \<Rightarrow> Inl [Txt ''unexpected argument '', quote extra]
   | [] \<Rightarrow> Inr c)"

definition next_utf8 :: "string list \<Rightarrow> string \<Rightarrow> msg + (string \<times> string list)" where
  "next_utf8 args missing = (case args of
     [] \<Rightarrow> Inl [Txt missing]
   | v # rest \<Rightarrow> if utf8_valid v then Inr (v, rest) else Inl [Txt ''argument must be UTF-8, got '', quote v])"

definition parse_log_tail :: "string \<Rightarrow> msg + 16 word" where
  "parse_log_tail v =
     (let bad = [Txt ''logs --tail must be a decimal integer from 1 to '', Num (uint MAX_LOG_TAIL)] in
      if v = [] \<or> \<not> list_all is_digit v then Inl bad
      else case parse_u16 v of
        None \<Rightarrow> Inl bad
      | Some n \<Rightarrow> if (word_of_int n :: 16 word) = 0 \<or> MAX_LOG_TAIL < word_of_int n then Inl bad else Inr (word_of_int n))"

definition parse_logs :: "string list \<Rightarrow> msg + command" where
  "parse_logs args =
     andthen (next_utf8 args ''missing stack argument for logs'') (\<lambda>(stack, args1).
       andthen (next_utf8 args1 ''missing service argument for logs'') (\<lambda>(service, args2).
         case args2 of
           [] \<Rightarrow> Inr (Logs stack service DEFAULT_LOG_TAIL)
         | option # args3 \<Rightarrow>
             if option \<noteq> ''--tail'' then Inl [Txt ''unexpected argument '', quote option]
             else (case args3 of
                [] \<Rightarrow> Inl [Txt ''missing value for logs --tail'']
              | raw # args4 \<Rightarrow>
                  if \<not> utf8_valid raw then Inl [Txt ''logs --tail must be UTF-8, got '', quote raw]
                  else andthen (parse_log_tail raw) (\<lambda>n. no_extra_args args4 (Logs stack service n)))))"

definition parse_service_command :: "string list \<Rightarrow> string \<Rightarrow> (string \<Rightarrow> string \<Rightarrow> command) \<Rightarrow> msg + command" where
  "parse_service_command args name build =
     andthen (next_utf8 args (''missing stack argument for '' @ name)) (\<lambda>(stack, args1).
       andthen (next_utf8 args1 (''missing service argument for '' @ name)) (\<lambda>(service, args2).
         no_extra_args args2 (build stack service)))"

definition one_path_arg :: "string list \<Rightarrow> string \<Rightarrow> (string \<Rightarrow> command) \<Rightarrow> msg + command" where
  "one_path_arg args name build = (case args of
     [] \<Rightarrow> Inl [Txt ''missing argument for '', Txt name]
   | v # rest \<Rightarrow> no_extra_args rest (build v))"

definition one_string_arg :: "string list \<Rightarrow> string \<Rightarrow> (string \<Rightarrow> command) \<Rightarrow> msg + command" where
  "one_string_arg args name build = (case args of
     [] \<Rightarrow> Inl [Txt ''missing argument for '', Txt name]
   | v # rest \<Rightarrow> if utf8_valid v then no_extra_args rest (build v)
                 else Inl [Txt ''argument must be UTF-8, got '', quote v])"

definition parse_config :: "string list \<Rightarrow> msg + command" where
  "parse_config args = (case args of
     [] \<Rightarrow> Inl [Txt ''missing config action; expected '', Dbg ''validate'']
   | action # rest \<Rightarrow>
       if action \<noteq> ''validate'' then Inl [Txt ''unknown config action '', quote action]
       else (case rest of
          [] \<Rightarrow> Inl [Txt ''missing manifest path for config validate'']
        | path # rest' \<Rightarrow> no_extra_args rest' (ConfigValidate path)))"

definition parse_args :: "string list \<Rightarrow> msg + command" where
  "parse_args args = (case args of
     [] \<Rightarrow> Inr Help
   | first # rest \<Rightarrow>
       if first = ''-h'' \<or> first = ''--help'' then no_extra_args rest Help
       else if first = ''-V'' \<or> first = ''--version'' then no_extra_args rest Show_Version
       else if first = ''config'' then parse_config rest
       else if first = ''up'' then one_path_arg rest ''up'' Up
       else if first = ''status'' then one_string_arg rest ''status'' Status
       else if first = ''down'' then one_string_arg rest ''down'' Down
       else if first = ''logs'' then parse_logs rest
       else if first = ''restart'' then parse_service_command rest ''restart'' Restart
       else if first = ''daemon'' then
         (case rest of
            [] \<Rightarrow> Inr Daemon
          | second # rest' \<Rightarrow>
              if (second = ''-h'' \<or> second = ''--help'') \<and> rest' = [] then Inr Help
              else Inl [Txt ''unexpected argument '', quote second])
       else Inl [Txt ''unknown command or option '', quote first])"

section \<open>Running a command\<close>

text \<open>The peer of the control socket: what it does with the bytes written, and what it sends.\<close>

record stream =
  sk_writer :: writer
  sk_shutdown :: "string + unit"
  sk_reply :: "string \<Rightarrow> reader"

record 'j cli_env =
  ce_version :: string
  ce_prefix :: "string option"
  ce_pid :: nat
  ce_nanos :: nat
  ce_sequence :: nat
  ce_scan :: "string \<Rightarrow> (string + spanned) list"
  ce_manifest_meta :: "string \<Rightarrow> string + file_meta"
  ce_manifest_text :: "string \<Rightarrow> string + string"
  ce_follow :: follow
  ce_fs :: fs
  ce_connect :: "string \<Rightarrow> string + stream"
  ce_to_vec :: "request \<Rightarrow> string + string"
  ce_from_slice :: "string \<Rightarrow> string + 'j response"
  ce_pretty :: "'j \<Rightarrow> string"
  ce_daemon :: "msg + unit"

record cli_outcome =
  co_out :: "msg list"
  co_err :: "msg list"
  co_code :: nat

definition exit_ok :: "msg list \<Rightarrow> cli_outcome" where
  "exit_ok ms = \<lparr>co_out = ms, co_err = [], co_code = 0\<rparr>"

definition exit_failure :: "string \<Rightarrow> msg \<Rightarrow> cli_outcome" where
  "exit_failure c m = \<lparr>co_out = [], co_err = [[Txt ''termux-stacks '', Txt c, Txt '': ''] @ m], co_code = 1\<rparr>"

definition coded :: "string \<Rightarrow> msg \<Rightarrow> msg" where
  "coded c m = [Txt ''['', Txt c, Txt ''] ''] @ m"

definition new_request_id :: "'j cli_env \<Rightarrow> string" where
  "new_request_id w = show_nat (ce_pid w) @ ''-'' @ show_hex (ce_nanos w) @ ''-'' @ show_hex (ce_sequence w)"

definition cli_manifest_base :: "'j cli_env \<Rightarrow> string \<Rightarrow> msg + string" where
  "cli_manifest_base w path =
     (let parent = (case path_parent path of None \<Rightarrow> ''.'' | Some p \<Rightarrow> if p = [] then ''.'' else p) in
      andthen (map_err (\<lambda>e. [Txt ''cannot resolve manifest directory '', Txt (utf8_lossy parent), Txt '': '', Txt e])
        (fo_canonicalize (ce_follow w) (ce_fs w) parent)) (\<lambda>canonical.
      andthen (map_err (\<lambda>e. [Txt ''cannot inspect manifest directory '', Txt (utf8_lossy canonical), Txt '': '', Txt e])
        (fo_metadata (ce_follow w) (ce_fs w) canonical)) (\<lambda>n.
      if \<not> is_dir n then Inl [Txt ''manifest base is not a directory: '', Txt (utf8_lossy canonical)]
      else if utf8_valid canonical then Inr canonical
      else Inl [Txt ''manifest directory must be UTF-8, got '', quote canonical])))"

definition send_control :: "'j cli_env \<Rightarrow> string \<Rightarrow> request \<Rightarrow> cli_outcome" where
  "send_control w c q =
     (case ce_prefix w of
        None \<Rightarrow> exit_failure c [Txt ''PREFIX is not set'']
      | Some prefix \<Rightarrow>
          if \<not> is_absolute prefix then exit_failure c [Txt ''PREFIX must be absolute'']
          else case ce_connect w (pa_socket_path (new_paths prefix)) of
            Inl e \<Rightarrow> exit_failure c [Txt ''cannot connect to daemon: '', Txt e]
          | Inr s \<Rightarrow>
              (case write_frame (ce_to_vec w) q (sk_writer s) of
                 (Inl e, _) \<Rightarrow> exit_failure c (protocol_text e)
               | (Inr _, written) \<Rightarrow>
                   (case sk_shutdown s of
                      Inl e \<Rightarrow> exit_failure c [Txt ''cannot finish request: '', Txt e]
                    | Inr _ \<Rightarrow>
                        (case fst (read_json_line (ce_from_slice w) (sk_reply s (wr_bytes written))) of
                           Inl e \<Rightarrow> exit_failure c (protocol_text e)
                         | Inr None \<Rightarrow> exit_failure c [Txt ''daemon closed the connection without a response'']
                         | Inr (Some r) \<Rightarrow>
                             (case validate_response r (request_id q) of
                                Inl e \<Rightarrow> exit_failure c (protocol_text e)
                              | Inr _ \<Rightarrow>
                                  if rs_ok r then exit_ok [[Txt (ce_pretty w (the (rs_result r)))]]
                                  else exit_failure c (coded (re_code (the (rs_error r))) (re_message (the (rs_error r)))))))))"

definition send_named_request :: "'j cli_env \<Rightarrow> string \<Rightarrow> string \<Rightarrow> (string \<Rightarrow> string \<Rightarrow> request) \<Rightarrow> cli_outcome" where
  "send_named_request w c stack build =
     (case validate_stack_name stack of
        Inl e \<Rightarrow> exit_failure c (coded (kind_code (err_kind e)) (error_text e))
      | Inr _ \<Rightarrow> send_control w c (build (new_request_id w) stack))"

definition validate_cli_name :: "string \<Rightarrow> string \<Rightarrow> string \<Rightarrow> cli_outcome + unit" where
  "validate_cli_name c kind v =
     (case validate_stack_name v of
        Inl e \<Rightarrow> Inl (exit_failure c (coded (kind_code (err_kind e))
          [Txt ''invalid '', Txt kind, Txt '' name '', Dbg v,
           Txt '': names must match ^[a-z][a-z0-9-]{0,47}$ and must not start with termux-stacks-'']))
      | Inr _ \<Rightarrow> Inr ())"

definition send_service_request ::
    "'j cli_env \<Rightarrow> string \<Rightarrow> string \<Rightarrow> string \<Rightarrow> (string \<Rightarrow> string \<Rightarrow> string \<Rightarrow> request) \<Rightarrow> cli_outcome" where
  "send_service_request w c stack service build =
     (case andthen (validate_cli_name c ''stack'' stack) (\<lambda>_. validate_cli_name c ''service'' service) of
        Inl refused \<Rightarrow> refused
      | Inr _ \<Rightarrow> send_control w c (build (new_request_id w) stack service))"

definition cli_load :: "'j cli_env \<Rightarrow> string \<Rightarrow> panic + (manifest_error + manifest \<times> string)" where
  "cli_load w path = load (ce_scan w) path (ce_manifest_meta w path) (ce_manifest_text w path)"

definition show_names :: "string list \<Rightarrow> msg" where
  "show_names ns = [Txt ''[''] @ concat (map (\<lambda>(i, n). if i = 0 then [Dbg n] else [Txt '', '', Dbg n]) (enumerate 0 ns)) @ [Txt '']'']"

definition run_config_validate :: "'j cli_env \<Rightarrow> string \<Rightarrow> panic + cli_outcome" where
  "run_config_validate w path =
     andthen (cli_load w path) (\<lambda>r. Inr (case r of
       Inl e \<Rightarrow> exit_failure ''config validate'' (coded (kind_code (err_kind e)) (error_text e))
     | Inr (m, _) \<Rightarrow>
         (case cli_manifest_base w path of
            Inl e \<Rightarrow> exit_failure ''config validate'' (coded ''io'' e)
          | Inr base \<Rightarrow>
              (case validate_bind_sources (ce_follow w) (ce_fs w) base m of
                 Inl e \<Rightarrow> exit_failure ''config validate'' (coded ''invalid_resource'' (resource_error_text e))
               | Inr _ \<Rightarrow> exit_ok [[Txt ''valid stack '', Dbg (mf_name m), Txt '': '', Num (int (length (mf_services m))),
                   Txt '' service(s) ''] @ show_names (bt_keys (mf_services m))]))))"

definition run_up :: "'j cli_env \<Rightarrow> string \<Rightarrow> panic + cli_outcome" where
  "run_up w path =
     andthen (cli_load w path) (\<lambda>r. Inr (case r of
       Inl e \<Rightarrow> exit_failure ''up'' (coded (kind_code (err_kind e)) (error_text e))
     | Inr (_, source) \<Rightarrow>
         (case cli_manifest_base w path of
            Inl e \<Rightarrow> exit_failure ''up'' (coded ''io'' e)
          | Inr base \<Rightarrow> send_control w ''up'' (Up_Request VERSION (new_request_id w) source base))))"

definition cli_run :: "'j cli_env \<Rightarrow> string list \<Rightarrow> panic + cli_outcome" where
  "cli_run w args =
     (case parse_args args of
        Inr Help \<Rightarrow> Inr (exit_ok (map (\<lambda>l. [Txt l]) HELP))
      | Inr Show_Version \<Rightarrow> Inr (exit_ok [[Txt ''termux-stacks '', Txt (ce_version w)]])
      | Inr (ConfigValidate path) \<Rightarrow> run_config_validate w path
      | Inr (Up path) \<Rightarrow> run_up w path
      | Inr (Status stack) \<Rightarrow> Inr (send_named_request w ''status'' stack (Status_Request VERSION))
      | Inr (Down stack) \<Rightarrow> Inr (send_named_request w ''down'' stack (Down_Request VERSION))
      | Inr (Logs stack service n) \<Rightarrow>
          Inr (send_service_request w ''logs'' stack service (\<lambda>r st sv. Logs_Request VERSION r st sv n))
      | Inr (Restart stack service) \<Rightarrow> Inr (send_service_request w ''restart'' stack service (Restart_Request VERSION))
      | Inr Daemon \<Rightarrow>
          (case ce_daemon w of
             Inr _ \<Rightarrow> Inr (exit_ok [])
           | Inl e \<Rightarrow> Inr (exit_failure ''daemon'' e))
      | Inl e \<Rightarrow> Inr \<lparr>co_out = [],
          co_err = [[Txt ''termux-stacks: ''] @ e, [Txt ''Try '' , Txt ([CHR 0x27] @ ''termux-stacks --help'' @ [CHR 0x27]), Txt '' for usage.'']],
          co_code = 2\<rparr>)"

text \<open>The program (\<^verbatim>\<open>src/main.rs\<close>): its own name is skipped.\<close>

definition program_main :: "'j cli_env \<Rightarrow> string list \<Rightarrow> panic + cli_outcome" where
  "program_main w argv = cli_run w (drop 1 argv)"

section \<open>The grammar of the command line\<close>

text \<open>What the help text promises, as the argument lists of each command.\<close>

fun spells :: "command \<Rightarrow> string list \<Rightarrow> bool" where
  "spells Help args \<longleftrightarrow> args \<in> {[], [''-h''], [''--help''], [''daemon'', ''-h''], [''daemon'', ''--help'']}"
| "spells Show_Version args \<longleftrightarrow> args \<in> {[''-V''], [''--version'']}"
| "spells (ConfigValidate p) args \<longleftrightarrow> args = [''config'', ''validate'', p]"
| "spells (Up p) args \<longleftrightarrow> args = [''up'', p]"
| "spells (Status s) args \<longleftrightarrow> args = [''status'', s] \<and> utf8_valid s"
| "spells (Down s) args \<longleftrightarrow> args = [''down'', s] \<and> utf8_valid s"
| "spells (Logs s v n) args \<longleftrightarrow> utf8_valid s \<and> utf8_valid v \<and>
     (args = [''logs'', s, v] \<and> n = 200
      \<or> (\<exists>t. args = [''logs'', s, v, ''--tail'', t] \<and> t \<noteq> [] \<and> list_all is_digit t
            \<and> digits_val t = uint n \<and> 1 \<le> n \<and> n \<le> 200))"
| "spells (Restart s v) args \<longleftrightarrow> args = [''restart'', s, v] \<and> utf8_valid s \<and> utf8_valid v"
| "spells Daemon args \<longleftrightarrow> args = [''daemon'']"

lemma no_extra_args_Inr [res_simps]: "no_extra_args args c = Inr c' \<longleftrightarrow> args = [] \<and> c' = c"
  by (auto simp: no_extra_args_def split: list.splits)

lemma next_utf8_Inr [res_simps]: "next_utf8 args m = Inr (v, rest) \<longleftrightarrow> args = v # rest \<and> utf8_valid v"
  by (auto simp: next_utf8_def split: list.splits if_splits)

lemma u16_bounds: "(n :: 16 word) \<le> 200 \<longleftrightarrow> uint n \<le> 200" "1 \<le> n \<longleftrightarrow> 0 < uint n" "n = 0 \<longleftrightarrow> uint n = 0"
  by (auto simp: word_le_def uint_0_iff)

lemma parse_log_tail_Inr [res_simps]:
  "parse_log_tail t = Inr n \<longleftrightarrow>
     t \<noteq> [] \<and> list_all is_digit t \<and> digits_val t = uint n \<and> 1 \<le> n \<and> n \<le> 200"
proof (cases "t \<noteq> [] \<and> list_all is_digit t")
  case True
  then have p: "parse_u16 t = (if digits_val t < 2 ^ 16 then Some (digits_val t) else None)"
    using digits_val_nonneg [of t] by (simp add: parse_u16_def parse_int_digits)
  have word: "uint (word_of_int (digits_val t) :: 16 word) = digits_val t" if "digits_val t < 2 ^ 16"
    using that True digits_val_nonneg [of t] by (simp add: uint_word_of_int)
  show ?thesis
  proof (cases "digits_val t < 2 ^ 16")
    case small: True
    have "word_of_int (digits_val t) = n \<longleftrightarrow> digits_val t = uint n"
      using word [OF small] by auto
    then show ?thesis using True small p word [OF small] digits_val_nonneg [of t]
      by (auto simp: parse_log_tail_def MAX_LOG_TAIL_def Let_def u16_bounds not_less word_less_def)
  next
    case False
    then show ?thesis using True p uint_lt2p [of n] by (auto simp: parse_log_tail_def Let_def)
  qed
qed (auto simp: parse_log_tail_def Let_def)

lemma parse_logs_Inr [res_simps]:
  "parse_logs args = Inr c \<longleftrightarrow>
     (\<exists>s v. utf8_valid s \<and> utf8_valid v \<and>
        (args = [s, v] \<and> c = Logs s v 200
         \<or> (\<exists>t n. args = [s, v, ''--tail'', t] \<and> utf8_valid t \<and> parse_log_tail t = Inr n \<and> c = Logs s v n)))"
proof -
  consider "args = []" | s where "args = [s]" | s v where "args = [s, v]" | s v x where "args = [s, v, x]"
    | s v x t r where "args = s # v # x # t # r"
    by (metis list.exhaust)
  then show ?thesis
    by cases (auto simp: parse_logs_def next_utf8_def no_extra_args_def DEFAULT_LOG_TAIL_def andthen_def
        split: sum.splits list.splits)
qed

lemma digits_utf8: "list_all is_digit t \<Longrightarrow> utf8_valid t"
  by (rule utf8_valid_ascii) (auto simp: list_all_iff is_digit_def less_eq_char_def byte_def)

lemma parse_config_Inr [res_simps]:
  "parse_config args = Inr c \<longleftrightarrow> (\<exists>p. c = ConfigValidate p \<and> args = [''validate'', p])"
  by (auto simp: parse_config_def res_simps split: list.splits if_splits)

lemma one_path_arg_Inr [res_simps]: "one_path_arg args m build = Inr c \<longleftrightarrow> (\<exists>v. args = [v] \<and> c = build v)"
  by (auto simp: one_path_arg_def res_simps split: list.splits)

lemma one_string_arg_Inr [res_simps]:
  "one_string_arg args m build = Inr c \<longleftrightarrow> (\<exists>v. args = [v] \<and> utf8_valid v \<and> c = build v)"
  by (auto simp: one_string_arg_def res_simps split: list.splits if_splits)

lemma parse_service_command_Inr [res_simps]:
  "parse_service_command args m build = Inr c \<longleftrightarrow>
     (\<exists>s v. args = [s, v] \<and> utf8_valid s \<and> utf8_valid v \<and> c = build s v)"
  by (auto simp: parse_service_command_def res_simps)

lemma parse_args_spells:
  "parse_args args = Inr c \<longleftrightarrow> spells c args"
proof (cases args)
  case Nil
  then show ?thesis by (cases c) (auto simp: parse_args_def)
next
  case (Cons first rest)
  consider "first \<in> {''-h'', ''--help''}" | "first \<in> {''-V'', ''--version''}" | "first = ''config''" | "first = ''up''"
    | "first = ''status''" | "first = ''down''" | "first = ''logs''" | "first = ''restart''" | "first = ''daemon''"
    | "first \<notin> {''-h'', ''--help'', ''-V'', ''--version'', ''config'', ''up'', ''status'', ''down'', ''logs'', ''restart'', ''daemon''}"
    by (simp only: insert_iff empty_iff) argo
  then show ?thesis
  proof cases
    case 1
    with Cons show ?thesis by (cases c) (auto simp: parse_args_def res_simps)
  next
    case 2
    with Cons show ?thesis by (cases c) (auto simp: parse_args_def res_simps)
  next
    case 3
    with Cons show ?thesis by (cases c) (auto simp: parse_args_def res_simps)
  next
    case 4
    with Cons show ?thesis by (cases c) (auto simp: parse_args_def res_simps)
  next
    case 5
    with Cons show ?thesis by (cases c) (auto simp: parse_args_def res_simps)
  next
    case 6
    with Cons show ?thesis by (cases c) (auto simp: parse_args_def res_simps)
  next
    case 7
    with Cons show ?thesis by (cases c) (auto simp: parse_args_def res_simps digits_utf8)
  next
    case 8
    with Cons show ?thesis by (cases c) (auto simp: parse_args_def res_simps)
  next
    case 9
    with Cons show ?thesis by (cases c) (auto simp: parse_args_def split: list.splits if_splits)
  next
    case 10
    with Cons show ?thesis by (cases c) (auto simp: parse_args_def)
  qed
qed

text \<open>
  Claim C39. The command line is parsed exactly as the help text describes it: a list of
  arguments is accepted as a command if and only if it is one of the spellings of that
  command. In particular no argument is ever ignored, and a log tail is a decimal number from
  1 to 200 without a sign.
\<close>

theorem parse_args_exact:
  "parse_args args = Inr c \<longleftrightarrow> spells c args"
  by (rule parse_args_spells)

lemma parse_args_logs: "parse_args args = Inr (Logs s v n) \<Longrightarrow> n \<noteq> 0 \<and> n \<le> 200"
  unfolding parse_args_spells by (auto simp: word_le_def uint_0_iff)

section \<open>What reaches the daemon\<close>

lemma hex_alnum: "c \<in> set (show_hex n) \<Longrightarrow> is_alnum c"
proof (induction n rule: show_hex.induct)
  case (1 n)
  have digit: "is_alnum (hex_char d)" if "d < 16" for d
  proof -
    from that have "d \<in> set [0..<16]" by simp
    then show ?thesis by (simp add: upt_rec) (elim disjE; simp; code_simp)
  qed
  show ?case
    using 1 digit by (subst (asm) (2) show_hex.simps) (auto split: if_splits)
qed

lemma length_show_hex: "n < 16 ^ Suc k \<Longrightarrow> length (show_hex n) \<le> Suc k"
proof (induction k arbitrary: n)
  case 0
  then show ?case by (simp add: show_hex.simps)
next
  case (Suc k)
  then have "n div 16 < 16 ^ Suc k" by (simp add: less_mult_imp_div_less mult.commute)
  then show ?case using Suc.IH by (subst show_hex.simps) auto
qed

lemma length_show_nat: "n < 10 ^ Suc k \<Longrightarrow> length (show_nat n) \<le> Suc k"
proof (induction k arbitrary: n)
  case 0
  then show ?case by (simp add: show_nat.simps)
next
  case (Suc k)
  then have "n div 10 < 10 ^ Suc k" by (simp add: less_mult_imp_div_less mult.commute)
  then show ?case using Suc.IH by (subst show_nat.simps) auto
qed

text \<open>The widths of the numbers an identifier is made of: 32, 128 and 64 bits.\<close>

definition clock_ok :: "'j cli_env \<Rightarrow> bool" where
  "clock_ok w \<longleftrightarrow> ce_pid w < 2 ^ 32 \<and> ce_nanos w < 2 ^ 128 \<and> ce_sequence w < 2 ^ 64"

lemma new_request_id_valid:
  assumes "clock_ok w"
  shows "valid_request_id (new_request_id w)"
proof -
  have "ce_pid w < 10 ^ Suc 9" "ce_nanos w < 16 ^ Suc 31" "ce_sequence w < 16 ^ Suc 15"
    using assms by (auto simp: clock_ok_def)
  from length_show_nat [OF this(1)] length_show_hex [OF this(2)] length_show_hex [OF this(3)]
  have "length (new_request_id w) \<le> 128" by (simp add: new_request_id_def)
  moreover have "is_alnum c" if "c \<in> set (show_nat n)" for c n
    using that show_nat_digits [of n] by (auto simp: list_all_iff is_alnum_def)
  ultimately show ?thesis using hex_alnum by (auto simp: valid_request_id_def new_request_id_def list_all_iff)
qed

fun request_names :: "request \<Rightarrow> string list" where
  "request_names (Up_Request _ _ _ _) = []"
| "request_names (Status_Request _ _ s) = [s]"
| "request_names (Down_Request _ _ s) = [s]"
| "request_names (Logs_Request _ _ s v _) = [s, v]"
| "request_names (Restart_Request _ _ s v) = [s, v]"

text \<open>A request the daemon accepts at its door, with names that can be the name of a stack or a service.\<close>

definition request_ok :: "request \<Rightarrow> bool" where
  "request_ok q \<longleftrightarrow> validate_envelope q = Inr () \<and> list_all valid_name (request_names q)"

lemma request_ok_simps [simp]:
  "request_ok (Up_Request v r m b) \<longleftrightarrow> v = VERSION \<and> valid_request_id r"
  "request_ok (Status_Request v r s) \<longleftrightarrow> v = VERSION \<and> valid_request_id r \<and> valid_name s"
  "request_ok (Down_Request v r s) \<longleftrightarrow> v = VERSION \<and> valid_request_id r \<and> valid_name s"
  "request_ok (Logs_Request v r s t n) \<longleftrightarrow>
     v = VERSION \<and> valid_request_id r \<and> n \<noteq> 0 \<and> n \<le> MAX_LOG_TAIL \<and> valid_name s \<and> valid_name t"
  "request_ok (Restart_Request v r s t) \<longleftrightarrow> v = VERSION \<and> valid_request_id r \<and> valid_name s \<and> valid_name t"
  by (auto simp: request_ok_def validate_envelope_def)

lemma named_request:
  assumes "\<And>r. valid_request_id r \<Longrightarrow> valid_name stack \<Longrightarrow> request_ok (build r stack)" and "clock_ok w"
  shows "(\<exists>c q. request_ok q \<and> send_named_request w cmd stack build = send_control w c q)
    \<or> (\<exists>o'. \<forall>k. send_named_request (w\<lparr>ce_connect := k\<rparr>) cmd stack build = o')"
proof (cases "valid_name stack")
  case True
  then have "validate_stack_name stack = Inr ()" by (simp add: validate_stack_name_def res_simps)
  then show ?thesis using assms(1) [OF new_request_id_valid [OF assms(2)] True]
    by (auto simp: send_named_request_def)
next
  case False
  then obtain e where "validate_stack_name stack = Inl e"
    by (auto simp: validate_stack_name_def validate_name_def)
  then show ?thesis by (simp add: send_named_request_def)
qed

lemma service_request:
  assumes "\<And>r. valid_request_id r \<Longrightarrow> valid_name stack \<Longrightarrow> valid_name service \<Longrightarrow> request_ok (build r stack service)"
    and "clock_ok w"
  shows "(\<exists>c q. request_ok q \<and> send_service_request w cmd stack service build = send_control w c q)
    \<or> (\<exists>o'. \<forall>k. send_service_request (w\<lparr>ce_connect := k\<rparr>) cmd stack service build = o')"
  using assms(1) [of "new_request_id w"] new_request_id_valid [OF assms(2)]
  by (auto simp: send_service_request_def validate_cli_name_def validate_stack_name_def andthen_def res_simps
      split: sum.splits)

lemma new_request_id_connect [simp]: "new_request_id (w\<lparr>ce_connect := k\<rparr>) = new_request_id w"
  "cli_load (w\<lparr>ce_connect := k\<rparr>) path = cli_load w path"
  "cli_manifest_base (w\<lparr>ce_connect := k\<rparr>) path = cli_manifest_base w path"
  by (simp_all add: new_request_id_def cli_load_def cli_manifest_base_def)

lemma run_config_validate_connect [simp]:
  "run_config_validate (w\<lparr>ce_connect := k\<rparr>) path = run_config_validate w path"
  by (simp add: run_config_validate_def cong: sum.case_cong prod.case_cong)

text \<open>
  Claim C40. Only valid requests reach the daemon. A run of the command line either is the
  exchange of one request whose version, identifier and log tail the daemon accepts and whose
  stack and service names are valid, or it never touches the control socket: its outcome is
  the same whatever connecting would have done. The numbers an identifier is built from are
  within the widths of their types.
\<close>

theorem cli_sends_valid_requests:
  assumes "clock_ok w"
  shows "(\<exists>c q. request_ok q \<and> cli_run w args = Inr (send_control w c q))
    \<or> (\<exists>r. \<forall>k. cli_run (w\<lparr>ce_connect := k\<rparr>) args = r)"
proof (cases "parse_args args")
  case (Inl e)
  then show ?thesis by (simp add: cli_run_def)
next
  case (Inr c)
  note vid = new_request_id_valid [OF assms]
  show ?thesis
  proof (cases c)
    case (Up path)
    have "request_ok (Up_Request VERSION (new_request_id w) source base)" for source base
      using vid by simp
    then have "\<exists>c q. request_ok q \<and> send_control w ''up'' (Up_Request VERSION (new_request_id w) source base)
      = send_control w c q" for source base by blast
    with Inr Up show ?thesis
      by (cases "cli_load w path"; cases "cli_manifest_base w path")
        (auto simp: cli_run_def run_up_def split: sum.splits)
  next
    case (Status stack)
    with Inr named_request [of stack "Status_Request VERSION" w "''status''", OF _ assms]
    show ?thesis by (simp add: cli_run_def) blast
  next
    case (Down stack)
    with Inr named_request [of stack "Down_Request VERSION" w "''down''", OF _ assms]
    show ?thesis by (simp add: cli_run_def) blast
  next
    case (Logs stack service n)
    have "n \<noteq> 0 \<and> n \<le> MAX_LOG_TAIL"
      using Inr Logs parse_args_logs [of args stack service n] by (simp add: MAX_LOG_TAIL_def)
    with Inr Logs service_request [of stack service "\<lambda>r st sv. Logs_Request VERSION r st sv n" w "''logs''", OF _ assms]
    show ?thesis by (simp add: cli_run_def) blast
  next
    case (Restart stack service)
    with Inr service_request [of stack service "Restart_Request VERSION" w "''restart''", OF _ assms]
    show ?thesis by (simp add: cli_run_def) blast
  qed (use Inr in \<open>auto simp: cli_run_def split: sum.splits\<close>)
qed

definition sample_cli :: "nat cli_env" where
  "sample_cli = \<lparr>ce_version = ''0.1.0'', ce_prefix = Some ''/p'', ce_pid = 7, ce_nanos = 255, ce_sequence = 0,
     ce_scan = (\<lambda>_. []), ce_manifest_meta = (\<lambda>_. Inl ''gone''), ce_manifest_text = (\<lambda>_. Inl ''gone''),
     ce_follow = sample_follow, ce_fs = sample_home, ce_connect = (\<lambda>_. Inl ''refused''),
     ce_to_vec = (\<lambda>_. Inr ''{}''), ce_from_slice = (\<lambda>_. Inl ''bad''), ce_pretty = show_nat, ce_daemon = Inr ()\<rparr>"

lemma cli_sends_valid_requests_witness:
  "\<exists>c q. request_ok q \<and> cli_run sample_cli [''status'', ''demo''] = Inr (send_control sample_cli c q)"
proof -
  have args: "parse_args [''status'', ''demo''] = Inr (Status ''demo'')"
    unfolding parse_args_spells by simp code_simp
  have name: "validate_stack_name ''demo'' = Inr ()"
    by (simp add: validate_stack_name_def validate_name_def valid_name_def is_lower_def is_digit_def starts_with_def)
  let ?w = "\<lambda>k. sample_cli\<lparr>ce_connect := k\<rparr>"
  let ?ok = "\<lambda>_. Inr \<lparr>sk_writer = \<lparr>wr_bytes = [], wr_room = Some 0, wr_error = ''full''\<rparr>, sk_shutdown = Inr (),
    sk_reply = (\<lambda>_. \<lparr>rd_bytes = [], rd_error = None\<rparr>)\<rparr>"
  have "cli_run (?w (\<lambda>_. Inl ''refused'')) [''status'', ''demo''] \<noteq> cli_run (?w ?ok) [''status'', ''demo'']"
    using args name
    by (simp add: cli_run_def send_named_request_def send_control_def sample_cli_def is_absolute_def starts_with_def
        exit_failure_def write_frame_def write_all_def MAX_FRAME_BYTES_def protocol_text_def)
  then show ?thesis
    using cli_sends_valid_requests [of sample_cli "[''status'', ''demo'']"]
    by (auto simp: clock_ok_def sample_cli_def)
qed

text \<open>
  Every run ends with a definite outcome: it never panics, the exit code is 0, 1 or
  2, success prints nothing on the error stream, failure prints only there and always says
  something, and code 2 is exactly a command line that is not understood.
\<close>

theorem cli_run_total:
  "\<exists>o'. cli_run w args = Inr o' \<and> co_code o' \<in> {0, 1, 2} \<and> (co_code o' = 0 \<longleftrightarrow> co_err o' = [])
     \<and> (co_code o' = 0 \<or> co_out o' = []) \<and> (co_code o' = 2 \<longleftrightarrow> (\<nexists>c. spells c args))"
proof -
  define good :: "cli_outcome \<Rightarrow> bool" where
    "good = (\<lambda>o'. co_code o' \<in> {0, 1} \<and> (co_code o' = 0 \<longleftrightarrow> co_err o' = []) \<and> (co_code o' \<noteq> 0 \<longrightarrow> co_out o' = []))"
  have good: "good (exit_ok ms)" "good (exit_failure c m)" for ms c m
    by (simp_all add: good_def exit_ok_def exit_failure_def)
  have control: "good (send_control w c q)" for c q
    by (simp add: send_control_def good split: option.splits sum.splits prod.splits)
  have named: "good (send_named_request w c s b)" for c s b
    by (simp add: send_named_request_def good control split: sum.splits)
  have service: "good (send_service_request w c s v b)" for c s v b
    by (auto simp: send_service_request_def validate_cli_name_def andthen_def good control split: sum.splits)
  have load: "\<exists>r. cli_load w path = Inr r" for path
    unfolding cli_load_def by (rule load_total)
  have validate: "\<exists>o'. run_config_validate w path = Inr o' \<and> good o'" for path
    using load [of path] by (auto simp: run_config_validate_def good split: sum.splits prod.splits)
  have up: "\<exists>o'. run_up w path = Inr o' \<and> good o'" for path
    using load [of path] by (auto simp: run_up_def good control split: sum.splits prod.splits)
  show ?thesis
  proof (cases "parse_args args")
    case (Inl e)
    then have "\<not> spells c args" for c using parse_args_spells [of args c] by simp
    with Inl show ?thesis by (simp add: cli_run_def)
  next
    case (Inr c)
    then have "\<exists>o'. cli_run w args = Inr o' \<and> good o'"
      using validate up named service good by (cases c) (auto simp: cli_run_def split: sum.splits)
    moreover have "spells c args" using Inr parse_args_spells [of args c] by simp
    ultimately show ?thesis by (auto simp: good_def)
  qed
qed

text \<open>
  A control command succeeds only on the daemon's word: the exit code is 0 exactly
  when the request was written in full, the connection was closed for writing, and the reply
  is one frame that carries this request's identifier, the protocol's version, the success
  flag and a result and no error; the result is what is printed.
\<close>

theorem send_control_success:
  "co_code (send_control w c q) = 0 \<longleftrightarrow>
     (\<exists>prefix s written r v. ce_prefix w = Some prefix \<and> is_absolute prefix
        \<and> ce_connect w (pa_socket_path (new_paths prefix)) = Inr s
        \<and> write_frame (ce_to_vec w) q (sk_writer s) = (Inr (), written) \<and> sk_shutdown s = Inr ()
        \<and> fst (read_json_line (ce_from_slice w) (sk_reply s (wr_bytes written))) = Inr (Some r)
        \<and> r = \<lparr>rs_version = VERSION, rs_request = request_id q, rs_ok = True, rs_result = Some v, rs_error = None\<rparr>
        \<and> co_out (send_control w c q) = [[Txt (ce_pretty w v)]])"
    (is "?ok \<longleftrightarrow> ?exchange")
proof
  assume ?ok
  have valid: "rs_ok r \<Longrightarrow> validate_response r i = Inr () \<Longrightarrow>
    \<exists>v. r = \<lparr>rs_version = VERSION, rs_request = i, rs_ok = True, rs_result = Some v, rs_error = None\<rparr>"
    for i and r :: "'a response"
    by (cases r) (auto simp: validate_response_def split: if_splits)
  from \<open>?ok\<close> obtain prefix s written r where exchange: "ce_prefix w = Some prefix" "is_absolute prefix"
    "ce_connect w (pa_socket_path (new_paths prefix)) = Inr s"
    "write_frame (ce_to_vec w) q (sk_writer s) = (Inr (), written)" "sk_shutdown s = Inr ()"
    "fst (read_json_line (ce_from_slice w) (sk_reply s (wr_bytes written))) = Inr (Some r)"
    "validate_response r (request_id q) = Inr ()" "rs_ok r"
    by (auto simp: send_control_def exit_failure_def split: option.splits sum.splits prod.splits if_splits)
  from valid [OF this(8,7)] obtain v where
    "r = \<lparr>rs_version = VERSION, rs_request = request_id q, rs_ok = True, rs_result = Some v, rs_error = None\<rparr>" by blast
  with exchange show ?exchange by (auto simp: send_control_def exit_ok_def)
qed (auto simp: send_control_def exit_ok_def validate_response_def)

end
