(* ===== verification/Logs.thy ===== *)
theory Logs
  imports Manifest_Text
begin

unbundle bit_operations_syntax

text \<open>
  Reading the tail of a log file (\<^verbatim>\<open>src/logs.rs\<close>). What the file system answers to each call
  is the argument: the metadata before and after opening, and the contents at the time of the
  read, which may have grown since the length was taken. The main lemma compares the bounded
  read with the last lines of the whole file.
\<close>

definition MAX_STREAM_BYTES :: nat where "MAX_STREAM_BYTES = 64 * 1024"

datatype log_error =
    LogIo string
  | UnsafePath string
  | TooLarge string
  | InvalidTail "16 word"

definition log_error_text :: "log_error \<Rightarrow> msg" where
  "log_error_text e = (case e of
     LogIo s \<Rightarrow> [Txt ''log I/O failed: '', Txt s]
   | UnsafePath p \<Rightarrow> [Txt ''unsafe log path '', Txt (utf8_lossy p)]
   | TooLarge p \<Rightarrow> [Txt ''the requested log tail cannot be represented within the '', Num (int MAX_STREAM_BYTES),
       Txt ''-byte per-stream limit: '', Txt (utf8_lossy p)]
   | InvalidTail n \<Rightarrow> [Txt ''invalid log tail '', Num (uint n), Txt ''; expected 1..=200''])"

record log_stat =
  ls_symlink :: bool
  ls_file :: bool
  ls_mode :: nat
  ls_dev :: nat
  ls_ino :: nat
  ls_len :: nat

record log_file =
  lf_before :: "string + log_stat"
  lf_open :: "string + unit"
  lf_after :: "string + log_stat"
  lf_seek :: "string + unit"
  lf_contents :: "string + string"

text \<open>Splitting what was read: the part up to the first newline goes when the start was cut off.\<close>

definition drop_partial_line :: "string \<Rightarrow> string option" where
  "drop_partial_line bytes =
     (case dropWhile (\<lambda>c. c \<noteq> CHR 0x0A) bytes of [] \<Rightarrow> None | _ # rest \<Rightarrow> Some rest)"

definition log_lines :: "string \<Rightarrow> string list" where
  "log_lines bytes =
     (let b = (if bytes \<noteq> [] \<and> last bytes = CHR 0x0A then butlast bytes else bytes) in
      if b = [] then [] else map utf8_lossy (split_at CHR 0x0A b))"

definition select_lines :: "string \<Rightarrow> bool \<Rightarrow> 16 word \<Rightarrow> string \<Rightarrow> log_error + string list" where
  "select_lines path truncated n bytes =
     andthen (if truncated then ok_or (TooLarge path) (drop_partial_line bytes) else Inr bytes) (\<lambda>kept.
       let all = log_lines kept in
       if truncated \<and> length all < unat n then Inl (TooLarge path) else Inr (last_n (unat n) all))"

definition log_tail :: "string \<Rightarrow> 16 word \<Rightarrow> log_file \<Rightarrow> log_error + string list" where
  "log_tail path n f =
     (if n = 0 \<or> 200 < n then Inl (InvalidTail n)
      else andthen (map_err LogIo (lf_before f)) (\<lambda>earlier.
        if ls_symlink earlier \<or> \<not> ls_file earlier \<or> ls_mode earlier AND 63 \<noteq> 0 then Inl (UnsafePath path)
        else andthen (map_err LogIo (lf_open f)) (\<lambda>_.
          andthen (map_err LogIo (lf_after f)) (\<lambda>after.
            if \<not> ls_file after \<or> ls_dev earlier \<noteq> ls_dev after \<or> ls_ino earlier \<noteq> ls_ino after
            then Inl (UnsafePath path)
            else let start = ls_len after - MAX_STREAM_BYTES in
              andthen (map_err LogIo (lf_seek f)) (\<lambda>_.
                andthen (map_err LogIo (lf_contents f)) (\<lambda>contents.
                  select_lines path (start \<noteq> 0) n (take (ls_len after - start) (drop start contents))))))))"

section \<open>The tail of the whole file\<close>

lemma drop_partial_line_Some:
  assumes "drop_partial_line bytes = Some rest"
  obtains pre where "bytes = pre @ CHR 0x0A # rest"
proof -
  from assms obtain c where c: "dropWhile (\<lambda>c. c \<noteq> CHR 0x0A) bytes = c # rest"
    by (auto simp: drop_partial_line_def split: list.splits)
  have "c = CHR 0x0A" using hd_dropWhile [of "\<lambda>c. c \<noteq> CHR 0x0A" bytes] c by simp
  then have "bytes = takeWhile (\<lambda>c. c \<noteq> CHR 0x0A) bytes @ CHR 0x0A # rest"
    using takeWhile_dropWhile_id [of "\<lambda>c. c \<noteq> CHR 0x0A" bytes] c by simp
  then show ?thesis by (rule that)
qed

lemma log_lines_snoc:
  "log_lines (s @ [c]) = (if c \<noteq> CHR 0x0A then map utf8_lossy (split_at CHR 0x0A (s @ [c]))
     else if s = [] then [] else map utf8_lossy (split_at CHR 0x0A s))"
  by (simp add: log_lines_def Let_def)

lemma log_lines_append:
  assumes "log_lines rest \<noteq> []"
  shows "\<exists>before. log_lines (pre @ CHR 0x0A # rest) = before @ log_lines rest"
proof (cases rest rule: rev_cases)
  case Nil
  with assms show ?thesis by (simp add: log_lines_def)
next
  case (snoc s c)
  have "split_at CHR 0x0A (pre @ CHR 0x0A # s @ [c]) = split_at CHR 0x0A pre @ split_at CHR 0x0A (s @ [c])"
    "split_at CHR 0x0A (pre @ CHR 0x0A # s) = split_at CHR 0x0A pre @ split_at CHR 0x0A s"
    by (rule split_at_append)+
  with snoc assms log_lines_snoc [of s c] log_lines_snoc [of "pre @ CHR 0x0A # s" c] show ?thesis
    by (simp split: if_splits)
qed

text \<open>The lines that a bounded read keeps are the last ones of the snapshot it was taken from.\<close>

lemma select_lines_suffix:
  assumes "select_lines path True n bytes = Inr ls" and "n \<noteq> 0"
  shows "ls = last_n (unat n) (log_lines (front @ bytes)) \<and> length ls = unat n"
proof -
  from assms(1) obtain rest where rest: "drop_partial_line bytes = Some rest"
    and enough: "unat n \<le> length (log_lines rest)" and ls: "ls = last_n (unat n) (log_lines rest)"
    by (auto simp: select_lines_def res_simps Let_def split: if_splits)
  obtain pre where pre: "bytes = pre @ CHR 0x0A # rest" using rest by (rule drop_partial_line_Some)
  have "log_lines rest \<noteq> []" using enough assms(2) by (auto simp: unat_eq_0)
  then obtain b where "log_lines (front @ bytes) = b @ log_lines rest"
    using log_lines_append [of rest "front @ pre"] pre by auto
  then show ?thesis using ls enough by (simp add: last_n_append length_last_n)
qed

text \<open>
  Claim C36. The bounded tail is the tail of the whole file. When the request succeeds, the
  lines returned are exactly the last lines (at most as many as asked for) of the file as it
  was when its length was taken, although at most 64 KiB of it are read and although the
  workload may have appended to the file since. The file is then a regular file that only its
  owner can read or write, the one that was inspected before it was opened.
\<close>

theorem log_tail_whole_file:
  assumes "log_tail path n f = Inr ls"
  shows "\<exists>earlier after contents. lf_before f = Inr earlier \<and> lf_after f = Inr after \<and> lf_contents f = Inr contents
    \<and> ls = last_n (unat n) (log_lines (take (ls_len after) contents))
    \<and> 1 \<le> unat n \<and> unat n \<le> 200 \<and> \<not> ls_symlink earlier \<and> ls_file earlier \<and> ls_file after
    \<and> ls_mode earlier AND 63 = 0 \<and> ls_dev earlier = ls_dev after \<and> ls_ino earlier = ls_ino after"
proof -
  from assms obtain earlier after contents where parts: "lf_before f = Inr earlier" "lf_after f = Inr after" "lf_contents f = Inr contents"
    and n: "n \<noteq> 0" "n \<le> 200"
    and safe: "\<not> ls_symlink earlier" "ls_file earlier" "ls_file after" "ls_mode earlier AND 63 = 0"
      "ls_dev earlier = ls_dev after" "ls_ino earlier = ls_ino after"
    and sel: "select_lines path (MAX_STREAM_BYTES < ls_len after) n
      (take (ls_len after - (ls_len after - MAX_STREAM_BYTES)) (drop (ls_len after - MAX_STREAM_BYTES) contents)) = Inr ls"
    by (auto simp: log_tail_def res_simps Let_def not_less split: if_splits)
  have bounds: "1 \<le> unat n" "unat n \<le> 200"
    using n by (auto simp: word_le_nat_alt Suc_le_eq unat_gt_0)
  define start where "start = ls_len after - MAX_STREAM_BYTES"
  define bytes where "bytes = take (ls_len after - start) (drop start contents)"
  have whole: "take (ls_len after) contents = take start contents @ bytes"
    unfolding bytes_def start_def by (metis diff_le_self le_add_diff_inverse take_add)
  have sel: "select_lines path (start \<noteq> 0) n bytes = Inr ls"
    using sel by (simp add: start_def bytes_def not_le)
  have "ls = last_n (unat n) (log_lines (take (ls_len after) contents))"
  proof (cases "start = 0")
    case True
    with sel show ?thesis by (simp add: select_lines_def Let_def bytes_def)
  next
    case False
    with sel have "select_lines path True n bytes = Inr ls" by simp
    from select_lines_suffix [OF this n(1)] whole show ?thesis by simp
  qed
  with parts safe bounds show ?thesis by blast
qed

definition sample_log_stat :: log_stat where
  "sample_log_stat = \<lparr>ls_symlink = False, ls_file = True, ls_mode = 384, ls_dev = 1, ls_ino = 9, ls_len = 8\<rparr>"

definition sample_log :: log_file where
  "sample_log = \<lparr>lf_before = Inr sample_log_stat, lf_open = Inr (), lf_after = Inr sample_log_stat, lf_seek = Inr (),
     lf_contents = Inr (''one'' @ [CHR 0x0A] @ ''two'' @ [CHR 0x0A] @ ''three'')\<rparr>"

lemma sample_log_tail: "log_tail ''/log'' 1 sample_log = Inr [''two'']"
proof -
  have lossy: "map utf8_lossy [''one'', ''two''] = [''one'', ''two'']" by code_simp
  then show ?thesis
    by (simp add: log_tail_def sample_log_def sample_log_stat_def select_lines_def MAX_STREAM_BYTES_def
        log_lines_def last_n_def)
qed

lemma log_tail_whole_file_witness:
  "\<exists>after contents. lf_contents sample_log = Inr contents \<and> lf_after sample_log = Inr after
     \<and> [''two''] = last_n 1 (log_lines (take (ls_len after) contents))"
  using log_tail_whole_file [OF sample_log_tail] by auto

text \<open>
  When the tail is refused although the file could be read, the reason is real: the
  file is longer than the limit, and the lines that lie wholly within its last 64 KiB are
  fewer than the lines asked for.
\<close>

theorem log_tail_refused:
  assumes "log_tail path n f = Inl (TooLarge p)"
  shows "p = path \<and> (\<exists>after contents. lf_after f = Inr after \<and> lf_contents f = Inr contents
    \<and> MAX_STREAM_BYTES < ls_len after
    \<and> (case drop_partial_line (take MAX_STREAM_BYTES (drop (ls_len after - MAX_STREAM_BYTES) contents)) of
         None \<Rightarrow> True | Some rest \<Rightarrow> length (log_lines rest) < unat n))"
  using assms
  by (auto simp: log_tail_def select_lines_def andthen_def map_err_def ok_or_def Let_def
      split: if_splits sum.splits option.splits)

definition sample_long_log :: log_file where
  "sample_long_log = sample_log\<lparr>lf_after := Inr (sample_log_stat\<lparr>ls_len := MAX_STREAM_BYTES + 1\<rparr>),
     lf_contents := Inr (replicate (MAX_STREAM_BYTES + 1) CHR ''x'')\<rparr>"

lemma sample_long_log_tail: "log_tail ''/log'' 1 sample_long_log = Inl (TooLarge ''/log'')"
  by (simp add: log_tail_def sample_long_log_def sample_log_def sample_log_stat_def select_lines_def
      drop_partial_line_def dropWhile_eq_Nil_conv del: replicate_Suc)

lemma log_tail_refused_witness:
  "\<exists>after. lf_after sample_long_log = Inr after \<and> MAX_STREAM_BYTES < ls_len after"
  using log_tail_refused [OF sample_long_log_tail] by blast

end
