(* ===== verification/Runtime_State.thy ===== *)
theory Runtime_State
  imports Resources Logs Protocol Store_Query Store_Up Store_Phase Store_Stop Store_Restart Store_Reconcile
begin

text \<open>
  The state of the orchestrator (\<^verbatim>\<open>src/runtime.rs\<close>) and the language its operations are written
  in: computations that read and change the state, call the surroundings, and end with a value
  or an error; the state reached before an error stays. Everything outside the program (the
  container engine, \<^verbatim>\<open>/proc\<close>, the file system, the clocks, random bytes, SQLite failures) is an
  environment of functions on an arbitrary world: every call gives an answer, the milliseconds
  it took, and the next world. The state also has a history that no operation reads: the effects
  on the engine, the exits that were observed, and a panic.
\<close>

section \<open>Errors\<close>

definition store_error_text :: "store_error \<Rightarrow> msg" where
  "store_error_text e = (case e of
     Store_Schema.UnsafePath p \<Rightarrow> [Txt ''unsafe database path '', Txt (utf8_lossy p)]
   | Io m \<Rightarrow> [Txt ''database filesystem error: ''] @ m
   | Sql m \<Rightarrow> [Txt ''database error: '', Txt m]
   | Schema v \<Rightarrow> [Txt ''unsupported database schema version '', Num v, Txt ''; expected '', Num 3]
   | Conflict m \<Rightarrow> m
   | NotFound m \<Rightarrow> m @ [Txt '' does not exist'']
   | Crash \<Rightarrow> [])"

datatype runtime_error =
    RtStore store_error
  | RtEngine engine_error
  | RtManifest manifest_error
  | RtResource resource_error
  | RtLogs log_error
  | RtIo msg
  | UnsafeLog string
  | ChildExited "int option" "int option"
  | StartUncertain msg
  | SessionUnknown
  | IdentityChanged
  | StopTimeout
  | ProtocolState msg
  | RestartPending msg
  | RtConflict msg

definition debug_option :: "int option \<Rightarrow> msg" where
  "debug_option x = (case x of None \<Rightarrow> [Txt ''None''] | Some n \<Rightarrow> [Txt ''Some('', Num n, Txt '')''])"

definition runtime_error_text :: "runtime_error \<Rightarrow> msg" where
  "runtime_error_text e = (case e of
     RtStore x \<Rightarrow> store_error_text x
   | RtEngine x \<Rightarrow> engine_error_text x
   | RtManifest x \<Rightarrow> [Txt ''persisted manifest is invalid: ''] @ error_text x
   | RtResource x \<Rightarrow> resource_error_text x
   | RtLogs x \<Rightarrow> log_error_text x
   | RtIo m \<Rightarrow> [Txt ''runtime I/O failed: ''] @ m
   | UnsafeLog p \<Rightarrow> [Txt ''unsafe log path '', Txt (utf8_lossy p)]
   | ChildExited c g \<Rightarrow> [Txt ''workload exited during startup with code ''] @ debug_option c
       @ [Txt '' and signal ''] @ debug_option g
   | StartUncertain m \<Rightarrow> m
   | SessionUnknown \<Rightarrow> [Txt ''the engine did not publish a qualified session; the workload state is unknown'']
   | IdentityChanged \<Rightarrow> [Txt ''persisted identity, owned child, and engine session no longer agree'']
   | StopTimeout \<Rightarrow> [Txt ''owned workload did not exit after engine kill'']
   | ProtocolState m \<Rightarrow> m
   | RestartPending m \<Rightarrow> m
   | RtConflict m \<Rightarrow> m)"

fun runtime_code :: "runtime_error \<Rightarrow> string" where
  "runtime_code (RtStore (Conflict _)) = ''conflict''"
| "runtime_code (RtConflict _) = ''conflict''"
| "runtime_code (RtStore (NotFound _)) = ''not_found''"
| "runtime_code (RtStore _) = ''state_store''"
| "runtime_code (ProtocolState _) = ''state_store''"
| "runtime_code (RestartPending _) = ''state_store''"
| "runtime_code (RtEngine _) = ''engine''"
| "runtime_code (RtManifest _) = ''invalid_manifest''"
| "runtime_code (RtResource (PortUnavailable _ _)) = ''port_unavailable''"
| "runtime_code (RtResource _) = ''resource''"
| "runtime_code (RtLogs _) = ''io''"
| "runtime_code (RtIo _) = ''io''"
| "runtime_code (UnsafeLog _) = ''io''"
| "runtime_code (ChildExited _ _) = ''start_failed''"
| "runtime_code (StartUncertain _) = ''unknown''"
| "runtime_code SessionUnknown = ''unknown''"
| "runtime_code IdentityChanged = ''unknown''"
| "runtime_code StopTimeout = ''unknown''"

section \<open>State\<close>

definition SESSION_TIMEOUT :: nat where "SESSION_TIMEOUT = 3000"
definition STOP_TIMEOUT :: nat where "STOP_TIMEOUT = 10000"
definition STABLE_WINDOW :: nat where "STABLE_WINDOW = 60"
definition MAX_RESTART_ATTEMPTS :: nat where "MAX_RESTART_ATTEMPTS = 5"
definition RESTART_DELAYS :: "int list" where "RESTART_DELAYS = [1, 2, 4, 8, 16]"

type_synonym service_key = "string \<times> string"

text \<open>A handle of a spawned process: its number, and what tells handles of the same number apart.\<close>

record child =
  ch_pid :: "32 word"
  ch_handle :: nat

record managed_child =
  mc_child :: child
  mc_alias :: string
  mc_generation :: int
  mc_starttime :: "64 word"
  mc_boot :: string
  mc_session :: "32 word option"
  mc_restart :: restart_policy
  mc_started :: nat

datatype effect =
    Installed string string         \<comment> \<open>container, image\<close>
  | Spawned string child            \<comment> \<open>container, process\<close>
  | Listed "32 word list"           \<comment> \<open>the sessions the engine reported\<close>
  | Killed "32 word"
  | Exited child                    \<comment> \<open>the exit of a process was observed\<close>
  | Crashed                         \<comment> \<open>a panic\<close>

record 'w rt =
  rt_paths :: runtime_paths
  rt_engine :: engine
  rt_installation :: string
  rt_db :: db
  rt_children :: "(service_key \<times> managed_child) list"
  rt_uncertain :: "(service_key \<times> child) list"
  rt_throttle :: "(service_key \<times> nat) list"
  rt_fs :: fs
  rt_now :: nat                      \<comment> \<open>the monotonic clock, in milliseconds\<close>
  rt_world :: 'w
  rt_effects :: "effect list"

text \<open>A panic ends the computation; an error can be handled.\<close>

datatype stop = Panic | Raise runtime_error

type_synonym ('w, 'a) rm = "'w rt \<Rightarrow> (stop + 'a) \<times> 'w rt"

definition rm_return :: "'a \<Rightarrow> ('w, 'a) rm" where
  "rm_return a s = (Inr a, s)"

definition rm_raise :: "runtime_error \<Rightarrow> ('w, 'a) rm" where
  "rm_raise x s = (Inl (Raise x), s)"

definition rm_panic :: "('w, 'a) rm" where
  "rm_panic s = (Inl Panic, s\<lparr>rt_effects := rt_effects s @ [Crashed]\<rparr>)"

definition rm_bind :: "('w, 'a) rm \<Rightarrow> ('a \<Rightarrow> ('w, 'b) rm) \<Rightarrow> ('w, 'b) rm" where
  "rm_bind m k s = (case m s of (Inl x, s') \<Rightarrow> (Inl x, s') | (Inr a, s') \<Rightarrow> k a s')"

definition rm_get :: "('w rt \<Rightarrow> 'a) \<Rightarrow> ('w, 'a) rm" where
  "rm_get f s = (Inr (f s), s)"

definition rm_modify :: "('w rt \<Rightarrow> 'w rt) \<Rightarrow> ('w, unit) rm" where
  "rm_modify f s = (Inr (), f s)"

definition rm_lift :: "(runtime_error + 'a) \<Rightarrow> ('w, 'a) rm" where
  "rm_lift r = (case r of Inl x \<Rightarrow> rm_raise x | Inr a \<Rightarrow> rm_return a)"

definition rm_check :: "bool \<Rightarrow> runtime_error \<Rightarrow> ('w, unit) rm" where
  "rm_check b x = (if b then rm_return () else rm_raise x)"

definition rm_when :: "bool \<Rightarrow> ('w, unit) rm \<Rightarrow> ('w, unit) rm" where
  "rm_when b m = (if b then m else rm_return ())"

text \<open>An \<^verbatim>\<open>expect\<close> on an option: a panic when it is absent.\<close>

definition rm_expect :: "'a option \<Rightarrow> ('w, 'a) rm" where
  "rm_expect x = (case x of None \<Rightarrow> rm_panic | Some a \<Rightarrow> rm_return a)"

text \<open>\<^verbatim>\<open>match\<close> on a result: an error becomes a value.\<close>

definition rm_attempt :: "('w, 'a) rm \<Rightarrow> ('w, runtime_error + 'a) rm" where
  "rm_attempt m s = (case m s of
     (Inl Panic, s') \<Rightarrow> (Inl Panic, s')
   | (Inl (Raise x), s') \<Rightarrow> (Inr (Inl x), s')
   | (Inr a, s') \<Rightarrow> (Inr (Inr a), s'))"

text \<open>\<^verbatim>\<open>let _ = m\<close>.\<close>

definition rm_ignore :: "('w, 'a) rm \<Rightarrow> ('w, unit) rm" where
  "rm_ignore m = rm_bind (rm_attempt m) (\<lambda>_. rm_return ())"

text \<open>\<^verbatim>\<open>map_err\<close>.\<close>

definition rm_map_err :: "(runtime_error \<Rightarrow> runtime_error) \<Rightarrow> ('w, 'a) rm \<Rightarrow> ('w, 'a) rm" where
  "rm_map_err f m = rm_bind (rm_attempt m) (\<lambda>r. rm_lift (map_err f r))"

fun rm_for :: "'x list \<Rightarrow> ('x \<Rightarrow> ('w, unit) rm) \<Rightarrow> ('w, unit) rm" where
  "rm_for [] f = rm_return ()"
| "rm_for (x # xs) f = rm_bind (f x) (\<lambda>_. rm_for xs f)"

text \<open>A loop that threads a value, and one that stops when its body says so.\<close>

fun rm_fold :: "('x \<Rightarrow> 'a \<Rightarrow> ('w, 'a) rm) \<Rightarrow> 'x list \<Rightarrow> 'a \<Rightarrow> ('w, 'a) rm" where
  "rm_fold f [] a = rm_return a"
| "rm_fold f (x # xs) a = rm_bind (f x a) (rm_fold f xs)"

fun rm_while :: "'x list \<Rightarrow> ('x \<Rightarrow> ('w, bool) rm) \<Rightarrow> ('w, unit) rm" where
  "rm_while [] f = rm_return ()"
| "rm_while (x # xs) f = rm_bind (f x) (\<lambda>go. if go then rm_while xs f else rm_return ())"

section \<open>The environment\<close>

type_synonym ('w, 'a) answer = "'w \<Rightarrow> 'a \<times> nat \<times> 'w"

datatype open_mode = Append | Create_New

record 'w env =
  ev_clock :: "('w, int) answer"
  ev_store :: "('w, string option) answer"     \<comment> \<open>the error of SQLite, if it fails\<close>
  ev_random :: "nat \<Rightarrow> ('w, string + nat list) answer"
  ev_engine :: "invocation \<Rightarrow> ('w, string + engine_output) answer"
  ev_spawn :: "invocation \<Rightarrow> string \<Rightarrow> string \<Rightarrow> ('w, string + child) answer"
  ev_try_wait :: "child \<Rightarrow> ('w, string + exit_status option) answer"
  ev_read :: "string \<Rightarrow> ('w, string + string) answer"
  ev_files :: "fs \<Rightarrow> ('w, fs) answer"            \<comment> \<open>the file system as the next call finds it\<close>
  ev_follow :: follow
  ev_stat :: "string \<Rightarrow> ('w, io_err + log_stat) answer"
  ev_open :: "open_mode \<Rightarrow> string \<Rightarrow> ('w, io_err + log_stat) answer"
  ev_log :: "string \<Rightarrow> ('w, log_file) answer"
  ev_listen :: "('w, 16 word list \<Rightarrow> 16 word \<Rightarrow> string + unit) answer"
  ev_oversleep :: "('w, unit) answer"           \<comment> \<open>how much longer than asked a sleep takes\<close>
  ev_fault :: "string \<Rightarrow> ('w, runtime_error option) answer"
  ev_scan :: "string \<Rightarrow> (string + spanned) list"
  ev_immediate :: bool                          \<comment> \<open>the test setting that removes restart delays\<close>

definition rm_call :: "('w, 'a) answer \<Rightarrow> ('w, 'a) rm" where
  "rm_call f s = (case f (rt_world s) of (a, ms, w) \<Rightarrow> (Inr a, s\<lparr>rt_now := rt_now s + ms, rt_world := w\<rparr>))"

definition rm_effect :: "effect \<Rightarrow> ('w, unit) rm" where
  "rm_effect x = rm_modify (\<lambda>s. s\<lparr>rt_effects := rt_effects s @ [x]\<rparr>)"

definition sleep_ms :: "'w env \<Rightarrow> nat \<Rightarrow> ('w, unit) rm" where
  "sleep_ms e ms = rm_bind (rm_call (ev_oversleep e)) (\<lambda>_. rm_modify (\<lambda>s. s\<lparr>rt_now := rt_now s + ms\<rparr>))"

text \<open>Hooks of test builds; a release build never fails here.\<close>

definition fault_checkpoint :: "'w env \<Rightarrow> string \<Rightarrow> ('w, unit) rm" where
  "fault_checkpoint e name = rm_bind (rm_call (ev_fault e name)) (\<lambda>r.
     case r of None \<Rightarrow> rm_return () | Some x \<Rightarrow> rm_raise x)"

text \<open>A transaction that fails leaves the database as it was.\<close>

definition rm_tx :: "'a tx \<Rightarrow> ('w, 'a) rm" where
  "rm_tx m s = (case m (rt_db s) of
     Inl Crash \<Rightarrow> rm_panic s
   | Inl x \<Rightarrow> (Inl (Raise (RtStore x)), s)
   | Inr (a, d) \<Rightarrow> (Inr a, s\<lparr>rt_db := d\<rparr>))"

definition store_query :: "'w env \<Rightarrow> 'a tx \<Rightarrow> ('w, 'a) rm" where
  "store_query e m = rm_bind (rm_call (ev_store e)) (\<lambda>failed.
     case failed of Some x \<Rightarrow> rm_raise (RtStore (Sql x)) | None \<Rightarrow> rm_tx m)"

definition store_call :: "'w env \<Rightarrow> (int \<Rightarrow> 'a tx) \<Rightarrow> ('w, 'a) rm" where
  "store_call e m = rm_bind (rm_call (ev_clock e)) (\<lambda>clk. store_query e (m clk))"

definition runtime_unix_time :: "'w env \<Rightarrow> ('w, int) rm" where
  "runtime_unix_time e = rm_bind (rm_call (ev_clock e)) (\<lambda>clk.
     if clk < 0 then rm_raise (RtIo [Txt ''system clock before Unix epoch''])
     else if 2 ^ 63 \<le> clk then rm_raise (RtIo [Txt ''system time overflow''])
     else rm_return clk)"

section \<open>The engine\<close>

definition engine_install :: "'w env \<Rightarrow> string \<Rightarrow> string \<Rightarrow> ('w, unit) rm" where
  "engine_install e name img =
     rm_bind (rm_get rt_engine) (\<lambda>g.
     rm_bind (rm_call (ev_engine e (install_invocation g name img))) (\<lambda>r.
     rm_bind (rm_effect (Installed name img)) (\<lambda>_.
     rm_lift (map_err RtEngine (install_result r)))))"

definition engine_sessions :: "'w env \<Rightarrow> ('w, 32 word list) rm" where
  "engine_sessions e =
     rm_bind (rm_get rt_engine) (\<lambda>g.
     rm_bind (rm_call (ev_engine e (sessions_invocation g))) (\<lambda>r.
     rm_bind (rm_lift (map_err RtEngine (sessions_result r))) (\<lambda>ws.
     rm_bind (rm_effect (Listed ws)) (\<lambda>_. rm_return ws))))"

definition engine_kill :: "'w env \<Rightarrow> 32 word \<Rightarrow> ('w, unit) rm" where
  "engine_kill e session =
     rm_bind (rm_get rt_engine) (\<lambda>g.
     rm_bind (rm_effect (Killed session)) (\<lambda>_.
     rm_bind (rm_call (ev_engine e (kill_invocation g session))) (\<lambda>r.
     rm_lift (map_err RtEngine (kill_result r)))))"

definition engine_run :: "'w env \<Rightarrow> string \<Rightarrow> run_options \<Rightarrow> string \<Rightarrow> string \<Rightarrow> ('w, child) rm" where
  "engine_run e name opts stdout stderr =
     rm_bind (rm_get rt_engine) (\<lambda>g.
     rm_bind (rm_lift (map_err RtEngine (run_invocation g name opts))) (\<lambda>inv.
     rm_bind (rm_call (ev_spawn e inv stdout stderr)) (\<lambda>r.
     rm_bind (rm_lift (map_err RtEngine (run_result r))) (\<lambda>c.
     rm_bind (rm_effect (Spawned name c)) (\<lambda>_. rm_return c)))))"

definition try_wait :: "'w env \<Rightarrow> child \<Rightarrow> ('w, exit_status option) rm" where
  "try_wait e c =
     rm_bind (rm_call (ev_try_wait e c)) (\<lambda>r.
     case r of
       Inl x \<Rightarrow> rm_raise (RtIo [Txt x])
     | Inr None \<Rightarrow> rm_return None
     | Inr (Some st) \<Rightarrow> rm_bind (rm_effect (Exited c)) (\<lambda>_. rm_return (Some st)))"

definition read_starttime :: "'w env \<Rightarrow> 32 word \<Rightarrow> ('w, 64 word) rm" where
  "read_starttime e pid = rm_bind (rm_call (ev_read e (stat_path pid))) (\<lambda>r.
     rm_lift (map_err (\<lambda>x. RtIo [Txt x]) (process_starttime (\<lambda>_. r) pid)))"

definition read_boot_id :: "'w env \<Rightarrow> ('w, string) rm" where
  "read_boot_id e = rm_bind (rm_call (ev_read e ''/proc/sys/kernel/random/boot_id'')) (\<lambda>r.
     rm_lift (map_err (\<lambda>x. RtIo [Txt x]) (boot_id (\<lambda>_. r))))"

section \<open>Children\<close>

definition owned :: "service_key \<Rightarrow> 'w rt \<Rightarrow> managed_child option" where
  "owned key s = bt_get (rt_children s) key"

definition is_owned :: "service_key \<Rightarrow> 'w rt \<Rightarrow> bool" where
  "is_owned key s \<longleftrightarrow> owned key s \<noteq> None"

definition is_uncertain :: "service_key \<Rightarrow> 'w rt \<Rightarrow> bool" where
  "is_uncertain key s \<longleftrightarrow> bt_get (rt_uncertain s) key \<noteq> None"

definition insert_child :: "service_key \<Rightarrow> managed_child \<Rightarrow> ('w, unit) rm" where
  "insert_child key c = rm_modify (\<lambda>s. s\<lparr>rt_children := bt_insert key c (rt_children s)\<rparr>)"

definition remove_child :: "service_key \<Rightarrow> ('w, unit) rm" where
  "remove_child key = rm_modify (\<lambda>s. s\<lparr>rt_children := bt_remove key (rt_children s)\<rparr>)"

definition insert_uncertain :: "service_key \<Rightarrow> child \<Rightarrow> ('w, unit) rm" where
  "insert_uncertain key c = rm_modify (\<lambda>s. s\<lparr>rt_uncertain := bt_insert key c (rt_uncertain s)\<rparr>)"

definition remove_uncertain :: "service_key \<Rightarrow> ('w, unit) rm" where
  "remove_uncertain key = rm_modify (\<lambda>s. s\<lparr>rt_uncertain := bt_remove key (rt_uncertain s)\<rparr>)"

definition exit_parts :: "exit_status \<Rightarrow> int option \<times> int option" where
  "exit_parts st = (es_code st, es_signal st)"

definition should_restart :: "restart_policy \<Rightarrow> exit_status \<Rightarrow> bool" where
  "should_restart p st = (case p of No \<Rightarrow> False | OnFailure \<Rightarrow> \<not> exit_success st | Always \<Rightarrow> True)"

definition should_restart_parts :: "restart_policy \<Rightarrow> int option \<Rightarrow> int option \<Rightarrow> bool" where
  "should_restart_parts p code signal =
     (if signal \<noteq> None then False
      else case p of No \<Rightarrow> False | OnFailure \<Rightarrow> code \<noteq> None \<and> code \<noteq> Some 0 | Always \<Rightarrow> code \<noteq> None)"

text \<open>Indexing past the table is a panic.\<close>

definition restart_delay_seconds :: "'w env \<Rightarrow> nat \<Rightarrow> ('w, int) rm" where
  "restart_delay_seconds e previous =
     (if ev_immediate e then rm_return 0
      else if previous < length RESTART_DELAYS then rm_return (RESTART_DELAYS ! previous) else rm_panic)"

definition mark_unknown :: "'w env \<Rightarrow> service_key \<Rightarrow> ('w, unit) rm" where
  "mark_unknown e key = store_call e (mark_runtime_unknown (fst key) (snd key))"

definition quarantine_managed_child :: "'w env \<Rightarrow> service_key \<Rightarrow> ('w, unit) rm" where
  "quarantine_managed_child e key =
     rm_bind (rm_get (owned key)) (\<lambda>found.
     case found of
       None \<Rightarrow> rm_return ()
     | Some mc \<Rightarrow>
         rm_bind (remove_child key) (\<lambda>_.
         rm_bind (rm_ignore (mark_unknown e key)) (\<lambda>_.
         insert_uncertain key (mc_child mc))))"

end
