(* ===== verification/Runtime_Rules.thy ===== *)
theory Runtime_Rules
  imports Runtime_State Store_History
begin

text \<open>
  Rules for computations of the runtime. A relation between states that is reflexive and
  transitive is kept by a computation when every run relates the state before and after,
  whatever the result is: an error and a panic included. The first such relation is the
  clock, which never goes back; the polling loops end because of it.
\<close>

section \<open>Transactions that are calls of the journal\<close>

definition journaled :: "'a tx \<Rightarrow> bool" where
  "journaled m \<longleftrightarrow> (\<forall>d a d'. m d = Inr (a, d') \<longrightarrow> reaches d d')"

lemma journaled_step: "(\<And>d a d'. m d = Inr (a, d') \<Longrightarrow> store_step d d') \<Longrightarrow> journaled m"
  unfolding journaled_def by (blast intro: reaches.intros)

lemma journaled_read [intro]: "journaled (tx_query f)" "journaled (tx_read g)"
  by (auto simp: journaled_def tx_query_def tx_read_def res_simps intro: reaches.intros)

lemma journaled_operations [intro]:
  "journaled (begin_up r s b m ps clk)"
  "journaled (begin_candidate_recovery r s b m ps clk)"
  "journaled (mark_logs_prepared r s v clk)"
  "journaled (mark_install_invoked r s v clk)"
  "journaled (mark_installed r s v clk)"
  "journaled (mark_rootfs_unknown r s v clk)"
  "journaled (mark_start_invoked r s v clk)"
  "journaled (mark_starting r s v pid st boot clk)"
  "journaled (mark_running r s v session clk)"
  "journaled (mark_service_failed r s v code msg unknown clk)"
  "journaled (finalize_operation_failure r s code msg clk)"
  "journaled (commit_up r s clk)"
  "journaled (begin_down r s order clk)"
  "journaled (mark_stop_invoked r s v clk)"
  "journaled (mark_stopped r s v exit sig clk)"
  "journaled (record_graceful_stop s v exit sig clk)"
  "journaled (record_graceful_backoff_stop s v clk)"
  "journaled (finish_down r s clk)"
  "journaled (finalize_down_failure r s code msg clk)"
  "journaled (begin_start_current r s operation ss target source base clk)"
  "journaled (begin_restart r s v clk)"
  "journaled (mark_restart_stop_invoked r s v clk)"
  "journaled (mark_restart_stopped r s v exit sig clk)"
  "journaled (finish_restart r s v clk)"
  "journaled (finish_start_current r s clk)"
  "journaled (schedule_restart s v n win t clk)"
  "journaled (defer_restart s v t clk)"
  "journaled (restore_restart_backoff s v t clk)"
  "journaled (mark_restart_invoked s v clk)"
  "journaled (mark_restart_starting s v pid st boot clk)"
  "journaled (mark_restart_running s v session clk)"
  "journaled (record_exit s v exit sig clk)"
  "journaled (mark_runtime_unknown s v clk)"
  "journaled (reconcile_cold_start clk)"
  "journaled (record_noop_up r s manifest_text manifest_base clk)"
  "journaled (cache_response r response clk)"
  by (rule journaled_step, rule store_step.intros, assumption)+

section \<open>Relations that computations keep\<close>

definition crashed :: "'w rt \<Rightarrow> bool" where
  "crashed s \<longleftrightarrow> Crashed \<in> set (rt_effects s)"

lemma crashed_simps [simp]:
  "crashed (s\<lparr>rt_db := d\<rparr>) = crashed s"
  "crashed (s\<lparr>rt_fs := f\<rparr>) = crashed s"
  "crashed (s\<lparr>rt_now := n\<rparr>) = crashed s"
  "crashed (s\<lparr>rt_world := w\<rparr>) = crashed s"
  "crashed (s\<lparr>rt_engine := g\<rparr>) = crashed s"
  "crashed (s\<lparr>rt_children := cs\<rparr>) = crashed s"
  "crashed (s\<lparr>rt_uncertain := us\<rparr>) = crashed s"
  "crashed (s\<lparr>rt_throttle := ts\<rparr>) = crashed s"
  "crashed (s\<lparr>rt_effects := rt_effects s @ [x]\<rparr>) \<longleftrightarrow> crashed s \<or> x = Crashed"
  by (auto simp: crashed_def)

text \<open>The history has a panic exactly when there was one.\<close>

definition marked :: "(stop + 'a) \<Rightarrow> 'w rt \<Rightarrow> 'w rt \<Rightarrow> bool" where
  "marked r s s' \<longleftrightarrow> (crashed s' \<longleftrightarrow> crashed s \<or> r = Inl Panic)"

locale rt_relation =
  fixes R :: "'w rt \<Rightarrow> 'w rt \<Rightarrow> bool"
  assumes R_refl: "R s s"
    and R_trans: "R s s' \<Longrightarrow> R s' s'' \<Longrightarrow> R s s''"
    and R_panic: "R s (s\<lparr>rt_effects := rt_effects s @ [Crashed]\<rparr>)"
begin

definition keeps :: "('w, 'a) rm \<Rightarrow> bool" where
  "keeps m \<longleftrightarrow> (\<forall>s. R s (snd (m s)) \<and> marked (fst (m s)) s (snd (m s)))"

lemma keepsI: "(\<And>s. R s (snd (m s))) \<Longrightarrow> (\<And>s. marked (fst (m s)) s (snd (m s))) \<Longrightarrow> keeps m"
  unfolding keeps_def by blast

lemma keepsD: "keeps m \<Longrightarrow> m s = (r, s') \<Longrightarrow> R s s'"
  unfolding keeps_def by (metis snd_conv)

lemma keeps_snd: "keeps m \<Longrightarrow> R s (snd (m s))"
  unfolding keeps_def by blast

lemma keeps_marked: "keeps m \<Longrightarrow> m s = (r, s') \<Longrightarrow> marked r s s'"
  unfolding keeps_def by (metis fst_conv snd_conv)

lemma keeps_return: "keeps (rm_return a)"
  by (simp add: keeps_def rm_return_def R_refl marked_def)

lemma keeps_raise: "keeps (rm_raise x)"
  by (simp add: keeps_def rm_raise_def R_refl marked_def)

lemma keeps_panic: "keeps rm_panic"
  by (simp add: keeps_def rm_panic_def R_panic marked_def)

lemma keeps_get: "keeps (rm_get f)"
  by (simp add: keeps_def rm_get_def R_refl marked_def)

lemma keeps_modify: "(\<And>s. R s (f s)) \<Longrightarrow> (\<And>s. crashed (f s) = crashed s) \<Longrightarrow> keeps (rm_modify f)"
  by (simp add: keeps_def rm_modify_def marked_def)

lemma keeps_effect: "(\<And>s. R s (s\<lparr>rt_effects := rt_effects s @ [x]\<rparr>)) \<Longrightarrow> x \<noteq> Crashed \<Longrightarrow> keeps (rm_effect x)"
  unfolding rm_effect_def by (rule keeps_modify) simp_all

lemma keeps_bind:
  assumes "keeps m" and "\<And>a. keeps (k a)"
  shows "keeps (rm_bind m k)"
proof -
  have "R s (snd (rm_bind m k s)) \<and> marked (fst (rm_bind m k s)) s (snd (rm_bind m k s))" for s
  proof -
    obtain r s' where m: "m s = (r, s')" by fastforce
    have one: "R s s'" "marked r s s'" using assms(1) m by (rule keepsD keeps_marked)+
    show ?thesis
    proof (cases r)
      case (Inl x)
      with m one show ?thesis by (simp add: rm_bind_def marked_def)
    next
      case (Inr a)
      have "R s' (snd (k a s'))" "marked (fst (k a s')) s' (snd (k a s'))"
        using assms(2) [of a] by (simp_all add: keeps_def)
      with m one Inr show ?thesis by (auto simp: rm_bind_def marked_def intro: R_trans)
    qed
  qed
  then show ?thesis by (simp add: keeps_def)
qed

lemma keeps_lift: "keeps (rm_lift r)"
  by (cases r) (simp_all add: rm_lift_def keeps_return keeps_raise)

lemma keeps_check: "keeps (rm_check b x)"
  by (simp add: rm_check_def keeps_return keeps_raise)

lemma keeps_when: "keeps m \<Longrightarrow> keeps (rm_when b m)"
  by (simp add: rm_when_def keeps_return)

lemma keeps_expect: "keeps (rm_expect x)"
  by (cases x) (simp_all add: rm_expect_def keeps_return keeps_panic)

lemma keeps_attempt: "keeps m \<Longrightarrow> keeps (rm_attempt m)"
  unfolding keeps_def rm_attempt_def marked_def
  by (auto simp: split_beta split: sum.splits stop.splits)

lemma keeps_ignore: "keeps m \<Longrightarrow> keeps (rm_ignore m)"
  by (simp add: rm_ignore_def keeps_bind keeps_attempt keeps_return)

lemma keeps_map_err: "keeps m \<Longrightarrow> keeps (rm_map_err f m)"
  by (simp add: rm_map_err_def keeps_bind keeps_attempt keeps_lift)

lemma keeps_for: "(\<And>x. x \<in> set xs \<Longrightarrow> keeps (f x)) \<Longrightarrow> keeps (rm_for xs f)"
  by (induction xs) (simp_all add: keeps_return keeps_bind)

lemma keeps_fold: "(\<And>x a. x \<in> set xs \<Longrightarrow> keeps (f x a)) \<Longrightarrow> keeps (rm_fold f xs a)"
  by (induction xs arbitrary: a) (simp_all add: keeps_return keeps_bind)

lemma keeps_while: "(\<And>x. x \<in> set xs \<Longrightarrow> keeps (f x)) \<Longrightarrow> keeps (rm_while xs f)"
  by (induction xs) (simp_all add: keeps_return keeps_bind)

lemma keeps_if: "(b \<Longrightarrow> keeps m) \<Longrightarrow> (\<not> b \<Longrightarrow> keeps m') \<Longrightarrow> keeps (if b then m else m')"
  by simp

lemma keeps_prod: "(\<And>a b. x = (a, b) \<Longrightarrow> keeps (f a b)) \<Longrightarrow> keeps (case x of (a, b) \<Rightarrow> f a b)"
  by (cases x) simp

lemma keeps_option:
  "(x = None \<Longrightarrow> keeps m) \<Longrightarrow> (\<And>a. x = Some a \<Longrightarrow> keeps (f a)) \<Longrightarrow>
     keeps (case x of None \<Rightarrow> m | Some a \<Rightarrow> f a)"
  by (cases x) simp_all

lemma keeps_sum:
  "(\<And>a. x = Inl a \<Longrightarrow> keeps (f a)) \<Longrightarrow> (\<And>b. x = Inr b \<Longrightarrow> keeps (g b)) \<Longrightarrow>
     keeps (case x of Inl a \<Rightarrow> f a | Inr b \<Rightarrow> g b)"
  by (cases x) simp_all

lemma keeps_let: "keeps (f x) \<Longrightarrow> keeps (let y = x in f y)"
  by simp

lemmas keeps_rules = keeps_return keeps_raise keeps_panic keeps_get keeps_bind keeps_lift keeps_check
  keeps_when keeps_expect keeps_attempt keeps_ignore keeps_map_err keeps_for keeps_fold keeps_while
  keeps_if keeps_prod keeps_option keeps_sum keeps_let

end

text \<open>
  A relation that only looks at the parts of the state a call of the surroundings and a listing of
  sessions do not touch is kept by all of them, and by the transactions that respect it.
\<close>

locale rt_calls = rt_relation +
  assumes R_call: "R s (s\<lparr>rt_now := rt_now s + ms, rt_world := w\<rparr>)"
    and R_listed: "R s (s\<lparr>rt_effects := rt_effects s @ [Listed ws]\<rparr>)"
    and R_installed: "R s (s\<lparr>rt_effects := rt_effects s @ [Installed n img]\<rparr>)"
    and R_exited: "R s (s\<lparr>rt_effects := rt_effects s @ [Exited c]\<rparr>)"
    and R_fs: "R s (s\<lparr>rt_fs := f\<rparr>)"
begin

lemma keeps_call: "keeps (rm_call f)"
  by (auto simp: keeps_def rm_call_def R_call marked_def split: prod.split)

lemma R_wait: "R s (s\<lparr>rt_now := rt_now s + ms\<rparr>)"
  using R_call [where s = s and ms = ms and w = "rt_world s"] by simp

lemma keeps_sleep: "keeps (sleep_ms e ms)"
  by (simp add: sleep_ms_def keeps_bind keeps_call keeps_modify R_wait)

lemma keeps_fault: "keeps (fault_checkpoint e n)"
  by (simp add: fault_checkpoint_def keeps_bind keeps_call keeps_option keeps_return keeps_raise)

lemma keeps_tx_step: "(\<And>s a d. m (rt_db s) = Inr (a, d) \<Longrightarrow> R s (s\<lparr>rt_db := d\<rparr>)) \<Longrightarrow> keeps (rm_tx m)"
  by (auto simp: keeps_def rm_tx_def rm_panic_def R_refl R_panic marked_def
      split: sum.splits store_error.splits prod.splits)

lemma keeps_query_step: "keeps (rm_tx m) \<Longrightarrow> keeps (store_query e m)"
  by (simp add: store_query_def keeps_bind keeps_call keeps_option keeps_raise)

lemma keeps_call_step: "(\<And>clk. keeps (rm_tx (m clk))) \<Longrightarrow> keeps (store_call e m)"
  by (simp add: store_call_def keeps_bind keeps_call keeps_query_step)

lemma keeps_unix_time: "keeps (runtime_unix_time e)"
  by (simp add: runtime_unix_time_def keeps_rules keeps_call)

lemma keeps_install: "keeps (engine_install e n i)"
  by (simp add: engine_install_def keeps_rules keeps_call keeps_effect R_installed)

lemma keeps_sessions: "keeps (engine_sessions e)"
  by (simp add: engine_sessions_def keeps_rules keeps_call keeps_effect R_listed)

lemma keeps_try_wait: "keeps (try_wait e c)"
  unfolding try_wait_def by (intro keeps_bind keeps_call keeps_sum keeps_option keeps_rules keeps_effect R_exited) simp

lemma keeps_starttime: "keeps (read_starttime e p)"
  by (simp add: read_starttime_def keeps_rules keeps_call)

lemma keeps_boot_id: "keeps (read_boot_id e)"
  by (simp add: read_boot_id_def keeps_rules keeps_call)

lemma keeps_delay: "keeps (restart_delay_seconds e n)"
  by (simp add: restart_delay_seconds_def keeps_rules)

lemmas call_rules = keeps_rules keeps_call keeps_sleep keeps_fault keeps_unix_time keeps_install keeps_sessions
  keeps_try_wait keeps_starttime keeps_boot_id keeps_delay

end

text \<open>Most relations also allow every operation of the journal.\<close>

locale rt_quiet = rt_calls +
  assumes R_db: "reaches (rt_db s) d \<Longrightarrow> R s (s\<lparr>rt_db := d\<rparr>)"
begin

lemma keeps_tx: "journaled m \<Longrightarrow> keeps (rm_tx m)"
  unfolding journaled_def by (blast intro: keeps_tx_step R_db)

lemma keeps_store_query: "journaled m \<Longrightarrow> keeps (store_query e m)"
  by (intro keeps_query_step keeps_tx)

lemma keeps_store_call: "(\<And>clk. journaled (m clk)) \<Longrightarrow> keeps (store_call e m)"
  by (intro keeps_call_step keeps_tx)

lemma keeps_mark_unknown: "keeps (mark_unknown e k)"
  unfolding mark_unknown_def by (intro keeps_store_call journaled_operations)

lemmas quiet_rules = call_rules keeps_tx keeps_store_query keeps_store_call keeps_mark_unknown

end

section \<open>The clock\<close>

definition later :: "'w rt \<Rightarrow> 'w rt \<Rightarrow> bool" where
  "later s s' \<longleftrightarrow> rt_now s \<le> rt_now s'"

interpretation clock: rt_quiet later
  by unfold_locales (auto simp: later_def)

lemma clock_effects [intro]:
  "clock.keeps (engine_kill e session)"
  "clock.keeps (engine_run e name opts out err)"
  "clock.keeps (insert_child key mc)"
  "clock.keeps (remove_child key)"
  "clock.keeps (insert_uncertain key c)"
  "clock.keeps (remove_uncertain key)"
  by (simp_all add: engine_kill_def engine_run_def insert_child_def remove_child_def insert_uncertain_def
      remove_uncertain_def clock.quiet_rules clock.keeps_effect clock.keeps_modify later_def)

lemmas clock_rules = clock.quiet_rules clock_effects

text \<open>Polling makes progress: a sleep moves the clock by what it was asked for at least.\<close>

lemma sleep_progress: "rt_now s + ms \<le> rt_now (snd (sleep_ms e ms s))"
  by (auto simp: sleep_ms_def rm_bind_def rm_call_def rm_modify_def split: prod.split)

lemma poll_progress:
  assumes "clock.keeps m" and "m s = (r, s')" and "rt_now s' < deadline" and "0 < ms"
  shows "deadline - rt_now (snd (sleep_ms e ms s')) < deadline - rt_now s"
  using clock.keepsD [OF assms(1,2)] assms(3,4) sleep_progress [of s' ms e] by (simp add: later_def)

section \<open>Waiting for a process\<close>

function wait_loop :: "'w env \<Rightarrow> child \<Rightarrow> nat \<Rightarrow> ('w, exit_status) rm" where
  "wait_loop e c deadline s =
     (case try_wait e c s of
        (Inl x, s1) \<Rightarrow> (Inl x, s1)
      | (Inr (Some st), s1) \<Rightarrow> (Inr st, s1)
      | (Inr None, s1) \<Rightarrow>
          if deadline \<le> rt_now s1 then (Inl (Raise StopTimeout), s1)
          else wait_loop e c deadline (snd (sleep_ms e 50 s1)))"
  by pat_completeness auto
termination
  by (relation "measure (\<lambda>(e, c, deadline, s). deadline - rt_now s)")
    (auto intro!: poll_progress [OF clock.keeps_try_wait sym])

declare wait_loop.simps [simp del]

definition wait_for_exit :: "'w env \<Rightarrow> child \<Rightarrow> nat \<Rightarrow> ('w, exit_status) rm" where
  "wait_for_exit e c timeout = rm_bind (rm_get rt_now) (\<lambda>now. wait_loop e c (now + timeout))"

context rt_calls
begin

lemma keeps_wait_loop: "R s (snd (wait_loop e c deadline s)) \<and>
    marked (fst (wait_loop e c deadline s)) s (snd (wait_loop e c deadline s))"
proof (induction e c deadline s rule: wait_loop.induct)
  case (1 e c deadline s)
  obtain r s1 where t: "try_wait e c s = (r, s1)" by fastforce
  have one: "R s s1" "marked r s s1" using keeps_try_wait t by (rule keepsD keeps_marked)+
  let ?s2 = "snd (sleep_ms e 50 s1)"
  have two: "R s1 ?s2" "crashed ?s2 = crashed s1"
    using keeps_snd [OF keeps_sleep] by (auto simp: sleep_ms_def rm_bind_def rm_call_def rm_modify_def split: prod.splits)
  consider x where "r = Inl x" | st where "r = Inr (Some st)" | "r = Inr None"
    by (metis option.exhaust sum.exhaust)
  then show ?case
  proof cases
    case 3
    show ?thesis
    proof (cases "deadline \<le> rt_now s1")
      case True
      with t 3 one show ?thesis by (simp add: wait_loop.simps [of e c deadline s] marked_def)
    next
      case False
      then have "R ?s2 (snd (wait_loop e c deadline ?s2))"
          "marked (fst (wait_loop e c deadline ?s2)) ?s2 (snd (wait_loop e c deadline ?s2))"
        using "1.IH" [OF t [symmetric] 3] by simp_all
      with False t 3 one two show ?thesis
        by (simp add: wait_loop.simps [of e c deadline s] marked_def) (blast intro: R_trans)
    qed
  qed (use t one in \<open>simp_all add: wait_loop.simps [of e c deadline s] marked_def\<close>)
qed

lemma keeps_wait: "keeps (wait_for_exit e c timeout)"
  unfolding wait_for_exit_def
  by (intro keeps_bind keeps_get keepsI keeps_wait_loop [THEN conjunct1] keeps_wait_loop [THEN conjunct2])

end

end
