(* ===== verification/Runtime_Start.thy ===== *)
theory Runtime_Start
  imports Runtime_Rules
begin

text \<open>
  Starting, checking and stopping one service (\<^verbatim>\<open>src/runtime.rs\<close>): the journal is written
  before each effect, a spawned process becomes an owned child only with a persisted identity,
  and is stopped only when the journal, the process and the engine agree on who it is. A child
  about which they do not agree is kept aside and never touched again.
\<close>

section \<open>Log files\<close>

definition io_runtime :: "io_err \<Rightarrow> runtime_error" where
  "io_runtime x = RtIo (io_message x)"

definition open_log_append :: "'w env \<Rightarrow> string \<Rightarrow> ('w, string) rm" where
  "open_log_append e path =
     rm_bind (rm_call (ev_stat e path)) (\<lambda>r.
     rm_bind (rm_lift (map_err io_runtime r)) (\<lambda>earlier.
     if ls_symlink earlier \<or> \<not> ls_file earlier \<or> ls_mode earlier AND 63 \<noteq> 0 then rm_raise (UnsafeLog path)
     else rm_bind (rm_call (ev_open e Append path)) (\<lambda>r.
     rm_bind (rm_lift (map_err io_runtime r)) (\<lambda>after.
     if \<not> ls_file after \<or> ls_dev earlier \<noteq> ls_dev after \<or> ls_ino earlier \<noteq> ls_ino after
     then rm_raise (UnsafeLog path) else rm_return path))))"

definition create_log :: "'w env \<Rightarrow> string \<Rightarrow> ('w, string) rm" where
  "create_log e path =
     rm_bind (rm_call (ev_stat e path)) (\<lambda>r.
     if is_ok r then rm_raise (UnsafeLog path)
     else rm_bind (rm_call (ev_open e Create_New path)) (\<lambda>r.
     rm_bind (rm_lift (map_err io_runtime r)) (\<lambda>metadata.
     if \<not> ls_file metadata \<or> ls_mode metadata AND 63 \<noteq> 0 then rm_raise (UnsafeLog path) else rm_return path)))"

definition open_logs :: "'w env \<Rightarrow> string \<Rightarrow> string \<Rightarrow> ('w, string \<times> string) rm" where
  "open_logs e out err =
     rm_bind (open_log_append e out) (\<lambda>a. rm_bind (open_log_append e err) (\<lambda>b. rm_return (a, b)))"

definition open_or_create_log :: "'w env \<Rightarrow> string \<Rightarrow> ('w, string) rm" where
  "open_or_create_log e path =
     rm_bind (rm_call (ev_stat e path)) (\<lambda>r.
     case r of
       Inr _ \<Rightarrow> open_log_append e path
     | Inl x \<Rightarrow> if io_kind x = NotFoundIo then create_log e path else rm_raise (io_runtime x))"

text \<open>A call on the file system as it is at that moment.\<close>

definition rm_files :: "'w env \<Rightarrow> (fs \<Rightarrow> 'r \<times> fs) \<Rightarrow> ('w, 'r) rm" where
  "rm_files e g =
     rm_bind (rm_get rt_fs) (\<lambda>f0.
     rm_bind (rm_call (ev_files e f0)) (\<lambda>f.
     case g f of (r, f') \<Rightarrow> rm_bind (rm_modify (\<lambda>s. s\<lparr>rt_fs := f'\<rparr>)) (\<lambda>_. rm_return r)))"

definition prepare_existing_logs :: "'w env \<Rightarrow> string \<Rightarrow> string \<Rightarrow> string \<Rightarrow> ('w, string \<times> string) rm" where
  "prepare_existing_logs e stack out err =
     rm_bind (rm_get rt_paths) (\<lambda>paths.
     rm_bind (rm_files e (prepare_stack_log_directory paths stack)) (\<lambda>r.
     rm_bind (rm_lift (map_err io_runtime r)) (\<lambda>_.
     rm_bind (open_or_create_log e out) (\<lambda>a. rm_bind (open_or_create_log e err) (\<lambda>b. rm_return (a, b))))))"

section \<open>Automatic restarts\<close>

text \<open>\<^verbatim>\<open>u32::try_from(n).unwrap_or(u32::MAX)\<close>.\<close>

definition as_u32 :: "int \<Rightarrow> nat" where
  "as_u32 n = (if 0 \<le> n \<and> n < 2 ^ 32 then nat n else 2 ^ 32 - 1)"

definition active_window :: "int \<Rightarrow> int option \<Rightarrow> int option" where
  "active_window now started = (case started of
     None \<Rightarrow> None
   | Some t \<Rightarrow> (case i64_checked_sub now t of
       None \<Rightarrow> None
     | Some elapsed \<Rightarrow> if 0 \<le> elapsed \<and> elapsed < int STABLE_WINDOW then Some t else None))"

definition required_stack :: "'w env \<Rightarrow> string \<Rightarrow> ('w, existing_stack) rm" where
  "required_stack e stack =
     rm_bind (store_query e (tx_query (existing_stack stack))) (\<lambda>x.
     rm_lift (ok_or (RtStore (NotFound (stack_subject stack))) x))"

definition service_of :: "string \<Rightarrow> existing_stack \<Rightarrow> existing_service option" where
  "service_of name x = find (\<lambda>v. ex_name v = name) (es_services x)"

definition journal_restart :: "'w env \<Rightarrow> service_key \<Rightarrow> nat \<Rightarrow> int \<Rightarrow> int \<Rightarrow> ('w, bool) rm" where
  "journal_restart e key previous window now =
     (if MAX_RESTART_ATTEMPTS \<le> previous then rm_return False
      else rm_bind (restart_delay_seconds e previous) (\<lambda>delay.
        rm_bind (store_call e (schedule_restart (fst key) (snd key) (int (previous + 1)) window (i64_wrap (now + delay)))) (\<lambda>_.
        rm_return True)))"

definition schedule_restart_after_exit :: "'w env \<Rightarrow> service_key \<Rightarrow> managed_child \<Rightarrow> ('w, unit) rm" where
  "schedule_restart_after_exit e key mc =
     rm_bind (required_stack e (fst key)) (\<lambda>existing.
     if es_desired existing \<noteq> ''running'' then rm_return ()
     else rm_bind (rm_lift (ok_or (RtStore (NotFound (service_subject (fst key) (snd key)))) (service_of (snd key) existing))) (\<lambda>persisted.
     rm_bind (runtime_unix_time e) (\<lambda>now.
     rm_bind (rm_get rt_now) (\<lambda>instant.
     let (previous, window) =
       (if STABLE_WINDOW * 1000 \<le> instant - mc_started mc then (0, now)
        else case active_window now (ex_window persisted) of
          Some started \<Rightarrow> (as_u32 (ex_attempts persisted), started)
        | None \<Rightarrow> (0, now)) in
     rm_bind (journal_restart e key previous window now) (\<lambda>scheduled.
     rm_when scheduled (fault_checkpoint e ''during_backoff''))))))"

section \<open>Identity\<close>

definition query_identity :: "'w env \<Rightarrow> service_key \<Rightarrow> ('w, service_identity) rm" where
  "query_identity e key = store_query e (tx_read (service_identity (fst key) (snd key)))"

text \<open>\<^verbatim>\<open>i64::try_from(starttime).ok()\<close>.\<close>

definition as_i64 :: "64 word \<Rightarrow> int option" where
  "as_i64 w = (if uint w < 2 ^ 63 then Some (uint w) else None)"

definition same_identity ::
    "service_identity \<Rightarrow> managed_child \<Rightarrow> 32 word \<Rightarrow> string \<Rightarrow> 64 word \<Rightarrow> 32 word list \<Rightarrow> bool" where
  "same_identity identity mc session boot starttime sessions \<longleftrightarrow>
     id_session identity = Some (uint session)
     \<and> id_alias identity = mc_alias mc
     \<and> id_generation identity = mc_generation mc
     \<and> id_pid identity = Some (uint (ch_pid (mc_child mc)))
     \<and> id_starttime identity = as_i64 (mc_starttime mc)
     \<and> id_boot identity = Some (mc_boot mc)
     \<and> boot = mc_boot mc \<and> starttime = mc_starttime mc \<and> session \<in> set sessions"

text \<open>Whether a session may still be there: the engine lists it, or cannot be asked.\<close>

definition registry_ambiguous :: "'w env \<Rightarrow> 32 word \<Rightarrow> ('w, bool) rm" where
  "registry_ambiguous e session =
     rm_bind (rm_attempt (engine_sessions e)) (\<lambda>r. rm_return (case r of Inl _ \<Rightarrow> True | Inr ws \<Rightarrow> session \<in> set ws))"

definition stop_owned_child :: "'w env \<Rightarrow> service_key \<Rightarrow> ('w, exit_status) rm" where
  "stop_owned_child e key =
     rm_bind (query_identity e key) (\<lambda>identity.
     rm_bind (rm_get (owned key)) (\<lambda>found.
     rm_bind (rm_lift (ok_or IdentityChanged found)) (\<lambda>mc.
     rm_bind (rm_lift (ok_or SessionUnknown (mc_session mc))) (\<lambda>session.
     rm_bind (read_boot_id e) (\<lambda>boot.
     rm_bind (read_starttime e (ch_pid (mc_child mc))) (\<lambda>starttime.
     rm_bind (engine_sessions e) (\<lambda>sessions.
     if \<not> same_identity identity mc session boot starttime sessions then rm_raise IdentityChanged
     else rm_bind (engine_kill e session) (\<lambda>_.
       rm_bind (wait_for_exit e (mc_child mc) STOP_TIMEOUT) (\<lambda>st.
       rm_bind (remove_child key) (\<lambda>_. rm_return st))))))))))"

text \<open>An owned child that has exited: what is journaled, and the error that says so.\<close>

definition observed_exit :: "'w env \<Rightarrow> service_key \<Rightarrow> managed_child \<Rightarrow> exit_status \<Rightarrow> ('w, unit) rm" where
  "observed_exit e key mc st =
     (let (code, signal) = exit_parts st in
      rm_bind (case mc_session mc of Some session \<Rightarrow> registry_ambiguous e session | None \<Rightarrow> rm_return True) (\<lambda>ambiguous.
      rm_bind (remove_child key) (\<lambda>_.
      if signal \<noteq> None \<or> ambiguous then rm_bind (rm_ignore (mark_unknown e key)) (\<lambda>_. rm_raise IdentityChanged)
      else rm_bind (store_call e (record_exit (fst key) (snd key) code signal)) (\<lambda>_.
        rm_bind (rm_when (should_restart (mc_restart mc) st) (schedule_restart_after_exit e key mc)) (\<lambda>_.
        rm_raise (RtConflict ([Txt ''service ''] @ [Dbg (fst key), Txt ''/'', Dbg (snd key)]
          @ [Txt '' exited before it could be revalidated''])))))))"

definition revalidate :: "'w env \<Rightarrow> service_key \<Rightarrow> managed_child \<Rightarrow> ('w, unit) rm" where
  "revalidate e key mc =
     rm_bind (rm_lift (ok_or SessionUnknown (mc_session mc))) (\<lambda>session.
     rm_bind (query_identity e key) (\<lambda>identity.
     rm_bind (read_boot_id e) (\<lambda>boot.
     rm_bind (read_starttime e (ch_pid (mc_child mc))) (\<lambda>starttime.
     rm_bind (rm_map_err (\<lambda>x. StartUncertain ([Txt ''could not revalidate owned child '', Dbg (fst key), Txt ''/'', Dbg (snd key),
         Txt '': ''] @ runtime_error_text x)) (engine_sessions e)) (\<lambda>sessions.
     if same_identity identity mc session boot starttime sessions then rm_return () else rm_raise IdentityChanged)))))"

definition validate_owned_service_running :: "'w env \<Rightarrow> service_key \<Rightarrow> ('w, unit) rm" where
  "validate_owned_service_running e key =
     rm_bind (rm_get (is_uncertain key)) (\<lambda>uncertain.
     if uncertain then rm_raise IdentityChanged
     else rm_bind (rm_get (owned key)) (\<lambda>found.
       rm_bind (rm_lift (ok_or IdentityChanged found)) (\<lambda>mc.
       rm_bind (rm_attempt (try_wait e (mc_child mc))) (\<lambda>r.
       case r of
         Inl x \<Rightarrow> rm_bind (quarantine_managed_child e key) (\<lambda>_.
           rm_raise (StartUncertain ([Txt ''could not observe owned child '', Dbg (fst key), Txt ''/'', Dbg (snd key), Txt '': '']
             @ runtime_error_text x)))
       | Inr (Some st) \<Rightarrow> observed_exit e key mc st
       | Inr None \<Rightarrow>
           rm_bind (rm_attempt (revalidate e key mc)) (\<lambda>validation.
           rm_bind (rm_when (\<not> is_ok validation) (quarantine_managed_child e key)) (\<lambda>_.
           rm_lift validation))))))"

definition ensure_dependencies_running :: "'w env \<Rightarrow> manifest \<Rightarrow> service \<Rightarrow> ('w, unit) rm" where
  "ensure_dependencies_running e m service =
     rm_for (se_depends_on service) (\<lambda>dependency.
       rm_bind (rm_get (is_owned (mf_name m, dependency))) (\<lambda>own.
       if \<not> own then rm_raise (RtConflict [Txt ''dependency '', Dbg (mf_name m), Txt ''/'', Dbg dependency,
           Txt '' is not owned by this daemon''])
       else rm_map_err (\<lambda>x. RtConflict ([Txt ''dependency '', Dbg (mf_name m), Txt ''/'', Dbg dependency,
             Txt '' is not qualified running for service '', Dbg (se_name service), Txt '': ''] @ runtime_error_text x))
           (validate_owned_service_running e (mf_name m, dependency))))"

section \<open>A spawned process\<close>

text \<open>One turn of the loop that contains a process whose identity could not be established.\<close>

definition contain_step :: "'w env \<Rightarrow> child \<Rightarrow> ('w, bool) rm" where
  "contain_step e c =
     rm_bind (rm_attempt (try_wait e c)) (\<lambda>r.
     case r of
       Inr (Some _) \<Rightarrow> rm_return True
     | _ \<Rightarrow>
         rm_bind (rm_attempt (engine_sessions e)) (\<lambda>ws.
         if (case ws of Inl _ \<Rightarrow> False | Inr ws \<Rightarrow> ch_pid c \<in> set ws) then
           rm_bind (rm_attempt (engine_kill e (ch_pid c))) (\<lambda>killed.
           if is_ok killed then rm_bind (rm_attempt (wait_for_exit e c STOP_TIMEOUT)) (\<lambda>st. rm_return (is_ok st))
           else rm_return False)
         else rm_return False))"

lemma clock_contain_step: "clock.keeps (contain_step e c)"
  unfolding contain_step_def
  by (intro clock_rules clock.keeps_wait)

function contain_loop :: "'w env \<Rightarrow> service_key \<Rightarrow> child \<Rightarrow> nat \<Rightarrow> ('w, bool) rm" where
  "contain_loop e key c deadline s =
     (case contain_step e c s of
        (Inl x, s1) \<Rightarrow> (Inl x, s1)
      | (Inr True, s1) \<Rightarrow> (Inr True, s1)
      | (Inr False, s1) \<Rightarrow>
          if deadline \<le> rt_now s1 then rm_bind (insert_uncertain key c) (\<lambda>_. rm_return False) s1
          else contain_loop e key c deadline (snd (sleep_ms e 50 s1)))"
  by pat_completeness auto
termination
  by (relation "measure (\<lambda>(e, key, c, deadline, s). deadline - rt_now s)")
    (auto intro!: poll_progress [OF clock_contain_step sym])

declare contain_loop.simps [simp del]

definition contain_unqualified_child :: "'w env \<Rightarrow> service_key \<Rightarrow> child \<Rightarrow> ('w, bool) rm" where
  "contain_unqualified_child e key c = rm_bind (rm_get rt_now) (\<lambda>now. contain_loop e key c (now + SESSION_TIMEOUT))"

definition contain_and_fail :: "'w env \<Rightarrow> service_key \<Rightarrow> child \<Rightarrow> string \<Rightarrow> runtime_error \<Rightarrow> ('w, 'a) rm" where
  "contain_and_fail e key c what x =
     rm_bind (contain_unqualified_child e key c) (\<lambda>drained.
     rm_raise (StartUncertain ([Txt what] @ runtime_error_text x
       @ [Txt ''; engine session drained: '', Txt (if drained then ''true'' else ''false'')])))"

datatype start_journal = Operation_Journal string | Restart_Journal

definition journal_starting :: "'w env \<Rightarrow> start_journal \<Rightarrow> service_key \<Rightarrow> child \<Rightarrow> 64 word \<Rightarrow> string \<Rightarrow> ('w, unit) rm" where
  "journal_starting e journal key c starttime boot =
     (case journal of
        Operation_Journal request \<Rightarrow>
          store_call e (mark_starting request (fst key) (snd key) (uint (ch_pid c)) (uint starttime) boot)
      | Restart_Journal \<Rightarrow>
          store_call e (mark_restart_starting (fst key) (snd key) (uint (ch_pid c)) (uint starttime) boot))"

definition journal_running :: "'w env \<Rightarrow> start_journal \<Rightarrow> service_key \<Rightarrow> 32 word \<Rightarrow> ('w, unit) rm" where
  "journal_running e journal key session =
     (case journal of
        Operation_Journal request \<Rightarrow> store_call e (mark_running request (fst key) (snd key) (uint session))
      | Restart_Journal \<Rightarrow> store_call e (mark_restart_running (fst key) (snd key) (uint session)))"

definition start_order_of :: "manifest \<Rightarrow> ('w, string list) rm" where
  "start_order_of m = (case start_order m of Inl _ \<Rightarrow> rm_panic | Inr order \<Rightarrow> rm_return order)"

definition spawned_text :: "string \<Rightarrow> service_key \<Rightarrow> runtime_error \<Rightarrow> runtime_error" where
  "spawned_text what key x =
     StartUncertain ([Txt what, Dbg (fst key), Txt ''/'', Dbg (snd key), Txt '': ''] @ runtime_error_text x)"

text \<open>One turn of the loop that waits for the engine to publish the session.\<close>

definition session_step :: "'w env \<Rightarrow> service_key \<Rightarrow> 32 word \<Rightarrow> ('w, bool) rm" where
  "session_step e key pid =
     rm_bind (rm_get (owned key)) (\<lambda>found.
     rm_bind (rm_expect found) (\<lambda>mc.
     rm_bind (rm_map_err (spawned_text ''could not observe spawned child '' key) (try_wait e (mc_child mc))) (\<lambda>r.
     case r of
       Some st \<Rightarrow>
         (let (code, signal) = exit_parts st in
          rm_bind (remove_child key) (\<lambda>_.
          rm_bind (registry_ambiguous e pid) (\<lambda>ambiguous.
          if signal \<noteq> None \<or> ambiguous then
            rm_bind (rm_ignore (mark_unknown e key)) (\<lambda>_.
            rm_raise (StartUncertain [Txt ''spawned child '', Dbg (fst key), Txt ''/'', Dbg (snd key),
              Txt '' exited without proven guest-tree absence'']))
          else rm_bind (store_call e (record_exit (fst key) (snd key) code signal)) (\<lambda>_.
            rm_raise (ChildExited code signal)))))
     | None \<Rightarrow>
         rm_bind (rm_map_err (spawned_text ''could not observe the engine session for '' key) (engine_sessions e)) (\<lambda>ws.
         rm_return (pid \<in> set ws)))))"

lemma clock_ambiguous: "clock.keeps (registry_ambiguous e session)"
  by (simp add: registry_ambiguous_def clock_rules)

lemma clock_session_step: "clock.keeps (session_step e key pid)"
  unfolding session_step_def exit_parts_def Let_def prod.case
  by (intro clock_rules clock_ambiguous journaled_operations)

function session_loop :: "'w env \<Rightarrow> service_key \<Rightarrow> 32 word \<Rightarrow> nat \<Rightarrow> ('w, unit) rm" where
  "session_loop e key pid deadline s =
     (case session_step e key pid s of
        (Inl x, s1) \<Rightarrow> (Inl x, s1)
      | (Inr True, s1) \<Rightarrow> (Inr (), s1)
      | (Inr False, s1) \<Rightarrow>
          if deadline \<le> rt_now s1 then (Inl (Raise SessionUnknown), s1)
          else session_loop e key pid deadline (snd (sleep_ms e 50 s1)))"
  by pat_completeness auto
termination
  by (relation "measure (\<lambda>(e, key, pid, deadline, s). deadline - rt_now s)")
    (auto intro!: poll_progress [OF clock_session_step sym])

declare session_loop.simps [simp del]

text \<open>The session of a child is its process number, once the engine lists it.\<close>

definition set_session :: "service_key \<Rightarrow> 32 word \<Rightarrow> ('w, unit) rm" where
  "set_session key session =
     rm_bind (rm_get (owned key)) (\<lambda>found.
     rm_bind (rm_expect found) (\<lambda>_.
     rm_modify (\<lambda>s. s\<lparr>rt_children := bt_modify key (\<lambda>mc. mc\<lparr>mc_session := Some session\<rparr>) (rt_children s)\<rparr>)))"

definition qualify :: "'w env \<Rightarrow> manifest \<Rightarrow> service \<Rightarrow> start_journal \<Rightarrow> service_key \<Rightarrow> 32 word \<Rightarrow> ('w, unit) rm" where
  "qualify e m service journal key pid =
     rm_bind (case journal of
         Restart_Journal \<Rightarrow> rm_return ()
       | Operation_Journal _ \<Rightarrow> rm_bind (start_order_of m) (\<lambda>order.
           rm_when (order \<noteq> [] \<and> hd order = se_name service)
             (rm_map_err (spawned_text ''fault checkpoint failed after spawning '' key) (fault_checkpoint e ''after_start'')))) (\<lambda>_.
     rm_bind (rm_get rt_now) (\<lambda>now.
     rm_bind (session_loop e key pid (now + SESSION_TIMEOUT)) (\<lambda>_.
     rm_bind (set_session key pid) (\<lambda>_.
     journal_running e journal key pid))))"

text \<open>From the spawned process to an owned child: its identity is read, journaled and read back.\<close>

definition adopt_child ::
    "'w env \<Rightarrow> service \<Rightarrow> string \<Rightarrow> start_journal \<Rightarrow> service_key \<Rightarrow> child \<Rightarrow> ('w, unit) rm" where
  "adopt_child e service name journal key c =
     rm_bind (rm_attempt (read_starttime e (ch_pid c))) (\<lambda>r.
     case r of Inl x \<Rightarrow> contain_and_fail e key c ''could not qualify spawned process identity: '' x
     | Inr starttime \<Rightarrow>
     rm_bind (rm_attempt (read_boot_id e)) (\<lambda>r.
     case r of Inl x \<Rightarrow> contain_and_fail e key c ''could not read the boot identity after spawning: '' x
     | Inr boot \<Rightarrow>
     rm_bind (rm_attempt (journal_starting e journal key c starttime boot)) (\<lambda>r.
     case r of Inl x \<Rightarrow> contain_and_fail e key c ''could not persist the spawned process identity: '' x
     | Inr _ \<Rightarrow>
     rm_bind (rm_attempt (query_identity e key)) (\<lambda>r.
     case r of Inl x \<Rightarrow> contain_and_fail e key c ''could not reread the persisted process identity: '' x
     | Inr identity \<Rightarrow>
     if id_alias identity \<noteq> name then
       rm_bind (contain_unqualified_child e key c) (\<lambda>_. rm_raise IdentityChanged)
     else rm_bind (rm_get rt_now) (\<lambda>now.
       insert_child key \<lparr>mc_child = c, mc_alias = name, mc_generation = id_generation identity,
         mc_starttime = starttime, mc_boot = boot, mc_session = None, mc_restart = se_restart service, mc_started = now\<rparr>)))))"

definition spawn_and_qualify ::
    "'w env \<Rightarrow> string \<Rightarrow> manifest \<Rightarrow> service \<Rightarrow> string \<Rightarrow> string \<Rightarrow> string \<Rightarrow> start_journal \<Rightarrow> ('w, unit) rm" where
  "spawn_and_qualify e base m service name out err journal =
     (let key = (mf_name m, se_name service) in
      rm_bind (rm_call (ev_listen e)) (\<lambda>listen.
      rm_bind (rm_lift (map_err RtResource (preflight_ports listen service))) (\<lambda>_.
      rm_bind (rm_get rt_paths) (\<lambda>paths.
      rm_bind (rm_files e (resolve_binds (ev_follow e) paths base m service)) (\<lambda>r.
      rm_bind (rm_lift (map_err RtResource r)) (\<lambda>binds.
      rm_bind (rm_get (\<lambda>s. is_owned key s \<or> is_uncertain key s)) (\<lambda>taken.
      if taken then rm_raise IdentityChanged
      else rm_bind (engine_run e name
          \<lparr>ro_command = se_command service, ro_environment = se_environment service, ro_binds = binds\<rparr> out err) (\<lambda>c.
        rm_bind (adopt_child e service name journal key c) (\<lambda>_.
        rm_bind (rm_attempt (qualify e m service journal key (ch_pid c))) (\<lambda>qualification.
        rm_bind (rm_when (\<not> is_ok qualification) (quarantine_managed_child e key)) (\<lambda>_.
        rm_lift qualification)))))))))))"

section \<open>Starting within an operation\<close>

definition is_unknown :: "runtime_error \<Rightarrow> bool" where
  "is_unknown x = (case x of RtStore _ \<Rightarrow> True | StartUncertain _ \<Rightarrow> True | SessionUnknown \<Rightarrow> True
     | IdentityChanged \<Rightarrow> True | _ \<Rightarrow> False)"

definition record_operation_failure :: "'w env \<Rightarrow> string \<Rightarrow> string \<Rightarrow> string \<Rightarrow> runtime_error \<Rightarrow> ('w, unit) rm" where
  "record_operation_failure e request stack service x =
     rm_ignore (store_call e
       (mark_service_failed request stack service (runtime_code x) (runtime_error_text x) (is_unknown x)))"

definition start_operation_child ::
    "'w env \<Rightarrow> string \<Rightarrow> string \<Rightarrow> manifest \<Rightarrow> service \<Rightarrow> string \<Rightarrow> string \<Rightarrow> string \<Rightarrow> ('w, unit) rm" where
  "start_operation_child e request base m service name out err =
     rm_bind (store_call e (mark_start_invoked request (mf_name m) (se_name service))) (\<lambda>_.
     rm_bind (rm_attempt (spawn_and_qualify e base m service name out err (Operation_Journal request))) (\<lambda>r.
     rm_bind (case r of Inr _ \<Rightarrow> rm_return ()
       | Inl x \<Rightarrow> record_operation_failure e request (mf_name m) (se_name service) x) (\<lambda>_.
     rm_lift r)))"

definition quarantine_cleanup_survivors :: "'w env \<Rightarrow> service_key list \<Rightarrow> nat \<Rightarrow> ('w, unit) rm" where
  "quarantine_cleanup_survivors e started considered =
     rm_for (take (length started - considered) started) (quarantine_managed_child e)"

text \<open>The children started by a failed operation are stopped in reverse; the first that cannot be stops the loop.\<close>

definition stop_started_step :: "'w env \<Rightarrow> string \<Rightarrow> service_key list \<Rightarrow> nat \<times> service_key \<Rightarrow> ('w, bool) rm" where
  "stop_started_step e request started ik =
     (case ik of (i, key) \<Rightarrow>
       rm_bind (rm_attempt (stop_owned_child e key)) (\<lambda>r.
       case r of
         Inr st \<Rightarrow>
           (let (code, signal) = exit_parts st in
            rm_bind (rm_attempt (store_call e (record_exit (fst key) (snd key) code signal))) (\<lambda>recorded.
            if is_ok recorded then rm_return True
            else rm_bind (rm_ignore (mark_unknown e key)) (\<lambda>_.
              rm_bind (quarantine_cleanup_survivors e started (i + 1)) (\<lambda>_. rm_return False))))
       | Inl x \<Rightarrow>
           rm_bind (quarantine_managed_child e key) (\<lambda>_.
           rm_bind (record_operation_failure e request (fst key) (snd key) x) (\<lambda>_.
           rm_bind (quarantine_cleanup_survivors e started (i + 1)) (\<lambda>_. rm_return False)))))"

definition stop_started_after_failed_up :: "'w env \<Rightarrow> string \<Rightarrow> service_key list \<Rightarrow> ('w, unit) rm" where
  "stop_started_after_failed_up e request started =
     rm_while (enumerate 0 (rev started)) (stop_started_step e request started)"

definition abort_start_operation ::
    "'w env \<Rightarrow> string \<Rightarrow> manifest \<Rightarrow> string list \<Rightarrow> string \<Rightarrow> service_key list \<Rightarrow> runtime_error \<Rightarrow> ('w, unit) rm" where
  "abort_start_operation e request m order failed started x =
     rm_bind (record_operation_failure e request (mf_name m) failed x) (\<lambda>_.
     rm_bind (rm_for order (\<lambda>service.
       if service = failed \<or> (mf_name m, service) \<in> set started then rm_return ()
       else rm_ignore (store_call e (mark_service_failed request (mf_name m) service ''dependency_failed''
         ([Txt ''service '', Dbg failed, Txt '' failed before the stack committed: ''] @ runtime_error_text x) False)))) (\<lambda>_.
     rm_bind (stop_started_after_failed_up e request started) (\<lambda>_.
     store_call e (finalize_operation_failure request (mf_name m) (runtime_code x) (runtime_error_text x)))))"

end
