(* ===== verification/Runtime_Tick.thy ===== *)
theory Runtime_Tick
  imports Runtime_Start
begin

text \<open>
  Supervision (\<^verbatim>\<open>src/runtime.rs\<close>): a tick observes every child, journals the exits it can
  prove, and performs the automatic restarts that are due, each with a bounded number of
  attempts and a growing delay.
\<close>

section \<open>Persisted manifests\<close>

definition parse_rm :: "'w env \<Rightarrow> string \<Rightarrow> ('w, manifest) rm" where
  "parse_rm e source = (case parse (ev_scan e) source of
     Inl _ \<Rightarrow> rm_panic
   | Inr (Inl x) \<Rightarrow> rm_raise (RtManifest x)
   | Inr (Inr m) \<Rightarrow> rm_return m)"

definition stop_order_of :: "manifest \<Rightarrow> ('w, string list) rm" where
  "stop_order_of m = (case stop_order m of Inl _ \<Rightarrow> rm_panic | Inr order \<Rightarrow> rm_return order)"

definition persisted_base :: "existing_stack \<Rightarrow> ('w, string) rm" where
  "persisted_base x =
     (if utf8_valid (es_base x) then rm_return (es_base x)
      else rm_raise (RtConflict [Txt ''persisted manifest base is not UTF-8'']))"

definition not_found_service :: "string \<Rightarrow> string \<Rightarrow> runtime_error" where
  "not_found_service stack service = RtStore (NotFound (service_subject stack service))"

section \<open>Restarts that are due\<close>

definition reschedule_after_early_exit :: "'w env \<Rightarrow> scheduled_restart \<Rightarrow> int option \<Rightarrow> int option \<Rightarrow> ('w, unit) rm" where
  "reschedule_after_early_exit e sr code signal =
     (let stack = sr_stack sr; service = sr_service sr in
      rm_bind (required_stack e stack) (\<lambda>existing.
      rm_bind (parse_rm e (es_source existing)) (\<lambda>m.
      rm_bind (rm_lift (ok_or (not_found_service stack service) (bt_get (mf_services m) service))) (\<lambda>definition.
      if \<not> should_restart_parts (se_restart definition) code signal then rm_return ()
      else rm_bind (rm_lift (ok_or (not_found_service stack service) (service_of service existing))) (\<lambda>persisted.
        rm_bind (runtime_unix_time e) (\<lambda>now.
        let (previous, window) = (case active_window now (ex_window persisted) of
              Some started \<Rightarrow> (as_u32 (sr_attempts sr), started)
            | None \<Rightarrow> (0, now)) in
        rm_bind (journal_restart e (stack, service) previous window now) (\<lambda>_. rm_return ())))))))"

text \<open>What a restart needs before any effect.\<close>

record restart_plan =
  rp_manifest :: manifest
  rp_definition :: service
  rp_alias :: string
  rp_base :: string
  rp_stdout :: string
  rp_stderr :: string

definition prepare_restart :: "'w env \<Rightarrow> string \<Rightarrow> string \<Rightarrow> ('w, restart_plan) rm" where
  "prepare_restart e stack service =
     rm_bind (required_stack e stack) (\<lambda>existing.
     rm_bind (parse_rm e (es_source existing)) (\<lambda>m.
     rm_bind (rm_lift (ok_or (not_found_service stack service) (bt_get (mf_services m) service))) (\<lambda>definition.
     rm_bind (rm_expect (service_of service existing)) (\<lambda>persisted.
     if ex_desired persisted \<noteq> ''running'' \<or> ex_phase persisted \<noteq> ''backoff'' \<or> ex_next persisted = None
     then rm_raise IdentityChanged
     else rm_bind (rm_lift (ok_or (RtConflict [Txt ''service '', Dbg stack, Txt ''/'', Dbg service, Txt '' has no current rootfs''])
         (ex_alias persisted))) (\<lambda>name.
       rm_bind (persisted_base existing) (\<lambda>base.
       rm_bind (ensure_dependencies_running e m definition) (\<lambda>_.
       rm_bind (open_logs e (ex_stdout persisted) (ex_stderr persisted)) (\<lambda>(out, err).
       rm_return \<lparr>rp_manifest = m, rp_definition = definition, rp_alias = name, rp_base = base,
         rp_stdout = out, rp_stderr = err\<rparr>))))))))"

text \<open>The delay of a retry: \<^verbatim>\<open>attempt.saturating_sub(1)\<close>, from the present time.\<close>

definition retry_at :: "'w env \<Rightarrow> int \<Rightarrow> ('w, int) rm" where
  "retry_at e attempts =
     (let attempt = (if 0 \<le> attempts \<and> attempts < 2 ^ 32 then nat attempts else MAX_RESTART_ATTEMPTS) in
      rm_bind (restart_delay_seconds e (attempt - 1)) (\<lambda>delay.
      rm_bind (runtime_unix_time e) (\<lambda>now. rm_return (i64_wrap (now + delay)))))"

text \<open>Errors that are raised before the engine is started.\<close>

fun proven_pre_spawn :: "runtime_error \<Rightarrow> bool" where
  "proven_pre_spawn (RtResource _) = True"
| "proven_pre_spawn (RtEngine (Spawn _ _)) = True"
| "proven_pre_spawn (RtEngine (InvalidArgument _)) = True"
| "proven_pre_spawn _ = False"

definition restore_backoff :: "'w env \<Rightarrow> scheduled_restart \<Rightarrow> runtime_error \<Rightarrow> ('w, unit) rm" where
  "restore_backoff e sr x =
     (let stack = sr_stack sr; service = sr_service sr in
      rm_bind (retry_at e (sr_attempts sr)) (\<lambda>at.
      rm_bind (rm_attempt (store_call e (restore_restart_backoff stack service at))) (\<lambda>r.
      case r of
        Inr _ \<Rightarrow> rm_return ()
      | Inl y \<Rightarrow>
          rm_bind (rm_map_err (\<lambda>z. ProtocolState ([Txt ''proven pre-spawn failure ''] @ runtime_error_text x
              @ [Txt ''; durable backoff restoration failed: ''] @ runtime_error_text y
              @ [Txt ''; unknown state could not be persisted: ''] @ runtime_error_text z))
            (mark_unknown e (stack, service))) (\<lambda>_.
          rm_raise (ProtocolState ([Txt ''proven pre-spawn failure ''] @ runtime_error_text x
            @ [Txt ''; durable backoff restoration failed and the service was marked unknown: ''] @ runtime_error_text y))))))"

definition perform_scheduled_restart :: "'w env \<Rightarrow> scheduled_restart \<Rightarrow> ('w, unit) rm" where
  "perform_scheduled_restart e sr =
     (let stack = sr_stack sr; service = sr_service sr in
      rm_bind (rm_attempt (prepare_restart e stack service)) (\<lambda>r.
      case r of
        Inl x \<Rightarrow>
          rm_bind (retry_at e (sr_attempts sr)) (\<lambda>at.
          rm_map_err (\<lambda>y. RestartPending ([Txt ''pre-effect error ''] @ runtime_error_text x
              @ [Txt ''; the durable retry deadline could not be moved: ''] @ runtime_error_text y))
            (store_call e (defer_restart stack service at)))
      | Inr p \<Rightarrow>
          rm_bind (rm_map_err (\<lambda>y. RestartPending ([Txt ''the restart intent could not be persisted before spawn: '']
              @ runtime_error_text y)) (store_call e (mark_restart_invoked stack service))) (\<lambda>_.
          rm_bind (rm_attempt (spawn_and_qualify e (rp_base p) (rp_manifest p) (rp_definition p) (rp_alias p)
              (rp_stdout p) (rp_stderr p) Restart_Journal)) (\<lambda>r.
          case r of
            Inl x \<Rightarrow> if proven_pre_spawn x then restore_backoff e sr x else rm_raise x
          | Inr _ \<Rightarrow> rm_return ()))))"

section \<open>The tick\<close>

definition tick_uncertain :: "'w env \<Rightarrow> service_key \<Rightarrow> ('w, unit) rm" where
  "tick_uncertain e key =
     rm_bind (rm_get (\<lambda>s. bt_get (rt_uncertain s) key)) (\<lambda>found.
     rm_bind (rm_expect found) (\<lambda>c.
     rm_bind (rm_attempt (try_wait e c)) (\<lambda>r.
     case r of
       Inr (Some _) \<Rightarrow> remove_uncertain key
     | _ \<Rightarrow> rm_return ())))"

definition tick_child :: "'w env \<Rightarrow> service_key \<Rightarrow> ('w, unit) rm" where
  "tick_child e key =
     rm_bind (rm_get (owned key)) (\<lambda>found.
     rm_bind (rm_expect found) (\<lambda>mc.
     rm_bind (rm_attempt (try_wait e (mc_child mc))) (\<lambda>r.
     case r of
       Inl _ \<Rightarrow> rm_ignore (mark_unknown e key)
     | Inr None \<Rightarrow> rm_return ()
     | Inr (Some st) \<Rightarrow>
         (let (code, signal) = exit_parts st in
          rm_bind (case mc_session mc of Some session \<Rightarrow> registry_ambiguous e session | None \<Rightarrow> rm_return True) (\<lambda>ambiguous.
          if signal \<noteq> None \<or> ambiguous then
            rm_bind (rm_attempt (mark_unknown e key)) (\<lambda>marked.
            rm_when (is_ok marked) (remove_child key))
          else
            rm_bind (rm_attempt (store_call e (record_exit (fst key) (snd key) code signal))) (\<lambda>recorded.
            rm_when (is_ok recorded)
              (rm_bind (remove_child key) (\<lambda>_.
               rm_when (should_restart (mc_restart mc) st) (rm_ignore (schedule_restart_after_exit e key mc))))))))))"

definition remove_throttle :: "service_key \<Rightarrow> ('w, unit) rm" where
  "remove_throttle key = rm_modify (\<lambda>s. s\<lparr>rt_throttle := bt_remove key (rt_throttle s)\<rparr>)"

definition throttled :: "service_key \<Rightarrow> 'w rt \<Rightarrow> bool" where
  "throttled key s = (case bt_get (rt_throttle s) key of None \<Rightarrow> False | Some deadline \<Rightarrow> rt_now s < deadline)"

definition tick_restart :: "'w env \<Rightarrow> scheduled_restart \<Rightarrow> ('w, unit) rm" where
  "tick_restart e sr =
     (let key = (sr_stack sr, sr_service sr) in
      if sr_attempts sr \<le> 0 \<or> int MAX_RESTART_ATTEMPTS < sr_attempts sr then rm_ignore (mark_unknown e key)
      else rm_bind (rm_get (throttled key)) (\<lambda>skip.
        if skip then rm_return ()
        else rm_bind (remove_throttle key) (\<lambda>_.
          rm_bind (rm_get (\<lambda>s. is_owned key s \<or> is_uncertain key s)) (\<lambda>taken.
          if taken then rm_ignore (mark_unknown e key)
          else rm_bind (rm_attempt (perform_scheduled_restart e sr)) (\<lambda>r.
            case r of
              Inr _ \<Rightarrow> rm_return ()
            | Inl (ChildExited code signal) \<Rightarrow> rm_ignore (reschedule_after_early_exit e sr code signal)
            | Inl (RestartPending _) \<Rightarrow>
                rm_modify (\<lambda>s. s\<lparr>rt_throttle := bt_insert key (rt_now s + 1000) (rt_throttle s)\<rparr>)
            | Inl _ \<Rightarrow> rm_ignore (mark_unknown e key))))))"

definition tick :: "'w env \<Rightarrow> ('w, unit) rm" where
  "tick e =
     rm_bind (rm_get (\<lambda>s. bt_keys (rt_uncertain s))) (\<lambda>uncertain_keys.
     rm_bind (rm_for uncertain_keys (tick_uncertain e)) (\<lambda>_.
     rm_bind (rm_get (\<lambda>s. bt_keys (rt_children s))) (\<lambda>keys.
     rm_bind (rm_for keys (tick_child e)) (\<lambda>_.
     rm_bind (runtime_unix_time e) (\<lambda>now.
     rm_bind (store_query e (tx_query (due_restarts now))) (\<lambda>due.
     rm_for due (tick_restart e)))))))"

end
