(* ===== verification/Runtime_Up.thy ===== *)
theory Runtime_Up
  imports Runtime_Tick
begin

text \<open>
  Bringing a stack up (\<^verbatim>\<open>src/runtime.rs\<close>): the checks before anything is journaled, the
  preparation and start of a candidate generation, the start of the current generation, and the
  commit. Every step that can fail after the intent is journaled ends the operation in the
  journal before the error is returned.
\<close>

section \<open>Before the intent\<close>

definition required_status :: "'w env \<Rightarrow> string \<Rightarrow> ('w, stack_status) rm" where
  "required_status e stack =
     rm_bind (store_query e (tx_query (stack_status stack))) (\<lambda>x.
     rm_lift (ok_or (RtStore (NotFound (stack_subject stack))) x))"

definition check_bind :: "'w env \<Rightarrow> string \<Rightarrow> mount \<Rightarrow> ('w, unit) rm" where
  "check_bind e base mo =
     (if mo_kind mo = Bind then
        (let candidate = (if is_absolute (mo_source mo) then mo_source mo else join_path base (mo_source mo)) in
         rm_bind (rm_files e (\<lambda>f. (fo_canonicalize (ev_follow e) f candidate, f))) (\<lambda>r.
         rm_check (is_ok r) (RtResource (InvalidBind candidate))))
      else rm_return ())"

definition manifest_ports :: "manifest \<Rightarrow> 16 word list" where
  "manifest_ports m = concat (map (\<lambda>(_, s). map po_port (se_ports s)) (mf_services m))"

definition check_ports :: "'w env \<Rightarrow> manifest \<Rightarrow> stack_status \<Rightarrow> ('w, unit) rm" where
  "check_ports e m status =
     (if st_name status = mf_name m \<or> st_desired status \<noteq> ''running'' then rm_return ()
      else rm_bind (store_query e (tx_query (existing_stack (st_name status)))) (\<lambda>existing.
        case existing of
          None \<Rightarrow> rm_return ()
        | Some x \<Rightarrow>
            if es_source x = [] then rm_return ()
            else rm_bind (parse_rm e (es_source x)) (\<lambda>committed.
              rm_for (manifest_ports committed) (\<lambda>p.
                rm_check (p \<notin> set (manifest_ports m))
                  (RtConflict [Txt ''loopback port '', Num (uint p), Txt '' is already declared by running stack '',
                     Dbg (st_name status)])))))"

definition preflight_manifest :: "'w env \<Rightarrow> string \<Rightarrow> manifest \<Rightarrow> ('w, unit) rm" where
  "preflight_manifest e base m =
     rm_bind (rm_check (is_absolute base) (RtConflict [Txt ''manifest_base must be absolute''])) (\<lambda>_.
     rm_bind (rm_for (mf_services m) (\<lambda>(_, s). rm_for (se_mounts s) (check_bind e base))) (\<lambda>_.
     rm_bind (store_query e (tx_read stack_statuses)) (\<lambda>statuses.
     rm_for statuses (check_ports e m))))"

definition hex_bytes :: "nat list \<Rightarrow> string" where
  "hex_bytes bs = concat (map (\<lambda>b. [hex_char (b div 16 mod 16), hex_char (b mod 16)]) bs)"

definition short_name :: "string \<Rightarrow> string" where
  "short_name name = take (min (length name) 8) name"

definition random_bytes :: "'w env \<Rightarrow> nat \<Rightarrow> ('w, nat list) rm" where
  "random_bytes e n = rm_bind (rm_call (ev_random e n)) (\<lambda>r. rm_lift (map_err (\<lambda>x. RtIo [Txt x]) r))"

definition generate_alias :: "'w env \<Rightarrow> string \<Rightarrow> string \<Rightarrow> string \<Rightarrow> ('w, string) rm" where
  "generate_alias e installation stack service =
     rm_bind (random_bytes e 6) (\<lambda>bs.
     if length installation < 6 then rm_panic
     else rm_return (''txs-'' @ take 6 installation @ ''-'' @ short_name stack @ ''-'' @ short_name service @ ''-'' @ hex_bytes bs))"

definition generate_internal_request_id :: "'w env \<Rightarrow> string \<Rightarrow> string \<Rightarrow> ('w, string) rm" where
  "generate_internal_request_id e operation stack =
     rm_bind (random_bytes e 16) (\<lambda>bs.
     rm_return (''internal-'' @ operation @ ''-'' @ short_name stack @ ''-'' @ hex_bytes bs))"

section \<open>Starting the services of a candidate\<close>

definition fail_start ::
    "'w env \<Rightarrow> string \<Rightarrow> manifest \<Rightarrow> string list \<Rightarrow> string \<Rightarrow> service_key list \<Rightarrow> runtime_error \<Rightarrow> ('w, 'a) rm" where
  "fail_start e request m order failed started x =
     rm_bind (abort_start_operation e request m order failed started x) (\<lambda>_. rm_raise x)"

text \<open>\<^verbatim>\<open>first().expect(...)\<close> and \<^verbatim>\<open>last().expect(...)\<close>.\<close>

definition first_of :: "'a list \<Rightarrow> 'a option" where
  "first_of xs = (case xs of [] \<Rightarrow> None | x # _ \<Rightarrow> Some x)"

definition last_of :: "'a list \<Rightarrow> 'a option" where
  "last_of xs = (if xs = [] then None else Some (last xs))"

definition or_fail ::
    "'w env \<Rightarrow> string \<Rightarrow> manifest \<Rightarrow> string list \<Rightarrow> ('w, string) rm \<Rightarrow> service_key list \<Rightarrow> ('w, 'a) rm \<Rightarrow> ('w, 'a) rm" where
  "or_fail e request m order failed started body =
     rm_bind (rm_attempt body) (\<lambda>r.
     case r of
       Inr a \<Rightarrow> rm_return a
     | Inl x \<Rightarrow> rm_bind failed (\<lambda>f. fail_start e request m order f started x))"

definition start_prepared ::
    "'w env \<Rightarrow> string \<Rightarrow> string \<Rightarrow> manifest \<Rightarrow> service \<Rightarrow> service_plan \<Rightarrow> string \<times> string \<Rightarrow> ('w, unit) rm" where
  "start_prepared e request base m service plan logs =
     rm_bind (rm_attempt (ensure_dependencies_running e m service)) (\<lambda>r.
     case r of
       Inl x \<Rightarrow> rm_bind (record_operation_failure e request (mf_name m) (se_name service) x) (\<lambda>_. rm_raise x)
     | Inr _ \<Rightarrow> start_operation_child e request base m service (pl_alias plan) (fst logs) (snd logs))"

definition start_installed_candidate ::
    "'w env \<Rightarrow> string \<Rightarrow> string \<Rightarrow> manifest \<Rightarrow> service \<Rightarrow> service_plan \<Rightarrow> ('w, unit) rm" where
  "start_installed_candidate e request base m service plan =
     rm_bind (open_logs e (pl_stdout plan) (pl_stderr plan)) (start_prepared e request base m service plan)"

definition install_and_start_candidate ::
    "'w env \<Rightarrow> string \<Rightarrow> string \<Rightarrow> manifest \<Rightarrow> service \<Rightarrow> service_plan \<Rightarrow> ('w, unit) rm" where
  "install_and_start_candidate e request base m service plan =
     (let stack = mf_name m; name = se_name service in
      rm_bind (prepare_existing_logs e stack (pl_stdout plan) (pl_stderr plan)) (\<lambda>logs.
      rm_bind (store_call e (mark_logs_prepared request stack name)) (\<lambda>_.
      rm_bind (store_call e (mark_install_invoked request stack name)) (\<lambda>_.
      rm_bind (rm_attempt (engine_install e (pl_alias plan) (se_image service))) (\<lambda>r.
      case r of
        Inl x \<Rightarrow>
          rm_bind (store_call e (mark_rootfs_unknown request stack name)) (\<lambda>_.
          rm_bind (store_call e (mark_service_failed request stack name ''engine_install'' (runtime_error_text x) True)) (\<lambda>_.
          rm_raise x))
      | Inr _ \<Rightarrow>
          rm_bind (store_call e (mark_installed request stack name)) (\<lambda>_.
          rm_bind (start_order_of m) (\<lambda>order.
          rm_bind (rm_when (first_of order = Some name) (fault_checkpoint e ''after_install'')) (\<lambda>_.
          start_prepared e request base m service plan logs))))))))"

definition start_candidate ::
    "'w env \<Rightarrow> string \<Rightarrow> string \<Rightarrow> manifest \<Rightarrow> (string \<times> service_plan \<times> bool) list \<Rightarrow> string list
       \<Rightarrow> nat \<times> string \<Rightarrow> service_key list \<Rightarrow> ('w, service_key list) rm" where
  "start_candidate e request base m plans order iname started =
     (case iname of (index, name) \<Rightarrow>
       rm_bind (rm_expect (bt_get (mf_services m) name)) (\<lambda>service.
       rm_bind (rm_expect (bt_get plans name)) (\<lambda>(plan, reuse).
       rm_bind (or_fail e request m order (rm_return name) started
         (if reuse then start_installed_candidate e request base m service plan
          else install_and_start_candidate e request base m service plan)) (\<lambda>_.
       let started' = started @ [(mf_name m, name)] in
       rm_bind (rm_when (index + 1 < length order)
         (or_fail e request m order (rm_return name) started' (fault_checkpoint e ''between_service_starts''))) (\<lambda>_.
       rm_return started')))))"

definition fresh_plans :: "'w env \<Rightarrow> manifest \<Rightarrow> ('w, plans) rm" where
  "fresh_plans e m =
     rm_bind (rm_get (\<lambda>s. (rt_installation s, rt_paths s))) (\<lambda>(installation, paths).
     rm_fold (\<lambda>(_, service) plans.
         rm_bind (generate_alias e installation (mf_name m) (se_name service)) (\<lambda>name.
         let (out, err) = log_paths paths (mf_name m) (se_name service) in
         rm_return (bt_insert (se_name service) \<lparr>pl_alias = name, pl_stdout = out, pl_stderr = err\<rparr> plans)))
       (mf_services m) [])"

definition candidate_plans ::
    "'w env \<Rightarrow> string \<Rightarrow> string \<Rightarrow> string \<Rightarrow> manifest \<Rightarrow> plans \<Rightarrow> ('w, (string \<times> service_plan \<times> bool) list) rm" where
  "candidate_plans e request source base m fresh =
     rm_bind (rm_attempt (store_call e (begin_candidate_recovery request source base m fresh))) (\<lambda>r.
     case r of
       Inr recovery \<Rightarrow> rm_return (map (\<lambda>(n, s). (n, rs_plan s, rs_reuse_installed s)) (cr_services recovery))
     | Inl (RtStore (NotFound _)) \<Rightarrow>
         rm_bind (store_call e (begin_up request source base m fresh)) (\<lambda>_.
         rm_return (map (\<lambda>(n, p). (n, p, False)) fresh))
     | Inl x \<Rightarrow> rm_raise x)"

definition prepare_candidate :: "'w env \<Rightarrow> string \<Rightarrow> string \<Rightarrow> string \<Rightarrow> manifest \<Rightarrow> ('w, stack_status) rm" where
  "prepare_candidate e request source base m =
     rm_bind (fault_checkpoint e ''before_intent'') (\<lambda>_.
     rm_bind (fresh_plans e m) (\<lambda>fresh.
     rm_bind (candidate_plans e request source base m fresh) (\<lambda>plans.
     rm_bind (start_order_of m) (\<lambda>order.
     rm_bind (or_fail e request m order (rm_expect (first_of order)) [] (fault_checkpoint e ''after_intent'')) (\<lambda>_.
     rm_bind (rm_fold (start_candidate e request base m plans order) (enumerate 0 order) []) (\<lambda>started.
     rm_bind (or_fail e request m order (rm_expect (last_of order)) started (fault_checkpoint e ''before_commit'')) (\<lambda>_.
     rm_bind (or_fail e request m order (rm_expect (last_of order)) started
       (store_call e (commit_up request (mf_name m)))) (\<lambda>_.
     required_status e (mf_name m)))))))))"

section \<open>Starting the current generation\<close>

definition current_handles :: "'w env \<Rightarrow> string \<Rightarrow> string \<Rightarrow> existing_stack \<Rightarrow> ('w, string \<times> string \<times> string) rm" where
  "current_handles e stack name existing =
     rm_bind (rm_lift (ok_or (RtConflict [Txt ''service '', Dbg stack, Txt ''/'', Dbg name,
       Txt '' is missing from persisted state'']) (service_of name existing))) (\<lambda>persisted.
     rm_bind (rm_lift (ok_or (RtConflict [Txt ''service '', Dbg stack, Txt ''/'', Dbg name,
       Txt '' has no committed rootfs alias'']) (ex_alias persisted))) (\<lambda>container.
     rm_bind (open_logs e (ex_stdout persisted) (ex_stderr persisted)) (\<lambda>(out, err).
     rm_return (container, out, err))))"

definition start_current_one ::
    "'w env \<Rightarrow> string \<Rightarrow> string \<Rightarrow> manifest \<Rightarrow> string list \<Rightarrow> existing_stack \<Rightarrow> string \<Rightarrow> service_key list
       \<Rightarrow> ('w, service_key list) rm" where
  "start_current_one e request base m order existing name started =
     rm_bind (rm_expect (bt_get (mf_services m) name)) (\<lambda>service.
     rm_bind (or_fail e request m order (rm_return name) started (ensure_dependencies_running e m service)) (\<lambda>_.
     rm_bind (or_fail e request m order (rm_return name) started (current_handles e (mf_name m) name existing))
       (\<lambda>(container, out, err).
     rm_bind (or_fail e request m order (rm_return name) started
       (start_operation_child e request base m service container out err)) (\<lambda>_.
     rm_return (started @ [(mf_name m, name)])))))"

definition start_current_services ::
    "'w env \<Rightarrow> string \<Rightarrow> string \<Rightarrow> manifest \<Rightarrow> string \<Rightarrow> string list \<Rightarrow> string option \<Rightarrow> ('w, stack_status) rm" where
  "start_current_services e request operation m base order candidate =
     rm_bind (store_call e (begin_start_current request (mf_name m) operation order None candidate
       (map_option (\<lambda>_. base) candidate))) (\<lambda>_.
     rm_bind (or_fail e request m order (rm_expect (first_of order)) [] (required_stack e (mf_name m))) (\<lambda>existing.
     rm_bind (rm_fold (start_current_one e request base m order existing) order []) (\<lambda>started.
     rm_bind (or_fail e request m order (rm_expect (last_of order)) started
       (store_call e (finish_start_current request (mf_name m)))) (\<lambda>_.
     required_status e (mf_name m)))))"

definition start_current_stack :: "'w env \<Rightarrow> string \<Rightarrow> string \<Rightarrow> manifest \<Rightarrow> string \<Rightarrow> ('w, stack_status) rm" where
  "start_current_stack e request operation m base =
     rm_bind (start_order_of m) (\<lambda>order. start_current_services e request operation m base order None)"

section \<open>Up\<close>

text \<open>A service of an unchanged stack: running and owned, or proven stopped and to be started.\<close>

definition classify_service ::
    "'w env \<Rightarrow> string \<Rightarrow> existing_stack \<Rightarrow> string \<Rightarrow> string list \<Rightarrow> ('w, string list) rm" where
  "classify_service e stack existing name missing =
     rm_bind (rm_expect (service_of name existing)) (\<lambda>persisted.
     rm_bind (rm_get (is_owned (stack, name))) (\<lambda>own.
     if own then
       (if ex_desired persisted \<noteq> ''running'' \<or> ex_observed persisted \<noteq> ''running'' then
          rm_raise (RtConflict [Txt ''owned service '', Dbg stack, Txt ''/'', Dbg name, Txt '' disagrees with persisted state''])
        else rm_bind (validate_owned_service_running e (stack, name)) (\<lambda>_. rm_return missing))
     else if (ex_observed persisted = ''stopped'' \<or> ex_observed persisted = ''failed'')
       \<and> ex_rootfs_state persisted = ''installed'' \<and> ex_alias persisted \<noteq> None \<and> ex_next persisted = None
     then rm_return (missing @ [name])
     else rm_raise (RtConflict [Txt ''service '', Dbg stack, Txt ''/'', Dbg name,
       Txt '' is neither owned-running nor proven startable''])))"

definition converge ::
    "'w env \<Rightarrow> string \<Rightarrow> string \<Rightarrow> string \<Rightarrow> manifest \<Rightarrow> existing_stack \<Rightarrow> ('w, stack_status) rm" where
  "converge e request source base m existing =
     rm_bind (rm_get (\<lambda>s. list_ex (\<lambda>k. fst k = mf_name m) (bt_keys (rt_uncertain s)))) (\<lambda>uncertain.
     if uncertain then rm_raise (RtConflict [Txt ''stack '', Dbg (mf_name m),
       Txt '' has an unqualified child and cannot be converged safely''])
     else rm_bind (start_order_of m) (\<lambda>order.
       rm_bind (rm_fold (classify_service e (mf_name m) existing) order []) (\<lambda>missing.
       if missing = [] then
         rm_bind (store_call e (record_noop_up request (mf_name m) source base)) (\<lambda>_. required_status e (mf_name m))
       else start_current_services e request ''up'' m base missing (Some source))))"

definition ambiguous_stack :: "existing_stack \<Rightarrow> bool" where
  "ambiguous_stack x \<longleftrightarrow> es_observed x = ''unknown''
     \<or> list_ex (\<lambda>v. ex_observed v = ''unknown'' \<or> ex_rootfs_state v = ''unknown'') (es_services x)"

definition up :: "'w env \<Rightarrow> string \<Rightarrow> string \<Rightarrow> string \<Rightarrow> manifest \<Rightarrow> ('w, stack_status) rm" where
  "up e request source base m =
     rm_bind (tick e) (\<lambda>_.
     rm_bind (preflight_manifest e base m) (\<lambda>_.
     rm_bind (store_query e (tx_query (existing_stack (mf_name m)))) (\<lambda>found.
     case found of
       None \<Rightarrow> prepare_candidate e request source base m
     | Some existing \<Rightarrow>
         if ambiguous_stack existing then
           rm_raise (RtConflict [Txt ''stack '', Dbg (mf_name m), Txt '' has ambiguous state and requires manual intervention''])
         else if es_source existing = source \<and> path_eq (es_base existing) base \<and> 0 < es_revision existing then
           converge e request source base m existing
         else if 0 < es_revision existing \<and> es_desired existing \<noteq> ''stopped'' then
           rm_raise (RtConflict [Txt ''stack '', Dbg (mf_name m),
             Txt '' must be stopped explicitly before changing its manifest''])
         else prepare_candidate e request source base m)))"

end
