(* ===== verification/Runtime_Ops.thy ===== *)
theory Runtime_Ops
  imports Runtime_Up
begin

text \<open>
  The other requests of the runtime (\<^verbatim>\<open>src/runtime.rs\<close>): status, down, logs, restart, and the
  two ends of its life, the resumption of stacks that were stopped with the daemon and the
  orderly shutdown.
\<close>

section \<open>Status, logs and down\<close>

definition status :: "'w env \<Rightarrow> string \<Rightarrow> ('w, stack_status option) rm" where
  "status e stack = rm_bind (tick e) (\<lambda>_. store_query e (tx_query (stack_status stack)))"

definition committed_manifest :: "'w env \<Rightarrow> string \<Rightarrow> ('w, manifest option) rm" where
  "committed_manifest e stack =
     rm_bind (store_query e (tx_query (existing_stack stack))) (\<lambda>found.
     case found of
       None \<Rightarrow> rm_return None
     | Some x \<Rightarrow>
         if es_revision x = 0 \<or> es_source x = [] then rm_return None
         else rm_bind (parse_rm e (es_source x)) (\<lambda>m. rm_return (Some m)))"

record logs_result =
  lr_stack :: string
  lr_service :: string
  lr_tail :: "16 word"
  lr_stdout :: "string list"
  lr_stderr :: "string list"

definition read_log :: "'w env \<Rightarrow> string \<Rightarrow> 16 word \<Rightarrow> ('w, string list) rm" where
  "read_log e path n = rm_bind (rm_call (ev_log e path)) (\<lambda>f. rm_lift (map_err RtLogs (log_tail path n f)))"

definition runtime_logs :: "'w env \<Rightarrow> string \<Rightarrow> string \<Rightarrow> 16 word \<Rightarrow> ('w, logs_result) rm" where
  "runtime_logs e stack service n =
     rm_bind (tick e) (\<lambda>_.
     rm_bind (required_status e stack) (\<lambda>st.
     rm_bind (rm_lift (ok_or (not_found_service stack service) (find (\<lambda>v. ss_name v = service) (st_services st)))) (\<lambda>v.
     rm_bind (read_log e (ss_stdout v) n) (\<lambda>out.
     rm_bind (read_log e (ss_stderr v) n) (\<lambda>err.
     rm_return \<lparr>lr_stack = stack, lr_service = service, lr_tail = n, lr_stdout = out, lr_stderr = err\<rparr>)))))"

definition down_service :: "'w env \<Rightarrow> string \<Rightarrow> string \<Rightarrow> stack_status \<Rightarrow> nat \<times> string \<Rightarrow> ('w, unit) rm" where
  "down_service e request stack after_intent iname =
     (case iname of (index, name) \<Rightarrow>
       rm_bind (rm_expect (find (\<lambda>v. ss_name v = name) (st_services after_intent))) (\<lambda>journaled.
       rm_bind (rm_get (is_owned (stack, name))) (\<lambda>own.
       if own then
         rm_bind (store_call e (mark_stop_invoked request stack name)) (\<lambda>_.
         rm_bind (rm_when (index = 0) (fault_checkpoint e ''during_down'')) (\<lambda>_.
         rm_bind (stop_owned_child e (stack, name)) (\<lambda>st.
         let (code, signal) = exit_parts st in store_call e (mark_stopped request stack name code signal))))
       else if ss_observed journaled \<noteq> ''stopped'' \<and> ss_observed journaled \<noteq> ''unknown'' then rm_raise IdentityChanged
       else rm_return ())))"

definition down_services :: "'w env \<Rightarrow> string \<Rightarrow> string \<Rightarrow> string list \<Rightarrow> ('w, unit) rm" where
  "down_services e request stack order =
     rm_bind (required_status e stack) (\<lambda>after_intent.
     rm_bind (rm_for (enumerate 0 order) (down_service e request stack after_intent)) (\<lambda>_.
     store_call e (finish_down request stack)))"

definition quarantine_stack :: "'w env \<Rightarrow> string \<Rightarrow> ('w, unit) rm" where
  "quarantine_stack e stack =
     rm_bind (rm_get (\<lambda>s. filter (\<lambda>k. fst k = stack) (bt_keys (rt_children s)))) (\<lambda>remaining.
     rm_for remaining (quarantine_managed_child e))"

definition down :: "'w env \<Rightarrow> string \<Rightarrow> string \<Rightarrow> ('w, stack_status) rm" where
  "down e request stack =
     rm_bind (tick e) (\<lambda>_.
     rm_bind (required_status e stack) (\<lambda>earlier.
     rm_bind (committed_manifest e stack) (\<lambda>m.
     rm_bind (case m of Some m \<Rightarrow> stop_order_of m | None \<Rightarrow> rm_return (rev (sort (map ss_name (st_services earlier))))) (\<lambda>order.
     rm_bind (store_call e (begin_down request stack order)) (\<lambda>_.
     rm_bind (rm_attempt (down_services e request stack order)) (\<lambda>r.
     case r of
       Inl x \<Rightarrow>
         rm_bind (quarantine_stack e stack) (\<lambda>_.
         rm_bind (rm_map_err (\<lambda>y. ProtocolState ([Txt ''down failed: ''] @ runtime_error_text x
             @ [Txt ''; the failure journal could not be terminalized: ''] @ runtime_error_text y))
           (store_call e (finalize_down_failure request stack (runtime_code x) (runtime_error_text x)))) (\<lambda>_.
         rm_raise x))
     | Inr _ \<Rightarrow> required_status e stack))))))"

section \<open>Restart\<close>

definition abort_restart_operation ::
    "'w env \<Rightarrow> string \<Rightarrow> string \<Rightarrow> string \<Rightarrow> runtime_error \<Rightarrow> bool \<Rightarrow> ('w, unit) rm" where
  "abort_restart_operation e request stack service x cleanup =
     (let key = (stack, service) in
      rm_bind (record_operation_failure e request stack service x) (\<lambda>_.
      rm_bind (rm_get (is_owned key)) (\<lambda>own.
      rm_bind (rm_when own
        (if cleanup then stop_started_after_failed_up e request [key] else quarantine_managed_child e key)) (\<lambda>_.
      store_call e (finalize_operation_failure request stack (runtime_code x) (runtime_error_text x))))))"

definition or_abort_restart ::
    "'w env \<Rightarrow> string \<Rightarrow> string \<Rightarrow> string \<Rightarrow> bool \<Rightarrow> ('w, 'a) rm \<Rightarrow> ('w, 'a) rm" where
  "or_abort_restart e request stack service cleanup body =
     rm_bind (rm_attempt body) (\<lambda>r.
     case r of
       Inr a \<Rightarrow> rm_return a
     | Inl x \<Rightarrow> rm_bind (abort_restart_operation e request stack service x cleanup) (\<lambda>_. rm_raise x))"

definition restart_start :: "'w env \<Rightarrow> string \<Rightarrow> string \<Rightarrow> string \<Rightarrow> manifest \<Rightarrow> service \<Rightarrow> ('w, unit) rm" where
  "restart_start e request stack service m definition =
     rm_bind (fault_checkpoint e ''restart_stopped'') (\<lambda>_.
     rm_bind (required_stack e stack) (\<lambda>existing.
     rm_bind (rm_expect (service_of service existing)) (\<lambda>persisted.
     rm_bind (rm_lift (ok_or (RtConflict [Txt ''service '', Dbg stack, Txt ''/'', Dbg service, Txt '' has no current rootfs''])
       (ex_alias persisted))) (\<lambda>container.
     rm_bind (persisted_base existing) (\<lambda>base.
     rm_bind (ensure_dependencies_running e m definition) (\<lambda>_.
     rm_bind (open_logs e (ex_stdout persisted) (ex_stderr persisted)) (\<lambda>(out, err).
     rm_bind (start_operation_child e request base m definition container out err) (\<lambda>_.
     store_call e (finish_restart request stack service)))))))))"

definition restart :: "'w env \<Rightarrow> string \<Rightarrow> string \<Rightarrow> string \<Rightarrow> ('w, stack_status) rm" where
  "restart e request stack service =
     (let key = (stack, service) in
      rm_bind (tick e) (\<lambda>_.
      rm_bind (committed_manifest e stack) (\<lambda>found.
      rm_bind (rm_lift (ok_or (RtConflict [Txt ''stack '', Dbg stack, Txt '' has no committed revision'']) found)) (\<lambda>m.
      rm_bind (rm_lift (ok_or (not_found_service stack service) (bt_get (mf_services m) service))) (\<lambda>definition.
      rm_bind (ensure_dependencies_running e m definition) (\<lambda>_.
      rm_bind (rm_get (is_owned key)) (\<lambda>own.
      if \<not> own then rm_raise IdentityChanged
      else rm_bind (store_call e (begin_restart request stack service)) (\<lambda>_.
        rm_bind (or_abort_restart e request stack service False (fault_checkpoint e ''restart_stop_intent'')) (\<lambda>_.
        rm_bind (or_abort_restart e request stack service False
          (store_call e (mark_restart_stop_invoked request stack service))) (\<lambda>_.
        rm_bind (or_abort_restart e request stack service False (stop_owned_child e key)) (\<lambda>st.
        let (code, signal) = exit_parts st in
        rm_bind (or_abort_restart e request stack service False
          (store_call e (mark_restart_stopped request stack service code signal))) (\<lambda>_.
        rm_bind (or_abort_restart e request stack service True (restart_start e request stack service m definition)) (\<lambda>_.
        required_status e stack)))))))))))))"

section \<open>Resuming\<close>

definition resume_stack :: "'w env \<Rightarrow> stack_status \<Rightarrow> ('w, unit) rm" where
  "resume_stack e st =
     (if st_desired st \<noteq> ''running'' then rm_return ()
      else rm_bind (store_query e (tx_query (resumable_services (st_name st)))) (\<lambda>resumable.
        if resumable = [] \<or> length resumable \<noteq> length (st_services st) then rm_return ()
        else rm_bind (store_query e (tx_query (existing_stack (st_name st)))) (\<lambda>found.
          case found of
            None \<Rightarrow> rm_return ()
          | Some existing \<Rightarrow>
              if es_source existing = [] then rm_return ()
              else rm_bind (parse_rm e (es_source existing)) (\<lambda>m.
                rm_bind (generate_internal_request_id e ''resume'' (st_name st)) (\<lambda>request.
                rm_bind (persisted_base existing) (\<lambda>base.
                rm_bind (start_current_stack e request ''resume'' m base) (\<lambda>_. rm_return ())))))))"

definition resume_gracefully_stopped :: "'w env \<Rightarrow> ('w, unit) rm" where
  "resume_gracefully_stopped e =
     rm_bind (store_query e (tx_read stack_statuses)) (\<lambda>statuses. rm_for statuses (resume_stack e))"

section \<open>Shutdown\<close>

definition waits_in_backoff :: "service_status \<Rightarrow> bool" where
  "waits_in_backoff v \<longleftrightarrow> ss_desired v = ''running'' \<and> ss_observed v = ''restarting'' \<and> ss_phase v = ''backoff'' \<and> ss_next v \<noteq> None"

definition looks_active :: "service_status \<Rightarrow> bool" where
  "looks_active v \<longleftrightarrow> ss_observed v \<in> {''preparing'', ''starting'', ''running'', ''stopping'', ''restarting''}"

definition shutdown_service :: "'w env \<Rightarrow> string \<Rightarrow> stack_status option \<Rightarrow> string \<Rightarrow> ('w, bool) rm" where
  "shutdown_service e stack st service =
     (let key = (stack, service);
          persisted = (case st of None \<Rightarrow> None | Some st \<Rightarrow> find (\<lambda>v. ss_name v = service) (st_services st));
          give_up = rm_bind (rm_ignore (mark_unknown e key)) (\<lambda>_. rm_return False) in
      rm_bind (rm_get (is_uncertain key)) (\<lambda>uncertain.
      rm_bind (rm_get (is_owned key)) (\<lambda>own.
      if uncertain then give_up
      else if \<not> own then
        (case persisted of
           None \<Rightarrow> rm_return True
         | Some v \<Rightarrow>
             if waits_in_backoff v then
               rm_bind (rm_attempt (store_call e (record_graceful_backoff_stop stack service))) (\<lambda>r.
               if is_ok r then rm_return True else give_up)
             else if looks_active v then give_up
             else rm_return True)
      else rm_bind (rm_attempt (stop_owned_child e key)) (\<lambda>r.
        case r of
          Inr st \<Rightarrow>
            (let (code, signal) = exit_parts st in
             rm_bind (rm_attempt (store_call e (record_graceful_stop stack service code signal))) (\<lambda>r.
             if is_ok r then rm_return True else give_up))
        | Inl _ \<Rightarrow> rm_bind (quarantine_managed_child e key) (\<lambda>_. rm_return False)))))"

text \<open>The services of a stack in stop order, then those only the children or the journal know, last name first.\<close>

definition shutdown_order :: "'w env \<Rightarrow> string \<Rightarrow> stack_status option \<Rightarrow> ('w, string list) rm" where
  "shutdown_order e stack st =
     rm_bind (rm_attempt (committed_manifest e stack)) (\<lambda>found.
     rm_bind (case found of Inr (Some m) \<Rightarrow> stop_order_of m | _ \<Rightarrow> rm_return []) (\<lambda>services.
     rm_bind (rm_get (\<lambda>s. map snd (filter (\<lambda>k. fst k = stack) (bt_keys (rt_children s) @ bt_keys (rt_uncertain s))))) (\<lambda>known.
     let journaled = (case st of None \<Rightarrow> [] | Some st \<Rightarrow> map ss_name (st_services st));
         missing = filter (\<lambda>n. n \<notin> set services) (known @ journaled) in
     rm_return (services @ rev (bs_of missing)))))"

definition shutdown_stack :: "'w env \<Rightarrow> stack_status list \<Rightarrow> string \<Rightarrow> ('w, unit) rm" where
  "shutdown_stack e statuses stack =
     (let st = find (\<lambda>st. st_name st = stack) statuses in
      rm_bind (shutdown_order e stack st) (\<lambda>services.
      rm_while services (shutdown_service e stack st)))"

definition shutdown :: "'w env \<Rightarrow> ('w, unit) rm" where
  "shutdown e =
     rm_bind (rm_attempt (store_query e (tx_read stack_statuses))) (\<lambda>r.
     let statuses = (case r of Inl _ \<Rightarrow> [] | Inr ss \<Rightarrow> ss) in
     rm_bind (rm_get (\<lambda>s. map fst (bt_keys (rt_children s)) @ map fst (bt_keys (rt_uncertain s)))) (\<lambda>owned_stacks.
     rm_for (bs_of (owned_stacks @ map st_name (filter (\<lambda>st. list_ex waits_in_backoff (st_services st)) statuses)))
       (shutdown_stack e statuses)))"

section \<open>Initialization\<close>

text \<open>
  \<^verbatim>\<open>initialize\<close>, after \<^verbatim>\<open>Store::open\<close> gave the installation and the database: the engine is found
  and probed, interrupted work is reconciled, and the stacks that were stopped with the daemon
  are started. The initial state has no children.
\<close>

definition initial_state ::
    "runtime_paths \<Rightarrow> engine \<Rightarrow> string \<Rightarrow> db \<Rightarrow> fs \<Rightarrow> nat \<Rightarrow> 'w \<Rightarrow> 'w rt" where
  "initial_state paths g installation d f now w =
     \<lparr>rt_paths = paths, rt_engine = g, rt_installation = installation, rt_db = d, rt_children = [], rt_uncertain = [],
      rt_throttle = [], rt_fs = f, rt_now = now, rt_world = w, rt_effects = []\<rparr>"

definition engine_probe :: "'w env \<Rightarrow> ('w, unit) rm" where
  "engine_probe e =
     rm_bind (rm_get rt_engine) (\<lambda>g.
     rm_bind (rm_call (ev_engine e (probe_invocation g))) (\<lambda>r. rm_lift (map_err RtEngine (probe_result r))))"

definition initialize :: "'w env \<Rightarrow> string \<Rightarrow> ('w, unit) rm" where
  "initialize e arch =
     rm_bind (rm_lift (map_err RtEngine (discover arch))) (\<lambda>g.
     rm_bind (rm_modify (\<lambda>s. s\<lparr>rt_engine := g\<rparr>)) (\<lambda>_.
     rm_bind (engine_probe e) (\<lambda>_.
     rm_bind (store_call e reconcile_cold_start) (\<lambda>_.
     resume_gracefully_stopped e))))"

end
