(* ===== verification/Daemon.thy ===== *)
theory Daemon
  imports Runtime_Ops Store_Migrate
begin

text \<open>
  The daemon around the runtime (\<^verbatim>\<open>src/daemon.rs\<close>, and the replay of responses in
  \<^verbatim>\<open>src/runtime.rs\<close>): the lock and the socket that make it the only one, the dispatch of
  requests, the answer of a connection, and the loop that serves them between ticks.
\<close>

section \<open>Replies and their journal\<close>

datatype reply =
    Status_Reply stack_status
  | Absent_Reply string
  | Logs_Reply logs_result

text \<open>\<^verbatim>\<open>serde_json\<close>: how requests and responses are printed and parsed.\<close>

record codec =
  cd_request :: "string \<Rightarrow> string + request"
  cd_print :: "reply response \<Rightarrow> string + string"
  cd_journal :: "reply response \<Rightarrow> string"
  cd_replay :: "string \<Rightarrow> string + reply response"

definition replay_matches ::
    "operation_replay \<Rightarrow> string \<Rightarrow> string \<Rightarrow> string option \<Rightarrow> string option \<Rightarrow> string option \<Rightarrow> bool" where
  "replay_matches r operation stack source base target \<longleftrightarrow>
     or_operation r = operation \<and> or_stack r = stack \<and> or_manifest r = source \<and> or_base r = base \<and> or_target r = target"

definition replay_response ::
    "'w env \<Rightarrow> codec \<Rightarrow> string \<Rightarrow> string \<Rightarrow> string \<Rightarrow> string option \<Rightarrow> string option \<Rightarrow> string option
       \<Rightarrow> ('w, reply response option) rm" where
  "replay_response e cd request operation stack source base target =
     rm_bind (store_query e (tx_query (operation_replay request))) (\<lambda>found.
     case found of
       None \<Rightarrow> rm_return None
     | Some r \<Rightarrow>
         if \<not> replay_matches r operation stack source base target then
           rm_return (Some (failure request ''request_id_conflict''
             [Txt ''request_id was already used for a different mutation payload'']))
         else (case or_response r of
             Some json \<Rightarrow> rm_lift (map_err (\<lambda>x. ProtocolState [Txt ''persisted response is invalid: '', Txt x])
               (andthen (cd_replay cd json) (\<lambda>resp. Inr (Some resp))))
           | None \<Rightarrow> rm_return (Some (failure request ''unknown''
               [Txt ''a previous attempt with this request_id has no durable response; no effect was retried'']))))"

text \<open>The mutation a request stands for: operation, stack, manifest, base and service.\<close>

definition mutation_of ::
    "'w env \<Rightarrow> request \<Rightarrow> ('w, (string \<times> string \<times> string option \<times> string option \<times> string option) option) rm" where
  "mutation_of e q = (case q of
     Up_Request _ _ source base \<Rightarrow> (case parse (ev_scan e) source of
         Inl _ \<Rightarrow> rm_panic
       | Inr (Inl _) \<Rightarrow> rm_return None
       | Inr (Inr m) \<Rightarrow> rm_return (Some (''up'', mf_name m, Some source, Some base, None)))
   | Down_Request _ _ stack \<Rightarrow> rm_return (Some (''down'', stack, None, None, None))
   | Restart_Request _ _ stack service \<Rightarrow> rm_return (Some (''restart'', stack, None, None, Some service))
   | _ \<Rightarrow> rm_return None)"

definition cache_response_for_request :: "'w env \<Rightarrow> codec \<Rightarrow> request \<Rightarrow> reply response \<Rightarrow> ('w, unit) rm" where
  "cache_response_for_request e cd q resp =
     (if \<not> is_ok (validate_envelope q) then rm_return ()
      else rm_bind (mutation_of e q) (\<lambda>expected.
        case expected of
          None \<Rightarrow> rm_return ()
        | Some (operation, stack, source, base, target) \<Rightarrow>
            rm_bind (store_query e (tx_query (operation_replay (request_id q)))) (\<lambda>found.
            case found of
              None \<Rightarrow> rm_return ()
            | Some r \<Rightarrow>
                if replay_matches r operation stack source base target then
                  store_call e (cache_response (rs_request resp) (cd_journal cd resp))
                else rm_return ())))"

section \<open>Dispatch\<close>

text \<open>A result becomes a response; only a panic passes.\<close>

definition respond :: "string \<Rightarrow> ('a \<Rightarrow> reply) \<Rightarrow> ('w, 'a) rm \<Rightarrow> ('w, reply response) rm" where
  "respond request f m =
     rm_bind (rm_attempt m) (\<lambda>r.
     rm_return (case r of
       Inr a \<Rightarrow> success request (f a)
     | Inl x \<Rightarrow> failure request (runtime_code x) (runtime_error_text x)))"

text \<open>A mutation runs only when the journal has no operation of this identifier.\<close>

definition respond_once ::
    "'w env \<Rightarrow> codec \<Rightarrow> string \<Rightarrow> string \<Rightarrow> string \<Rightarrow> string option \<Rightarrow> string option \<Rightarrow> string option
       \<Rightarrow> ('w, stack_status) rm \<Rightarrow> ('w, reply response) rm" where
  "respond_once e cd request operation stack source base target m =
     rm_bind (rm_attempt (replay_response e cd request operation stack source base target)) (\<lambda>r.
     case r of
       Inl x \<Rightarrow> rm_return (failure request (runtime_code x) (runtime_error_text x))
     | Inr (Some resp) \<Rightarrow> rm_return resp
     | Inr None \<Rightarrow> respond request Status_Reply m)"

definition checked_name :: "string \<Rightarrow> string \<Rightarrow> ('w, reply response) rm \<Rightarrow> ('w, reply response) rm" where
  "checked_name request name m = (case validate_stack_name name of
     Inl x \<Rightarrow> rm_return (failure request (kind_code (err_kind x)) (error_text x))
   | Inr _ \<Rightarrow> m)"

fun dispatch :: "'w env \<Rightarrow> codec \<Rightarrow> request \<Rightarrow> ('w, reply response) rm" where
  "dispatch e cd (Status_Request _ request stack) =
     checked_name request stack
       (respond request (\<lambda>st. case st of Some st \<Rightarrow> Status_Reply st | None \<Rightarrow> Absent_Reply stack) (status e stack))"
| "dispatch e cd (Up_Request _ request source base) =
     (case parse (ev_scan e) source of
        Inl _ \<Rightarrow> rm_panic
      | Inr (Inl x) \<Rightarrow> rm_return (failure request (kind_code (err_kind x)) (error_text x))
      | Inr (Inr m) \<Rightarrow>
          respond_once e cd request ''up'' (mf_name m) (Some source) (Some base) None (up e request source base m))"
| "dispatch e cd (Down_Request _ request stack) =
     checked_name request stack (respond_once e cd request ''down'' stack None None None (down e request stack))"
| "dispatch e cd (Logs_Request _ request stack service n) =
     checked_name request stack (checked_name request service
       (respond request Logs_Reply (runtime_logs e stack service n)))"
| "dispatch e cd (Restart_Request _ request stack service) =
     checked_name request stack (checked_name request service
       (respond_once e cd request ''restart'' stack None None (Some service) (restart e request stack service)))"

definition answer_request :: "'w env \<Rightarrow> codec \<Rightarrow> request \<Rightarrow> ('w, reply response) rm" where
  "answer_request e cd q =
     rm_bind (case validate_envelope q of
         Inr _ \<Rightarrow> dispatch e cd q
       | Inl x \<Rightarrow> rm_return (failure (request_id q) ''protocol_error'' (protocol_text x))) (\<lambda>resp.
     rm_bind (rm_ignore (cache_response_for_request e cd q resp)) (\<lambda>_. rm_return resp))"

definition handle_connection :: "'w env \<Rightarrow> codec \<Rightarrow> reader \<Rightarrow> writer \<Rightarrow> ('w, (protocol_error + unit) \<times> writer) rm" where
  "handle_connection e cd rd wr =
     (case fst (read_json_line (cd_request cd) rd) of
        Inr None \<Rightarrow> rm_return (Inr (), wr)
      | Inl x \<Rightarrow>
          (case write_frame (cd_print cd) (failure [] ''protocol_error'' (protocol_text x)) wr of
             (Inl y, wr') \<Rightarrow> rm_return (Inl y, wr')
           | (Inr _, wr') \<Rightarrow> rm_return (Inr (), wr'))
      | Inr (Some q) \<Rightarrow> rm_bind (answer_request e cd q) (\<lambda>resp. rm_return (write_frame (cd_print cd) resp wr)))"

section \<open>Serving\<close>

datatype accepted =
    Connection "string + unit" reader writer   \<comment> \<open>the timeouts could be set, and the stream\<close>
  | Would_Block
  | Interrupted
  | Accept_Failed string

record 'w listener =
  li_flag :: "('w, bool) answer"        \<comment> \<open>the shutdown flag the signal handlers set\<close>
  li_accept :: "('w, accepted) answer"

datatype turn = Again | Done "string + unit"

definition serve_turn :: "'w env \<Rightarrow> codec \<Rightarrow> 'w listener \<Rightarrow> ('w, turn) rm" where
  "serve_turn e cd li =
     rm_bind (rm_call (li_flag li)) (\<lambda>stop.
     if stop then rm_return (Done (Inr ()))
     else rm_bind (rm_ignore (tick e)) (\<lambda>_.
       rm_bind (rm_call (li_accept li)) (\<lambda>a.
       case a of
         Connection timeouts rd wr \<Rightarrow>
           if is_ok timeouts then rm_bind (handle_connection e cd rd wr) (\<lambda>_. rm_return Again) else rm_return Again
       | Would_Block \<Rightarrow> rm_bind (sleep_ms e 50) (\<lambda>_. rm_return Again)
       | Interrupted \<Rightarrow> rm_return Again
       | Accept_Failed x \<Rightarrow> rm_return (Done (Inl x)))))"

text \<open>The loop, for a number of turns; \<open>None\<close> is a daemon that still serves.\<close>

fun serve :: "nat \<Rightarrow> 'w env \<Rightarrow> codec \<Rightarrow> 'w listener \<Rightarrow> ('w, (string + unit) option) rm" where
  "serve 0 e cd li = rm_return None"
| "serve (Suc n) e cd li =
     rm_bind (serve_turn e cd li) (\<lambda>t.
     case t of
       Again \<Rightarrow> serve n e cd li
     | Done r \<Rightarrow> rm_bind (shutdown e) (\<lambda>_. rm_return (Some r)))"

section \<open>Being the only daemon\<close>

datatype daemon_error =
    MissingPrefix
  | RelativePrefix string
  | PreparePaths io_err
  | AlreadyRunning
  | UnsafeLockPath string
  | OpenLock string
  | LockDaemon string
  | UnsafeSocketPath string
  | BindSocket string
  | SecureSocket string
  | ConfigureSocket string
  | RegisterSignal string
  | StartupCheckpoint msg
  | InitializeRuntime runtime_error
  | ServeSocket string

definition daemon_error_text :: "daemon_error \<Rightarrow> msg" where
  "daemon_error_text x = (case x of
     MissingPrefix \<Rightarrow> [Txt ''PREFIX is not set; run the daemon inside a Termux environment'']
   | RelativePrefix p \<Rightarrow> [Txt ''PREFIX must be absolute, got '', Txt (utf8_lossy p)]
   | PreparePaths i \<Rightarrow> [Txt ''cannot prepare runtime paths: ''] @ io_message i
   | AlreadyRunning \<Rightarrow> [Txt ''another daemon is already running'']
   | UnsafeLockPath p \<Rightarrow> [Txt ''unsafe daemon lock path '', Txt (utf8_lossy p)]
   | OpenLock s \<Rightarrow> [Txt ''cannot open daemon lock: '', Txt s]
   | LockDaemon s \<Rightarrow> [Txt ''cannot lock daemon state: '', Txt s]
   | UnsafeSocketPath p \<Rightarrow> [Txt ''refusing to replace non-socket path '', Txt (utf8_lossy p)]
   | BindSocket s \<Rightarrow> [Txt ''cannot bind control socket: '', Txt s]
   | SecureSocket s \<Rightarrow> [Txt ''cannot set control socket permissions: '', Txt s]
   | ConfigureSocket s \<Rightarrow> [Txt ''cannot configure control socket: '', Txt s]
   | RegisterSignal s \<Rightarrow> [Txt ''cannot register shutdown signal: '', Txt s]
   | StartupCheckpoint m \<Rightarrow> [Txt ''daemon startup checkpoint failed: ''] @ m
   | InitializeRuntime r \<Rightarrow> [Txt ''cannot initialize runtime: ''] @ runtime_error_text r
   | ServeSocket s \<Rightarrow> [Txt ''control socket failed: '', Txt s])"

text \<open>What the calls on the lock file answer: its metadata by descriptor and by path, and each \<^verbatim>\<open>flock\<close>.\<close>

datatype flock_answer = Locked | Lock_Interrupted | Lock_Held | Lock_Failed string

record lock_file =
  lk_before :: "string + log_stat"
  lk_open :: "string + unit"
  lk_file :: "string + log_stat"
  lk_path :: "string + log_stat"
  lk_flock :: "flock_answer list"     \<comment> \<open>the answers of successive calls\<close>

text \<open>\<open>None\<close>: interrupted in every call of the list.\<close>

fun try_lock_exclusive :: "flock_answer list \<Rightarrow> (string + bool) option" where
  "try_lock_exclusive [] = None"
| "try_lock_exclusive (Locked # _) = Some (Inr True)"
| "try_lock_exclusive (Lock_Held # _) = Some (Inr False)"
| "try_lock_exclusive (Lock_Failed x # _) = Some (Inl x)"
| "try_lock_exclusive (Lock_Interrupted # as) = try_lock_exclusive as"

definition unsafe_lock :: "log_stat \<Rightarrow> log_stat \<Rightarrow> bool" where
  "unsafe_lock f p \<longleftrightarrow> \<not> ls_file f \<or> ls_symlink p \<or> \<not> ls_file p \<or> ls_dev f \<noteq> ls_dev p \<or> ls_ino f \<noteq> ls_ino p
     \<or> ls_mode p AND 63 \<noteq> 0"

definition acquire_lock :: "string \<Rightarrow> lock_file \<Rightarrow> (daemon_error + unit) option" where
  "acquire_lock path k =
     (if (case lk_before k of Inr md \<Rightarrow> ls_symlink md | Inl _ \<Rightarrow> False) then Some (Inl (UnsafeLockPath path))
      else case andthen (map_err OpenLock (lk_open k)) (\<lambda>_.
          andthen (map_err OpenLock (lk_file k)) (\<lambda>f.
          andthen (map_err OpenLock (lk_path k)) (\<lambda>p.
          if unsafe_lock f p then Inl (UnsafeLockPath path) else Inr ()))) of
        Inl x \<Rightarrow> Some (Inl x)
      | Inr _ \<Rightarrow> (case try_lock_exclusive (lk_flock k) of
            None \<Rightarrow> None
          | Some (Inr True) \<Rightarrow> Some (Inr ())
          | Some (Inr False) \<Rightarrow> Some (Inl AlreadyRunning)
          | Some (Inl x) \<Rightarrow> Some (Inl (LockDaemon x))))"

text \<open>The control socket: what the calls that create, replace and secure it answer.\<close>

record node_stat =
  ns_symlink :: bool
  ns_socket :: bool
  ns_dev :: nat
  ns_ino :: nat

datatype bind_answer = Bound | Addr_In_Use | Bind_Failed string

record socket_answers =
  sa_bind :: bind_answer
  sa_connect :: bool                    \<comment> \<open>whether somebody answers on the path\<close>
  sa_found :: "string + node_stat"
  sa_remove :: "string + unit"
  sa_rebind :: "string + unit"
  sa_before :: "string + node_stat"
  sa_chmod :: "string + unit"
  sa_after :: "string + node_stat"

record control_socket =
  cs_path :: string
  cs_device :: nat
  cs_inode :: nat

definition finish_socket :: "string \<Rightarrow> socket_answers \<Rightarrow> daemon_error + control_socket" where
  "finish_socket path a =
     andthen (map_err SecureSocket (sa_before a)) (\<lambda>earlier.
       if ns_symlink earlier \<or> \<not> ns_socket earlier then Inl (UnsafeSocketPath path)
       else andthen (map_err SecureSocket (sa_chmod a)) (\<lambda>_.
         andthen (map_err SecureSocket (sa_after a)) (\<lambda>after.
           if ns_symlink after \<or> \<not> ns_socket after \<or> ns_dev earlier \<noteq> ns_dev after \<or> ns_ino earlier \<noteq> ns_ino after
           then Inl (UnsafeSocketPath path)
           else Inr \<lparr>cs_path = path, cs_device = ns_dev after, cs_inode = ns_ino after\<rparr>)))"

definition bind_socket :: "string \<Rightarrow> socket_answers \<Rightarrow> daemon_error + control_socket" where
  "bind_socket path a =
     (case sa_bind a of
        Bound \<Rightarrow> finish_socket path a
      | Bind_Failed x \<Rightarrow> Inl (BindSocket x)
      | Addr_In_Use \<Rightarrow>
          if sa_connect a then Inl AlreadyRunning
          else andthen (map_err BindSocket (sa_found a)) (\<lambda>md.
            if ns_symlink md \<or> \<not> ns_socket md then Inl (UnsafeSocketPath path)
            else andthen (map_err BindSocket (sa_remove a)) (\<lambda>_.
              andthen (map_err BindSocket (sa_rebind a)) (\<lambda>_. finish_socket path a))))"

text \<open>Dropping the socket removes the path only while it still is the socket that was bound.\<close>

definition drop_removes :: "control_socket \<Rightarrow> string + node_stat \<Rightarrow> bool" where
  "drop_removes cs now = (case now of
     Inl _ \<Rightarrow> False
   | Inr md \<Rightarrow> ns_socket md \<and> ns_dev md = cs_device cs \<and> ns_ino md = cs_inode cs)"

section \<open>Running\<close>

record 'w startup =
  su_prefix :: "string option"
  su_arch :: string
  su_register :: "string + unit"
  su_flags :: "nat \<Rightarrow> bool"                   \<comment> \<open>the shutdown flag at each of the checks\<close>
  su_files :: fs
  su_lock :: lock_file
  su_socket :: socket_answers
  su_nonblocking :: "string + unit"
  su_pause :: "msg option"                    \<comment> \<open>the test hook after binding\<close>
  su_open :: open_env
  su_content :: content                       \<comment> \<open>what the file of the journal holds\<close>
  su_now :: nat
  su_world :: 'w

datatype finished = Stopped | Failed_With daemon_error | Still_Running | Panicked

text \<open>What is acquired before the runtime exists; \<open>Inl\<close> ends the daemon.\<close>

definition acquire_all :: "'w startup \<Rightarrow> finished + runtime_paths \<times> fs" where
  "acquire_all su =
     (case su_prefix su of
        None \<Rightarrow> Inl (Failed_With MissingPrefix)
      | Some prefix \<Rightarrow>
          if \<not> is_absolute prefix then Inl (Failed_With (RelativePrefix prefix))
          else andthen (map_err (\<lambda>x. Failed_With (RegisterSignal x)) (su_register su)) (\<lambda>_.
            if su_flags su 0 then Inl Stopped
            else let paths = new_paths prefix in
              (case prepare_paths paths (su_files su) of
                 (Inl x, _) \<Rightarrow> Inl (Failed_With (PreparePaths x))
               | (Inr _, f) \<Rightarrow>
                   if su_flags su 1 then Inl Stopped
                   else (case acquire_lock (pa_lock_path paths) (su_lock su) of
                       None \<Rightarrow> Inl Still_Running
                     | Some (Inl x) \<Rightarrow> Inl (Failed_With x)
                     | Some (Inr _) \<Rightarrow>
                         if su_flags su 2 then Inl Stopped
                         else (case bind_socket (pa_socket_path paths) (su_socket su) of
                             Inl x \<Rightarrow> Inl (Failed_With x)
                           | Inr _ \<Rightarrow>
                               (case su_nonblocking su of
                                  Inl x \<Rightarrow> Inl (Failed_With (ConfigureSocket x))
                                | Inr _ \<Rightarrow> (case su_pause su of
                                      Some x \<Rightarrow> Inl (Failed_With (StartupCheckpoint x))
                                    | None \<Rightarrow> if su_flags su 3 then Inl Stopped else Inr (paths, f))))))))"

text \<open>
  \<^verbatim>\<open>Drop\<close>: a runtime that still has children is shut down, also when a panic unwinds; a panic in
  the shutdown itself ends the process.
\<close>

definition drop_runtime :: "'w env \<Rightarrow> finished \<times> 'w rt \<Rightarrow> finished \<times> 'w rt" where
  "drop_runtime e rs = (case rs of (r, s) \<Rightarrow>
     if rt_children s \<noteq> [] \<or> rt_uncertain s \<noteq> [] then
       (case shutdown e s of (Inl _, s') \<Rightarrow> (Panicked, s') | (Inr _, s') \<Rightarrow> (r, s'))
     else (r, s))"

definition run_runtime ::
    "nat \<Rightarrow> 'w env \<Rightarrow> codec \<Rightarrow> 'w listener \<Rightarrow> 'w startup \<Rightarrow> runtime_paths \<Rightarrow> fs \<Rightarrow> string \<Rightarrow> db \<Rightarrow> finished \<times> 'w rt" where
  "run_runtime n e cd li su paths f installation d =
     (case initialize e (su_arch su)
         (initial_state paths \<lparr>en_binary = [], en_architecture = []\<rparr> installation d f (su_now su) (su_world su)) of
        (Inl Panic, s) \<Rightarrow> drop_runtime e (Panicked, s)
      | (Inl (Raise x), s) \<Rightarrow> drop_runtime e (Failed_With (InitializeRuntime x), s)
      | (Inr _, s) \<Rightarrow>
          (case (if su_flags su 4 then rm_bind (shutdown e) (\<lambda>_. rm_return (Some (Inr ()))) else serve n e cd li) s of
             (Inl _, s') \<Rightarrow> drop_runtime e (Panicked, s')
           | (Inr None, s') \<Rightarrow> (Still_Running, s')
           | (Inr (Some (Inr _)), s') \<Rightarrow> drop_runtime e (Stopped, s')
           | (Inr (Some (Inl x)), s') \<Rightarrow> drop_runtime e (Failed_With (ServeSocket x), s')))"

definition daemon_run :: "nat \<Rightarrow> 'w env \<Rightarrow> codec \<Rightarrow> 'w listener \<Rightarrow> 'w startup \<Rightarrow> finished \<times> 'w rt option" where
  "daemon_run n e cd li su =
     (case acquire_all su of
        Inl r \<Rightarrow> (r, None)
      | Inr (paths, f) \<Rightarrow>
          (case open_store (su_open su) (database_path paths) (f, su_content su) of
             (Inl x, _) \<Rightarrow> (Failed_With (InitializeRuntime (RtStore x)), None)
           | (Inr (installation, d), (f', _)) \<Rightarrow>
               (case run_runtime n e cd li su paths f' installation d of (r, s) \<Rightarrow> (r, Some s))))"

end
