(* ===== verification/Runtime_Laws.thy ===== *)
theory Runtime_Laws
  imports Daemon
begin

text \<open>
  What holds for every operation of the daemon once it holds for the few that touch a child: a
  relation that is kept by spawning, stopping, quarantining and forgetting a child is kept by
  every request, every tick, the shutdown and the whole run.
\<close>

section \<open>Operations that touch no child\<close>

context rt_quiet
begin

lemma keeps_open_append: "keeps (open_log_append e p)"
  unfolding open_log_append_def by (intro quiet_rules)

lemma keeps_create_log: "keeps (create_log e p)"
  unfolding create_log_def by (intro quiet_rules)

lemma keeps_open_logs: "keeps (open_logs e a b)"
  unfolding open_logs_def by (intro quiet_rules keeps_open_append)

lemma keeps_open_or_create: "keeps (open_or_create_log e p)"
  unfolding open_or_create_log_def by (intro quiet_rules keeps_open_append keeps_create_log)

lemma keeps_files: "keeps (rm_files e g)"
  unfolding rm_files_def by (intro quiet_rules keeps_modify R_fs crashed_simps)

lemma keeps_prepare_logs: "keeps (prepare_existing_logs e s a b)"
  unfolding prepare_existing_logs_def by (intro quiet_rules keeps_files keeps_open_or_create)

lemma keeps_required_stack: "keeps (required_stack e s)"
  unfolding required_stack_def by (intro quiet_rules journaled_read)

lemma keeps_required_status: "keeps (required_status e s)"
  unfolding required_status_def by (intro quiet_rules journaled_read)

lemma keeps_identity: "keeps (query_identity e k)"
  unfolding query_identity_def by (intro quiet_rules journaled_read)

lemma keeps_journal_restart: "keeps (journal_restart e k n win t)"
  unfolding journal_restart_def by (intro quiet_rules journaled_operations)

lemma keeps_schedule_after_exit: "keeps (schedule_restart_after_exit e k mc)"
  unfolding schedule_restart_after_exit_def Let_def
  by (intro quiet_rules keeps_required_stack keeps_journal_restart)

lemma keeps_ambiguous: "keeps (registry_ambiguous e n)"
  unfolding registry_ambiguous_def by (intro quiet_rules)

lemma keeps_revalidate: "keeps (revalidate e k mc)"
  unfolding revalidate_def by (intro quiet_rules keeps_identity)

lemma keeps_journal_starting: "keeps (journal_starting e j k c t b)"
  unfolding journal_starting_def
  by (cases j) (auto intro!: keeps_store_call journaled_operations)

lemma keeps_journal_running: "keeps (journal_running e j k n)"
  unfolding journal_running_def
  by (cases j) (auto intro!: keeps_store_call journaled_operations)

lemma keeps_orders: "keeps (start_order_of m)" "keeps (stop_order_of m)"
  unfolding start_order_of_def stop_order_of_def by (intro quiet_rules)+

lemma keeps_record_failure: "keeps (record_operation_failure e r s v x)"
  unfolding record_operation_failure_def by (intro quiet_rules journaled_operations)

lemma keeps_parse: "keeps (parse_rm e t)"
  unfolding parse_rm_def by (intro quiet_rules)

lemma keeps_base: "keeps (persisted_base x)"
  unfolding persisted_base_def by (intro quiet_rules)

lemma keeps_reschedule: "keeps (reschedule_after_early_exit e sr c g)"
  unfolding reschedule_after_early_exit_def Let_def
  by (intro quiet_rules keeps_required_stack keeps_parse keeps_journal_restart)

lemma keeps_retry: "keeps (retry_at e n)"
  unfolding retry_at_def Let_def by (intro quiet_rules)

lemma keeps_restore: "keeps (restore_backoff e sr x)"
  unfolding restore_backoff_def Let_def by (intro quiet_rules keeps_retry journaled_operations)

lemma keeps_preflight: "keeps (preflight_manifest e b m)"
  unfolding preflight_manifest_def check_bind_def check_ports_def Let_def
  by (intro quiet_rules keeps_files keeps_parse journaled_read)

lemma keeps_random: "keeps (random_bytes e n)"
  unfolding random_bytes_def by (intro quiet_rules)

lemma keeps_generate: "keeps (generate_alias e i s v)" "keeps (generate_internal_request_id e p s)"
  unfolding generate_alias_def generate_internal_request_id_def by (intro quiet_rules keeps_random)+

lemma keeps_fresh_plans: "keeps (fresh_plans e m)"
  unfolding fresh_plans_def Let_def split_beta by (intro quiet_rules keeps_generate)

lemma keeps_candidate_plans: "keeps (candidate_plans e r t b m p)"
proof -
  have begun: "keeps (rm_bind (store_call e (begin_up r t b m p)) (\<lambda>_. rm_return x))" for x :: "(string \<times> service_plan \<times> bool) list"
    by (intro quiet_rules journaled_operations)
  have handled: "keeps (case x of
      Inr recovery \<Rightarrow> rm_return (f recovery)
    | Inl (RtStore (NotFound _)) \<Rightarrow> rm_bind (store_call e (begin_up r t b m p)) (\<lambda>_. rm_return g)
    | Inl y \<Rightarrow> rm_raise y)" for x and f :: "candidate_recovery \<Rightarrow> (string \<times> service_plan \<times> bool) list" and g
    by (simp add: begun keeps_return keeps_raise split: sum.split runtime_error.split store_error.split)
  show ?thesis
    unfolding candidate_plans_def by (intro keeps_bind keeps_attempt keeps_store_call journaled_operations handled)
qed

lemma keeps_handles: "keeps (current_handles e s n x)"
  unfolding current_handles_def by (intro quiet_rules keeps_open_logs)

lemma keeps_committed: "keeps (committed_manifest e s)"
  unfolding committed_manifest_def by (intro quiet_rules keeps_parse journaled_read)

lemma keeps_read_log: "keeps (read_log e p n)"
  unfolding read_log_def by (intro quiet_rules)

lemma keeps_replay: "keeps (replay_response e cd r p s a b t)"
  unfolding replay_response_def by (intro quiet_rules journaled_read)

lemma keeps_mutation: "keeps (mutation_of e q)"
  by (cases q) (auto simp: mutation_of_def keeps_return keeps_panic split: sum.splits)

lemma keeps_cache: "keeps (cache_response_for_request e cd q resp)"
  unfolding cache_response_for_request_def by (intro quiet_rules keeps_mutation journaled_read journaled_operations)

lemma keeps_probe: "keeps (engine_probe e)"
  unfolding engine_probe_def by (intro quiet_rules)

lemmas calm_rules = quiet_rules keeps_open_logs keeps_files keeps_prepare_logs keeps_required_stack keeps_required_status
  keeps_identity keeps_schedule_after_exit keeps_ambiguous keeps_revalidate keeps_journal_starting keeps_journal_running
  keeps_orders keeps_record_failure keeps_parse keeps_base keeps_reschedule keeps_retry keeps_restore keeps_preflight
  keeps_generate keeps_fresh_plans keeps_candidate_plans keeps_handles keeps_committed keeps_read_log keeps_replay
  keeps_cache keeps_probe keeps_wait

end

section \<open>Loops\<close>

context rt_quiet
begin

lemma sleep_crashed: "crashed (snd (sleep_ms e ms s)) = crashed s"
  by (auto simp: sleep_ms_def rm_bind_def rm_call_def rm_modify_def split: prod.splits)

lemma keeps_contain_loop:
  assumes step: "keeps (contain_step e c)" and kept: "keeps (insert_uncertain key c)"
  shows "R s (snd (contain_loop e key c deadline s))
    \<and> marked (fst (contain_loop e key c deadline s)) s (snd (contain_loop e key c deadline s))"
  using assms
proof (induction e key c deadline s rule: contain_loop.induct)
  case (1 e key c deadline s)
  obtain r s1 where t: "contain_step e c s = (r, s1)" by fastforce
  have one: "R s s1" "marked r s s1" using "1.prems"(1) t by (rule keepsD keeps_marked)+
  let ?s2 = "snd (sleep_ms e 50 s1)"
  have two: "R s1 ?s2" "crashed ?s2 = crashed s1" by (rule keeps_snd [OF keeps_sleep] sleep_crashed)+
  have last: "keeps (rm_bind (insert_uncertain key c) (\<lambda>_. rm_return False))"
    by (intro keeps_bind keeps_return "1.prems")
  consider x where "r = Inl x" | "r = Inr True" | "r = Inr False"
    by (metis (full_types) sum.exhaust)
  then show ?case
  proof cases
    case 3
    show ?thesis
    proof (cases "deadline \<le> rt_now s1")
      case True
      obtain r2 s2 where l: "rm_bind (insert_uncertain key c) (\<lambda>_. rm_return False) s1 = (r2, s2)" by fastforce
      have "R s1 s2" "marked r2 s1 s2" using last l by (rule keepsD keeps_marked)+
      with t 3 one True l show ?thesis
        by (auto simp: contain_loop.simps [of e key c deadline s] marked_def intro: R_trans)
    next
      case False
      then have "R ?s2 (snd (contain_loop e key c deadline ?s2))"
          "marked (fst (contain_loop e key c deadline ?s2)) ?s2 (snd (contain_loop e key c deadline ?s2))"
        using "1.IH" [OF t [symmetric] 3] "1.prems" by simp_all
      with False t 3 one two show ?thesis
        by (simp add: contain_loop.simps [of e key c deadline s] marked_def) (blast intro: R_trans)
    qed
  qed (use t one in \<open>simp_all add: contain_loop.simps [of e key c deadline s] marked_def\<close>)
qed

lemma keeps_session_loop:
  assumes "keeps (session_step e key pid)"
  shows "R s (snd (session_loop e key pid deadline s))
    \<and> marked (fst (session_loop e key pid deadline s)) s (snd (session_loop e key pid deadline s))"
  using assms
proof (induction e key pid deadline s rule: session_loop.induct)
  case (1 e key pid deadline s)
  obtain r s1 where t: "session_step e key pid s = (r, s1)" by fastforce
  have one: "R s s1" "marked r s s1" using "1.prems" t by (rule keepsD keeps_marked)+
  let ?s2 = "snd (sleep_ms e 50 s1)"
  have two: "R s1 ?s2" "crashed ?s2 = crashed s1" by (rule keeps_snd [OF keeps_sleep] sleep_crashed)+
  consider x where "r = Inl x" | "r = Inr True" | "r = Inr False"
    by (metis (full_types) sum.exhaust)
  then show ?case
  proof cases
    case 3
    show ?thesis
    proof (cases "deadline \<le> rt_now s1")
      case True
      with t 3 one show ?thesis by (simp add: session_loop.simps [of e key pid deadline s] marked_def)
    next
      case False
      then have "R ?s2 (snd (session_loop e key pid deadline ?s2))"
          "marked (fst (session_loop e key pid deadline ?s2)) ?s2 (snd (session_loop e key pid deadline ?s2))"
        using "1.IH" [OF t [symmetric] 3] "1.prems" by simp_all
      with False t 3 one two show ?thesis
        by (simp add: session_loop.simps [of e key pid deadline s] marked_def) (blast intro: R_trans)
    qed
  qed (use t one in \<open>simp_all add: session_loop.simps [of e key pid deadline s] marked_def\<close>)
qed

end

section \<open>Relations that allow a child to be given up\<close>

text \<open>A relation that is kept when a child is killed, set aside or removed is kept by all but a start.\<close>

locale rt_removing = rt_quiet +
  assumes keeps_remove: "keeps (remove_child key)"
    and keeps_set_aside: "keeps (insert_uncertain key c)"
    and keeps_let_go: "keeps (remove_uncertain key)"
    and keeps_set_session: "keeps (set_session key w)"
    and keeps_kill: "keeps (engine_kill e w)"
begin

lemmas removing_rules = calm_rules keeps_remove keeps_set_aside keeps_let_go keeps_set_session keeps_kill

lemma removing_quarantine: "keeps (quarantine_managed_child e key)"
  unfolding quarantine_managed_child_def by (intro removing_rules)

lemma removing_stop: "keeps (stop_owned_child e key)"
  unfolding stop_owned_child_def by (intro removing_rules)

lemma removing_contain_step: "keeps (contain_step e c)"
proof -
  have "keeps (case r of Inr (Some _) \<Rightarrow> rm_return True | _ \<Rightarrow> m)" if "keeps m"
    for r :: "runtime_error + exit_status option" and m
    using that by (auto simp: keeps_return split: sum.split option.split)
  then show ?thesis unfolding contain_step_def by (intro removing_rules)
qed

lemma removing_contain: "keeps (contain_unqualified_child e key c)" "keeps (contain_and_fail e key c t x)"
  unfolding contain_unqualified_child_def contain_and_fail_def
  by (intro removing_rules keepsI keeps_contain_loop [THEN conjunct1] keeps_contain_loop [THEN conjunct2]
      removing_contain_step)+

lemma removing_session_step: "keeps (session_step e key pid)"
  unfolding session_step_def exit_parts_def Let_def prod.case by (intro removing_rules journaled_operations)

lemma removing_qualify: "keeps (qualify e m v j key pid)"
  unfolding qualify_def
  by (cases j) (simp, intro removing_rules keepsI keeps_session_loop [THEN conjunct1] keeps_session_loop [THEN conjunct2]
      removing_session_step)+

lemma removing_validate: "keeps (validate_owned_service_running e key)"
  unfolding validate_owned_service_running_def observed_exit_def exit_parts_def Let_def prod.case
  by (intro removing_rules removing_quarantine journaled_operations)

lemma removing_tick_child: "keeps (tick_child e key)"
  unfolding tick_child_def exit_parts_def Let_def prod.case by (intro removing_rules journaled_operations)

lemma removing_tick_uncertain: "keeps (tick_uncertain e key)"
proof -
  have "keeps (case r of Inr (Some _) \<Rightarrow> remove_uncertain key | _ \<Rightarrow> rm_return ())"
    for r :: "runtime_error + exit_status option"
    by (auto intro: removing_rules split: sum.splits option.splits)
  then show ?thesis unfolding tick_uncertain_def by (intro removing_rules)
qed

end

section \<open>Relations that do not look at the children\<close>

text \<open>A relation that no change of the children and no effect can break is kept by everything.\<close>

locale rt_plain = rt_quiet +
  assumes P_throttle: "R s (s\<lparr>rt_throttle := t\<rparr>)"
    and P_engine: "R s (s\<lparr>rt_engine := g\<rparr>)"
    and P_children: "R s (s\<lparr>rt_children := cs\<rparr>)"
    and P_uncertain: "R s (s\<lparr>rt_uncertain := us\<rparr>)"
    and P_spawned: "R s (s\<lparr>rt_effects := rt_effects s @ [Spawned n c]\<rparr>)"
    and P_killed: "R s (s\<lparr>rt_effects := rt_effects s @ [Killed w]\<rparr>)"
begin

lemma plain_children:
  "keeps (insert_child key mc)" "keeps (remove_child key)" "keeps (insert_uncertain key c)"
  "keeps (remove_uncertain key)" "keeps (set_session key w)"
  unfolding insert_child_def remove_child_def insert_uncertain_def remove_uncertain_def set_session_def
  by (intro keeps_bind keeps_get keeps_expect keeps_modify P_children P_uncertain crashed_simps)+

lemma plain_kill: "keeps (engine_kill e w)"
  unfolding engine_kill_def by (intro keeps_bind keeps_get keeps_effect P_killed keeps_call keeps_lift) simp

lemma plain_run: "keeps (engine_run e n opts a b)"
  unfolding engine_run_def
  by (intro keeps_bind keeps_get keeps_effect P_spawned keeps_call keeps_lift keeps_return) simp

end

sublocale rt_plain \<subseteq> removing: rt_removing R
  by unfold_locales (rule plain_children plain_kill)+

context rt_plain
begin

lemma plain_adopt: "keeps (adopt_child e v n j key c)"
  unfolding adopt_child_def by (intro calm_rules plain_children removing.removing_contain)

lemma plain_spawn: "keeps (spawn_and_qualify e b m v n a c j)"
  unfolding spawn_and_qualify_def Let_def
  by (intro calm_rules plain_run removing.removing_quarantine plain_adopt removing.removing_qualify)

end

section \<open>The whole daemon\<close>

locale rt_daemon = rt_quiet +
  assumes R_throttle: "R s (s\<lparr>rt_throttle := t\<rparr>)"
    and R_engine: "R s (s\<lparr>rt_engine := g\<rparr>)"
    and keeps_quarantine: "keeps (quarantine_managed_child e key)"
    and keeps_stop: "keeps (stop_owned_child e key)"
    and keeps_spawn: "keeps (spawn_and_qualify e b m v n a c j)"
    and keeps_validate: "keeps (validate_owned_service_running e key)"
    and keeps_tick_child: "keeps (tick_child e key)"
    and keeps_tick_uncertain: "keeps (tick_uncertain e key)"
begin

lemmas daemon_rules = calm_rules keeps_quarantine keeps_stop keeps_spawn keeps_validate

lemma keeps_dependencies: "keeps (ensure_dependencies_running e m v)"
  unfolding ensure_dependencies_running_def by (intro daemon_rules keeps_validate)

lemma keeps_start_child: "keeps (start_operation_child e r b m v n a c)"
  unfolding start_operation_child_def by (intro daemon_rules journaled_operations)

lemma keeps_survivors: "keeps (quarantine_cleanup_survivors e ks n)"
  unfolding quarantine_cleanup_survivors_def by (intro daemon_rules)

lemma keeps_stop_started: "keeps (stop_started_after_failed_up e r ks)"
  unfolding stop_started_after_failed_up_def stop_started_step_def exit_parts_def Let_def prod.case
  by (intro daemon_rules keeps_survivors journaled_operations)

lemma keeps_abort: "keeps (abort_start_operation e r m o' f ks x)"
  unfolding abort_start_operation_def by (intro daemon_rules keeps_stop_started journaled_operations)

lemma keeps_prepare_restart: "keeps (prepare_restart e s v)"
  unfolding prepare_restart_def by (intro daemon_rules keeps_dependencies)

lemma keeps_perform: "keeps (perform_scheduled_restart e sr)"
  unfolding perform_scheduled_restart_def Let_def by (intro daemon_rules keeps_prepare_restart journaled_operations)

lemma keeps_tick_restart: "keeps (tick_restart e sr)"
proof -
  have handled: "keeps (case r of
      Inr _ \<Rightarrow> rm_return ()
    | Inl (ChildExited code signal) \<Rightarrow> rm_ignore (reschedule_after_early_exit e sr code signal)
    | Inl (RestartPending _) \<Rightarrow> rm_modify (\<lambda>s. s\<lparr>rt_throttle := bt_insert k (rt_now s + 1000) (rt_throttle s)\<rparr>)
    | Inl _ \<Rightarrow> rm_ignore (mark_unknown e k))" for r :: "runtime_error + unit" and k
    by (simp add: keeps_return keeps_ignore keeps_reschedule keeps_mark_unknown keeps_modify R_throttle
        split: sum.split runtime_error.split)
  show ?thesis
    unfolding tick_restart_def remove_throttle_def Let_def
    by (intro keeps_if keeps_ignore keeps_mark_unknown keeps_bind keeps_get keeps_return keeps_modify R_throttle crashed_simps
        keeps_attempt keeps_perform handled)
qed

lemma keeps_tick: "keeps (tick e)"
  unfolding tick_def
  by (intro daemon_rules keeps_tick_child keeps_tick_uncertain keeps_tick_restart journaled_read)

lemma keeps_or_fail: "keeps failed \<Longrightarrow> keeps body \<Longrightarrow> keeps (or_fail e r m o' failed ks body)"
  unfolding or_fail_def fail_start_def by (intro daemon_rules keeps_abort)

lemma keeps_start_prepared: "keeps (start_prepared e r b m v p l)"
  unfolding start_prepared_def by (intro daemon_rules keeps_dependencies keeps_start_child)

lemma keeps_start_candidate: "keeps (start_candidate e r b m ps o' iv ks)"
  unfolding start_candidate_def start_installed_candidate_def install_and_start_candidate_def Let_def
  by (intro daemon_rules keeps_or_fail keeps_start_prepared journaled_operations)

lemma keeps_prepare_candidate: "keeps (prepare_candidate e r t b m)"
  unfolding prepare_candidate_def by (intro daemon_rules keeps_or_fail keeps_start_candidate journaled_operations)

lemma keeps_start_services: "keeps (start_current_services e r p m b o' c)"
  unfolding start_current_services_def start_current_one_def
  by (intro daemon_rules keeps_or_fail keeps_dependencies keeps_start_child journaled_operations)

lemma keeps_start_stack: "keeps (start_current_stack e r p m b)"
  unfolding start_current_stack_def by (intro daemon_rules keeps_start_services)

lemma keeps_converge: "keeps (converge e r t b m x)"
  unfolding converge_def classify_service_def
  by (intro daemon_rules keeps_validate keeps_start_services journaled_operations)

lemma keeps_up: "keeps (up e r t b m)"
  unfolding up_def by (intro daemon_rules keeps_tick keeps_prepare_candidate keeps_converge journaled_read)

lemma keeps_status: "keeps (status e s)"
  unfolding status_def by (intro daemon_rules keeps_tick journaled_read)

lemma keeps_logs: "keeps (runtime_logs e s v n)"
  unfolding runtime_logs_def by (intro daemon_rules keeps_tick)

lemma keeps_down_services: "keeps (down_services e r s o')"
  unfolding down_services_def down_service_def exit_parts_def Let_def prod.case
  by (intro daemon_rules journaled_operations)

lemma keeps_down: "keeps (down e r s)"
  unfolding down_def quarantine_stack_def
  by (intro daemon_rules keeps_tick keeps_down_services journaled_operations)

lemma keeps_or_abort: "keeps body \<Longrightarrow> keeps (or_abort_restart e r s v c body)"
  unfolding or_abort_restart_def abort_restart_operation_def Let_def
  by (intro daemon_rules keeps_stop_started journaled_operations)

lemma keeps_restart_start: "keeps (restart_start e r s v m d)"
  unfolding restart_start_def by (intro daemon_rules keeps_dependencies keeps_start_child journaled_operations)

lemma keeps_restart: "keeps (restart e r s v)"
  unfolding restart_def exit_parts_def Let_def prod.case
  by (intro daemon_rules keeps_tick keeps_dependencies keeps_or_abort keeps_restart_start journaled_operations)

lemma keeps_resume: "keeps (resume_gracefully_stopped e)"
  unfolding resume_gracefully_stopped_def resume_stack_def
  by (intro daemon_rules keeps_start_stack journaled_read)

lemma keeps_shutdown_service: "keeps (shutdown_service e s st v)"
  unfolding shutdown_service_def exit_parts_def Let_def prod.case by (intro daemon_rules journaled_operations)

lemma keeps_shutdown_order: "keeps (shutdown_order e s st)"
proof -
  have "keeps (case x of Inr (Some m) \<Rightarrow> stop_order_of m | _ \<Rightarrow> rm_return [])" for x :: "runtime_error + manifest option"
    by (auto intro: daemon_rules split: sum.splits option.splits)
  then show ?thesis unfolding shutdown_order_def Let_def by (intro daemon_rules)
qed

lemma keeps_shutdown: "keeps (shutdown e)"
  unfolding shutdown_def shutdown_stack_def Let_def
  by (intro daemon_rules keeps_shutdown_order keeps_shutdown_service journaled_read)

lemma keeps_initialize: "keeps (initialize e arch)"
  unfolding initialize_def by (intro daemon_rules keeps_resume keeps_modify R_engine crashed_simps journaled_operations)

lemma keeps_respond: "keeps m \<Longrightarrow> keeps (respond r f m)"
  unfolding respond_def by (intro daemon_rules)

lemma keeps_once: "keeps m \<Longrightarrow> keeps (respond_once e cd r p s a b t m)"
  unfolding respond_once_def by (intro daemon_rules keeps_respond)

lemma keeps_checked: "keeps m \<Longrightarrow> keeps (checked_name r n m)"
  unfolding checked_name_def by (intro daemon_rules)

lemma keeps_dispatch: "keeps (dispatch e cd q)"
proof (cases q)
  case (Up_Request v r t b)
  then show ?thesis
    by (auto intro!: daemon_rules keeps_once keeps_up split: sum.splits)
qed (simp_all add: keeps_checked keeps_respond keeps_once keeps_status keeps_down keeps_logs keeps_restart)

lemma keeps_answer: "keeps (answer_request e cd q)"
  unfolding answer_request_def by (intro daemon_rules keeps_dispatch)

lemma keeps_connection: "keeps (handle_connection e cd rd wr)"
  unfolding handle_connection_def by (intro daemon_rules keeps_answer)

lemma keeps_turn: "keeps (serve_turn e cd li)"
proof -
  have "keeps (case a of Connection timeouts rd wr \<Rightarrow>
        if is_ok timeouts then rm_bind (handle_connection e cd rd wr) (\<lambda>_. rm_return Again) else rm_return Again
      | Would_Block \<Rightarrow> rm_bind (sleep_ms e 50) (\<lambda>_. rm_return Again)
      | Interrupted \<Rightarrow> rm_return Again
      | Accept_Failed x \<Rightarrow> rm_return (Done (Inl x)))" for a
    by (cases a) (auto intro!: daemon_rules keeps_connection)
  then show ?thesis unfolding serve_turn_def by (intro daemon_rules keeps_tick)
qed

lemma keeps_serve: "keeps (serve n e cd li)"
proof (induction n)
  case (Suc n)
  have "keeps (case t of Again \<Rightarrow> serve n e cd li | Done r \<Rightarrow> rm_bind (shutdown e) (\<lambda>_. rm_return (Some r)))" for t
    by (cases t) (auto intro!: daemon_rules keeps_shutdown Suc.IH)
  then show ?case by (simp add: keeps_bind keeps_turn)
qed (simp add: keeps_return)

text \<open>The relation between the state the runtime is created in and the one the daemon ends with.\<close>

lemma keeps_drop:
  assumes "drop_runtime e (r, s) = (r', s')"
  shows "R s s' \<and> (crashed s' \<longrightarrow> r' = Panicked \<or> crashed s \<and> r' = r)"
proof -
  obtain t s1 where down: "shutdown e s = (t, s1)" by fastforce
  have "R s s1" "marked t s s1" using keeps_shutdown down by (rule keepsD keeps_marked)+
  with assms down show ?thesis
    by (cases t) (auto simp: drop_runtime_def marked_def R_refl split: if_splits)
qed

lemma keeps_run:
  fixes su :: "'a startup"
  defines "s0 \<equiv> \<lambda>paths installation d f.
    initial_state paths \<lparr>en_binary = [], en_architecture = []\<rparr> installation d f (su_now su) (su_world su)"
  assumes run: "run_runtime n e cd li su paths f installation d = (r, s)"
  shows "R (s0 paths installation d f) s \<and> (crashed s \<longrightarrow> r = Panicked)"
proof -
  let ?rest = "if su_flags su 4 then rm_bind (shutdown e) (\<lambda>_. rm_return (Some (Inr ()))) else serve n e cd li"
  have rest: "keeps ?rest"
    by (intro keeps_if keeps_bind keeps_shutdown keeps_return keeps_serve)
  have start: "\<not> crashed (s0 paths installation d f)" by (simp add: s0_def initial_state_def crashed_def)
  obtain r1 s1 where init: "initialize e (su_arch su) (s0 paths installation d f) = (r1, s1)" by fastforce
  have one: "R (s0 paths installation d f) s1" "crashed s1 \<longleftrightarrow> r1 = Inl Panic"
    using keepsD [OF keeps_initialize init] keeps_marked [OF keeps_initialize init] start by (simp_all add: marked_def)
  have ends: ?thesis if "drop_runtime e (r', s') = (r, s)" "R (s0 paths installation d f) s'" "crashed s' \<longrightarrow> r' = Panicked" for r' s'
    using keeps_drop [OF that(1)] that(2,3) R_trans by blast
  show ?thesis
  proof (cases r1)
    case (Inl x)
    obtain r' where "drop_runtime e (r', s1) = (r, s)" "x = Panic \<longrightarrow> r' = Panicked"
      using run init Inl by (cases x) (simp_all add: run_runtime_def s0_def)
    then show ?thesis
      using one Inl by (intro ends) auto
  next
    case (Inr u)
    obtain r2 s2 where srv: "?rest s1 = (r2, s2)" by fastforce
    have two: "R (s0 paths installation d f) s2" "crashed s2 \<longleftrightarrow> r2 = Inl Panic"
      using R_trans [OF one(1) keepsD [OF rest srv]] keeps_marked [OF rest srv] one(2) Inr by (simp_all add: marked_def)
    have "(case r2 of
        Inl _ \<Rightarrow> drop_runtime e (Panicked, s2)
      | Inr None \<Rightarrow> (Still_Running, s2)
      | Inr (Some (Inr _)) \<Rightarrow> drop_runtime e (Stopped, s2)
      | Inr (Some (Inl x)) \<Rightarrow> drop_runtime e (Failed_With (ServeSocket x), s2)) = (r, s)"
      using run init Inr srv
      by (cases "su_flags su 4") (simp_all add: run_runtime_def s0_def split: sum.splits option.splits)
    then have "(\<exists>r'. drop_runtime e (r', s2) = (r, s) \<and> (crashed s2 \<longrightarrow> r' = Panicked)) \<or> s = s2 \<and> \<not> crashed s2"
      using two(2) by (auto split: sum.splits option.splits)
    then show ?thesis
      using two(1) ends by blast
  qed
qed

lemma daemon_keeps:
  assumes "daemon_run n e cd li su = (r, Some s)"
  obtains paths f fc installation d where "acquire_all su = Inr (paths, f)"
    "open_store (su_open su) (database_path paths) (f, su_content su) = (Inr (installation, d), fc)"
    "R (initial_state paths \<lparr>en_binary = [], en_architecture = []\<rparr> installation d (fst fc) (su_now su) (su_world su)) s"
    "crashed s \<longrightarrow> r = Panicked"
proof -
  obtain paths f fc installation d where start: "acquire_all su = Inr (paths, f)"
      "open_store (su_open su) (database_path paths) (f, su_content su) = (Inr (installation, d), fc)"
    and run: "run_runtime n e cd li su paths (fst fc) installation d = (r, s)"
    using assms by (auto simp: daemon_run_def split: sum.splits prod.splits)
  show ?thesis by (rule that [OF start]) (use keeps_run [OF run] in blast)+
qed

end

sublocale rt_plain \<subseteq> daemon: rt_daemon R
  by unfold_locales (rule P_throttle P_engine plain_spawn removing.removing_quarantine removing.removing_stop
      removing.removing_validate removing.removing_tick_child removing.removing_tick_uncertain)+

end
