(* ===== verification/Runtime_Safety.thy ===== *)
theory Runtime_Safety
  imports Runtime_Laws
begin

text \<open>
  What the daemon does to processes. Its history shows that it kills a session only when it
  started the process itself and the engine listed the session at that moment; every process it
  started is held in one of its two maps until its exit is observed; and no service has two
  handles. The steps that touch a child are proved against this by pre- and postconditions, all
  others do not touch it, and the laws of the daemon give it for every run.
\<close>

section \<open>What is claimed\<close>

text \<open>Every kill is of a process spawned before, and of a session in the listing right before it.\<close>

fun kills_own :: "32 word set \<Rightarrow> 32 word list \<Rightarrow> effect list \<Rightarrow> bool" where
  "kills_own spawned listed [] = True"
| "kills_own spawned listed (x # es) = (case x of
     Spawned _ c \<Rightarrow> kills_own (insert (ch_pid c) spawned) [] es
   | Listed ws \<Rightarrow> kills_own spawned ws es
   | Killed n \<Rightarrow> n \<in> spawned \<and> n \<in> set listed \<and> kills_own spawned [] es
   | _ \<Rightarrow> kills_own spawned [] es)"

text \<open>A process is held when one of the two maps has its handle.\<close>

definition held :: "child \<Rightarrow> 'w rt \<Rightarrow> bool" where
  "held c s \<longleftrightarrow> c \<in> (mc_child \<circ> snd) ` set (rt_children s) \<or> c \<in> snd ` set (rt_uncertain s)"

definition handles_ok :: "'w rt \<Rightarrow> bool" where
  "handles_ok s \<longleftrightarrow> bt_wf (rt_children s) \<and> bt_wf (rt_uncertain s)
     \<and> fst ` set (rt_children s) \<inter> fst ` set (rt_uncertain s) = {}"

definition children_ok :: "'w rt \<Rightarrow> bool" where
  "children_ok s \<longleftrightarrow> (\<forall>(k, mc) \<in> set (rt_children s).
     Spawned (mc_alias mc) (mc_child mc) \<in> set (rt_effects s)
     \<and> (mc_session mc = None \<or> mc_session mc = Some (ch_pid (mc_child mc))))"

text \<open>Every process spawned is held or seen to have exited, but for those of a set.\<close>

definition accounted :: "child set \<Rightarrow> 'w rt \<Rightarrow> bool" where
  "accounted P s \<longleftrightarrow> crashed s \<or>
     (\<forall>x \<in> set (rt_effects s). case x of
        Spawned _ c \<Rightarrow> c \<in> P \<or> Exited c \<in> set (rt_effects s) \<or> held c s
      | _ \<Rightarrow> True)"

definition safe_but :: "child set \<Rightarrow> 'w rt \<Rightarrow> bool" where
  "safe_but P s \<longleftrightarrow> handles_ok s \<and> children_ok s \<and> kills_own {} [] (rt_effects s) \<and> accounted P s"

abbreviation safe :: "'w rt \<Rightarrow> bool" where
  "safe \<equiv> safe_but {}"

section \<open>Steps that touch no child\<close>

fun quiet :: "effect \<Rightarrow> bool" where
  "quiet (Spawned _ _) = False"
| "quiet (Killed _) = False"
| "quiet _ = True"

definition calm_step :: "'w rt \<Rightarrow> 'w rt \<Rightarrow> bool" where
  "calm_step s s' \<longleftrightarrow> rt_children s' = rt_children s \<and> rt_uncertain s' = rt_uncertain s
     \<and> (\<exists>es. rt_effects s' = rt_effects s @ es \<and> list_all quiet es)"

interpretation calm: rt_quiet calm_step
proof
  fix s s' s'' :: "'w rt"
  assume "calm_step s s'" "calm_step s' s''"
  then show "calm_step s s''"
    by (auto simp: calm_step_def)
qed (auto simp: calm_step_def)

lemma kills_own_quiet: "list_all quiet es \<Longrightarrow> kills_own ps l es"
  by (induction es arbitrary: ps l) (auto split: effect.split)

lemma kills_own_append_quiet:
  "list_all quiet es \<Longrightarrow> kills_own ps l (xs @ es) \<longleftrightarrow> kills_own ps l xs"
  by (induction xs arbitrary: ps l) (auto simp: kills_own_quiet split: effect.split)

lemma kills_own_spawned: "kills_own ps l (xs @ [Spawned n c]) \<longleftrightarrow> kills_own ps l xs"
  by (induction xs arbitrary: ps l) (auto split: effect.split)

lemma kills_own_killed:
  "kills_own ps l (xs @ [Listed ws, Killed n]) \<longleftrightarrow>
     kills_own ps l xs \<and> n \<in> set ws \<and> (n \<in> ps \<or> (\<exists>a c. Spawned a c \<in> set xs \<and> ch_pid c = n))"
  by (induction xs arbitrary: ps l) (auto split: effect.split)

lemma calm_effects: "calm_step s s' \<Longrightarrow> x \<in> set (rt_effects s) \<Longrightarrow> x \<in> set (rt_effects s')"
  by (auto simp: calm_step_def)

lemma calm_owned: "calm_step s s' \<Longrightarrow> owned k s' = owned k s"
  by (simp add: calm_step_def owned_def)

lemma calm_uncertain: "calm_step s s' \<Longrightarrow> is_uncertain k s' = is_uncertain k s"
  by (simp add: calm_step_def is_uncertain_def)

lemma calm_spawned: "calm_step s s' \<Longrightarrow> Spawned n c \<in> set (rt_effects s') \<longleftrightarrow> Spawned n c \<in> set (rt_effects s)"
  by (fastforce simp: calm_step_def list_all_iff)

lemma accounted_iff:
  "accounted P s \<longleftrightarrow> crashed s \<or> (\<forall>n c. Spawned n c \<in> set (rt_effects s) \<longrightarrow>
     c \<in> P \<or> Exited c \<in> set (rt_effects s) \<or> held c s)"
  by (auto simp: accounted_def split: effect.splits)

lemma calm_crashed: "calm_step s s' \<Longrightarrow> crashed s \<Longrightarrow> crashed s'"
  by (auto simp: crashed_def calm_effects)

lemma calm_safe_but:
  assumes "calm_step s s'" and "safe_but P s"
  shows "safe_but P s'"
proof -
  have "held c s' = held c s" for c
    using assms(1) by (simp add: held_def calm_step_def)
  then have "accounted P s'"
    using assms calm_spawned [OF assms(1)] calm_effects [OF assms(1)] calm_crashed [OF assms(1)]
    by (metis accounted_iff safe_but_def)
  moreover have "handles_ok s'" "children_ok s'" "kills_own {} [] (rt_effects s')"
    using assms by (auto simp: safe_but_def handles_ok_def children_ok_def calm_step_def kills_own_append_quiet)
  ultimately show ?thesis by (simp add: safe_but_def)
qed

lemma safe_mono: "safe_but P s \<Longrightarrow> P \<subseteq> Q \<Longrightarrow> safe_but Q s"
  by (auto simp: safe_but_def accounted_iff)

lemma safe_crashed: "safe_but P s \<Longrightarrow> crashed s \<Longrightarrow> safe s"
  by (simp add: safe_but_def accounted_iff)

lemma safe_exited: "safe_but P s \<Longrightarrow> (\<And>c. c \<in> P \<Longrightarrow> Exited c \<in> set (rt_effects s)) \<Longrightarrow> safe s"
  by (auto simp: safe_but_def accounted_iff)

section \<open>Steps on the maps and on the history\<close>

lemma owned_in: "owned k s = Some mc \<Longrightarrow> (k, mc) \<in> set (rt_children s)"
  by (simp add: owned_def bt_get_Some_in)

lemma owned_None: "owned k s = None \<longleftrightarrow> k \<notin> fst ` set (rt_children s)"
  by (simp add: owned_def bt_get_None_iff)

lemma not_uncertain: "\<not> is_uncertain k s \<longleftrightarrow> k \<notin> fst ` set (rt_uncertain s)"
  by (simp add: is_uncertain_def bt_get_None_iff)

lemma set_bt_remove: "set (bt_remove k m) = {x \<in> set m. fst x \<noteq> k}"
  by (auto simp: bt_remove_def)

lemma safe_change:
  assumes "safe_but P s" and "rt_effects s' = rt_effects s" and "handles_ok s'" and "children_ok s'"
    and "\<And>c. c \<in> P \<or> held c s \<Longrightarrow> c \<in> Q \<or> held c s' \<or> Exited c \<in> set (rt_effects s)"
  shows "safe_but Q s'"
proof -
  have "accounted Q s'"
    unfolding accounted_iff assms(2) crashed_def
    using assms(1,5) by (metis accounted_iff crashed_def safe_but_def)
  with assms show ?thesis by (simp add: safe_but_def)
qed

lemma handlesD:
  assumes "handles_ok s"
  shows "bt_wf (rt_children s)" and "bt_wf (rt_uncertain s)"
    and "k \<in> fst ` set (rt_children s) \<Longrightarrow> k \<notin> fst ` set (rt_uncertain s)"
  using assms by (auto simp: handles_ok_def)

lemma safe_handles: "safe_but P s \<Longrightarrow> handles_ok s"
  by (simp add: safe_but_def)

lemma childrenD:
  assumes "safe_but P s" and "owned k s = Some mc"
  shows "Spawned (mc_alias mc) (mc_child mc) \<in> set (rt_effects s)"
    and "mc_session mc = Some w \<Longrightarrow> w = ch_pid (mc_child mc)"
  using assms owned_in by (fastforce simp: safe_but_def children_ok_def)+

lemma only_entry: "bt_wf m \<Longrightarrow> bt_get m k = Some v \<Longrightarrow> (k, v') \<in> set m \<Longrightarrow> v' = v"
  by (simp flip: bt_get_in_iff)

lemma safe_remove:
  assumes "safe_but P s" and "owned k s = Some mc"
  shows "safe_but (insert (mc_child mc) P) (s\<lparr>rt_children := bt_remove k (rt_children s)\<rparr>)"
proof (rule safe_change [OF assms(1)])
  note h = handlesD [OF safe_handles [OF assms(1)]]
  show "handles_ok (s\<lparr>rt_children := bt_remove k (rt_children s)\<rparr>)"
    using safe_handles [OF assms(1)] by (auto simp: handles_ok_def bt_wf_remove set_bt_remove)
  show "children_ok (s\<lparr>rt_children := bt_remove k (rt_children s)\<rparr>)"
    using assms(1) by (auto simp: safe_but_def children_ok_def set_bt_remove)
  fix c assume "c \<in> P \<or> held c s"
  moreover have "v' = mc" if "(k, v') \<in> set (rt_children s)" for v'
    using only_entry [OF h(1) _ that] assms(2) by (simp add: owned_def)
  ultimately show "c \<in> insert (mc_child mc) P \<or> held c (s\<lparr>rt_children := bt_remove k (rt_children s)\<rparr>)
      \<or> Exited c \<in> set (rt_effects s)"
    by (fastforce simp: held_def set_bt_remove image_iff)
qed simp

lemma removed:
  "owned k (s\<lparr>rt_children := bt_remove k (rt_children s)\<rparr>) = None"
  "handles_ok s \<Longrightarrow> owned k s = Some mc \<Longrightarrow> \<not> is_uncertain k (s\<lparr>rt_children := bt_remove k (rt_children s)\<rparr>)"
proof -
  show "owned k (s\<lparr>rt_children := bt_remove k (rt_children s)\<rparr>) = None"
    by (simp add: owned_def bt_get_remove)
  assume "handles_ok s" "owned k s = Some mc"
  then have "k \<notin> fst ` set (rt_uncertain s)"
    by (metis fst_conv handlesD(3) imageI owned_in)
  then show "\<not> is_uncertain k (s\<lparr>rt_children := bt_remove k (rt_children s)\<rparr>)" by (simp add: not_uncertain)
qed

lemma fresh_insert: "bt_wf m \<Longrightarrow> k \<notin> fst ` set m \<Longrightarrow> set (bt_insert k v m) = insert (k, v) (set m)"
  by (force simp: set_bt_insert image_iff)

lemma safe_set_aside:
  assumes "safe_but P s" and "owned k s = None" and "\<not> is_uncertain k s"
  shows "safe_but (P - {c}) (s\<lparr>rt_uncertain := bt_insert k c (rt_uncertain s)\<rparr>)"
proof (rule safe_change [OF assms(1)])
  note h = handlesD [OF safe_handles [OF assms(1)]]
  have new: "set (bt_insert k c (rt_uncertain s)) = insert (k, c) (set (rt_uncertain s))"
    using assms(3) h(2) by (simp add: fresh_insert not_uncertain)
  show "handles_ok (s\<lparr>rt_uncertain := bt_insert k c (rt_uncertain s)\<rparr>)"
    using safe_handles [OF assms(1)] assms(2) by (auto simp: handles_ok_def bt_wf_insert new owned_None)
  show "children_ok (s\<lparr>rt_uncertain := bt_insert k c (rt_uncertain s)\<rparr>)"
    using assms(1) by (auto simp: safe_but_def children_ok_def)
  show "x \<in> P - {c} \<or> held x (s\<lparr>rt_uncertain := bt_insert k c (rt_uncertain s)\<rparr>) \<or> Exited x \<in> set (rt_effects s)"
    if "x \<in> P \<or> held x s" for x
    using that by (auto simp: held_def new)
qed simp

lemma safe_forget:
  assumes "safe s" and "bt_get (rt_uncertain s) k = Some c" and "Exited c \<in> set (rt_effects s)"
  shows "safe (s\<lparr>rt_uncertain := bt_remove k (rt_uncertain s)\<rparr>)"
proof (rule safe_change [OF assms(1)])
  note h = handlesD [OF safe_handles [OF assms(1)]]
  show "handles_ok (s\<lparr>rt_uncertain := bt_remove k (rt_uncertain s)\<rparr>)"
    using safe_handles [OF assms(1)] by (auto simp: handles_ok_def bt_wf_remove set_bt_remove)
  show "children_ok (s\<lparr>rt_uncertain := bt_remove k (rt_uncertain s)\<rparr>)"
    using assms(1) by (auto simp: safe_but_def children_ok_def)
  show "x \<in> {} \<or> held x (s\<lparr>rt_uncertain := bt_remove k (rt_uncertain s)\<rparr>) \<or> Exited x \<in> set (rt_effects s)"
    if "x \<in> {} \<or> held x s" for x
    using that assms(3) only_entry [OF h(2) assms(2)] by (fastforce simp: held_def set_bt_remove image_iff)
qed simp

lemma safe_adopt:
  assumes "safe_but P s" and "owned k s = None" and "\<not> is_uncertain k s"
    and "Spawned (mc_alias mc) (mc_child mc) \<in> set (rt_effects s)" and "mc_session mc = None"
  shows "safe_but (P - {mc_child mc}) (s\<lparr>rt_children := bt_insert k mc (rt_children s)\<rparr>)"
proof (rule safe_change [OF assms(1)])
  note h = handlesD [OF safe_handles [OF assms(1)]]
  have new: "set (bt_insert k mc (rt_children s)) = insert (k, mc) (set (rt_children s))"
    using assms(2) h(1) by (simp add: fresh_insert owned_None)
  show "handles_ok (s\<lparr>rt_children := bt_insert k mc (rt_children s)\<rparr>)"
    using safe_handles [OF assms(1)] assms(3) by (auto simp: handles_ok_def bt_wf_insert new not_uncertain)
  show "children_ok (s\<lparr>rt_children := bt_insert k mc (rt_children s)\<rparr>)"
    using assms(1,4,5) by (auto simp: safe_but_def children_ok_def new)
  show "x \<in> P - {mc_child mc} \<or> held x (s\<lparr>rt_children := bt_insert k mc (rt_children s)\<rparr>)
      \<or> Exited x \<in> set (rt_effects s)" if "x \<in> P \<or> held x s" for x
    using that by (auto simp: held_def new)
qed simp

lemma set_bt_modify: "set (bt_modify k f m) = (\<lambda>e. if fst e = k then (k, f (snd e)) else e) ` set m"
  by (simp add: bt_modify_def)

lemma safe_session:
  assumes "safe s" and "\<And>mc. owned k s = Some mc \<Longrightarrow> ch_pid (mc_child mc) = pid"
  shows "safe (s\<lparr>rt_children := bt_modify k (\<lambda>mc. mc\<lparr>mc_session := Some pid\<rparr>) (rt_children s)\<rparr>)" (is "safe ?s")
proof (rule safe_change [OF assms(1)])
  note h = handlesD [OF safe_handles [OF assms(1)]]
  have keys: "fst ` set (rt_children ?s) = fst ` set (rt_children s)"
    using arg_cong [OF keys_bt_modify [of k "\<lambda>mc. mc\<lparr>mc_session := Some pid\<rparr>" "rt_children s"], of set]
    by (simp del: keys_bt_modify)
  show "handles_ok ?s"
    using safe_handles [OF assms(1)] keys by (simp add: handles_ok_def)
  have pid: "ch_pid (mc_child mc) = pid" if "(k, mc) \<in> set (rt_children s)" for mc
    using assms(2) that h(1) by (simp add: owned_def bt_get_in_iff)
  show "children_ok ?s"
    using assms(1) pid by (auto simp: safe_but_def children_ok_def set_bt_modify)
  have "(mc_child \<circ> snd) ` set (rt_children ?s) = (mc_child \<circ> snd) ` set (rt_children s)"
  proof -
    have "map (mc_child \<circ> snd) (rt_children ?s) = map (mc_child \<circ> snd) (rt_children s)"
      by (auto simp: bt_modify_def)
    then show ?thesis by (metis list.set_map)
  qed
  then show "x \<in> {} \<or> held x ?s \<or> Exited x \<in> set (rt_effects s)" if "x \<in> {} \<or> held x s" for x
    using that by (simp add: held_def)
qed simp

end
