(* ===== verification/Runtime_Triples.thy ===== *)
theory Runtime_Triples
  imports Runtime_Safety
begin

text \<open>
  Pre- and postconditions of the steps that touch a child. A triple has a postcondition for the
  result; a computation that fails or panics leaves a safe state. While a process is neither
  held nor seen to have exited, it is named in the assertions.
\<close>

section \<open>Triples\<close>

type_synonym 'w pred = "'w rt \<Rightarrow> bool"

definition triple :: "'w pred \<Rightarrow> ('w, 'a) rm \<Rightarrow> ('a \<Rightarrow> 'w pred) \<Rightarrow> bool" where
  "triple P m Q \<longleftrightarrow> (\<forall>s. P s \<longrightarrow> (case m s of (Inl _, s') \<Rightarrow> safe s' | (Inr a, s') \<Rightarrow> Q a s'))"

lemma tripleI:
  assumes "\<And>s a s'. P s \<Longrightarrow> m s = (Inr a, s') \<Longrightarrow> Q a s'"
    and "\<And>s x s'. P s \<Longrightarrow> m s = (Inl x, s') \<Longrightarrow> safe s'"
  shows "triple P m Q"
  unfolding triple_def using assms by (auto split: prod.split sum.split)

lemma triple_result: "triple P m Q \<Longrightarrow> P s \<Longrightarrow> m s = (Inr a, s') \<Longrightarrow> Q a s'"
  by (fastforce simp: triple_def)

lemma triple_failed: "triple P m Q \<Longrightarrow> P s \<Longrightarrow> m s = (Inl x, s') \<Longrightarrow> safe s'"
  by (fastforce simp: triple_def)

lemma triple_pre: "triple P m Q \<Longrightarrow> (\<And>s. P' s \<Longrightarrow> P s) \<Longrightarrow> triple P' m Q"
  by (simp add: triple_def)

lemma triple_post: "triple P m Q \<Longrightarrow> (\<And>a s. Q a s \<Longrightarrow> Q' a s) \<Longrightarrow> triple P m Q'"
  by (rule tripleI) (simp add: triple_result, rule triple_failed)

lemma triple_bind:
  assumes "triple P m Q" and "\<And>a. triple (Q a) (k a) R"
  shows "triple P (rm_bind m k) R"
proof (rule tripleI)
  fix s b s' assume "P s" and run: "rm_bind m k s = (Inr b, s')"
  obtain a s1 where m: "m s = (Inr a, s1)" and k: "k a s1 = (Inr b, s')"
    using run by (auto simp: rm_bind_def split: prod.splits sum.splits)
  show "R b s'" by (rule triple_result [OF assms(2) triple_result [OF assms(1) \<open>P s\<close> m] k])
next
  fix s x s' assume "P s" and run: "rm_bind m k s = (Inl x, s')"
  consider "m s = (Inl x, s')" | a s1 where "m s = (Inr a, s1)" "k a s1 = (Inl x, s')"
    using run by (auto simp: rm_bind_def split: prod.splits sum.splits)
  then show "safe s'"
    using triple_failed [OF assms(1) \<open>P s\<close>] triple_failed [OF assms(2) triple_result [OF assms(1) \<open>P s\<close>]] by cases blast+
qed

lemma triple_get: "(\<And>a. triple (\<lambda>s. P s \<and> f s = a) (k a) Q) \<Longrightarrow> triple P (rm_bind (rm_get f) k) Q"
  by (rule triple_bind [where Q = "\<lambda>a s. P s \<and> f s = a"]) (auto simp: triple_def rm_get_def)

lemma triple_return: "(\<And>s. P s \<Longrightarrow> Q a s) \<Longrightarrow> triple P (rm_return a) Q"
  by (simp add: triple_def rm_return_def)

lemma triple_raise: "(\<And>s. P s \<Longrightarrow> safe s) \<Longrightarrow> triple P (rm_raise x) Q"
  by (simp add: triple_def rm_raise_def)

lemma triple_lift:
  "(\<And>s. P s \<Longrightarrow> safe s) \<Longrightarrow> (\<And>a s. r = Inr a \<Longrightarrow> P s \<Longrightarrow> Q a s) \<Longrightarrow> triple P (rm_lift r) Q"
  by (cases r) (simp_all add: rm_lift_def triple_raise triple_return)

lemma triple_modify: "(\<And>s. P s \<Longrightarrow> Q () (f s)) \<Longrightarrow> triple P (rm_modify f) Q"
  by (simp add: triple_def rm_modify_def)

lemma triple_when:
  "(b \<Longrightarrow> triple P m Q) \<Longrightarrow> (\<And>s. \<not> b \<Longrightarrow> P s \<Longrightarrow> Q () s) \<Longrightarrow> triple P (rm_when b m) Q"
  by (simp add: rm_when_def triple_return)

lemma triple_attempt:
  assumes "triple P m Q"
  shows "triple P (rm_attempt m) (\<lambda>r s. case r of Inl _ \<Rightarrow> safe s | Inr a \<Rightarrow> Q a s)"
proof (rule tripleI)
  fix s r s' assume "P s" "rm_attempt m s = (Inr r, s')"
  then show "case r of Inl _ \<Rightarrow> safe s' | Inr a \<Rightarrow> Q a s'"
    using triple_result [OF assms] triple_failed [OF assms]
    by (auto simp: rm_attempt_def split: prod.splits sum.splits stop.splits)
next
  fix s x s' assume "P s" "rm_attempt m s = (Inl x, s')"
  then show "safe s'"
    using triple_failed [OF assms] by (auto simp: rm_attempt_def split: prod.splits sum.splits stop.splits)
qed

text \<open>An impossible state.\<close>

lemma triple_False: "triple (\<lambda>s. False) m Q"
  by (simp add: triple_def)

section \<open>Assertions that calm steps keep\<close>

definition stable :: "'w pred \<Rightarrow> bool" where
  "stable P \<longleftrightarrow> (\<forall>s s'. P s \<longrightarrow> calm_step s s' \<longrightarrow> P s') \<and> (\<forall>s. P s \<longrightarrow> crashed s \<longrightarrow> safe s)"

lemma stableD: "stable P \<Longrightarrow> P s \<Longrightarrow> calm_step s s' \<Longrightarrow> P s'"
  unfolding stable_def by blast

lemma stable_safe [intro]: "stable (safe_but X)"
  by (auto simp: stable_def intro: calm_safe_but safe_crashed)

lemma stable_conj: "stable P \<Longrightarrow> (\<And>s s'. A s \<Longrightarrow> calm_step s s' \<Longrightarrow> A s') \<Longrightarrow> stable (\<lambda>s. P s \<and> A s)"
  by (auto simp: stable_def)

lemma triple_calm_attempt:
  assumes "calm.keeps m" and "stable P" and "\<And>s a s'. m s = (Inr a, s') \<Longrightarrow> T a s'"
  shows "triple P (rm_attempt m) (\<lambda>r s. P s \<and> (\<forall>a. r = Inr a \<longrightarrow> T a s))"
proof (rule tripleI)
  fix s r s' assume "P s" and run: "rm_attempt m s = (Inr r, s')"
  then show "P s' \<and> (\<forall>a. r = Inr a \<longrightarrow> T a s')"
    using stableD [OF assms(2), of s s'] calm.keepsD [OF assms(1), of s _ s'] assms(3) [of s _ s']
    by (auto simp: rm_attempt_def split: prod.splits sum.splits stop.splits)
next
  fix s x s' assume "P s" and run: "rm_attempt m s = (Inl x, s')"
  then have "m s = (Inl Panic, s')"
    by (auto simp: rm_attempt_def split: prod.splits sum.splits stop.splits)
  then have "calm_step s s'" "crashed s'"
    using calm.keepsD [OF assms(1)] calm.keeps_marked [OF assms(1)] by (auto simp: marked_def)
  then show "safe s'" using \<open>P s\<close> assms(2) by (auto simp: stable_def)
qed

lemma triple_calm_result:
  assumes "calm.keeps m" and "stable P" and "\<And>s. P s \<Longrightarrow> safe s" and "\<And>s a s'. m s = (Inr a, s') \<Longrightarrow> T a s'"
  shows "triple P m (\<lambda>a s. P s \<and> T a s)"
  using assms stableD calm.keepsD by (intro tripleI) blast+

lemma triple_calm:
  assumes "calm.keeps m" and "stable P" and "\<And>s. P s \<Longrightarrow> safe s"
  shows "triple P m (\<lambda>_. P)"
  using assms stableD calm.keepsD by (intro tripleI) blast+

lemma triple_calm_try:
  assumes "calm.keeps m" and "stable P"
  shows "triple P (rm_attempt m) (\<lambda>_. P)"
  by (rule triple_post [OF triple_calm_attempt [OF assms, where T = "\<lambda>_ _. True"]]) simp_all

lemma triple_calm_ignore:
  assumes "calm.keeps m" and "stable P"
  shows "triple P (rm_ignore m) (\<lambda>_. P)"
  unfolding rm_ignore_def
  by (rule triple_bind [OF triple_calm_try [OF assms]]) (simp add: triple_return)

section \<open>The next step of a computation\<close>

lemma next_calm:
  "calm.keeps m \<Longrightarrow> stable P \<Longrightarrow> (\<And>s. P s \<Longrightarrow> safe s) \<Longrightarrow> (\<And>a. triple P (k a) Q) \<Longrightarrow> triple P (rm_bind m k) Q"
  by (rule triple_bind [OF triple_calm])

lemma next_calm_result:
  "calm.keeps m \<Longrightarrow> stable P \<Longrightarrow> (\<And>s. P s \<Longrightarrow> safe s) \<Longrightarrow> (\<And>s a s'. m s = (Inr a, s') \<Longrightarrow> T a s') \<Longrightarrow>
     (\<And>a. triple (\<lambda>s. P s \<and> T a s) (k a) Q) \<Longrightarrow> triple P (rm_bind m k) Q"
  by (rule triple_bind [OF triple_calm_result])

lemma next_try:
  "calm.keeps m \<Longrightarrow> stable P \<Longrightarrow> (\<And>r. triple P (k r) Q) \<Longrightarrow> triple P (rm_bind (rm_attempt m) k) Q"
  by (rule triple_bind [OF triple_calm_try])

lemma next_try_result:
  assumes "calm.keeps m" and "stable P" and "\<And>s a s'. m s = (Inr a, s') \<Longrightarrow> T a s'"
    and "\<And>x. triple P (k (Inl x)) Q" and "\<And>a. triple (\<lambda>s. P s \<and> T a s) (k (Inr a)) Q"
  shows "triple P (rm_bind (rm_attempt m) k) Q"
proof (rule triple_bind [OF triple_calm_attempt [OF assms(1-3)]])
  fix r
  show "triple (\<lambda>s. P s \<and> (\<forall>a. r = Inr a \<longrightarrow> T a s)) (k r) Q"
    by (cases r) (simp_all add: assms(4,5))
qed

lemma next_ignore:
  "calm.keeps m \<Longrightarrow> stable P \<Longrightarrow> triple P k Q \<Longrightarrow> triple P (rm_bind (rm_ignore m) (\<lambda>_. k)) Q"
  by (rule triple_bind [OF triple_calm_ignore])

lemma next_get: "(\<And>a. triple (\<lambda>s. P s \<and> f s = a) (k a) Q) \<Longrightarrow> triple P (rm_bind (rm_get f) k) Q"
  by (rule triple_get)

lemma next_lift:
  "(\<And>s. P s \<Longrightarrow> safe s) \<Longrightarrow> (\<And>a. r = Inr a \<Longrightarrow> triple P (k a) Q) \<Longrightarrow> triple P (rm_bind (rm_lift r) k) Q"
  by (cases r) (simp_all add: triple_def rm_lift_def rm_bind_def rm_raise_def rm_return_def)

lemma safe_panic: "safe s \<Longrightarrow> safe (s\<lparr>rt_effects := rt_effects s @ [Crashed]\<rparr>)"
  by (rule calm_safe_but [OF calm.R_panic])

lemma next_expect:
  assumes "\<And>a. x = Some a \<Longrightarrow> triple P (k a) Q" and "\<And>s. P s \<Longrightarrow> safe s"
  shows "triple P (rm_bind (rm_expect x) k) Q"
proof (cases x)
  case None
  have "safe (s\<lparr>rt_effects := rt_effects s @ [Crashed]\<rparr>)" if "P s" for s
    by (rule safe_panic [OF assms(2) [OF that]])
  then show ?thesis
    using None by (simp add: triple_def rm_expect_def rm_bind_def rm_panic_def)
next
  case (Some a)
  then show ?thesis
    using assms(1) [OF Some] by (simp add: triple_def rm_expect_def rm_bind_def rm_return_def)
qed

lemma next_step: "triple P m Q \<Longrightarrow> (\<And>a. triple (Q a) (k a) R) \<Longrightarrow> triple P (rm_bind m k) R"
  by (rule triple_bind)

lemma triple_if: "(b \<Longrightarrow> triple P m Q) \<Longrightarrow> (\<not> b \<Longrightarrow> triple P m' Q) \<Longrightarrow> triple P (if b then m else m') Q"
  by simp

end
