(* ===== verification/Runtime_Handles.thy ===== *)
theory Runtime_Handles
  imports Runtime_Triples
begin

text \<open>
  The steps that touch a child keep the state safe: quarantine, stop, validation and the two
  observations of a tick.
\<close>

section \<open>What the calls tell\<close>

definition just_listed :: "32 word list \<Rightarrow> 'w pred" where
  "just_listed ws s \<longleftrightarrow> (\<exists>xs. rt_effects s = xs @ [Listed ws])"

definition seen_exit :: "child \<Rightarrow> 'w pred" where
  "seen_exit c s \<longleftrightarrow> Exited c \<in> set (rt_effects s)"

definition started :: "child \<Rightarrow> 'w pred" where
  "started c s \<longleftrightarrow> (\<exists>n. Spawned n c \<in> set (rt_effects s))"

lemma calm_seen: "seen_exit c s \<Longrightarrow> calm_step s s' \<Longrightarrow> seen_exit c s'"
  by (simp add: seen_exit_def calm_effects)

lemma calm_started: "started c s \<Longrightarrow> calm_step s s' \<Longrightarrow> started c s'"
  by (auto simp: started_def dest: calm_effects)

lemma calm_owned_is: "owned k s = x \<Longrightarrow> calm_step s s' \<Longrightarrow> owned k s' = x"
  by (simp add: calm_owned)

lemma calm_uncertain_is: "\<not> is_uncertain k s \<Longrightarrow> calm_step s s' \<Longrightarrow> \<not> is_uncertain k s'"
  by (simp add: calm_uncertain)

lemma calm_implied: "(A \<longrightarrow> seen_exit c s) \<Longrightarrow> calm_step s s' \<Longrightarrow> A \<longrightarrow> seen_exit c s'"
  by (blast intro: calm_seen)

lemma calm_pure: "b \<Longrightarrow> calm_step s s' \<Longrightarrow> b"
  by simp

lemmas stable_rules = stable_safe stable_conj calm_seen calm_started calm_owned_is calm_uncertain_is

lemma sessions_listed: "engine_sessions e s = (Inr ws, s') \<Longrightarrow> just_listed ws s'"
  by (auto simp: engine_sessions_def rm_bind_def rm_get_def rm_lift_def rm_effect_def rm_modify_def rm_return_def
      rm_raise_def just_listed_def split: prod.splits sum.splits)

lemma try_wait_seen: "try_wait e c s = (Inr x, s') \<Longrightarrow> x \<noteq> None \<longrightarrow> seen_exit c s'"
  by (auto simp: try_wait_def rm_bind_def rm_call_def rm_effect_def rm_modify_def rm_return_def
      rm_raise_def seen_exit_def split: prod.splits sum.splits option.splits)

lemma wait_loop_seen: "wait_loop e c deadline s = (Inr st, s') \<Longrightarrow> seen_exit c s'"
proof (induction e c deadline s rule: wait_loop.induct)
  case (1 e c deadline s)
  then show ?case
    by (subst (asm) wait_loop.simps [of e c deadline s])
      (auto dest: try_wait_seen split: prod.splits sum.splits option.splits if_splits)
qed

lemma wait_seen: "wait_for_exit e c t s = (Inr st, s') \<Longrightarrow> seen_exit c s'"
  by (auto simp: wait_for_exit_def rm_bind_def rm_get_def intro: wait_loop_seen)

section \<open>Kill\<close>

lemma safe_kill:
  assumes "safe_but P s" and "just_listed ws s" and "w \<in> set ws" and "started c s" and "ch_pid c = w"
  shows "safe_but P (s\<lparr>rt_effects := rt_effects s @ [Killed w]\<rparr>)" (is "safe_but P ?s")
proof -
  obtain xs where xs: "rt_effects s = xs @ [Listed ws]" using assms(2) by (auto simp: just_listed_def)
  have "kills_own {} [] (rt_effects ?s)"
    using assms xs kills_own_append_quiet [of "[Listed ws]" "{}" "[]" xs]
    by (auto simp: safe_but_def kills_own_killed started_def)
  moreover have "accounted P ?s"
    using assms(1) by (auto simp: safe_but_def accounted_iff held_def)
  ultimately show ?thesis
    using assms(1) by (auto simp: safe_but_def handles_ok_def children_ok_def)
qed

definition kill_command :: "'w env \<Rightarrow> 32 word \<Rightarrow> engine \<Rightarrow> ('w, unit) rm" where
  "kill_command e w g = rm_bind (rm_call (ev_engine e (kill_invocation g w))) (\<lambda>r. rm_lift (map_err RtEngine (kill_result r)))"

lemma engine_kill_command:
  "engine_kill e w s = kill_command e w (rt_engine s) (s\<lparr>rt_effects := rt_effects s @ [Killed w]\<rparr>)"
  by (simp add: engine_kill_def kill_command_def rm_bind_def rm_get_def rm_effect_def rm_modify_def)

lemma calm_kill_command: "calm.keeps (kill_command e w g)"
  unfolding kill_command_def by (intro calm.calm_rules)

definition may_kill :: "32 word list \<Rightarrow> child \<Rightarrow> 32 word \<Rightarrow> 'w pred" where
  "may_kill ws c w s \<longleftrightarrow> just_listed ws s \<and> w \<in> set ws \<and> started c s \<and> ch_pid c = w"

lemma triple_kill:
  assumes "\<And>s s'. A s \<Longrightarrow> calm_step s s' \<Longrightarrow> A s'" and "\<And>s. A s \<Longrightarrow> A (s\<lparr>rt_effects := rt_effects s @ [Killed w]\<rparr>)"
  shows "triple (\<lambda>s. (safe_but P s \<and> A s) \<and> may_kill ws c w s) (rm_attempt (engine_kill e w)) (\<lambda>_ s. safe_but P s \<and> A s)"
proof -
  have "stable (\<lambda>s. safe_but P s \<and> A s)" by (rule stable_conj [OF stable_safe assms(1)])
  then have rest: "triple (\<lambda>s. safe_but P s \<and> A s) (rm_attempt (kill_command e w g)) (\<lambda>_ s. safe_but P s \<and> A s)" for g
    by (rule triple_calm_try [OF calm_kill_command])
  have after: "safe_but P (s\<lparr>rt_effects := rt_effects s @ [Killed w]\<rparr>) \<and> A (s\<lparr>rt_effects := rt_effects s @ [Killed w]\<rparr>)"
    if "(safe_but P s \<and> A s) \<and> may_kill ws c w s" for s
    using that assms(2) [of s] safe_kill [of P s ws w c] by (simp add: may_kill_def)
  have run: "rm_attempt (engine_kill e w) s =
      rm_attempt (kill_command e w (rt_engine s)) (s\<lparr>rt_effects := rt_effects s @ [Killed w]\<rparr>)" for s
    by (simp add: rm_attempt_def engine_kill_command)
  show ?thesis
    by (rule tripleI) (simp only: run, erule triple_result [OF rest after] triple_failed [OF rest after], assumption)+
qed

lemma triple_of_attempt:
  assumes t: "triple P (rm_attempt m) (\<lambda>_. Q)" and "\<And>s. Q s \<Longrightarrow> safe s"
  shows "triple P m (\<lambda>_. Q)"
proof (rule tripleI)
  fix s a s' assume "P s" "m s = (Inr a, s')"
  then have "rm_attempt m s = (Inr (Inr a), s')" by (simp add: rm_attempt_def)
  then show "Q s'" using triple_result [OF t \<open>P s\<close>] by blast
next
  fix s x s' assume "P s" "m s = (Inl x, s')"
  then have "rm_attempt m s = ((case x of Panic \<Rightarrow> Inl Panic | Raise y \<Rightarrow> Inr (Inl y)), s')"
    by (simp add: rm_attempt_def split: stop.split)
  then show "safe s'" using triple_result [OF t \<open>P s\<close>] triple_failed [OF t \<open>P s\<close>] assms(2) by (cases x) auto
qed

section \<open>Quarantine and stop\<close>

definition free_key :: "service_key \<Rightarrow> 'w pred" where
  "free_key k s \<longleftrightarrow> owned k s = None \<and> \<not> is_uncertain k s"

lemma calm_free: "free_key k s \<Longrightarrow> calm_step s s' \<Longrightarrow> free_key k s'"
  by (simp add: free_key_def calm_owned calm_uncertain)

lemma triple_remove:
  "triple (\<lambda>s. safe_but P s \<and> owned k s = Some mc) (remove_child k)
     (\<lambda>_ s. safe_but (insert (mc_child mc) P) s \<and> free_key k s)"
  unfolding remove_child_def free_key_def
proof (rule triple_modify, elim conjE, intro conjI)
  fix s assume s: "safe_but P s" "owned k s = Some mc"
  show "safe_but (insert (mc_child mc) P) (s\<lparr>rt_children := bt_remove k (rt_children s)\<rparr>)"
    by (rule safe_remove [OF s])
  show "\<not> is_uncertain k (s\<lparr>rt_children := bt_remove k (rt_children s)\<rparr>)"
    by (rule removed(2) [OF safe_handles [OF s(1)] s(2)])
qed (rule removed(1))

lemma triple_remove_seen:
  "triple (\<lambda>s. safe s \<and> (owned k s = Some mc \<and> seen_exit (mc_child mc) s)) (remove_child k) (\<lambda>_. safe)"
  unfolding remove_child_def
proof (rule triple_modify, elim conjE)
  fix s assume s: "safe s" "owned k s = Some mc" "seen_exit (mc_child mc) s"
  show "safe (s\<lparr>rt_children := bt_remove k (rt_children s)\<rparr>)"
    by (rule safe_exited [OF safe_remove [OF s(1,2)]]) (use s(3) in \<open>simp add: seen_exit_def\<close>)
qed

lemma triple_set_aside:
  "triple (\<lambda>s. safe_but {c} s \<and> free_key k s) (insert_uncertain k c) (\<lambda>_. safe)"
  unfolding insert_uncertain_def free_key_def
proof (rule triple_modify, elim conjE)
  fix s assume "safe_but {c} s" "owned k s = None" "\<not> is_uncertain k s"
  then show "safe (s\<lparr>rt_uncertain := bt_insert k c (rt_uncertain s)\<rparr>)"
    using safe_set_aside [of "{c}" s k c] by simp
qed

lemma stable_free: "stable (\<lambda>s. safe_but P s \<and> free_key k s)"
  by (rule stable_conj [OF stable_safe calm_free])

lemma triple_quarantine: "triple safe (quarantine_managed_child e k) (\<lambda>_. safe)"
  unfolding quarantine_managed_child_def
proof (rule triple_get)
  fix found
  show "triple (\<lambda>s. safe s \<and> owned k s = found) (case found of None \<Rightarrow> rm_return () | Some mc \<Rightarrow>
      rm_bind (remove_child k) (\<lambda>_. rm_bind (rm_ignore (mark_unknown e k)) (\<lambda>_. insert_uncertain k (mc_child mc)))) (\<lambda>_. safe)"
  proof (cases found)
    case (Some mc)
    have "triple (\<lambda>s. safe_but {mc_child mc} s \<and> free_key k s)
        (rm_bind (rm_ignore (mark_unknown e k)) (\<lambda>_. insert_uncertain k (mc_child mc))) (\<lambda>_. safe)"
      by (rule triple_bind [OF triple_calm_ignore [OF calm.keeps_mark_unknown stable_free] triple_set_aside])
    then show ?thesis
      using triple_bind [OF triple_remove [of "{}" k mc]] Some by simp
  qed (simp, rule triple_return, simp)
qed

definition owned_is :: "service_key \<Rightarrow> managed_child \<Rightarrow> 'w pred" where
  "owned_is k mc s \<longleftrightarrow> safe s \<and> owned k s = Some mc"

lemma stable_owned: "stable (owned_is k mc)"
  unfolding owned_is_def by (rule stable_conj [OF stable_safe calm_owned_is])

lemma owned_safe: "owned_is k mc s \<Longrightarrow> safe s"
  by (simp add: owned_is_def)

lemma triple_stop: "triple safe (stop_owned_child e k) (\<lambda>_. safe)"
  unfolding stop_owned_child_def
proof (rule next_calm [OF calm.keeps_identity stable_safe], assumption, rule next_get, rule next_lift, simp)
  fix identity found and mc :: managed_child
  assume "ok_or IdentityChanged found = Inr mc"
  then have found: "found = Some mc" by (cases found) (simp_all add: ok_or_def)
  have kill: "triple (\<lambda>s. owned_is k mc s \<and> just_listed ws s)
     (rm_bind (engine_kill e session) (\<lambda>_. rm_bind (wait_for_exit e (mc_child mc) STOP_TIMEOUT) (\<lambda>st.
       rm_bind (remove_child k) (\<lambda>_. rm_return st)))) (\<lambda>_. safe)"
    if "mc_session mc = Some session" "session \<in> set ws" for session ws
  proof (rule next_step [where Q = "\<lambda>_. owned_is k mc"])
    show "triple (\<lambda>s. owned_is k mc s \<and> just_listed ws s) (engine_kill e session) (\<lambda>_. owned_is k mc)"
      unfolding owned_is_def
    proof (rule triple_pre [OF triple_of_attempt [OF triple_kill [where A = "\<lambda>s. owned k s = Some mc"
        and P = "{}" and ws = ws and c = "mc_child mc"]]])
      fix s assume "(safe s \<and> owned k s = Some mc) \<and> just_listed ws s"
      with that show "(safe s \<and> owned k s = Some mc) \<and> may_kill ws (mc_child mc) session s"
        by (auto simp: may_kill_def started_def dest: childrenD)
    qed (auto simp: owned_def calm_step_def)
    show "triple (owned_is k mc) (rm_bind (wait_for_exit e (mc_child mc) STOP_TIMEOUT) (\<lambda>st.
        rm_bind (remove_child k) (\<lambda>_. rm_return st))) (\<lambda>_. safe)"
      by (rule next_calm_result [OF calm.keeps_wait stable_owned owned_safe wait_seen], assumption, assumption)
       (rule next_step [OF triple_pre [OF triple_remove_seen]], auto simp: owned_is_def intro: triple_return)
  qed
  show "triple (\<lambda>s. safe s \<and> owned k s = found) (rm_bind (rm_lift (ok_or SessionUnknown (mc_session mc))) (\<lambda>session.
      rm_bind (read_boot_id e) (\<lambda>boot.
      rm_bind (read_starttime e (ch_pid (mc_child mc))) (\<lambda>starttime.
      rm_bind (engine_sessions e) (\<lambda>sessions.
      if \<not> same_identity identity mc session boot starttime sessions then rm_raise IdentityChanged
      else rm_bind (engine_kill e session) (\<lambda>_.
        rm_bind (wait_for_exit e (mc_child mc) STOP_TIMEOUT) (\<lambda>st.
        rm_bind (remove_child k) (\<lambda>_. rm_return st)))))))) (\<lambda>_. safe)"
    unfolding found owned_is_def [symmetric]
    apply (rule next_lift, erule owned_safe)
    apply (rule next_calm [OF calm.keeps_boot_id stable_owned owned_safe], assumption)
    apply (rule next_calm [OF calm.keeps_starttime stable_owned owned_safe], assumption)
    apply (rule next_calm_result [OF calm.keeps_sessions stable_owned owned_safe sessions_listed], assumption, assumption)
    apply (rule triple_if)
     apply (rule triple_raise, simp add: owned_is_def)
    apply (rule kill)
     apply (auto simp: ok_or_def same_identity_def split: option.splits)
    done
qed


section \<open>Observations\<close>

lemma next_remove_seen:
  assumes "triple safe m Q"
  shows "triple (\<lambda>s. owned_is k mc s \<and> seen_exit (mc_child mc) s) (rm_bind (remove_child k) (\<lambda>_. m)) Q"
  by (rule next_step [OF triple_pre [OF triple_remove_seen [where k = k and mc = mc]] assms]) (simp add: owned_is_def)

lemma stable_seen: "stable (\<lambda>s. owned_is k mc s \<and> seen_exit c s)"
  by (rule stable_conj [OF stable_owned calm_seen])

lemma triple_ambiguity:
  "triple (\<lambda>s. owned_is k mc s \<and> seen_exit c s)
     (case mc_session mc of Some session \<Rightarrow> registry_ambiguous e session | None \<Rightarrow> rm_return True)
     (\<lambda>_ s. owned_is k mc s \<and> seen_exit c s)"
  by (rule triple_calm [OF _ stable_seen]) (auto simp: owned_is_def intro: calm.keeps_option calm.keeps_return calm.keeps_ambiguous)

lemma triple_observed:
  "triple (\<lambda>s. owned_is k mc s \<and> seen_exit (mc_child mc) s) (observed_exit e k mc st) Q"
proof -
  have "triple safe (if es_signal st \<noteq> None \<or> a then rm_bind (rm_ignore (mark_unknown e k)) (\<lambda>_. rm_raise IdentityChanged)
      else rm_bind (store_call e (record_exit (fst k) (snd k) (es_code st) (es_signal st))) (\<lambda>_.
        rm_bind (rm_when (should_restart (mc_restart mc) st) (schedule_restart_after_exit e k mc)) (\<lambda>_.
        rm_raise x))) Q" for a x
    by (intro triple_if next_ignore next_calm calm.calm_rules journaled_operations stable_safe triple_raise) assumption+
  then show ?thesis
    unfolding observed_exit_def exit_parts_def Let_def prod.case
    by (rule next_step [OF triple_ambiguity next_remove_seen])
qed

lemma next_poll:
  assumes "stable P" and "\<And>x. triple P (f x) Q" and "triple P n Q" and "\<And>st. triple (\<lambda>s. P s \<and> seen_exit c s) (g st) Q"
  shows "triple P (rm_bind (rm_attempt (try_wait e c)) (\<lambda>r.
    case r of Inl x \<Rightarrow> f x | Inr y \<Rightarrow> (case y of None \<Rightarrow> n | Some st \<Rightarrow> g st))) Q"
  by (rule next_try_result [OF calm.keeps_try_wait assms(1) try_wait_seen], assumption)
    (use assms(2-4) in \<open>simp_all split: option.split\<close>)

lemma triple_lost: "triple (owned_is k mc) (rm_bind (quarantine_managed_child e k) (\<lambda>_. rm_raise x)) Q"
  by (rule next_step [OF triple_pre [OF triple_quarantine owned_safe]]) (simp_all add: triple_raise)

lemma triple_alive:
  "triple (owned_is k mc) (rm_bind (rm_attempt (revalidate e k mc)) (\<lambda>validation.
     rm_bind (rm_when (\<not> is_ok validation) (quarantine_managed_child e k)) (\<lambda>_. rm_lift validation))) (\<lambda>_. safe)"
  by (rule next_try [OF calm.keeps_revalidate stable_owned], rule next_step [where Q = "\<lambda>_. safe"], rule triple_when)
    (auto intro: triple_pre [OF triple_quarantine owned_safe] owned_safe triple_lift)

lemma found_owned: "ok_or x found = Inr mc \<Longrightarrow> safe s \<Longrightarrow> owned k s = found \<Longrightarrow> owned_is k mc s"
  by (cases found) (simp_all add: ok_or_def owned_is_def)

lemma triple_validate: "triple safe (validate_owned_service_running e k) (\<lambda>_. safe)"
  unfolding validate_owned_service_running_def
  apply (rule next_get, rule triple_if, rule triple_raise, simp)
  apply (rule next_get, rule next_lift, simp)
  subgoal premises found for uncertain child mc
    by (rule triple_pre [OF next_poll [OF stable_owned triple_lost triple_alive triple_observed]])
      (auto intro: found_owned [OF found(2)])
  done

lemma triple_exit_observed:
  "triple (\<lambda>s. owned_is k mc s \<and> seen_exit (mc_child mc) s)
     (if b then rm_bind (rm_attempt (mark_unknown e k)) (\<lambda>marked. rm_when (is_ok marked) (remove_child k))
      else rm_bind (rm_attempt (store_call e (record_exit (fst k) (snd k) code signal))) (\<lambda>recorded.
        rm_when (is_ok recorded) (rm_bind (remove_child k) (\<lambda>_.
          rm_when again (rm_ignore (schedule_restart_after_exit e k mc)))))) (\<lambda>_. safe)"
proof -
  have "triple safe (rm_when again (rm_ignore (schedule_restart_after_exit e k mc))) (\<lambda>_. safe)"
    by (rule triple_when [OF triple_calm_ignore [OF calm.keeps_schedule_after_exit stable_safe]])
  then have after: "triple (\<lambda>s. owned_is k mc s \<and> seen_exit (mc_child mc) s) (rm_bind (remove_child k) (\<lambda>_.
      rm_when again (rm_ignore (schedule_restart_after_exit e k mc)))) (\<lambda>_. safe)"
    by (rule next_remove_seen)
  have removed: "triple (\<lambda>s. owned_is k mc s \<and> seen_exit (mc_child mc) s) (remove_child k) (\<lambda>_. safe)"
    by (rule triple_pre [OF triple_remove_seen [where k = k and mc = mc]]) (simp add: owned_is_def)
  show ?thesis
    by (intro triple_if next_try [OF _ stable_seen] triple_when removed after calm.keeps_mark_unknown
        calm.keeps_store_call journaled_operations) (simp_all add: owned_is_def)
qed

lemma triple_tick_child: "triple safe (tick_child e k) (\<lambda>_. safe)"
  unfolding tick_child_def exit_parts_def Let_def prod.case
  apply (rule next_get, rule next_expect)
   subgoal for found mc
     by (rule triple_pre [where P = "owned_is k mc"],
         rule next_poll [OF stable_owned triple_post [OF triple_calm_ignore [OF calm.keeps_mark_unknown stable_owned]]
           triple_return next_step [OF triple_ambiguity triple_exit_observed]])
       (simp_all add: owned_is_def)
  apply simp
  done

lemma triple_tick_uncertain: "triple safe (tick_uncertain e k) (\<lambda>_. safe)"
proof -
  let ?P = "\<lambda>c s. safe s \<and> bt_get (rt_uncertain s) k = Some c"
  have st: "stable (?P c)" for c
    by (rule stable_conj [OF stable_safe]) (simp add: calm_step_def)
  have forget: "triple (\<lambda>s. ?P c s \<and> seen_exit c s) (remove_uncertain k) (\<lambda>_. safe)" for c
    unfolding remove_uncertain_def by (rule triple_modify) (auto simp: seen_exit_def intro: safe_forget)
  show ?thesis
    unfolding tick_uncertain_def
    apply (rule next_get, rule next_expect)
     subgoal for found c
       by (rule triple_pre [where P = "?P c"], rule next_poll [OF st triple_return triple_return forget]) simp_all
    apply simp
    done
qed

end
