(* ===== verification/Runtime_Spawn.thy ===== *)
theory Runtime_Spawn
  imports Runtime_Handles
begin

text \<open>
  Spawning keeps the state safe: from the moment the process exists until it is an owned child it
  is contained, or kept aside with its handle.
\<close>

section \<open>A process without an owner\<close>

definition loose :: "service_key \<Rightarrow> string \<Rightarrow> child \<Rightarrow> 'w pred" where
  "loose k n c s \<longleftrightarrow> safe_but {c} s \<and> free_key k s \<and> Spawned n c \<in> set (rt_effects s)"

lemma stable_loose: "stable (loose k n c)"
  unfolding loose_def by (rule stable_conj [OF stable_safe]) (auto intro: calm_free calm_effects)

lemma loose_seen: "loose k n c s \<Longrightarrow> seen_exit c s \<Longrightarrow> safe s"
  by (auto simp: loose_def seen_exit_def intro: safe_exited)

lemma triple_snd: "triple P m (\<lambda>_. safe) \<longleftrightarrow> (\<forall>s. P s \<longrightarrow> safe (snd (m s)))"
  by (simp add: triple_def split_beta split: sum.split)

definition drained_or_loose :: "service_key \<Rightarrow> string \<Rightarrow> child \<Rightarrow> bool \<Rightarrow> 'w pred" where
  "drained_or_loose k n c drained s \<longleftrightarrow> (if drained then safe s else loose k n c s)"

lemma triple_contain_step:
  "triple (loose k n c) (contain_step e c) (drained_or_loose k n c)"
proof -
  have wait: "triple (loose k n c) (rm_bind (rm_attempt (wait_for_exit e c STOP_TIMEOUT)) (\<lambda>st. rm_return (is_ok st))) (drained_or_loose k n c)"
    by (rule next_try_result [OF calm.keeps_wait stable_loose wait_seen]) (auto intro!: triple_return intro: loose_seen simp: drained_or_loose_def)
  have kill: "triple (\<lambda>s. loose k n c s \<and> just_listed ws s) (rm_attempt (engine_kill e (ch_pid c))) (\<lambda>_. loose k n c)"
    if "ch_pid c \<in> set ws" for ws
    by (rule triple_pre [OF triple_post [OF triple_kill [where A = "\<lambda>s. free_key k s \<and> Spawned n c \<in> set (rt_effects s)"
            and P = "{c}" and ws = ws and c = c]]])
      (use that in \<open>auto simp: loose_def may_kill_def started_def free_key_def owned_def is_uncertain_def calm_step_def\<close>)
  have rest: "triple (loose k n c) (rm_bind (rm_attempt (engine_sessions e)) (\<lambda>ws.
      if (case ws of Inl _ \<Rightarrow> False | Inr ws \<Rightarrow> ch_pid c \<in> set ws) then
        rm_bind (rm_attempt (engine_kill e (ch_pid c))) (\<lambda>killed.
        if is_ok killed then rm_bind (rm_attempt (wait_for_exit e c STOP_TIMEOUT)) (\<lambda>st. rm_return (is_ok st))
        else rm_return False)
      else rm_return False)) (drained_or_loose k n c)"
    by (rule next_try_result [OF calm.keeps_sessions stable_loose sessions_listed], assumption)
      (auto intro!: triple_return triple_if next_step [OF kill] wait simp: drained_or_loose_def)
  show ?thesis
    unfolding contain_step_def
    by (rule next_poll [OF stable_loose rest rest triple_return]) (auto intro: loose_seen simp: drained_or_loose_def)
qed

lemma triple_contain_loop: "loose k n c s \<Longrightarrow> safe (snd (contain_loop e k c deadline s))"
proof (induction e k c deadline s rule: contain_loop.induct)
  case (1 e k c deadline s)
  obtain r s1 where t: "contain_step e c s = (r, s1)" by fastforce
  have slept: "loose k n c (snd (sleep_ms e 50 s1))" if "loose k n c s1"
    by (rule stableD [OF stable_loose that calm.keeps_snd [OF calm.keeps_sleep]])
  have aside: "safe (snd (rm_bind (insert_uncertain k c) (\<lambda>_. rm_return False) s1))" if "loose k n c s1"
  proof -
    have "triple (\<lambda>s. safe_but {c} s \<and> free_key k s) (rm_bind (insert_uncertain k c) (\<lambda>_. rm_return False)) (\<lambda>_. safe)"
      by (rule next_step [OF triple_set_aside triple_return])
    with that show ?thesis by (auto simp: triple_snd loose_def)
  qed
  show ?case
  proof (cases r)
    case (Inl x)
    then have "safe s1" using triple_failed [OF triple_contain_step "1.prems"] t by simp
    with t Inl show ?thesis by (simp add: contain_loop.simps [of e k c deadline s])
  next
    case (Inr drained)
    then have post: "if drained then safe s1 else loose k n c s1"
      using triple_result [OF triple_contain_step "1.prems"] t by (simp add: drained_or_loose_def)
    show ?thesis
      using "1.IH" [OF t [symmetric] Inr] t Inr post slept aside
      by (cases drained; cases "deadline \<le> rt_now s1") (simp_all add: contain_loop.simps [of e k c deadline s])
  qed
qed

lemma triple_contain: "triple (loose k n c) (contain_unqualified_child e k c) (\<lambda>_. safe)"
  unfolding contain_unqualified_child_def
  by (rule next_get, rule triple_pre [where P = "loose k n c"]) (simp_all add: triple_snd triple_contain_loop)

lemma triple_contain_fail: "triple (loose k n c) (contain_and_fail e k c t x) Q"
  unfolding contain_and_fail_def by (rule next_step [OF triple_contain triple_raise])

section \<open>The child of a key\<close>

definition child_of :: "service_key \<Rightarrow> child \<Rightarrow> 'w pred" where
  "child_of k c s \<longleftrightarrow> safe s \<and> (\<forall>mc. owned k s = Some mc \<longrightarrow> mc_child mc = c)"

lemma stable_child_of: "stable (child_of k c)"
  unfolding child_of_def by (rule stable_conj [OF stable_safe]) (simp add: calm_owned)

lemma child_of_safe: "child_of k c s \<Longrightarrow> safe s"
  by (simp add: child_of_def)

lemma triple_adopt: "triple (loose k n c) (adopt_child e v n j k c) (\<lambda>_. child_of k c)"
proof -
  have insert: "triple (loose k n c) (insert_child k \<lparr>mc_child = c, mc_alias = n, mc_generation = g,
      mc_starttime = t, mc_boot = b, mc_session = None, mc_restart = r, mc_started = now\<rparr>) (\<lambda>_. child_of k c)"
    for g t b r now
    unfolding insert_child_def
  proof (rule triple_modify)
    fix s let ?mc = "\<lparr>mc_child = c, mc_alias = n, mc_generation = g,
      mc_starttime = t, mc_boot = b, mc_session = None, mc_restart = r, mc_started = now\<rparr>"
    assume s: "loose k n c s"
    then have "safe_but ({c} - {c}) (s\<lparr>rt_children := bt_insert k ?mc (rt_children s)\<rparr>)"
      using safe_adopt [of "{c}" s k ?mc] by (simp add: loose_def free_key_def)
    with s show "child_of k c (s\<lparr>rt_children := bt_insert k ?mc (rt_children s)\<rparr>)"
      by (simp add: child_of_def owned_def loose_def bt_get_insert [OF handlesD(1) [OF safe_handles [of "{c}" s]]])
  qed
  show ?thesis
    unfolding adopt_child_def
    apply (rule next_try [OF calm.keeps_starttime stable_loose])
    subgoal for r1
      apply (cases r1, simp add: triple_contain_fail, simp)
      apply (rule next_try [OF calm.keeps_boot_id stable_loose])
      subgoal for t r2
        apply (cases r2, simp add: triple_contain_fail, simp)
        apply (rule next_try [OF calm.keeps_journal_starting stable_loose])
        subgoal for b r3
          apply (cases r3, simp add: triple_contain_fail, simp)
          apply (rule next_try [OF calm.keeps_identity stable_loose])
          subgoal for r4
            apply (cases r4, simp add: triple_contain_fail, simp)
            apply (intro conjI impI)
             apply (rule next_step [OF triple_contain triple_raise], assumption)
            apply (rule next_get, rule triple_pre [OF insert], simp)
            done
          done
        done
      done
    done
qed

lemma map_err_result: "rm_map_err f m s = (Inr a, s') \<Longrightarrow> m s = (Inr a, s')"
  by (auto simp: rm_map_err_def rm_bind_def rm_attempt_def rm_lift_def rm_return_def rm_raise_def map_err_def
      split: prod.splits sum.splits stop.splits)

lemma next_poll_err:
  assumes "stable P" and "\<And>s. P s \<Longrightarrow> safe s" and "triple P n Q" and "\<And>st. triple (\<lambda>s. P s \<and> seen_exit c s) (g st) Q"
  shows "triple P (rm_bind (rm_map_err f (try_wait e c)) (\<lambda>r. case r of None \<Rightarrow> n | Some st \<Rightarrow> g st)) Q"
proof -
  have seen: "x \<noteq> None \<longrightarrow> seen_exit c s'" if "rm_map_err f (try_wait e c) s = (Inr x, s')" for s x s'
    by (rule try_wait_seen [OF map_err_result [OF that]])
  show ?thesis
    by (rule next_calm_result [where T = "\<lambda>x s. x \<noteq> None \<longrightarrow> seen_exit c s",
          OF calm.keeps_map_err [OF calm.keeps_try_wait] assms(1) assms(2) seen])
      (use assms(3,4) in \<open>simp_all split: option.split\<close>)
qed

lemma triple_session_step: "triple (child_of k c) (session_step e k pid) (\<lambda>_. child_of k c)"
proof -
  have listed: "triple (child_of k c) (rm_bind (rm_map_err f (engine_sessions e)) (\<lambda>ws. rm_return (pid \<in> set ws)))
      (\<lambda>_. child_of k c)" for f
    by (rule next_calm [OF calm.keeps_map_err [OF calm.keeps_sessions] stable_child_of child_of_safe]) (simp_all add: triple_return)
  have gone: "triple safe (rm_bind (registry_ambiguous e pid) (\<lambda>ambiguous.
      if es_signal st \<noteq> None \<or> ambiguous then rm_bind (rm_ignore (mark_unknown e k)) (\<lambda>_. rm_raise x)
      else rm_bind (store_call e (record_exit (fst k) (snd k) (es_code st) (es_signal st))) (\<lambda>_. rm_raise y))) Q"
    for st x y and Q :: "bool \<Rightarrow> 'a pred"
    by (rule next_calm [OF calm.keeps_ambiguous stable_safe], assumption)
      (intro triple_if next_ignore next_calm calm.keeps_mark_unknown calm.keeps_store_call journaled_operations
        stable_safe triple_raise; assumption)
  have removed: "triple (\<lambda>s. (owned_is k mc s \<and> child_of k c s) \<and> seen_exit (mc_child mc) s)
      (rm_bind (remove_child k) (\<lambda>_. rm_bind (registry_ambiguous e pid) (\<lambda>ambiguous.
      if es_signal st \<noteq> None \<or> ambiguous then rm_bind (rm_ignore (mark_unknown e k)) (\<lambda>_. rm_raise x)
      else rm_bind (store_call e (record_exit (fst k) (snd k) (es_code st) (es_signal st))) (\<lambda>_. rm_raise y)))) Q"
    for mc st x y and Q :: "bool \<Rightarrow> 'a pred"
    by (rule triple_pre [OF next_remove_seen [where mc = mc, OF gone]]) simp
  have owner: "stable (\<lambda>s. owned_is k mc s \<and> child_of k c s)" for mc
    by (rule stable_conj [OF stable_owned]) (rule stableD [OF stable_child_of])
  show ?thesis
    unfolding session_step_def exit_parts_def Let_def prod.case
    apply (rule next_get, rule next_expect)
    subgoal for found mc
      apply (rule triple_pre [where P = "\<lambda>s. owned_is k mc s \<and> child_of k c s"])
       apply (rule next_poll_err [OF owner])
         apply (erule conjunct1 [THEN owned_safe])
        apply (rule triple_pre [OF listed], erule conjunct2)
       apply (rule removed)
      apply (auto simp: owned_is_def child_of_safe)
      done
    apply (erule conjunct1 [THEN child_of_safe])
    done
qed

lemma triple_session_loop:
  "child_of k c s \<Longrightarrow> case session_loop e k pid deadline s of (Inl _, s') \<Rightarrow> safe s' | (Inr _, s') \<Rightarrow> child_of k c s'"
proof (induction e k pid deadline s rule: session_loop.induct)
  case (1 e k pid deadline s)
  obtain r s1 where t: "session_step e k pid s = (r, s1)" by fastforce
  have slept: "child_of k c (snd (sleep_ms e 50 s1))" if "child_of k c s1"
    by (rule stableD [OF stable_child_of that calm.keeps_snd [OF calm.keeps_sleep]])
  show ?case
  proof (cases r)
    case (Inl x)
    then have "safe s1" using triple_failed [OF triple_session_step "1.prems"] t by simp
    with t Inl show ?thesis by (simp add: session_loop.simps [of e k pid deadline s])
  next
    case (Inr listed)
    then have post: "child_of k c s1"
      using triple_result [OF triple_session_step "1.prems"] t by simp
    show ?thesis
      using "1.IH" [OF t [symmetric] Inr] t Inr post slept
      by (cases listed; cases "deadline \<le> rt_now s1")
        (simp_all add: session_loop.simps [of e k pid deadline s] child_of_safe)
  qed
qed

lemma triple_set_session: "triple (child_of k c) (set_session k (ch_pid c)) (\<lambda>_. child_of k c)"
  unfolding set_session_def
proof (rule next_get, rule next_expect)
  fix found mc
  show "triple (\<lambda>s. child_of k c s \<and> owned k s = found) (rm_modify (\<lambda>s. s\<lparr>rt_children :=
      bt_modify k (\<lambda>mc. mc\<lparr>mc_session := Some (ch_pid c)\<rparr>) (rt_children s)\<rparr>)) (\<lambda>_. child_of k c)"
    by (rule triple_modify) (auto simp: child_of_def owned_def bt_get_modify intro!: safe_session)
qed (simp add: child_of_def)

lemma triple_qualify: "triple (child_of k c) (qualify e m v j k (ch_pid c)) (\<lambda>_. child_of k c)"
proof -
  have checkpoint: "calm.keeps (case j of
         Restart_Journal \<Rightarrow> rm_return ()
       | Operation_Journal _ \<Rightarrow> rm_bind (start_order_of m) (\<lambda>order. rm_when (order \<noteq> [] \<and> hd order = se_name v)
             (rm_map_err (spawned_text ''fault checkpoint failed after spawning '' k) (fault_checkpoint e ''after_start''))))"
    by (cases j) (auto intro!: calm.calm_rules)
  have loop: "triple (child_of k c) (session_loop e k pid d) (\<lambda>_. child_of k c)" for pid d
    unfolding triple_def by (intro allI impI triple_session_loop)
  show ?thesis
    unfolding qualify_def
    apply (rule next_calm [OF checkpoint stable_child_of child_of_safe], assumption)
    apply (rule next_get, rule triple_pre [where P = "child_of k c"])
     apply (rule next_step [OF loop next_step [OF triple_set_session triple_calm [OF calm.keeps_journal_running stable_child_of child_of_safe]]],
        assumption)
    apply simp
    done
qed

lemma triple_run: "triple (\<lambda>s. safe s \<and> free_key k s) (engine_run e n opts a b) (\<lambda>c. loose k n c)"
proof -
  have spawned: "triple (\<lambda>s. safe s \<and> free_key k s) (rm_bind (rm_effect (Spawned n c)) (\<lambda>_. rm_return c)) (\<lambda>c. loose k n c)" for c
    unfolding rm_effect_def
  proof (rule next_step [OF triple_modify])
    fix s assume s: "safe s \<and> free_key k s"
    let ?s = "s\<lparr>rt_effects := rt_effects s @ [Spawned n c]\<rparr>"
    have "accounted {c} ?s" using s by (auto simp: safe_but_def accounted_iff held_def)
    moreover have "handles_ok ?s" "children_ok ?s" "kills_own {} [] (rt_effects ?s)"
      using s by (auto simp: safe_but_def handles_ok_def children_ok_def kills_own_spawned)
    ultimately show "loose k n c ?s"
      using s by (simp add: loose_def safe_but_def free_key_def owned_def is_uncertain_def)
  qed (simp add: triple_return)
  show ?thesis
    unfolding engine_run_def
    apply (rule next_get, rule next_lift, simp)
    apply (rule triple_pre [where P = "\<lambda>s. safe s \<and> free_key k s"])
     apply (rule next_calm [OF calm.keeps_call stable_free], simp)
     apply (rule next_lift, simp, rule spawned)
    apply simp
    done
qed

lemma triple_spawn: "triple safe (spawn_and_qualify e b m v n a c j) (\<lambda>_. safe)"
proof -
  let ?k = "(mf_name m, se_name v)"
  have finish: "triple (child_of ?k c) (rm_bind (rm_attempt (qualify e m v j ?k (ch_pid c))) (\<lambda>q.
      rm_bind (rm_when (\<not> is_ok q) (quarantine_managed_child e ?k)) (\<lambda>_. rm_lift q))) (\<lambda>_. safe)" for c
  proof (rule next_step [OF triple_attempt [OF triple_qualify]])
    fix q
    show "triple (\<lambda>s. case q of Inl _ \<Rightarrow> safe s | Inr _ \<Rightarrow> child_of ?k c s)
        (rm_bind (rm_when (\<not> is_ok q) (quarantine_managed_child e ?k)) (\<lambda>_. rm_lift q)) (\<lambda>_. safe)"
    proof (cases q)
      case (Inl x)
      then show ?thesis
        by (simp add: rm_when_def rm_lift_def) (rule next_step [OF triple_quarantine triple_raise], assumption)
    next
      case (Inr u)
      then show ?thesis
        by (simp add: rm_when_def)
          (rule next_step [OF triple_return triple_lift], assumption, erule child_of_safe, erule child_of_safe)
    qed
  qed
  show ?thesis
    unfolding spawn_and_qualify_def Let_def
    apply (rule next_calm [OF calm.keeps_call stable_safe], assumption)
    apply (rule next_lift, assumption)
    apply (rule next_get)
    apply (rule triple_pre [where P = safe])
     apply (rule next_calm [OF calm.keeps_files stable_safe], assumption)
     apply (rule next_lift, assumption)
     apply (rule next_get, rule triple_if, rule triple_raise, simp)
     apply (rule triple_pre)
      apply (rule next_step [OF triple_run next_step [OF triple_adopt finish]])
     apply (simp add: free_key_def is_owned_def)
    apply simp
    done
qed

section \<open>The whole daemon\<close>

definition safe_step :: "'w rt \<Rightarrow> 'w rt \<Rightarrow> bool" where
  "safe_step s s' \<longleftrightarrow> (safe s \<longrightarrow> safe s')"

interpretation guarded: rt_quiet safe_step
proof
  have calm: "safe_step s s'" if "calm_step s s'" for s s' :: "'w rt"
    using that by (auto simp: safe_step_def intro: calm_safe_but)
  fix s s' s'' :: "'w rt"
  show "safe_step s s" by (simp add: safe_step_def)
  show "safe_step s s' \<Longrightarrow> safe_step s' s'' \<Longrightarrow> safe_step s s''" by (simp add: safe_step_def)
  show "safe_step s (s\<lparr>rt_effects := rt_effects s @ [Crashed]\<rparr>)" by (rule calm [OF calm.R_panic])
  show "safe_step s (s\<lparr>rt_now := rt_now s + ms, rt_world := w\<rparr>)" for ms w by (rule calm [OF calm.R_call])
  show "reaches (rt_db s) d \<Longrightarrow> safe_step s (s\<lparr>rt_db := d\<rparr>)" for d by (rule calm [OF calm.R_db])
  show "safe_step s (s\<lparr>rt_effects := rt_effects s @ [Listed ws]\<rparr>)" for ws by (rule calm [OF calm.R_listed])
  show "safe_step s (s\<lparr>rt_effects := rt_effects s @ [Installed n img]\<rparr>)" for n img by (rule calm [OF calm.R_installed])
  show "safe_step s (s\<lparr>rt_effects := rt_effects s @ [Exited c]\<rparr>)" for c by (rule calm [OF calm.R_exited])
  show "safe_step s (s\<lparr>rt_fs := f\<rparr>)" for f by (rule calm [OF calm.R_fs])
qed

text \<open>That the panics are in the history is known from any relation that everything keeps.\<close>

interpretation ticking: rt_plain later
  by unfold_locales (auto simp: later_def)

lemma guarded_keeps:
  assumes "triple safe m (\<lambda>_. safe)" and "clock.keeps m"
  shows "guarded.keeps m"
  using assms by (simp add: guarded.keeps_def clock.keeps_def safe_step_def triple_snd)

interpretation guarded: rt_daemon safe_step
proof
  show "safe_step s (s\<lparr>rt_throttle := t\<rparr>)" "safe_step s (s\<lparr>rt_engine := g\<rparr>)" for s :: "'w rt" and t g
    by (auto simp: safe_step_def calm_step_def intro!: calm_safe_but [of s])
qed (intro guarded_keeps triple_quarantine triple_stop triple_spawn triple_validate triple_tick_child
    triple_tick_uncertain ticking.daemon.keeps_quarantine ticking.daemon.keeps_stop ticking.daemon.keeps_spawn
    ticking.daemon.keeps_validate ticking.daemon.keeps_tick_child ticking.daemon.keeps_tick_uncertain)+

end
