(* ===== verification/Runtime_Success.thy ===== *)
theory Runtime_Success
  imports Runtime_Laws
begin

text \<open>
  What the success of a request means: the operation is finished in the journal, and the status
  in the reply is that of the database at that moment. And how automatic restarts back off.
\<close>

section \<open>Finished operations\<close>

definition succeeded :: "string \<Rightarrow> db \<Rightarrow> bool" where
  "succeeded request d \<longleftrightarrow> list_ex (\<lambda>r. op_request r = request \<and> op_outcome r = Some ''success'') (operations_tbl d)"

lemma succeeded_extends: "succeeded request d \<Longrightarrow> extends_but {} d d' \<Longrightarrow> succeeded request d'"
proof -
  assume "succeeded request d" and e: "extends_but {} d d'"
  then obtain r where r: "r \<in> set (operations_tbl d)" "op_request r = request" "op_outcome r = Some ''success''"
    by (auto simp: succeeded_def list_ex_iff)
  from e r(1) obtain r' where "r' \<in> set (operations_tbl d')" "same_operation {} r r'"
    by (auto simp: extends_but_def kept_def)
  with r show ?thesis by (auto simp: succeeded_def list_ex_iff same_operation_def op_intent_def op_result_def)
qed

definition ends_in :: "'a tx \<Rightarrow> (db \<Rightarrow> bool) \<Rightarrow> bool" where
  "ends_in m S \<longleftrightarrow> (\<forall>d a d'. m d = Inr (a, d') \<longrightarrow> S d')"

lemma ends_inD: "ends_in m S \<Longrightarrow> m d = Inr (a, d') \<Longrightarrow> S d'"
  unfolding ends_in_def by blast

lemma ends_in_bind: "(\<And>a. ends_in (k a) S) \<Longrightarrow> ends_in (tx_bind m k) S"
  by (auto simp: ends_in_def tx_bind_def res_simps)

lemma ends_in_keep:
  assumes "ends_in m S" and "\<And>x d a d'. S d \<Longrightarrow> k x d = Inr (a, d') \<Longrightarrow> S d'"
  shows "ends_in (tx_bind m k) S"
  unfolding ends_in_def
proof (intro allI impI)
  fix d a d' assume "tx_bind m k d = Inr (a, d')"
  then obtain x d1 where "m d = Inr (x, d1)" and k: "k x d1 = Inr (a, d')" by (auto simp: tx_bind_def res_simps)
  then have "S d1" using ends_inD [OF assms(1)] by blast
  then show "S d'" using k by (rule assms(2))
qed

lemma ends_in_then:
  "ends_in m (succeeded request) \<Longrightarrow> (\<And>a. hist.keeps {} (k a)) \<Longrightarrow> ends_in (tx_bind m k) (succeeded request)"
  by (erule ends_in_keep) (blast intro: succeeded_extends hist.keepsD)

lemma one_matching: "length (filter p xs) = 1 \<Longrightarrow> \<exists>r \<in> set xs. p r"
  using filter_empty_conv [of p xs] by force

lemma ends_in_finish:
  assumes "\<And>r. p r \<Longrightarrow> op_request r = request" and "\<And>r. op_request (f r) = op_request r" "\<And>r. op_outcome (f r) = Some ''success''"
  shows "ends_in (exactly_one (update_operations p f) subject) (succeeded request)"
proof -
  have "succeeded request (d\<lparr>operations_tbl := change p f (operations_tbl d)\<rparr>)"
    if one: "length (filter p (operations_tbl d)) = 1" for d
  proof -
    from one_matching [OF one] obtain r where "r \<in> set (operations_tbl d)" "p r" by blast
    then have "f r \<in> set (change p f (operations_tbl d))" using change_in [of r "operations_tbl d" p f] by simp
    moreover have "op_request (f r) = request" "op_outcome (f r) = Some ''success''"
      using assms \<open>p r\<close> by simp_all
    ultimately show ?thesis by (auto simp: succeeded_def list_ex_iff)
  qed
  then show ?thesis
    by (auto simp: ends_in_def exactly_one_def update_operations_def tx_bind_def tx_query_def tx_exec_def tx_return_def
        tx_lift_def res_simps matching_def split: if_splits)
qed

lemma succeeded_up: "ends_in (commit_up request stack clk) (succeeded request)"
  unfolding commit_up_def finish_operation_def split_beta by (intro ends_in_bind ends_in_finish) simp_all

lemma succeeded_noop: "ends_in (record_noop_up request stack m b clk) (succeeded request)"
proof -
  have "succeeded request (d\<lparr>operations_tbl := operations_tbl d @ [(current_operation request stack kind phase x y rev t now)
      \<lparr>op_outcome := Some ''success''\<rparr>]\<rparr>)" for d kind phase x y rev t now
    by (simp add: succeeded_def current_operation_def)
  then show ?thesis
    unfolding record_noop_up_def insert_operation_def
    by (intro ends_in_bind) (auto simp: ends_in_def tx_exec_def split: if_splits)
qed

lemma succeeded_down: "ends_in (finish_down request stack clk) (succeeded request)"
  unfolding finish_down_def by (intro ends_in_bind ends_in_finish) (simp_all add: unfinished_def)

lemma succeeded_start: "ends_in (finish_start_current request stack clk) (succeeded request)"
  unfolding finish_start_current_def
  by (intro ends_in_bind ends_in_then ends_in_finish hist_refresh) (simp_all add: unfinished_def)

lemma succeeded_restart: "ends_in (finish_restart request stack service clk) (succeeded request)"
  unfolding finish_restart_def by (intro ends_in_bind succeeded_start)

text \<open>A finished down leaves the stack stopped.\<close>

definition stopped_stack :: "string \<Rightarrow> db \<Rightarrow> bool" where
  "stopped_stack stack d \<longleftrightarrow> (case find_stack stack d of
     None \<Rightarrow> False
   | Some r \<Rightarrow> sk_desired r = ''stopped'' \<and> sk_observed r = ''stopped'')"

lemma stopped_change:
  assumes "length (filter (\<lambda>r. sk_name r = stack) (stacks_tbl d)) = 1"
  shows "stopped_stack stack (d\<lparr>stacks_tbl := change (\<lambda>r. sk_name r = stack)
    (\<lambda>r. r\<lparr>sk_desired := ''stopped'', sk_observed := ''stopped'', sk_updated := now\<rparr>) (stacks_tbl d)\<rparr>)"
proof -
  obtain r where r: "find (\<lambda>r. sk_name r = stack) (stacks_tbl d) = Some r"
    using one_matching [OF assms] by (cases "find (\<lambda>r. sk_name r = stack) (stacks_tbl d)") (auto simp: find_None_iff)
  then have "sk_name r = stack" using find_SomeD [OF r] by simp
  with r show ?thesis by (simp add: stopped_stack_def find_stack_def find_change)
qed

lemma ends_in_stop:
  "ends_in (exactly_one (update_stacks (\<lambda>r. sk_name r = stack)
     (\<lambda>r. r\<lparr>sk_desired := ''stopped'', sk_observed := ''stopped'', sk_updated := now\<rparr>)) subject) (stopped_stack stack)"
  by (auto simp: ends_in_def exactly_one_def update_stacks_def tx_bind_def tx_query_def tx_exec_def tx_return_def
      tx_lift_def res_simps matching_def intro!: stopped_change split: if_splits)

lemma stopped_keep:
  "stopped_stack stack d \<Longrightarrow> exactly_one (update_operations p f) subject d = Inr (a, d') \<Longrightarrow> stopped_stack stack d'"
  by (auto simp: exactly_one_def update_operations_def tx_bind_def tx_query_def tx_exec_def tx_return_def tx_lift_def
      res_simps stopped_stack_def find_stack_def split: if_splits)

lemma stopped_down: "ends_in (finish_down request stack clk) (stopped_stack stack)"
  unfolding finish_down_def
  by (rule ends_in_bind, rule ends_in_bind, rule ends_in_bind, rule ends_in_keep [OF ends_in_stop stopped_keep])

section \<open>Results\<close>

text \<open>What holds after a computation that ends with a result.\<close>

definition yields :: "('w rt \<Rightarrow> bool) \<Rightarrow> ('w, 'a) rm \<Rightarrow> ('a \<Rightarrow> 'w rt \<Rightarrow> bool) \<Rightarrow> bool" where
  "yields P m Q \<longleftrightarrow> (\<forall>s a s'. P s \<longrightarrow> m s = (Inr a, s') \<longrightarrow> Q a s')"

lemma yields_bind: "yields P m R \<Longrightarrow> (\<And>a. yields (R a) (k a) Q) \<Longrightarrow> yields P (rm_bind m k) Q"
  unfolding yields_def rm_bind_def by (auto split: prod.splits sum.splits)

lemma yields_skip: "(\<And>a. yields (\<lambda>_. True) (k a) Q) \<Longrightarrow> yields P (rm_bind m k) Q"
  by (rule yields_bind [where R = "\<lambda>_ _. True"]) (simp add: yields_def)

lemma yields_raise: "yields P (rm_raise x) Q"
  by (simp add: yields_def rm_raise_def)

lemma yields_panic: "yields P rm_panic Q"
  by (simp add: yields_def rm_panic_def)

lemma yields_return: "(\<And>s. P s \<Longrightarrow> Q a s) \<Longrightarrow> yields P (rm_return a) Q"
  by (simp add: yields_def rm_return_def)

lemma yields_if: "(b \<Longrightarrow> yields P m Q) \<Longrightarrow> (\<not> b \<Longrightarrow> yields P m' Q) \<Longrightarrow> yields P (if b then m else m') Q"
  by simp

lemma yields_attempt:
  "yields P m Q \<Longrightarrow> yields P (rm_attempt m) (\<lambda>r s. case r of Inl _ \<Rightarrow> True | Inr a \<Rightarrow> Q a s)"
  by (auto simp: yields_def rm_attempt_def split: prod.splits sum.splits stop.splits)

lemma yields_call: "(\<And>clk. ends_in (m clk) S) \<Longrightarrow> yields P (store_call e m) (\<lambda>_ s. S (rt_db s))"
  by (auto simp: yields_def store_call_def store_query_def rm_bind_def rm_call_def rm_tx_def rm_raise_def rm_panic_def
      dest: ends_inD split: prod.splits sum.splits option.splits store_error.splits)

lemma yields_status:
  "yields (\<lambda>s. S (rt_db s)) (required_status e stack) (\<lambda>st s. S (rt_db s) \<and> stack_status stack (rt_db s) = Some st)"
  by (auto simp: yields_def required_status_def store_query_def rm_bind_def rm_call_def rm_tx_def tx_query_def rm_raise_def
      rm_panic_def rm_lift_def rm_return_def ok_or_def res_simps
      split: prod.splits sum.splits option.splits store_error.splits)

lemma yields_or_fail: "yields P body Q \<Longrightarrow> yields P (or_fail e r m o' failed ks body) Q"
  unfolding or_fail_def fail_start_def
  by (erule yields_bind [OF yields_attempt]) (auto intro!: yields_return yields_skip yields_raise split: sum.split)

lemma yields_or_abort: "yields P body Q \<Longrightarrow> yields P (or_abort_restart e r st v c body) Q"
  unfolding or_abort_restart_def
  by (erule yields_bind [OF yields_attempt]) (auto intro!: yields_return yields_skip yields_raise split: sum.split)

text \<open>The last write of an operation, then the status.\<close>

abbreviation done_with :: "string \<Rightarrow> string \<Rightarrow> stack_status \<Rightarrow> 'w rt \<Rightarrow> bool" where
  "done_with request stack st s \<equiv> succeeded request (rt_db s) \<and> stack_status stack (rt_db s) = Some st"

lemma yields_done:
  "yields P m (\<lambda>_ s. succeeded r (rt_db s)) \<Longrightarrow> yields P (rm_bind m (\<lambda>_. required_status e stack)) (done_with r stack)"
  by (erule yields_bind) (rule yields_status)

lemma yields_start_services:
  "yields (\<lambda>_. True) (start_current_services e r p m b o' c) (done_with r (mf_name m))"
  unfolding start_current_services_def
  by (intro yields_skip yields_done yields_or_fail yields_call succeeded_start)

lemma yields_prepare: "yields (\<lambda>_. True) (prepare_candidate e r t b m) (done_with r (mf_name m))"
  unfolding prepare_candidate_def
  by (intro yields_skip yields_done yields_or_fail yields_call succeeded_up)

lemma yields_converge: "yields (\<lambda>_. True) (converge e r t b m x) (done_with r (mf_name m))"
  unfolding converge_def
  by (intro yields_skip yields_if yields_raise yields_done yields_call succeeded_noop yields_start_services)

lemma yields_up: "yields (\<lambda>_. True) (up e r t b m) (done_with r (mf_name m))"
proof -
  have "yields (\<lambda>_. True) (case found of None \<Rightarrow> prepare_candidate e r t b m | Some existing \<Rightarrow>
      if ambiguous_stack existing then rm_raise x
      else if c existing then converge e r t b m existing
      else if c' existing then rm_raise y else prepare_candidate e r t b m) (done_with r (mf_name m))"
    for found c c' x y
    by (cases found) (auto intro: yields_prepare yields_converge yields_raise)
  then show ?thesis unfolding up_def by (intro yields_skip)
qed

lemma yields_down:
  "yields (\<lambda>_. True) (down e r stack) (\<lambda>st s. done_with r stack st s \<and> stopped_stack stack (rt_db s))"
proof -
  have finish: "ends_in (finish_down r stack clk) (\<lambda>d. succeeded r d \<and> stopped_stack stack d)" for clk
    using succeeded_down stopped_down unfolding ends_in_def by blast
  have services: "yields (\<lambda>_. True) (down_services e r stack order) (\<lambda>_ s. succeeded r (rt_db s) \<and> stopped_stack stack (rt_db s))" for order
    unfolding down_services_def by (intro yields_skip yields_call [OF finish])
  have "yields (\<lambda>s. case x of Inl _ \<Rightarrow> True | Inr _ \<Rightarrow> succeeded r (rt_db s) \<and> stopped_stack stack (rt_db s))
      (case x of Inl y \<Rightarrow> rm_bind (quarantine_stack e stack) (\<lambda>_. rm_bind (g y) (\<lambda>_. rm_raise y)) | Inr _ \<Rightarrow> required_status e stack)
      (\<lambda>st s. done_with r stack st s \<and> stopped_stack stack (rt_db s))"
    for x :: "runtime_error + unit" and g :: "runtime_error \<Rightarrow> ('a, unit) rm"
    using yields_status [where S = "\<lambda>d. succeeded r d \<and> stopped_stack stack d"]
    by (cases x) (auto intro!: yields_skip yields_raise simp: conj_ac)
  then show ?thesis
    unfolding down_def by (intro yields_skip yields_bind [OF yields_attempt [OF services]])
qed

lemma yields_restart: "yields (\<lambda>_. True) (restart e r stack v) (done_with r stack)"
proof -
  have start: "yields (\<lambda>_. True) (restart_start e r stack v m d) (\<lambda>_ s. succeeded r (rt_db s))" for m d
    unfolding restart_start_def split_beta by (intro yields_skip yields_call succeeded_restart)
  show ?thesis
    unfolding restart_def exit_parts_def Let_def prod.case
    by (intro yields_skip yields_if yields_raise yields_done yields_or_abort start)
qed

lemma stopped_status:
  "stack_status stack d = Some st \<Longrightarrow> stopped_stack stack d \<Longrightarrow> st_desired st = ''stopped'' \<and> st_observed st = ''stopped''"
  by (auto simp: stack_status_def stopped_stack_def split: option.splits)

text \<open>
  Claim C7. A mutation that answers with a status has been carried out as far as the journal
  knows: the operation of the request is finished with success in the database at that moment,
  and the status is the one of that database. After a down it is that of a stopped stack.
\<close>

theorem success_is_journaled:
  "(case up e r source base m s of (Inr st, s') \<Rightarrow> done_with r (mf_name m) st s' | _ \<Rightarrow> True)
   \<and> (case restart e r stack v s of (Inr st, s') \<Rightarrow> done_with r stack st s' | _ \<Rightarrow> True)
   \<and> (case down e r stack s of
       (Inr st, s') \<Rightarrow> done_with r stack st s' \<and> st_desired st = ''stopped'' \<and> st_observed st = ''stopped''
     | _ \<Rightarrow> True)"
proof (intro conjI)
  show "case up e r source base m s of (Inr st, s') \<Rightarrow> done_with r (mf_name m) st s' | _ \<Rightarrow> True"
    using yields_up [of e r source base m] by (auto simp: yields_def split: prod.split sum.split)
  show "case restart e r stack v s of (Inr st, s') \<Rightarrow> done_with r stack st s' | _ \<Rightarrow> True"
    using yields_restart [of e r stack v] by (auto simp: yields_def split: prod.split sum.split)
  show "case down e r stack s of
       (Inr st, s') \<Rightarrow> done_with r stack st s' \<and> st_desired st = ''stopped'' \<and> st_observed st = ''stopped''
     | _ \<Rightarrow> True"
    using yields_down [of e r stack] by (auto simp: yields_def dest: stopped_status split: prod.split sum.split)
qed

section \<open>Automatic restarts\<close>

definition scheduled_row :: "service_key \<Rightarrow> int \<Rightarrow> int \<Rightarrow> int \<Rightarrow> db \<Rightarrow> bool" where
  "scheduled_row key attempts window at d \<longleftrightarrow> list_ex (\<lambda>v. sv_stack v = fst key \<and> sv_name v = snd key
     \<and> sv_observed v = ''restarting'' \<and> sv_phase v = ''backoff'' \<and> sv_attempts v = attempts
     \<and> sv_window v = Some window \<and> sv_next v = Some at) (services_tbl d)"

lemma refresh_services: "refresh_stack_state stack now d = Inr (a, d') \<Longrightarrow> services_tbl d' = services_tbl d"
  by (auto simp: refresh_stack_state_def exactly_one_def any_number_def update_stacks_def tx_bind_def tx_query_def tx_exec_def tx_return_def
      tx_lift_def tx_read_def res_simps split: if_splits option.splits)

lemma ends_in_schedule:
  "ends_in (schedule_restart stack service attempts window at clk) (scheduled_row (stack, service) attempts window at)"
  unfolding schedule_restart_def
proof (rule ends_in_bind, rule ends_in_keep)
  fix now
  show "ends_in (exactly_one (update_services (\<lambda>r. the_service stack service r \<and> sv_desired r = ''running'' \<and> identity_absent r)
      (\<lambda>r. r\<lparr>sv_observed := ''restarting'', sv_phase := ''backoff'', sv_attempts := attempts,
        sv_window := Some window, sv_next := Some at, sv_updated := now\<rparr>)) (running_subject stack service))
      (scheduled_row (stack, service) attempts window at)" (is "ends_in (exactly_one (update_services ?p ?f) _) ?S")
  proof -
    have "?S (d\<lparr>services_tbl := change ?p ?f (services_tbl d)\<rparr>)" if one: "length (filter ?p (services_tbl d)) = 1" for d
    proof -
      from one_matching [OF one] obtain r where r: "r \<in> set (services_tbl d)" "?p r" by blast
      then have "?f r \<in> set (change ?p ?f (services_tbl d))" using change_in [OF r(1), of ?p ?f] by simp
      moreover have "sv_stack r = stack" "sv_name r = service" using r(2) by (simp_all add: the_service_def)
      ultimately show ?thesis
        unfolding scheduled_row_def list_ex_iff by (intro bexI [of _ "?f r"]) simp_all
    qed
    then show ?thesis
      by (auto simp: ends_in_def exactly_one_def update_services_def tx_bind_def tx_query_def tx_exec_def tx_return_def
          tx_lift_def res_simps matching_def split: if_splits)
  qed
qed (auto simp: scheduled_row_def dest: refresh_services)

lemma bind_return: "rm_bind (rm_return a) k = k a"
  by (rule ext) (simp add: rm_bind_def rm_return_def)

lemma restart_delay: "previous < MAX_RESTART_ATTEMPTS \<Longrightarrow> RESTART_DELAYS ! previous = 2 ^ previous"
  by (auto simp: MAX_RESTART_ATTEMPTS_def RESTART_DELAYS_def less_Suc_eq numeral_eq_Suc)


end
