(* ===== verification/Daemon_Claims.thy ===== *)
theory Daemon_Claims
  imports Runtime_Spawn Runtime_Success Store_Migrated
begin

text \<open>
  What holds of every run of the daemon, whatever its environment does: the processes it kills
  and keeps, and the databases it leaves.
\<close>

section \<open>Processes\<close>

lemma safe_initial: "safe (initial_state paths g installation d f now w)"
  by (simp add: initial_state_def safe_but_def handles_ok_def children_ok_def accounted_def)

lemma daemon_safe:
  assumes "daemon_run n e cd li su = (r, Some s)"
  shows "safe s" and "crashed s \<longrightarrow> r = Panicked"
  using guarded.daemon_keeps [OF assms] safe_initial unfolding safe_step_def by metis+

text \<open>Every process that was started has exited, or its handle is still held.\<close>

definition no_orphans :: "'w rt \<Rightarrow> bool" where
  "no_orphans s \<longleftrightarrow> list_all (\<lambda>x. case x of
     Spawned _ c \<Rightarrow> Exited c \<in> set (rt_effects s) \<or> held c s
   | _ \<Rightarrow> True) (rt_effects s)"

lemma safe_no_orphans: "safe s \<Longrightarrow> \<not> crashed s \<Longrightarrow> no_orphans s"
  by (auto simp: safe_but_def accounted_def no_orphans_def list_all_iff split: effect.splits)

text \<open>
  Claim C1. Whatever the environment does, in every run of the daemon each kill is of a session
  that the engine listed immediately before and that is a process the daemon itself spawned; and
  no service ever has two handles: the maps of owned and of set-aside children have one entry per
  service and no service in common.
\<close>

theorem daemon_kills_only_own:
  "case snd (daemon_run n e cd li su) of
     None \<Rightarrow> True
   | Some s \<Rightarrow> kills_own {} [] (rt_effects s) \<and> handles_ok s \<and> children_ok s"
proof (cases "snd (daemon_run n e cd li su)")
  case (Some s)
  then have "safe s" by (metis daemon_safe(1) prod.collapse)
  with Some show ?thesis by (simp add: safe_but_def)
qed simp

text \<open>
  Claim C5. The daemon loses no process: in every run that does not end in a panic, each process
  it spawned was seen to exit or its handle is still in one of the two maps.
\<close>

theorem daemon_loses_no_process:
  "case daemon_run n e cd li su of
     (r, None) \<Rightarrow> True
   | (r, Some s) \<Rightarrow> r = Panicked \<or> no_orphans s"
proof (cases "daemon_run n e cd li su")
  case (Pair r x)
  show ?thesis
  proof (cases x)
    case (Some s)
    with Pair have "safe s" "crashed s \<longrightarrow> r = Panicked" using daemon_safe by blast+
    with Pair Some show ?thesis using safe_no_orphans by auto
  qed (simp add: Pair)
qed

section \<open>The journal\<close>

lemma reaches_trans: "reaches b c \<Longrightarrow> reaches a b \<Longrightarrow> reaches a c"
  by (induction rule: reaches.induct) (auto intro: reaches.intros)

definition db_step :: "'w rt \<Rightarrow> 'w rt \<Rightarrow> bool" where
  "db_step s s' \<longleftrightarrow> reaches (rt_db s) (rt_db s')"

interpretation growing: rt_plain db_step
  by unfold_locales (auto simp: db_step_def intro: reaches_trans reaches_refl)

text \<open>The database a run works on: the journal as it is opened, created or migrated.\<close>

definition opened_db :: "'w startup \<Rightarrow> db option" where
  "opened_db su = (case acquire_all su of
     Inl _ \<Rightarrow> None
   | Inr (paths, f) \<Rightarrow> (case fst (open_store (su_open su) (database_path paths) (f, su_content su)) of
       Inl _ \<Rightarrow> None
     | Inr (_, d) \<Rightarrow> Some d))"

text \<open>
  Claim C2. The runtime refines the journal: whatever requests, exits, signals and failures a run
  of the daemon meets, the database it leaves is reached from the one it opened by calls of the
  journal's operations alone. So no run ever rewrites a generation, an alias or the outcome of a
  finished operation; and a run that created or migrated the journal leaves it within the
  constraints of the schema.
\<close>

theorem daemon_refines_journal:
  "case daemon_run n e cd li su of
     (r, None) \<Rightarrow> True
   | (r, Some s) \<Rightarrow> (case opened_db su of
       None \<Rightarrow> False
     | Some d \<Rightarrow> reaches d (rt_db s) \<and> extends_but {} d (rt_db s)
         \<and> (case su_content su of Version_3 _ _ \<Rightarrow> True | _ \<Rightarrow> schema_ok (rt_db s)))"
proof (cases "daemon_run n e cd li su")
  case (Pair r x)
  show ?thesis
  proof (cases x)
    case (Some s)
    obtain paths f fc installation d where start: "acquire_all su = Inr (paths, f)"
      "open_store (su_open su) (database_path paths) (f, su_content su) = (Inr (installation, d), fc)"
      and "db_step (initial_state paths \<lparr>en_binary = [], en_architecture = []\<rparr> installation d (fst fc) (su_now su) (su_world su)) s"
      by (rule growing.daemon.daemon_keeps [OF Pair [unfolded Some]])
    then have "reaches d (rt_db s)" by (simp add: db_step_def initial_state_def)
    then have "reaches d (rt_db s) \<and> extends_but {} d (rt_db s)
        \<and> (case su_content su of Version_3 _ _ \<Rightarrow> True | _ \<Rightarrow> schema_ok (rt_db s))"
      using reaches_extends reaches_schema opened_schema [OF start(2)] by (auto split: content.splits)
    moreover have "opened_db su = Some d" using start by (simp add: opened_db_def)
    ultimately show ?thesis using Pair Some by simp
  qed (simp add: Pair)
qed

section \<open>Replays\<close>

text \<open>Nothing but time passes; a panic is noted.\<close>

definition idle_step :: "'w rt \<Rightarrow> 'w rt \<Rightarrow> bool" where
  "idle_step s s' \<longleftrightarrow> rt_children s' = rt_children s \<and> rt_uncertain s' = rt_uncertain s
     \<and> rt_throttle s' = rt_throttle s \<and> rt_fs s' = rt_fs s
     \<and> filter (\<lambda>x. x \<noteq> Crashed) (rt_effects s') = filter (\<lambda>x. x \<noteq> Crashed) (rt_effects s)"

definition same_db :: "'w rt \<Rightarrow> 'w rt \<Rightarrow> bool" where
  "same_db s s' \<longleftrightarrow> idle_step s s' \<and> rt_db s' = rt_db s"

interpretation reading: rt_relation same_db
  by unfold_locales (auto simp: same_db_def idle_step_def)

lemma reading_call: "reading.keeps (rm_call f)"
  by (auto simp: reading.keeps_def rm_call_def same_db_def idle_step_def marked_def split: prod.split)

lemma reading_query: "reading.keeps (store_query e (tx_query f))"
proof -
  have "reading.keeps (rm_tx (tx_query f))"
    by (simp add: reading.keeps_def rm_tx_def tx_query_def same_db_def idle_step_def marked_def res_simps)
  then show ?thesis
    unfolding store_query_def by (intro reading.keeps_bind reading_call reading.keeps_option reading.keeps_raise)
qed

lemma reading_replay: "reading.keeps (replay_response e cd r p s a b t)"
  unfolding replay_response_def by (intro reading.keeps_rules reading_query)

lemma query_result:
  assumes "store_query e (tx_query f) s = (Inr a, s')"
  shows "a = f (rt_db s)"
  using assms by (auto simp: store_query_def rm_bind_def rm_call_def rm_tx_def tx_query_def rm_raise_def res_simps
      split: prod.splits option.splits)

lemma replay_found:
  assumes "operation_replay r (rt_db s) \<noteq> None" and "replay_response e cd r p n a b t s = (Inr x, s')"
  shows "x \<noteq> None"
  using assms query_result [of e "operation_replay r" s]
  by (auto simp: replay_response_def rm_bind_def rm_return_def rm_lift_def rm_raise_def map_err_def res_simps
      split: prod.splits sum.splits option.splits if_splits)

lemma once_found:
  assumes "operation_replay r (rt_db s) \<noteq> None"
  shows "same_db s (snd (respond_once e cd r p n a b t m s))"
proof -
  obtain x s' where run: "rm_attempt (replay_response e cd r p n a b t) s = (x, s')" by fastforce
  have same: "same_db s s'"
    using reading.keeps_attempt [OF reading_replay] run by (rule reading.keepsD)
  have "x \<noteq> Inr (Inr None)"
    using run replay_found [OF assms, of e cd p n a b t None s']
    by (auto simp: rm_attempt_def split: prod.splits sum.splits stop.splits)
  with run same show ?thesis
    by (auto simp: respond_once_def rm_bind_def rm_return_def split: sum.splits option.splits)
qed

text \<open>A database without the responses cached in it.\<close>

definition but_responses :: "db \<Rightarrow> db" where
  "but_responses d = d\<lparr>operations_tbl := map (\<lambda>r. r\<lparr>op_response := None, op_updated := 0\<rparr>) (operations_tbl d)\<rparr>"

definition answer_step :: "'w rt \<Rightarrow> 'w rt \<Rightarrow> bool" where
  "answer_step s s' \<longleftrightarrow> idle_step s s' \<and> but_responses (rt_db s') = but_responses (rt_db s)"

interpretation answering: rt_relation answer_step
  by unfold_locales (auto simp: answer_step_def idle_step_def)

lemma answering_reading: "reading.keeps m \<Longrightarrow> answering.keeps m"
  by (auto simp: reading.keeps_def answering.keeps_def same_db_def answer_step_def)

lemma cache_but_responses: "cache_response r x clk d = Inr (u, d') \<Longrightarrow> but_responses d' = but_responses d"
  by (auto simp: cache_response_def any_number_def update_operations_def tx_bind_def tx_lift_def tx_query_def
      tx_exec_def tx_return_def res_simps but_responses_def change_def split: sum.splits if_splits)

lemma answering_cache: "answering.keeps (store_call e (cache_response r x))"
proof -
  have "answering.keeps (rm_tx (cache_response r x clk))" for clk
    using cache_but_responses [of r x clk]
    by (auto simp: answering.keeps_def rm_tx_def rm_panic_def answer_step_def idle_step_def marked_def
        split: sum.splits store_error.splits prod.splits)
  then show ?thesis
    unfolding store_call_def store_query_def
    by (intro answering.keeps_bind answering.keeps_option answering.keeps_raise answering_reading [OF reading_call])
qed

lemma answering_cache_request: "answering.keeps (cache_response_for_request e cd q resp)"
proof -
  have "reading.keeps (mutation_of e q)"
    by (cases q) (auto simp: mutation_of_def reading.keeps_return reading.keeps_panic split: sum.splits)
  then show ?thesis
    unfolding cache_response_for_request_def
    by (intro answering.keeps_rules answering_cache answering_reading [OF reading_query] answering_reading)
qed

lemma answer_found:
  assumes "same_db s (snd (dispatch e cd q s))"
  shows "answer_step s (snd (answer_request e cd q s))"
proof -
  have first: "answer_step s (snd (m s))" if "m \<in> {dispatch e cd q, rm_return x}" for m x
    using that assms by (auto simp: same_db_def answer_step_def rm_return_def idle_step_def)
  have rest: "answering.keeps (rm_bind (rm_ignore (cache_response_for_request e cd q resp)) (\<lambda>_. rm_return resp))" for resp
    by (intro answering.keeps_rules answering_cache_request)
  have "answer_step s (snd (rm_bind m (\<lambda>resp. rm_bind (rm_ignore (cache_response_for_request e cd q resp)) (\<lambda>_. rm_return resp)) s))"
    if "answer_step s (snd (m s))" for m
    using that by (auto simp: rm_bind_def [of m] split: prod.splits sum.splits
        intro: answering.R_trans [OF _ answering.keeps_snd [OF rest]])
  with first show ?thesis unfolding answer_request_def by (cases "validate_envelope q") auto
qed

lemma checked_found: "same_db s (snd (m s)) \<Longrightarrow> same_db s (snd (checked_name r n m s))"
  by (simp add: checked_name_def rm_return_def reading.R_refl split: sum.split)

lemma dispatch_found:
  assumes "operation_replay r (rt_db s) \<noteq> None"
  shows "same_db s (snd (dispatch e cd (Up_Request v r source base) s))"
    and "same_db s (snd (dispatch e cd (Down_Request v r stack) s))"
    and "same_db s (snd (dispatch e cd (Restart_Request v r stack service) s))"
  using once_found [OF assms] reading.keeps_snd [OF reading.keeps_panic, of s]
  by (auto simp: rm_return_def reading.R_refl intro!: checked_found split: sum.split)

text \<open>
  Claim C6. A mutation is carried out once: when the journal already has an operation of the
  request's identifier, answering an up, a down or a restart touches neither the children nor the
  engine nor the files, and leaves the database as it was but for the cached responses.
\<close>

theorem replayed_mutation_has_no_effect:
  "operation_replay r (rt_db s) = None
   \<or> (answer_step s (snd (answer_request e cd (Up_Request v r source base) s))
     \<and> answer_step s (snd (answer_request e cd (Down_Request v r stack) s))
     \<and> answer_step s (snd (answer_request e cd (Restart_Request v r stack service) s)))"
  using answer_found [OF dispatch_found(1)] answer_found [OF dispatch_found(2)] answer_found [OF dispatch_found(3)]
  by blast

section \<open>Stopping a child\<close>

text \<open>
  The journal of a state and the child owned in it name the session, and so do three answers read
  one after the other without an effect since: the boot, the start time of the process, and the
  list of the engine.
\<close>

definition journal_names :: "service_identity \<Rightarrow> managed_child \<Rightarrow> 32 word \<Rightarrow> bool" where
  "journal_names identity mc w \<longleftrightarrow> mc_session mc = Some w \<and> id_session identity = Some (uint w)
     \<and> id_alias identity = mc_alias mc \<and> id_generation identity = mc_generation mc
     \<and> id_pid identity = Some (uint (ch_pid (mc_child mc))) \<and> id_starttime identity = as_i64 (mc_starttime mc)
     \<and> id_boot identity = Some (mc_boot mc)"

definition system_names :: "'w env \<Rightarrow> managed_child \<Rightarrow> 32 word \<Rightarrow> 'w rt \<Rightarrow> bool" where
  "system_names e mc w s \<longleftrightarrow> (\<exists>s1 s2 s3 s4 ws. calm_step s s1
     \<and> read_boot_id e s1 = (Inr (mc_boot mc), s2)
     \<and> read_starttime e (ch_pid (mc_child mc)) s2 = (Inr (mc_starttime mc), s3)
     \<and> engine_sessions e s3 = (Inr ws, s4) \<and> w \<in> set ws)"

definition identified :: "'w env \<Rightarrow> service_key \<Rightarrow> 'w rt \<Rightarrow> 32 word \<Rightarrow> bool" where
  "identified e key s w \<longleftrightarrow> (\<exists>mc identity. owned key s = Some mc
     \<and> service_identity (fst key) (snd key) (rt_db s) = Inr identity
     \<and> journal_names identity mc w \<and> system_names e mc w s)"

definition new_effects :: "'w rt \<Rightarrow> 'w rt \<Rightarrow> effect list" where
  "new_effects s s' = drop (length (rt_effects s)) (rt_effects s')"

definition confirmed :: "'w env \<Rightarrow> service_key \<Rightarrow> 'w rt \<Rightarrow> effect \<Rightarrow> bool" where
  "confirmed e key s x \<longleftrightarrow> (case x of Killed w \<Rightarrow> identified e key s w | Spawned _ _ \<Rightarrow> False | _ \<Rightarrow> True)"

definition only_identified :: "'w env \<Rightarrow> service_key \<Rightarrow> 'w rt \<Rightarrow> 'w rt \<Rightarrow> bool" where
  "only_identified e key s s' \<longleftrightarrow> list_all (confirmed e key s) (new_effects s s')"

definition fine :: "'w env \<Rightarrow> service_key \<Rightarrow> 'w rt \<Rightarrow> 'w rt \<Rightarrow> bool" where
  "fine e key s s' \<longleftrightarrow> (\<exists>es. rt_effects s' = rt_effects s @ es \<and> list_all (confirmed e key s) es)"

lemma quiet_confirmed: "list_all quiet es \<Longrightarrow> list_all (confirmed e key s) es"
  unfolding list_all_iff confirmed_def by (metis (no_types, lifting) effect.exhaust effect.simps quiet.simps(1,2))

lemma calm_fine: "calm_step s s' \<Longrightarrow> fine e key s s'"
  by (auto simp: calm_step_def fine_def intro: quiet_confirmed)

lemma fine_calm: "fine e key s s' \<Longrightarrow> calm_step s' s'' \<Longrightarrow> fine e key s s''"
  by (fastforce simp: calm_step_def fine_def intro: quiet_confirmed)

lemma fine_only: "fine e key s s' \<Longrightarrow> only_identified e key s s'"
  by (auto simp: fine_def only_identified_def new_effects_def)

lemma next_fine:
  assumes "calm.keeps m" and "calm_step s s1"
    and "\<And>a s2. m s1 = (Inr a, s2) \<Longrightarrow> calm_step s s2 \<Longrightarrow> fine e key s (snd (k a s2))"
  shows "fine e key s (snd (rm_bind m k s1))"
proof -
  obtain r s2 where m: "m s1 = (r, s2)" by fastforce
  have "calm_step s s2" using assms(2) calm.keepsD [OF assms(1) m] by (rule calm.R_trans)
  with m assms(3) show ?thesis by (cases r) (auto simp: rm_bind_def calm_fine)
qed

lemma calm_then_fine:
  assumes "calm.keeps m" and "fine e key s s1" and "\<And>a s2. fine e key s s2 \<Longrightarrow> fine e key s (snd (k a s2))"
  shows "fine e key s (snd (rm_bind m k s1))"
proof -
  obtain r s2 where m: "m s1 = (r, s2)" by fastforce
  have "fine e key s s2" using assms(2) calm.keepsD [OF assms(1) m] by (rule fine_calm)
  with m assms(3) show ?thesis by (cases r) (auto simp: rm_bind_def)
qed

lemma identity_result:
  "query_identity e key s = (Inr identity, s') \<Longrightarrow> service_identity (fst key) (snd key) (rt_db s) = Inr identity"
  by (auto simp: query_identity_def store_query_def rm_bind_def rm_call_def rm_tx_def rm_panic_def tx_read_def rm_raise_def
      res_simps split: prod.splits sum.splits option.splits store_error.splits)

lemma fine_stop_rest:
  assumes "calm_step s s1" and "identified e key s w"
  shows "fine e key s (snd (rm_bind (engine_kill e w) (\<lambda>_. rm_bind (wait_for_exit e c t) (\<lambda>st.
    rm_bind (remove_child key) (\<lambda>_. rm_return st))) s1))"
proof -
  let ?s2 = "s1\<lparr>rt_effects := rt_effects s1 @ [Killed w]\<rparr>"
  have killed: "fine e key s ?s2"
    using calm_fine [OF assms(1), of e key] assms(2) by (auto simp: fine_def confirmed_def)
  have remove: "fine e key s (snd (rm_bind (remove_child key) (\<lambda>_. rm_return st) s2))" if "fine e key s s2" for st :: exit_status and s2
    using that by (simp add: fine_def rm_bind_def remove_child_def rm_modify_def rm_return_def)
  have "fine e key s (snd (rm_bind (kill_command e w (rt_engine s1)) (\<lambda>_. rm_bind (wait_for_exit e c t) (\<lambda>st.
      rm_bind (remove_child key) (\<lambda>_. rm_return st))) ?s2))"
    by (intro calm_then_fine [OF calm_kill_command killed] calm_then_fine [OF calm.keeps_wait] remove)
  then show ?thesis by (simp add: rm_bind_def [of "engine_kill e w"] rm_bind_def [of "kill_command e w g" for g] engine_kill_command)
qed

lemma stop_fine: "fine e key s (snd (stop_owned_child e key s))"
  unfolding stop_owned_child_def
proof (rule next_fine [OF calm.keeps_identity calm.R_refl])
  fix identity s1
  assume journal: "query_identity e key s = (Inr identity, s1)" and calm: "calm_step s s1"
  show "fine e key s (snd (rm_bind (rm_get (owned key)) (\<lambda>found.
     rm_bind (rm_lift (ok_or IdentityChanged found)) (\<lambda>mc.
     rm_bind (rm_lift (ok_or SessionUnknown (mc_session mc))) (\<lambda>session.
     rm_bind (read_boot_id e) (\<lambda>boot.
     rm_bind (read_starttime e (ch_pid (mc_child mc))) (\<lambda>starttime.
     rm_bind (engine_sessions e) (\<lambda>sessions.
     if \<not> same_identity identity mc session boot starttime sessions then rm_raise IdentityChanged
     else rm_bind (engine_kill e session) (\<lambda>_.
       rm_bind (wait_for_exit e (mc_child mc) STOP_TIMEOUT) (\<lambda>st.
       rm_bind (remove_child key) (\<lambda>_. rm_return st))))))))) s1))"
    apply (rule next_fine [OF calm.keeps_get calm])
    apply (rule next_fine [OF calm.keeps_lift], assumption)
    apply (rule next_fine [OF calm.keeps_lift], assumption)
    apply (rule next_fine [OF calm.keeps_boot_id], assumption)
    apply (rule next_fine [OF calm.keeps_starttime], assumption)
    apply (rule next_fine [OF calm.keeps_sessions], assumption)
    subgoal premises p for found s2 mc s3 session s4 boot s5 starttime s6 ws s7
    proof -
      have "found = owned key s" using p(1) calm by (simp add: rm_get_def calm_owned)
      then have mc: "owned key s = Some mc" "mc_session mc = Some session"
        using p(3,5) by (cases "owned key s"; cases "mc_session mc"; simp add: rm_lift_def ok_or_def rm_raise_def rm_return_def)+
      have "identified e key s session" if same: "same_identity identity mc session boot starttime ws"
      proof -
        have "journal_names identity mc session" using same mc(2) by (simp add: journal_names_def same_identity_def)
        moreover have "system_names e mc session s"
          unfolding system_names_def using p(6,7,9,11) same by (auto simp: same_identity_def)
        ultimately show ?thesis using mc(1) identity_result [OF journal] by (auto simp: identified_def)
      qed
      then show ?thesis
        using p(12) fine_stop_rest [OF p(12)] by (auto simp: rm_raise_def calm_fine)
    qed
    done
qed

lemma stop_removes: "stop_owned_child e key s = (Inr st, s') \<Longrightarrow> owned key s' = None"
proof -
  have last: "yields (\<lambda>_. True) (rm_bind (remove_child key) (\<lambda>_. rm_return st)) (\<lambda>_ s. owned key s = None)" for st :: exit_status
    by (auto simp: yields_def rm_bind_def remove_child_def rm_modify_def rm_return_def removed(1))
  have "yields (\<lambda>_. True) (stop_owned_child e key) (\<lambda>_ s. owned key s = None)"
    unfolding stop_owned_child_def
    by (rule yields_skip, rule yields_skip, rule yields_skip, rule yields_skip, rule yields_skip, rule yields_skip,
        rule yields_skip, rule yields_if [OF yields_raise], rule yields_skip, rule yields_skip, rule last)
  then show "stop_owned_child e key s = (Inr st, s') \<Longrightarrow> owned key s' = None" by (simp add: yields_def)
qed

text \<open>
  Claim C10. Stopping a service kills only a session for which the journal, the owned child, the
  process and the engine agree: the persisted session, alias, generation, process number, start
  time and boot are those of the child and of the system now, and the engine lists the session.
  When it succeeds the child is no longer owned.
\<close>

theorem stop_kills_only_identified:
  "case stop_owned_child e key s of
     (Inl _, s') \<Rightarrow> only_identified e key s s'
   | (Inr _, s') \<Rightarrow> only_identified e key s s' \<and> owned key s' = None"
proof -
  obtain r s' where run: "stop_owned_child e key s = (r, s')" by fastforce
  have "only_identified e key s s'" using fine_only [OF stop_fine [of e key s]] run by simp
  with run stop_removes [of e key s] show ?thesis by (cases r) simp_all
qed

end
