(* ===== verification/Control.thy ===== *)
theory Control
  imports Cli Daemon_Claims
begin

text \<open>
  The command line and the daemon together (\<^verbatim>\<open>src/cli.rs\<close>, \<^verbatim>\<open>src/protocol.rs\<close>,
  \<^verbatim>\<open>src/daemon.rs\<close>): a command whose socket leads to the daemon ends as the daemon's answer to
  its request says.
\<close>

section \<open>A command connected to a daemon\<close>

definition fresh_writer :: writer where
  "fresh_writer = \<lparr>wr_bytes = [], wr_room = None, wr_error = []\<rparr>"

text \<open>One connection of the daemon, on the bytes that arrive and the end of the stream.\<close>

definition exchange :: "'w env \<Rightarrow> codec \<Rightarrow> 'w rt \<Rightarrow> string \<Rightarrow> (stop + (protocol_error + unit) \<times> writer) \<times> 'w rt" where
  "exchange e cd s bytes = handle_connection e cd \<lparr>rd_bytes = bytes, rd_error = None\<rparr> fresh_writer s"

definition replied :: "'w env \<Rightarrow> codec \<Rightarrow> 'w rt \<Rightarrow> string \<Rightarrow> string" where
  "replied e cd s bytes = (case fst (exchange e cd s bytes) of Inl _ \<Rightarrow> [] | Inr (_, wr) \<Rightarrow> wr_bytes wr)"

definition connected :: "reply cli_env \<Rightarrow> 'w env \<Rightarrow> codec \<Rightarrow> 'w rt \<Rightarrow> bool" where
  "connected w e cd s \<longleftrightarrow> (case ce_prefix w of
     None \<Rightarrow> False
   | Some prefix \<Rightarrow> is_absolute prefix
       \<and> ce_connect w (pa_socket_path (new_paths prefix)) = Inr \<lparr>sk_writer = fresh_writer, sk_shutdown = Inr (),
           sk_reply = \<lambda>bytes. \<lparr>rd_bytes = replied e cd s bytes, rd_error = None\<rparr>\<rparr>)"

text \<open>\<^verbatim>\<open>serde_json\<close> on both sides: what one prints, on one line and within the limit, the other parses.\<close>

definition carried :: "('a \<Rightarrow> string + string) \<Rightarrow> (string \<Rightarrow> string + 'a) \<Rightarrow> 'a \<Rightarrow> bool" where
  "carried to_vec from_slice v \<longleftrightarrow> (case to_vec v of
     Inl _ \<Rightarrow> False
   | Inr frame \<Rightarrow> from_slice frame = Inr v \<and> newline \<notin> set frame \<and> length frame \<le> MAX_FRAME_BYTES)"

text \<open>What a command reports of a response.\<close>

definition reported :: "reply cli_env \<Rightarrow> string \<Rightarrow> string \<Rightarrow> reply response \<Rightarrow> cli_outcome" where
  "reported w c request r = (case validate_response r request of
     Inl x \<Rightarrow> exit_failure c (protocol_text x)
   | Inr _ \<Rightarrow> if rs_ok r then exit_ok [[Txt (ce_pretty w (the (rs_result r)))]]
       else exit_failure c (coded (re_code (the (rs_error r))) (re_message (the (rs_error r)))))"

lemma carried_frame:
  assumes "carried to_vec from_slice v"
  obtains frame where "write_frame to_vec v fresh_writer = (Inr (), fresh_writer\<lparr>wr_bytes := frame @ [newline]\<rparr>)"
    and "read_json_line from_slice \<lparr>rd_bytes = frame @ [newline], rd_error = None\<rparr> = (Inr (Some v), \<lparr>rd_bytes = [], rd_error = None\<rparr>)"
proof -
  obtain frame where frame: "to_vec v = Inr frame" "from_slice frame = Inr v" "newline \<notin> set frame" "length frame \<le> MAX_FRAME_BYTES"
    using assms by (auto simp: carried_def split: sum.splits)
  have "write_frame to_vec v fresh_writer = (Inr (), fresh_writer\<lparr>wr_bytes := frame @ [newline]\<rparr>)"
    using write_frame_bytes [of to_vec v frame fresh_writer] frame(1,4) by (simp add: fresh_writer_def)
  moreover have "read_json_line from_slice \<lparr>rd_bytes = frame @ [newline], rd_error = None\<rparr>
      = (Inr (Some v), \<lparr>rd_bytes = [], rd_error = None\<rparr>)"
    using read_line [OF frame(3), of "\<lparr>rd_bytes = frame @ [newline], rd_error = None\<rparr>" "[]" from_slice] frame(2,4) by simp
  ultimately show ?thesis by (rule that)
qed

lemma command_outcome:
  assumes "connected w e cd s" and "carried (ce_to_vec w) (cd_request cd) q"
    and answer: "answer_request e cd q s = (Inr r, s')" and "carried (cd_print cd) (ce_from_slice w) r"
  shows "send_control w c q = reported w c (request_id q) r"
    and "snd (exchange e cd s (wr_bytes (snd (write_frame (ce_to_vec w) q fresh_writer)))) = s'"
proof -
  from assms(1) obtain prefix where prefix: "ce_prefix w = Some prefix" "is_absolute prefix"
    "ce_connect w (pa_socket_path (new_paths prefix)) = Inr \<lparr>sk_writer = fresh_writer, sk_shutdown = Inr (),
       sk_reply = \<lambda>bytes. \<lparr>rd_bytes = replied e cd s bytes, rd_error = None\<rparr>\<rparr>"
    by (auto simp: connected_def split: option.splits)
  obtain asked where asked: "write_frame (ce_to_vec w) q fresh_writer = (Inr (), fresh_writer\<lparr>wr_bytes := asked @ [newline]\<rparr>)"
    "read_json_line (cd_request cd) \<lparr>rd_bytes = asked @ [newline], rd_error = None\<rparr> = (Inr (Some q), \<lparr>rd_bytes = [], rd_error = None\<rparr>)"
    using carried_frame [OF assms(2)] by blast
  obtain told where told: "write_frame (cd_print cd) r fresh_writer = (Inr (), fresh_writer\<lparr>wr_bytes := told @ [newline]\<rparr>)"
    "read_json_line (ce_from_slice w) \<lparr>rd_bytes = told @ [newline], rd_error = None\<rparr> = (Inr (Some r), \<lparr>rd_bytes = [], rd_error = None\<rparr>)"
    using carried_frame [OF assms(4)] by blast
  have ex: "exchange e cd s (asked @ [newline]) = (Inr (Inr (), fresh_writer\<lparr>wr_bytes := told @ [newline]\<rparr>), s')"
    using answer by (simp add: exchange_def handle_connection_def asked(2) rm_bind_def rm_return_def told(1))
  then show "snd (exchange e cd s (wr_bytes (snd (write_frame (ce_to_vec w) q fresh_writer)))) = s'"
    by (simp add: asked(1))
  show "send_control w c q = reported w c (request_id q) r"
    using ex told(2) by (simp add: send_control_def prefix asked(1) replied_def reported_def split: sum.split)
qed

section \<open>What exit code 0 means\<close>

lemma succeeded_kept: "succeeded r d \<Longrightarrow> but_responses d' = but_responses d \<Longrightarrow> succeeded r d'"
proof -
  let ?f = "\<lambda>r. r\<lparr>op_response := None, op_updated := 0\<rparr>"
  have strip: "succeeded r d = list_ex (\<lambda>x. op_request x = r \<and> op_outcome x = Some ''success'') (operations_tbl (but_responses d))" for d
    by (auto simp: succeeded_def but_responses_def list_ex_iff)
  assume "succeeded r d" and "but_responses d' = but_responses d"
  then show "succeeded r d'" by (simp add: strip)
qed

lemma fresh_replay:
  assumes "operation_replay r (rt_db s) = None" and "replay_response e cd r p n a b t s = (Inr x, s')"
  shows "x = None"
  using assms query_result [of e "operation_replay r" s]
  by (auto simp: replay_response_def rm_bind_def rm_return_def split: prod.splits sum.splits option.splits)

lemma once_fresh:
  assumes fresh: "operation_replay r (rt_db s) = None" and m: "yields (\<lambda>_. True) m Q"
    and run: "respond_once e cd r p n a b t m s = (Inr resp, s')" and ok: "rs_ok resp"
  shows "\<exists>st. resp = success r (Status_Reply st) \<and> Q st s'"
proof -
  obtain x s1 where x: "rm_attempt (replay_response e cd r p n a b t) s = (x, s1)" by fastforce
  obtain x0 where x0: "replay_response e cd r p n a b t s = (x0, s1)"
    using x by (auto simp: rm_attempt_def split: prod.splits sum.splits stop.splits)
  have "x0 = Inr z \<Longrightarrow> z = None" for z using x0 fresh_replay [OF fresh] by blast
  then consider (stop) "x0 = Inl Panic" | (error) y where "x0 = Inl (Raise y)" | (go) "x0 = Inr None"
    by (metis stop.exhaust sum.exhaust)
  then show ?thesis
  proof cases
    case stop
    with run x0 show ?thesis by (simp add: respond_once_def rm_bind_def rm_attempt_def)
  next
    case error
    with run x0 ok show ?thesis by (auto simp: respond_once_def rm_bind_def rm_attempt_def rm_return_def failure_def)
  next
    case go
    with run x0 have "respond r Status_Reply m s1 = (Inr resp, s')"
      by (simp add: respond_once_def rm_bind_def rm_attempt_def)
    then obtain y where y: "rm_attempt m s1 = (Inr y, s')"
      "resp = (case y of Inr a \<Rightarrow> success r (Status_Reply a) | Inl x \<Rightarrow> failure r (runtime_code x) (runtime_error_text x))"
      by (auto simp: respond_def rm_bind_def rm_return_def split: prod.splits sum.splits)
    with ok obtain st where st: "y = Inr st" by (cases y) (auto simp: failure_def)
    with y(1) have "m s1 = (Inr st, s')" by (auto simp: rm_attempt_def split: prod.splits sum.splits stop.splits)
    with m have "Q st s'" by (simp add: yields_def)
    with st y(2) show ?thesis by auto
  qed
qed

definition mutates :: "request \<Rightarrow> bool" where
  "mutates q \<longleftrightarrow> (case q of Up_Request _ _ _ _ \<Rightarrow> True | Down_Request _ _ _ \<Rightarrow> True | Restart_Request _ _ _ _ \<Rightarrow> True | _ \<Rightarrow> False)"

lemma checked_run:
  "checked_name r n m s = (Inr resp, s') \<Longrightarrow> rs_ok resp \<Longrightarrow> m s = (Inr resp, s')"
  by (auto simp: checked_name_def rm_return_def failure_def split: sum.splits)

lemma dispatch_journaled:
  assumes "mutates q" and fresh: "operation_replay (request_id q) (rt_db s) = None"
    and run: "dispatch e cd q s = (Inr resp, s')" and ok: "rs_ok resp"
  shows "succeeded (request_id q) (rt_db s')"
proof (cases q)
  case (Up_Request v r source base)
  then obtain m where "respond_once e cd r ''up'' (mf_name m) (Some source) (Some base) None (up e r source base m) s = (Inr resp, s')"
    using run ok by (auto simp: rm_panic_def rm_return_def failure_def split: sum.splits)
  moreover have "operation_replay r (rt_db s) = None" using fresh Up_Request by simp
  ultimately show ?thesis using once_fresh [OF _ yields_up _ ok] Up_Request by force
next
  case (Down_Request v r stack)
  then have "respond_once e cd r ''down'' stack None None None (down e r stack) s = (Inr resp, s')"
    using run checked_run [OF _ ok] by simp
  moreover have "operation_replay r (rt_db s) = None" using fresh Down_Request by simp
  ultimately show ?thesis using once_fresh [OF _ yields_down _ ok] Down_Request by force
next
  case (Restart_Request v r stack service)
  then have "respond_once e cd r ''restart'' stack None None (Some service) (restart e r stack service) s = (Inr resp, s')"
    using run checked_run [OF checked_run [OF _ ok] ok] by simp
  moreover have "operation_replay r (rt_db s) = None" using fresh Restart_Request by simp
  ultimately show ?thesis using once_fresh [OF _ yields_restart _ ok] Restart_Request by force
qed (use assms(1) in \<open>simp_all add: mutates_def\<close>)

lemma answer_journaled:
  assumes "mutates q" and fresh: "operation_replay (request_id q) (rt_db s) = None"
    and run: "answer_request e cd q s = (Inr resp, s')" and ok: "rs_ok resp"
  shows "succeeded (request_id q) (rt_db s')"
proof -
  have cached: "answering.keeps (rm_ignore (cache_response_for_request e cd q resp))"
    by (intro answering.keeps_rules answering_cache_request)
  obtain x where v: "validate_envelope q = Inr x"
    using run ok by (cases "validate_envelope q") (auto simp: answer_request_def rm_bind_def rm_return_def failure_def split: prod.splits sum.splits)
  then obtain s1 where d: "dispatch e cd q s = (Inr resp, s1)"
    and c: "rm_ignore (cache_response_for_request e cd q resp) s1 = (Inr (), s')"
    using run by (auto simp: answer_request_def rm_bind_def rm_return_def split: prod.splits sum.splits)
  from answering.keepsD [OF cached c] have "but_responses (rt_db s') = but_responses (rt_db s1)"
    by (simp add: answer_step_def)
  then show ?thesis using dispatch_journaled [OF assms(1) fresh d ok] succeeded_kept by blast
qed

section \<open>The two sides together\<close>

text \<open>
  Claim C12. A command connected to the daemon ends as the daemon's answer says: when the request
  and the response are carried by JSON on one line within the limit, the command's outcome is
  what the response reports for this request, and the daemon is left in the state its answer
  left it in.
\<close>

theorem command_reports_answer:
  assumes "connected w e cd s" and "carried (ce_to_vec w) (cd_request cd) q"
    and "answer_request e cd q s = (Inr r, s')" and "carried (cd_print cd) (ce_from_slice w) r"
  shows "send_control w c q = reported w c (request_id q) r
    \<and> snd (exchange e cd s (wr_bytes (snd (write_frame (ce_to_vec w) q fresh_writer)))) = s'"
  using command_outcome [OF assms] by simp

text \<open>
  Claim C11. Exit code 0 of an up, a down or a restart means that it is done: for a request the
  daemon's journal does not know yet, the command exits with 0 only if the daemon's database
  then has the operation finished with success.
\<close>

theorem exit_zero_is_journaled:
  assumes "connected w e cd s" and "carried (ce_to_vec w) (cd_request cd) q"
    and "answer_request e cd q s = (Inr r, s')" and "carried (cd_print cd) (ce_from_slice w) r"
    and "mutates q" and "operation_replay (request_id q) (rt_db s) = None"
    and "co_code (send_control w c q) = 0"
  shows "succeeded (request_id q) (rt_db s')"
proof -
  have "co_code (reported w c (request_id q) r) = 0" using command_outcome(1) [OF assms(1-4), of c] assms(7) by simp
  then have "rs_ok r"
    by (auto simp: reported_def exit_failure_def split: sum.splits if_splits)
  then show ?thesis by (rule answer_journaled [OF assms(5,6,3)])
qed

end
