(* ===== verification/Runtime_Sample.thy ===== *)
theory Runtime_Sample
  imports Runtime_Ops Store_Sample
begin

text \<open>
  A concrete environment of the runtime (\<^verbatim>\<open>src/runtime.rs\<close>), its world telling whether the
  process of a service is alive, and a stack whose service is being stopped in it: the session is
  listed, killed, and its exit observed.
\<close>

definition sample_status :: exit_status where
  "sample_status = \<lparr>es_code = Some 0, es_signal = None, es_text = ''exit status: 0''\<rparr>"

definition sample_env :: "bool env" where
  "sample_env =
     \<lparr>ev_clock = \<lambda>alive. (100, 0, alive), ev_store = \<lambda>alive. (None, 0, alive),
      ev_random = \<lambda>n alive. (Inr (replicate n 0), 0, alive),
      ev_engine = \<lambda>inv alive. (Inr \<lparr>eo_status = sample_status, eo_stdout = ''21'' @ [CHR 0x0A], eo_stderr = []\<rparr>, 5,
        alive \<and> hd (in_args inv) \<noteq> ''kill''),
      ev_spawn = \<lambda>inv out err alive. (Inr \<lparr>ch_pid = 20, ch_handle = 1\<rparr>, 5, True),
      ev_try_wait = \<lambda>c alive. (Inr (if alive then None else Some sample_status), 0, alive),
      ev_read = \<lambda>p alive. (Inr (if p = ''/proc/sys/kernel/random/boot_id'' then ''boot'' @ [CHR 0x0A]
        else ''20 (app) S 1 1 1 0 1 0 0 0 0 0 0 0 0 0 20 0 1 0 30''), 0, alive),
      ev_files = \<lambda>f alive. (f, 0, alive),
      ev_follow = \<lparr>fo_canonicalize = \<lambda>f p. Inr p, fo_metadata = \<lambda>f p. Inr (Dir 448)\<rparr>,
      ev_stat = \<lambda>p alive. (Inl (other_io ''none''), 0, alive), ev_open = \<lambda>m p alive. (Inl (other_io ''none''), 0, alive),
      ev_log = \<lambda>p alive. (\<lparr>lf_before = Inl ''none'', lf_open = Inl ''none'', lf_after = Inl ''none'', lf_seek = Inl ''none'',
        lf_contents = Inl ''none''\<rparr>, 0, alive),
      ev_listen = \<lambda>alive. (\<lambda>held p. Inr (), 0, alive), ev_oversleep = \<lambda>alive. ((), 1, alive),
      ev_fault = \<lambda>name alive. (None, 0, alive), ev_scan = \<lambda>t. [], ev_immediate = False\<rparr>"

definition sample_child :: managed_child where
  "sample_child = \<lparr>mc_child = \<lparr>ch_pid = 20, ch_handle = 1\<rparr>, mc_alias = ''w1'', mc_generation = 1, mc_starttime = 30,
     mc_boot = ''boot'', mc_session = Some 21, mc_restart = No, mc_started = 0\<rparr>"

definition sample_files :: fs where
  "sample_files = \<lparr>fs_node = \<lambda>p. None, fs_umask = 63, fs_fault = \<lambda>p. None\<rparr>"

definition sample_state :: "bool rt" where
  "sample_state = (initial_state (new_paths ''/p'') \<lparr>en_binary = ''proot-distro'', en_architecture = ''arm''\<rparr> ''i''
     sample_stopping sample_files 0 True) \<lparr>rt_children := [((''demo'', ''web''), sample_child)]\<rparr>"

text \<open>The run, effect by effect; the child is no longer owned afterwards.\<close>

lemma sample_stop_run:
  "(case stop_owned_child sample_env (''demo'', ''web'') sample_state of
     (r, s) \<Rightarrow> (r, rt_effects s, rt_children s, rt_world s))
   = (Inr sample_status, [Listed [21], Killed 21, Exited \<lparr>ch_pid = 20, ch_handle = 1\<rparr>], [], False)"
  by code_simp

text \<open>A reused process number: the start time differs, and nothing is killed.\<close>

lemma sample_stop_reused:
  "(case stop_owned_child (sample_env\<lparr>ev_read := \<lambda>p alive. (Inr (if p = ''/proc/sys/kernel/random/boot_id'' then ''boot''
        else ''20 (app) S 1 1 1 0 1 0 0 0 0 0 0 0 0 0 20 0 1 0 31''), 0, alive)\<rparr>) (''demo'', ''web'') sample_state of
     (r, s) \<Rightarrow> (r, rt_effects s)) = (Inl (Raise IdentityChanged), [Listed [21]])"
  by code_simp

end
