(* ===== verification/Control_Sample.thy ===== *)
theory Control_Sample
  imports Control Runtime_Sample
begin

text \<open>
  A concrete command and daemon (\<^verbatim>\<open>src/cli.rs\<close>, \<^verbatim>\<open>src/daemon.rs\<close>): a down of a stack whose
  service is stopped already.
\<close>

definition bare_db :: db where
  "bare_db = empty_db
     \<lparr>stacks_tbl := [demo_stack ''running'' ''failed'' False 5],
      services_tbl := [(demo_service ''web'' ''running'' ''failed'' None ''failed'' False 5)\<lparr>sv_config := JNull\<rparr>]\<rparr>"

definition bare_state :: "bool rt" where
  "bare_state = initial_state (new_paths ''/p'') \<lparr>en_binary = ''proot-distro'', en_architecture = ''arm''\<rparr> ''i''
     bare_db sample_files 0 True"

definition sample_down :: request where
  "sample_down = Down_Request VERSION ''r9'' ''demo''"

definition sample_codec :: codec where
  "sample_codec = \<lparr>cd_request = \<lambda>t. if t = ''down'' then Inr sample_down else Inl ''bad'', cd_print = \<lambda>r. Inr ''reply'',
     cd_journal = \<lambda>r. ''cached'', cd_replay = \<lambda>t. Inl ''bad''\<rparr>"

definition sample_response :: "reply response" where
  "sample_response = projr (fst (answer_request sample_env sample_codec sample_down bare_state))"

definition after_down :: "bool rt" where
  "after_down = snd (answer_request sample_env sample_codec sample_down bare_state)"

definition sample_cli :: "reply cli_env" where
  "sample_cli = \<lparr>ce_version = ''1'', ce_prefix = Some ''/p'', ce_pid = 7, ce_nanos = 8, ce_sequence = 9, ce_scan = \<lambda>t. [],
     ce_manifest_meta = \<lambda>p. Inl ''none'', ce_manifest_text = \<lambda>p. Inl ''none'',
     ce_follow = ev_follow sample_env, ce_fs = sample_files,
     ce_connect = \<lambda>p. if p = pa_socket_path (new_paths ''/p'')
       then Inr \<lparr>sk_writer = fresh_writer, sk_shutdown = Inr (),
         sk_reply = \<lambda>bytes. \<lparr>rd_bytes = replied sample_env sample_codec bare_state bytes, rd_error = None\<rparr>\<rparr>
       else Inl ''refused'',
     ce_to_vec = \<lambda>q. if q = sample_down then Inr ''down'' else Inl ''bad'',
     ce_from_slice = \<lambda>t. if t = ''reply'' then Inr sample_response else Inl ''bad'',
     ce_pretty = \<lambda>r. ''stopped'', ce_daemon = Inr ()\<rparr>"

lemma sample_answer:
  "case answer_request sample_env sample_codec sample_down bare_state of
     (Inl _, s) \<Rightarrow> False
   | (Inr r, s) \<Rightarrow> rs_ok r \<and> validate_response r ''r9'' = Inr ()"
  by code_simp

lemma sample_connected:
  "connected sample_cli sample_env sample_codec bare_state"
  "carried (ce_to_vec sample_cli) (cd_request sample_codec) sample_down"
  "carried (cd_print sample_codec) (ce_from_slice sample_cli) sample_response"
  by (simp_all add: connected_def carried_def sample_cli_def sample_codec_def is_absolute_def starts_with_def newline_def MAX_FRAME_BYTES_def)

lemma sample_result:
  "answer_request sample_env sample_codec sample_down bare_state = (Inr sample_response, after_down)"
  "rs_ok sample_response" "validate_response sample_response ''r9'' = Inr ()"
  using sample_answer by (auto simp: sample_response_def after_down_def split: prod.splits sum.splits)

lemma command_reports_answer_witness:
  "send_control sample_cli ''down'' sample_down = reported sample_cli ''down'' ''r9'' sample_response"
  using command_reports_answer [OF sample_connected(1,2) sample_result(1) sample_connected(3), of "''down''"]
  by (simp add: sample_down_def)

lemma exit_zero_is_journaled_witness:
  "succeeded ''r9'' (rt_db after_down)"
proof -
  have "co_code (send_control sample_cli ''down'' sample_down) = 0"
    using command_outcome(1) [OF sample_connected(1,2) sample_result(1) sample_connected(3), of "''down''"] sample_result(2,3)
    by (simp add: reported_def sample_down_def exit_ok_def)
  moreover have "mutates sample_down" by (simp add: mutates_def sample_down_def)
  moreover have "operation_replay (request_id sample_down) (rt_db bare_state) = None"
    by (simp add: operation_replay_def bare_state_def initial_state_def bare_db_def empty_db_def)
  ultimately show ?thesis
    using exit_zero_is_journaled [OF sample_connected(1,2) sample_result(1) sample_connected(3), of "''down''"]
    by (simp add: sample_down_def)
qed

end
