(* ===== verification/Runtime_Ready.thy ===== *)
theory Runtime_Ready
  imports Daemon_Claims
begin

text \<open>
  What the success of a request means for the processes: after an up every service of the start
  order is supervised and its session qualified, after a restart the service is, and after a down
  no service of the stack is supervised any more.
\<close>

section \<open>Qualified children\<close>

text \<open>A service is ready when the daemon owns a child for it whose session the engine has published.\<close>

definition ready :: "service_key \<Rightarrow> 'w rt \<Rightarrow> bool" where
  "ready k s \<longleftrightarrow> (case owned k s of None \<Rightarrow> False | Some mc \<Rightarrow> mc_session mc \<noteq> None)"

lemma bt_get_insert_any: "bt_get (bt_insert k v m) k' = (if k' = k then Some v else bt_get m k')"
  by (induction k v m rule: bt_insert.induct) (auto simp: bt_get_def)

lemma ready_calm: "ready k s \<Longrightarrow> calm_step s s' \<Longrightarrow> ready k s'"
  by (simp add: ready_def calm_owned)

lemma owned_simps [simp]:
  "owned k (s\<lparr>rt_children := bt_insert k' mc (rt_children s)\<rparr>) = (if k = k' then Some mc else owned k s)"
  "owned k (s\<lparr>rt_children := bt_remove k' (rt_children s)\<rparr>) = (if k = k' then None else owned k s)"
  "owned k (s\<lparr>rt_children := bt_modify k' f (rt_children s)\<rparr>) =
     (if k = k' then map_option f (owned k s) else owned k s)"
  "owned k (s\<lparr>rt_uncertain := us\<rparr>) = owned k s"
  "owned k (s\<lparr>rt_effects := es\<rparr>) = owned k s"
  "owned k (s\<lparr>rt_engine := g\<rparr>) = owned k s"
  "owned k (s\<lparr>rt_db := d\<rparr>) = owned k s"
  "owned k (s\<lparr>rt_fs := f'\<rparr>) = owned k s"
  "owned k (s\<lparr>rt_now := n, rt_world := w\<rparr>) = owned k s"
  by (auto simp: owned_def bt_get_insert_any bt_get_remove bt_get_modify)

text \<open>
  A computation advances when, if it ends with a result, services that were ready still are. Only
  a failure takes a child away, and the failures of a start are passed on.
\<close>

definition advances :: "service_key set \<Rightarrow> ('w, 'a) rm \<Rightarrow> bool" where
  "advances K m \<longleftrightarrow> (\<forall>k. k \<notin> K \<longrightarrow> yields (ready k) m (\<lambda>_. ready k))"

definition fails :: "('w, 'a) rm \<Rightarrow> bool" where
  "fails m \<longleftrightarrow> (\<forall>s a s'. m s \<noteq> (Inr a, s'))"

lemma yields_fails: "fails m \<Longrightarrow> yields P m Q"
  by (simp add: fails_def yields_def)

lemma fails_raise: "fails (rm_raise x)" and fails_panic: "fails rm_panic"
  by (simp_all add: fails_def rm_raise_def rm_panic_def)

lemma fails_bind: "(\<And>a. fails (k a)) \<Longrightarrow> fails (rm_bind m k)"
  by (auto simp: fails_def rm_bind_def split: prod.split sum.split)

lemma fails_if: "fails m \<Longrightarrow> fails m' \<Longrightarrow> fails (if b then m else m')"
  by simp

lemma fails_lift: "fails (rm_lift (Inl x))"
  by (simp add: rm_lift_def fails_raise)

lemma fails_contained: "fails (contain_and_fail e k c t x)"
  by (simp add: contain_and_fail_def fails_bind fails_raise)

lemmas fails_rules = fails_raise fails_panic fails_lift fails_if fails_bind

lemma advancesI:
  "(\<And>k s a s'. k \<notin> K \<Longrightarrow> ready k s \<Longrightarrow> m s = (Inr a, s') \<Longrightarrow> ready k s') \<Longrightarrow> advances K m"
  unfolding advances_def yields_def by blast

lemma advances_result: "advances K m \<Longrightarrow> k \<notin> K \<Longrightarrow> ready k s \<Longrightarrow> m s = (Inr a, s') \<Longrightarrow> ready k s'"
  unfolding advances_def yields_def by blast

lemma advances_yields: "advances K m \<Longrightarrow> k \<notin> K \<Longrightarrow> yields (ready k) m (\<lambda>_. ready k)"
  unfolding advances_def by blast

lemma advances_fails: "fails m \<Longrightarrow> advances K m"
  by (simp add: advances_def yields_fails)

lemma advances_calm: "calm.keeps m \<Longrightarrow> advances K m"
  unfolding advances_def yields_def by (blast intro: ready_calm calm.keepsD)

lemma advances_bind: "advances K m \<Longrightarrow> (\<And>a. advances K (k a)) \<Longrightarrow> advances K (rm_bind m k)"
  unfolding advances_def by (blast intro: yields_bind)

lemma advances_if: "(b \<Longrightarrow> advances K m) \<Longrightarrow> (\<not> b \<Longrightarrow> advances K m') \<Longrightarrow> advances K (if b then m else m')"
  by simp

lemma advances_for: "(\<And>x. x \<in> set xs \<Longrightarrow> advances K (f x)) \<Longrightarrow> advances K (rm_for xs f)"
  by (induction xs) (simp_all add: advances_bind advances_calm calm.keeps_return)

lemma advances_fold: "(\<And>x a. x \<in> set xs \<Longrightarrow> advances K (f x a)) \<Longrightarrow> advances K (rm_fold f xs a)"
  by (induction xs arbitrary: a) (simp_all add: advances_bind advances_calm calm.keeps_return)

lemma advances_attempt:
  assumes "advances K m" and "\<And>x. fails (k (Inl x))" and "\<And>a. advances K (k (Inr a))"
  shows "advances K (rm_bind (rm_attempt m) k)"
  unfolding advances_def
proof (intro allI impI yields_bind)
  fix key assume key: "key \<notin> K"
  then show "yields (ready key) (rm_attempt m) (\<lambda>r s. case r of Inl _ \<Rightarrow> True | Inr _ \<Rightarrow> ready key s)"
    using assms(1) by (intro yields_attempt advances_yields)
  show "yields (\<lambda>s. case r of Inl _ \<Rightarrow> True | Inr _ \<Rightarrow> ready key s) (k r) (\<lambda>_. ready key)" for r
    using yields_fails [OF assms(2)] advances_yields [OF assms(3) key] by (cases r) simp_all
qed

lemma advances_try:
  "advances K m \<Longrightarrow> (\<And>x. fails (f x)) \<Longrightarrow> (\<And>a. advances K (g a)) \<Longrightarrow>
     advances K (rm_bind (rm_attempt m) (\<lambda>r. case r of Inl x \<Rightarrow> f x | Inr a \<Rightarrow> g a))"
  by (rule advances_attempt) simp_all

lemma advances_prod: "(\<And>a b. x = (a, b) \<Longrightarrow> advances K (f a b)) \<Longrightarrow> advances K (case x of (a, b) \<Rightarrow> f a b)"
  by (cases x) simp

lemma advances_unless:
  "(\<And>a. fails (f a)) \<Longrightarrow> advances K m \<Longrightarrow> advances K (case x of None \<Rightarrow> m | Some a \<Rightarrow> f a)"
  by (cases x) (simp_all add: advances_fails)

lemma advances_if_fail: "fails m \<Longrightarrow> advances K m' \<Longrightarrow> advances K (if b then m else m')"
  by (simp add: advances_fails)

lemma yields_calm: "calm.keeps m \<Longrightarrow> yields (ready k) m (\<lambda>_. ready k)"
  by (rule advances_yields [OF advances_calm [where K = "{}"]]) simp_all

lemma advances_map_err: "advances K m \<Longrightarrow> advances K (rm_map_err f m)"
  unfolding rm_map_err_def
  by (rule advances_attempt) (simp_all add: fails_lift advances_calm calm.keeps_lift)

lemma advances_when: "advances K m \<Longrightarrow> advances K (rm_when b m)"
  by (simp add: rm_when_def advances_calm calm.keeps_return)

lemma advances_or_fail: "advances K body \<Longrightarrow> advances K (or_fail e r m o' failed ks body)"
  unfolding or_fail_def fail_start_def
  by (rule advances_try, assumption) (intro fails_rules advances_calm calm.keeps_return)+

lemma advances_or_abort: "advances K body \<Longrightarrow> advances K (or_abort_restart e r st v c body)"
  unfolding or_abort_restart_def
  by (rule advances_try, assumption) (intro fails_rules advances_calm calm.keeps_return)+

section \<open>Steps that touch a child\<close>

lemma advances_run: "advances K (engine_run e n opts a b)"
  by (auto simp: advances_def yields_def engine_run_def rm_bind_def rm_call_def rm_get_def rm_effect_def rm_modify_def
      rm_lift_def rm_return_def rm_raise_def ready_def split: prod.splits sum.splits)

lemma advances_insert: "k \<in> K \<Longrightarrow> advances K (insert_child k mc)"
  by (auto simp: advances_def yields_def insert_child_def rm_modify_def ready_def)

lemma advances_session: "advances K (set_session k w)"
  by (auto simp: advances_def yields_def set_session_def rm_bind_def rm_get_def rm_expect_def rm_modify_def rm_panic_def
      rm_return_def ready_def split: option.splits)

lemma ready_session: "yields (\<lambda>_. True) (set_session k w) (\<lambda>_. ready k)"
  by (auto simp: yields_def set_session_def rm_bind_def rm_get_def rm_expect_def rm_modify_def rm_panic_def
      rm_return_def ready_def split: option.splits)

lemmas advances_rules = advances_prod advances_when advances_if advances_bind

lemma advances_session_step: "advances K (session_step e k pid)"
  unfolding session_step_def exit_parts_def Let_def prod.case
  by (intro advances_bind advances_unless fails_rules advances_calm calm.quiet_rules)

lemma advances_session_loop: "advances K (session_loop e k pid deadline)"
  unfolding advances_def
proof (intro allI impI)
  fix key assume key: "key \<notin> K"
  have "fst (session_loop e k pid deadline s) = Inr a \<Longrightarrow> ready key s \<Longrightarrow> ready key (snd (session_loop e k pid deadline s))"
    for s a
  proof (induction e k pid deadline s rule: session_loop.induct)
    case (1 e k pid deadline s)
    obtain r s1 where t: "session_step e k pid s = (r, s1)" by fastforce
    show ?case
    proof (cases r)
      case (Inl x)
      with t 1 show ?thesis by (simp add: session_loop.simps [of e k pid deadline s])
    next
      case (Inr b)
      have one: "ready key s1"
        using advances_result [OF advances_session_step key 1(3)] t Inr by simp
      have two: "ready key (snd (sleep_ms e 50 s1))"
        by (rule ready_calm [OF one]) (rule calm.keeps_snd [OF calm.keeps_sleep])
      with one t Inr 1 show ?thesis
        by (cases b) (auto simp: session_loop.simps [of e k pid deadline s] split: if_splits)
    qed
  qed
  then show "yields (ready key) (session_loop e k pid deadline) (\<lambda>_. ready key)"
    unfolding yields_def by (metis fst_conv snd_conv)
qed

lemma advances_qualify: "advances K (qualify e m v j k pid)"
  unfolding qualify_def
  by (intro advances_bind advances_session_loop advances_session advances_calm calm.keeps_journal_running calm.keeps_get)
    (cases j; simp add: calm.quiet_rules calm.keeps_orders)

lemma ready_qualify: "yields (\<lambda>_. True) (qualify e m v j k pid) (\<lambda>_. ready k)"
  unfolding qualify_def
  by (rule yields_skip, rule yields_skip, rule yields_skip, rule yields_bind [OF ready_session])
    (intro yields_calm calm.keeps_journal_running)

lemma advances_adopt: "advances {k} (adopt_child e v n j k c)"
  unfolding adopt_child_def
  by (intro advances_try fails_contained advances_if_fail fails_bind fails_raise advances_bind advances_insert
      advances_calm calm.quiet_rules calm.keeps_identity calm.keeps_journal_starting) simp

text \<open>A result is passed on, and so is an error, after what there is to do about it.\<close>

lemma advances_pass_on:
  assumes "advances K m" and "\<And>a. calm.keeps (c (Inr a))"
  shows "advances K (rm_bind (rm_attempt m) (\<lambda>r. rm_bind (c r) (\<lambda>_. rm_lift r)))"
  using assms(1)
  by (rule advances_attempt) (auto intro: fails_bind fails_lift advances_bind advances_calm assms(2) calm.keeps_lift)

lemma yields_pass_on:
  assumes "yields P m (\<lambda>_. ready k)" and "\<And>a. calm.keeps (c (Inr a))"
  shows "yields P (rm_bind (rm_attempt m) (\<lambda>r. rm_bind (c r) (\<lambda>_. rm_lift r))) (\<lambda>_. ready k)"
proof (rule yields_bind [OF yields_attempt [OF assms(1)]])
  show "yields (\<lambda>s. case r of Inl _ \<Rightarrow> True | Inr a \<Rightarrow> ready k s) (rm_bind (c r) (\<lambda>_. rm_lift r)) (\<lambda>_. ready k)" for r
    by (cases r)
      (auto intro: yields_fails fails_bind fails_lift yields_bind [OF yields_calm [OF assms(2)]] yields_calm calm.keeps_lift)
qed

lemma set_aside_calm: "calm.keeps (rm_when (\<not> is_ok (Inr a)) q)"
  by (simp add: rm_when_def calm.keeps_return)

lemma advances_spawn_others: "advances {(mf_name m, se_name v)} (spawn_and_qualify e b m v n a c j)"
  unfolding spawn_and_qualify_def Let_def
  by (intro advances_pass_on set_aside_calm advances_if_fail fails_raise advances_bind advances_run advances_adopt
      advances_qualify advances_calm calm.quiet_rules calm.keeps_files)

lemma ready_spawn: "yields (\<lambda>_. True) (spawn_and_qualify e b m v n a c j) (\<lambda>_. ready (mf_name m, se_name v))"
  unfolding spawn_and_qualify_def Let_def
  by (intro yields_pass_on set_aside_calm yields_if yields_raise yields_skip ready_qualify)

lemma advances_spawn: "advances K (spawn_and_qualify e b m v n a c j)"
proof (rule advancesI)
  fix k s r s' assume "ready k s" and run: "spawn_and_qualify e b m v n a c j s = (Inr r, s')"
  then show "ready k s'"
    using ready_spawn [of e b m v n a c j] advances_result [OF advances_spawn_others _ _ run]
    by (cases "k = (mf_name m, se_name v)") (auto simp: yields_def)
qed

section \<open>Services\<close>

lemma yields_stable: "calm.keeps m \<Longrightarrow> (\<And>s s'. P s \<Longrightarrow> calm_step s s' \<Longrightarrow> P s') \<Longrightarrow> yields P m (\<lambda>_. P)"
  unfolding yields_def by (blast intro: calm.keepsD)

lemma ready_revalidate: "yields (\<lambda>s. owned k s = Some mc) (revalidate e k mc) (\<lambda>_. ready k)"
proof (cases "mc_session mc")
  case None
  then show ?thesis by (simp add: revalidate_def yields_fails fails_lift rm_bind_def rm_lift_def rm_raise_def fails_def)
next
  case (Some w)
  have "yields (\<lambda>s. owned k s = Some mc) (revalidate e k mc) (\<lambda>_ s. owned k s = Some mc)"
    by (rule yields_stable [OF calm.keeps_revalidate]) (simp add: calm_owned)
  with Some show ?thesis by (auto simp: yields_def ready_def)
qed

lemma fails_observed: "fails (observed_exit e k mc st)"
  unfolding observed_exit_def exit_parts_def Let_def prod.case by (intro fails_bind fails_if fails_raise)

lemma yields_get: "(\<And>a. yields (\<lambda>s. P s \<and> f s = a) (k a) Q) \<Longrightarrow> yields P (rm_bind (rm_get f) k) Q"
  by (rule yields_bind [where R = "\<lambda>a s. P s \<and> f s = a"]) (simp_all add: yields_def rm_get_def)

lemma yields_lift: "(\<And>a. r = Inr a \<Longrightarrow> yields P (k a) Q) \<Longrightarrow> yields P (rm_bind (rm_lift r) k) Q"
  by (cases r) (simp_all add: yields_def rm_bind_def rm_lift_def rm_raise_def rm_return_def)

lemma ready_owned_turn:
  "yields (\<lambda>s. owned k s = Some mc) (case r of
      Inl x \<Rightarrow> rm_bind (quarantine_managed_child e k) (\<lambda>_. rm_raise (g x))
    | Inr (Some st) \<Rightarrow> observed_exit e k mc st
    | Inr None \<Rightarrow> rm_bind (rm_attempt (revalidate e k mc)) (\<lambda>v.
        rm_bind (rm_when (\<not> is_ok v) (quarantine_managed_child e k)) (\<lambda>_. rm_lift v))) (\<lambda>_. ready k)"
  by (auto intro: yields_fails fails_bind fails_raise fails_observed yields_pass_on ready_revalidate set_aside_calm
      split: sum.split option.split)

lemma ready_validate: "yields (\<lambda>_. True) (validate_owned_service_running e k) (\<lambda>_. ready k)"
  unfolding validate_owned_service_running_def
proof (rule yields_skip, rule yields_if [OF yields_raise], rule yields_get, rule yields_lift, rule yields_bind)
  fix found :: "managed_child option" and mc
  assume "ok_or IdentityChanged found = Inr mc"
  then have "found = Some mc" by (simp add: ok_or_Inr_iff)
  then show "yields (\<lambda>s. True \<and> owned k s = found) (rm_attempt (try_wait e (mc_child mc))) (\<lambda>_ s. owned k s = Some mc)"
    by (simp add: yields_stable calm.keeps_attempt calm.keeps_try_wait calm_owned)
qed (rule ready_owned_turn)

lemma advances_owned_turn:
  "advances K (case r of
      Inl x \<Rightarrow> rm_bind (quarantine_managed_child e k) (\<lambda>_. rm_raise (g x))
    | Inr (Some st) \<Rightarrow> observed_exit e k mc st
    | Inr None \<Rightarrow> rm_bind (rm_attempt (revalidate e k mc)) (\<lambda>v.
        rm_bind (rm_when (\<not> is_ok v) (quarantine_managed_child e k)) (\<lambda>_. rm_lift v)))"
proof -
  have again: "advances K (rm_bind (rm_attempt (revalidate e k mc)) (\<lambda>v.
      rm_bind (rm_when (\<not> is_ok v) (quarantine_managed_child e k)) (\<lambda>_. rm_lift v)))" for mc
    by (intro advances_pass_on set_aside_calm advances_calm calm.keeps_revalidate)
  then show ?thesis by (auto intro: advances_fails fails_bind fails_raise fails_observed split: sum.split option.split)
qed

lemma advances_validate: "advances K (validate_owned_service_running e k)"
  unfolding validate_owned_service_running_def
  by (intro advances_if_fail fails_raise advances_owned_turn advances_bind advances_calm calm.quiet_rules)

lemma advances_dependencies: "advances K (ensure_dependencies_running e m v)"
  unfolding ensure_dependencies_running_def
  by (intro advances_for advances_if_fail fails_raise advances_map_err advances_validate advances_bind
      advances_calm calm.keeps_get)

lemma started_calm:
  "calm.keeps (case Inr a of Inr _ \<Rightarrow> rm_return () | Inl x \<Rightarrow> record_operation_failure e r n v x)"
  by (simp add: calm.keeps_return)

lemma advances_start_child: "advances K (start_operation_child e r b m v n a c)"
  unfolding start_operation_child_def
  by (intro advances_pass_on started_calm advances_bind advances_spawn advances_calm
      calm.keeps_store_call journaled_operations)

lemma ready_start_child: "yields (\<lambda>_. True) (start_operation_child e r b m v n a c) (\<lambda>_. ready (mf_name m, se_name v))"
  unfolding start_operation_child_def
  by (intro yields_skip yields_pass_on started_calm ready_spawn)

section \<open>Stacks\<close>

abbreviation all_ready :: "string \<Rightarrow> string set \<Rightarrow> 'w rt \<Rightarrow> bool" where
  "all_ready stack V s \<equiv> \<forall>v \<in> V. ready (stack, v) s"

lemma yields_all: "advances {} m \<Longrightarrow> yields (all_ready stack V) m (\<lambda>_. all_ready stack V)"
  unfolding advances_def yields_def by blast

lemma yields_more:
  "advances {} m \<Longrightarrow> yields (\<lambda>_. True) m (\<lambda>_. all_ready stack W) \<Longrightarrow> yields (all_ready stack V) m (\<lambda>_. all_ready stack (V \<union> W))"
  unfolding advances_def yields_def by blast

lemma yields_pre: "yields P m Q \<Longrightarrow> (\<And>s. P' s \<Longrightarrow> P s) \<Longrightarrow> yields P' m Q"
  unfolding yields_def by blast

lemma yields_result:
  "(\<And>x. fails (f x)) \<Longrightarrow> (\<And>a. r = Inr a \<Longrightarrow> yields P (g a) Q) \<Longrightarrow> yields P (case r of Inl x \<Rightarrow> f x | Inr a \<Rightarrow> g a) Q"
  by (cases r) (simp_all add: yields_fails)

lemma yields_expect: "(\<And>a. x = Some a \<Longrightarrow> yields P (k a) Q) \<Longrightarrow> yields P (rm_bind (rm_expect x) k) Q"
  by (cases x) (simp_all add: yields_def rm_bind_def rm_expect_def rm_panic_def rm_return_def)

lemma ready_fold:
  assumes "\<And>x a. advances {} (f x a)"
    and "\<And>x a. yields (\<lambda>_. True) (f x a) (\<lambda>_. ready (stack, g x))"
  shows "yields (all_ready stack V) (rm_fold f xs a) (\<lambda>_. all_ready stack (V \<union> g ` set xs))"
proof (induction xs arbitrary: V a)
  case (Cons x xs)
  have "yields (all_ready stack V) (f x a) (\<lambda>_. all_ready stack (V \<union> {g x}))"
    using assms(2) by (intro yields_more assms(1)) simp
  from yields_bind [OF this Cons.IH] show ?case by (simp add: Un_assoc)
qed (simp add: yields_return)

lemma ok_service: "manifest_ok m \<Longrightarrow> bt_get (mf_services m) n = Some v \<Longrightarrow> se_name v = n"
  using bt_get_Some_in [of "mf_services m" n v] by (auto simp: manifest_ok_def service_ok_def)

lemma ok_order:
  assumes "manifest_ok m"
  obtains order where "start_order m = Inr order" and "set order = set (bt_keys (mf_services m))"
proof -
  from manifest_ok_order [OF assms] obtain order where
    "topological_order (mf_services m) = Inr (Inr order)" "start_order_spec (mf_services m) order" .
  then have "start_order m = Inr order" "set order = set (bt_keys (mf_services m))"
    by (simp_all add: start_order_def start_order_spec_def names_def bt_keys_def)
  then show thesis by (rule that)
qed

lemma advances_prepared: "advances K (start_prepared e r b m v plan l)"
  unfolding start_prepared_def
  by (intro advances_try fails_bind fails_raise advances_dependencies advances_start_child)

lemma ready_prepared: "yields (\<lambda>_. True) (start_prepared e r b m v plan l) (\<lambda>_. ready (mf_name m, se_name v))"
  unfolding start_prepared_def
  by (intro yields_skip yields_result fails_bind fails_raise ready_start_child)

lemma advances_installed: "advances K (start_installed_candidate e r b m v plan)"
  unfolding start_installed_candidate_def
  by (intro advances_bind advances_prepared advances_calm calm.keeps_open_logs)

lemma advances_install: "advances K (install_and_start_candidate e r b m v plan)"
  unfolding install_and_start_candidate_def Let_def
  by (intro advances_try fails_bind fails_raise advances_bind advances_prepared advances_calm calm.quiet_rules
      calm.keeps_prepare_logs calm.keeps_orders journaled_operations)

lemma ready_install:
  "yields (\<lambda>_. True) (start_installed_candidate e r b m v plan) (\<lambda>_. ready (mf_name m, se_name v))"
  "yields (\<lambda>_. True) (install_and_start_candidate e r b m v plan) (\<lambda>_. ready (mf_name m, se_name v))"
  unfolding start_installed_candidate_def install_and_start_candidate_def Let_def
  by (intro yields_skip yields_result fails_bind fails_raise ready_prepared)+

lemma advances_checkpoint: "advances K (rm_when b (or_fail e r m o' failed ks (fault_checkpoint e n)))"
  by (intro advances_when advances_or_fail advances_calm calm.keeps_fault)

lemma advances_candidate: "advances K (start_candidate e r b m ps o' iv ks)"
  unfolding start_candidate_def Let_def
  by (intro advances_checkpoint advances_prod advances_bind advances_or_fail advances_if advances_installed advances_install
      advances_calm calm.keeps_expect calm.keeps_return)

lemma ready_candidate:
  assumes "manifest_ok m"
  shows "yields (\<lambda>_. True) (start_candidate e r b m ps o' iv ks) (\<lambda>_. ready (mf_name m, snd iv))"
  unfolding start_candidate_def Let_def split_beta
proof (rule yields_expect, rule yields_skip, rule yields_bind [where R = "\<lambda>_. ready (mf_name m, snd iv)"])
  fix v and p :: "service_plan \<times> bool"
  assume "bt_get (mf_services m) (snd iv) = Some v"
  with ready_install [where m = m and v = v] ok_service [OF assms]
  show "yields (\<lambda>_. True) (or_fail e r m o' (rm_return (snd iv)) ks
      (if snd p then start_installed_candidate e r b m v (fst p) else install_and_start_candidate e r b m v (fst p)))
      (\<lambda>_. ready (mf_name m, snd iv))"
    by (intro yields_or_fail yields_if) simp_all
qed (intro advances_yields [where K = "{}"] advances_bind advances_checkpoint advances_calm calm.keeps_return, simp)

definition whole_stack :: "manifest \<Rightarrow> 'w rt \<Rightarrow> bool" where
  "whole_stack m = all_ready (mf_name m) (set (bt_keys (mf_services m)))"

lemma yields_whole: "advances {} m' \<Longrightarrow> yields (whole_stack m) m' (\<lambda>_. whole_stack m)"
  unfolding whole_stack_def by (rule yields_all)

lemma ready_prepare:
  assumes "manifest_ok m"
  shows "yields (\<lambda>_. True) (prepare_candidate e r t b m) (\<lambda>_. whole_stack m)"
proof -
  from ok_order [OF assms] obtain order where o: "start_order m = Inr order"
    and all: "set order = set (bt_keys (mf_services m))" .
  have seen: "snd ` set (enumerate 0 order) = set (bt_keys (mf_services m))"
    using all by (metis list.set_map map_snd_enumerate)
  have started: "yields (\<lambda>_. True) (rm_fold (start_candidate e r b m ps order) (enumerate 0 order) []) (\<lambda>_. whole_stack m)" for ps
    using ready_fold [where f = "start_candidate e r b m ps order" and V = "{}" and g = snd and xs = "enumerate 0 order",
      OF advances_candidate ready_candidate [OF assms]]
    by (simp only: seen whole_stack_def Un_empty_left ball_empty)
  show ?thesis
    unfolding prepare_candidate_def start_order_of_def o sum.case bind_return
    by (rule yields_skip, rule yields_skip, rule yields_skip, rule yields_skip, rule yields_bind [OF started])
      (intro yields_whole advances_bind advances_or_fail advances_calm calm.keeps_fault calm.keeps_store_call
        calm.keeps_required_status journaled_operations)
qed

lemma advances_current_one: "advances K (start_current_one e r b m o' x n ks)"
  unfolding start_current_one_def
  by (intro advances_prod advances_bind advances_or_fail advances_dependencies advances_start_child advances_calm
      calm.keeps_expect calm.keeps_return calm.keeps_handles)

lemma ready_current_one:
  assumes "manifest_ok m"
  shows "yields (\<lambda>_. True) (start_current_one e r b m o' x n ks) (\<lambda>_. ready (mf_name m, n))"
  unfolding start_current_one_def split_beta
proof (rule yields_expect, rule yields_skip, rule yields_skip, rule yields_bind [where R = "\<lambda>_. ready (mf_name m, n)"])
  fix v and h :: "string \<times> string \<times> string"
  assume "bt_get (mf_services m) n = Some v"
  with ready_start_child [where m = m and v = v] ok_service [OF assms]
  show "yields (\<lambda>_. True) (or_fail e r m o' (rm_return n) ks
      (start_operation_child e r b m v (fst h) (fst (snd h)) (snd (snd h)))) (\<lambda>_. ready (mf_name m, n))"
    by (intro yields_or_fail) simp
qed (intro yields_calm calm.keeps_return)

lemma ready_services:
  assumes "manifest_ok m"
  shows "yields (all_ready (mf_name m) V) (start_current_services e r p m b missing c)
    (\<lambda>_. all_ready (mf_name m) (V \<union> set missing))"
proof -
  have started: "yields (all_ready (mf_name m) V) (rm_fold (start_current_one e r b m o' x) missing [])
      (\<lambda>_. all_ready (mf_name m) (V \<union> set missing))" for o' x
    using ready_fold [where g = "\<lambda>n. n", OF advances_current_one ready_current_one [OF assms]] by simp
  show ?thesis
    unfolding start_current_services_def
    by (rule yields_bind [OF yields_all], rule advances_calm, intro calm.keeps_store_call journaled_operations,
        rule yields_bind [OF yields_all], rule advances_or_fail, rule advances_calm, rule calm.keeps_required_stack,
        rule yields_bind [OF started])
      (intro yields_all advances_bind advances_or_fail advances_calm calm.keeps_store_call
        calm.keeps_required_status journaled_operations)
qed

text \<open>Each service of an unchanged stack is found running, or it is among those to be started.\<close>

definition found_or_missing :: "string \<Rightarrow> string set \<Rightarrow> string list \<Rightarrow> 'w rt \<Rightarrow> bool" where
  "found_or_missing stack V missing s \<longleftrightarrow> (\<forall>v \<in> V. v \<in> set missing \<or> ready (stack, v) s)"

lemma ready_classify:
  "yields (found_or_missing stack V missing) (classify_service e stack x n missing)
     (\<lambda>missing'. found_or_missing stack (insert n V) missing')"
proof -
  let ?P = "found_or_missing stack V missing"
  have run: "yields ?P (rm_bind (validate_owned_service_running e (stack, n)) (\<lambda>_. rm_return missing))
      (\<lambda>missing'. found_or_missing stack (insert n V) missing')"
  proof (rule yields_bind [where R = "\<lambda>_ s. ?P s \<and> ready (stack, n) s"])
    show "yields ?P (validate_owned_service_running e (stack, n)) (\<lambda>_ s. ?P s \<and> ready (stack, n) s)"
      using ready_validate [of e "(stack, n)"] advances_validate [of "{}" e "(stack, n)"]
      unfolding yields_def advances_def found_or_missing_def by blast
  qed (auto simp: found_or_missing_def intro!: yields_return)
  have add: "yields ?P (rm_return (missing @ [n])) (\<lambda>missing'. found_or_missing stack (insert n V) missing')"
    by (rule yields_return) (auto simp: found_or_missing_def)
  show ?thesis
    unfolding classify_service_def
    by (rule yields_expect, rule yields_get, rule yields_if, rule yields_if, rule yields_raise)
      (auto intro: yields_raise yields_pre [OF run] yields_pre [OF add])
qed

lemma ready_classify_all:
  "yields (found_or_missing stack V missing) (rm_fold (classify_service e stack x) ns missing)
     (\<lambda>missing'. found_or_missing stack (V \<union> set ns) missing')"
proof (induction ns arbitrary: V missing)
  case (Cons n ns)
  from yields_bind [OF ready_classify Cons.IH] show ?case by simp
qed (simp add: yields_return)

lemma ready_converge:
  assumes "manifest_ok m"
  shows "yields (\<lambda>_. True) (converge e r t b m x) (\<lambda>_. whole_stack m)"
proof -
  from ok_order [OF assms] obtain order where o: "start_order m = Inr order"
    and all: "set order = set (bt_keys (mf_services m))" .
  have found: "yields (\<lambda>_. True) (rm_fold (classify_service e (mf_name m) x) order [])
      (found_or_missing (mf_name m) (set order))"
    using yields_pre [OF ready_classify_all [of "mf_name m" "{}" "[]" e x order], of "\<lambda>_. True"]
    by (simp add: found_or_missing_def)
  have noop: "yields (found_or_missing (mf_name m) (set order) [])
      (rm_bind (store_call e n) (\<lambda>_. required_status e (mf_name m))) (\<lambda>_. whole_stack m)"
    if "\<And>clk. journaled (n clk)" for n :: "int \<Rightarrow> unit tx"
  proof -
    have "yields (whole_stack m) (rm_bind (store_call e n) (\<lambda>_. required_status e (mf_name m))) (\<lambda>_. whole_stack m)"
      by (intro yields_whole advances_bind advances_calm calm.keeps_store_call calm.keeps_required_status that)
    then show ?thesis by (rule yields_pre) (simp add: found_or_missing_def whole_stack_def all)
  qed
  have start: "yields (found_or_missing (mf_name m) (set order) missing)
      (start_current_services e r p m b missing c) (\<lambda>_. whole_stack m)" for p missing c
  proof -
    let ?V = "{v \<in> set order. v \<notin> set missing}"
    have "set (bt_keys (mf_services m)) \<subseteq> ?V \<union> set missing" using all by auto
    then show ?thesis
      using ready_services [OF assms, of ?V e r p b missing c]
      unfolding yields_def found_or_missing_def whole_stack_def by blast
  qed
  show ?thesis
    unfolding converge_def start_order_of_def o sum.case bind_return
    by (rule yields_skip, rule yields_if [OF yields_raise], rule yields_bind [OF found], rule yields_if)
      (simp_all add: noop journaled_operations start)
qed

lemma ready_up:
  assumes "manifest_ok m"
  shows "yields (\<lambda>_. True) (up e r t b m) (\<lambda>_. whole_stack m)"
proof -
  have "yields (\<lambda>_. True) (case found of None \<Rightarrow> prepare_candidate e r t b m | Some existing \<Rightarrow>
      if ambiguous_stack existing then rm_raise x
      else if c existing then converge e r t b m existing
      else if c' existing then rm_raise y else prepare_candidate e r t b m) (\<lambda>_. whole_stack m)"
    for found c c' x y
    by (cases found) (auto intro: ready_prepare [OF assms] ready_converge [OF assms] yields_raise)
  then show ?thesis unfolding up_def by (intro yields_skip)
qed

section \<open>Down\<close>

text \<open>The services of the journal, without what changes about them.\<close>

definition roster :: "db \<Rightarrow> (string \<times> string \<times> bool) list" where
  "roster d = map (\<lambda>r. (sv_stack r, sv_name r, sv_active r)) (services_tbl d)"

interpretation roster: tx_relation "\<lambda>d d'. roster d' = roster d"
  by unfold_locales simp_all

lemma roster_change:
  "(\<And>r. sv_key (f r) = sv_key r \<and> sv_active (f r) = sv_active r) \<Longrightarrow>
     map (\<lambda>r. (sv_stack r, sv_name r, sv_active r)) (change p f rs) = map (\<lambda>r. (sv_stack r, sv_name r, sv_active r)) rs"
  by (induction rs) (simp_all add: change_def sv_key_def)

lemma roster_services:
  "(\<And>r. sv_key (f r) = sv_key r \<and> sv_active (f r) = sv_active r) \<Longrightarrow> roster.keeps (update_services p f)"
  unfolding update_services_def
  by (intro roster.keeps_bind roster.keeps_query roster.keeps_return roster.keeps_exec) (simp add: roster_def roster_change)

lemma roster_others:
  "roster.keeps (update_stacks p f)" "roster.keeps (update_rootfs p2 f2)" "roster.keeps (update_operations p3 f3)"
  "roster.keeps (update_opservices p4 f4)"
  unfolding update_stacks_def update_rootfs_def update_operations_def update_opservices_def
  by (intro roster.keeps_bind roster.keeps_query roster.keeps_return roster.keeps_exec, simp add: roster_def)+

lemmas roster_rules = roster.keeps_rules roster_services roster_others

lemma roster_refresh: "roster.keeps (refresh_stack_state stack now)"
  unfolding refresh_stack_state_def by (intro roster_rules)

lemma roster_phase: "roster.keeps (set_service_phase request stack service phase now)"
  unfolding set_service_phase_def by (intro roster_rules) (simp add: sv_key_def)

lemma roster_down:
  "roster.keeps (mark_stop_invoked request stack service clk)"
  "roster.keeps (mark_stopped request stack service code sig clk)"
  "roster.keeps (finish_down request stack clk)"
  unfolding mark_stop_invoked_def set_candidate_phase_def mark_stopped_def finish_down_def
  by (intro roster_rules roster_phase roster_refresh; simp add: sv_key_def)+

lemma roster_names: "roster d' = roster d \<Longrightarrow> service_names stack d' = service_names stack d"
proof -
  have "map sv_name (filter (\<lambda>r. sv_stack r = stack \<and> sv_active r) (services_tbl d)) =
      map (\<lambda>x. fst (snd x)) (filter (\<lambda>x. fst x = stack \<and> snd (snd x)) (roster d))" for d
    by (simp add: roster_def filter_map comp_def)
  then show "roster d' = roster d \<Longrightarrow> ?thesis" by (simp add: service_names_def)
qed

lemma status_names:
  assumes "stack_status stack d = Some st"
  shows "set (map ss_name (st_services st)) = set (service_names stack d)"
proof -
  have name: "ss_name (service_status_of revision d r) = sv_name r" for revision r
    by (simp add: service_status_of_def Let_def)
  from assms have "set (map ss_name (st_services st)) = sv_name ` set (active_rows stack d)"
    by (auto simp: stack_status_def name image_image)
  then show ?thesis by (simp add: active_rows_def active_of_def service_names_def set_bs_of)
qed

text \<open>The intent of a down names every service of the stack.\<close>

lemma roster_begin: "roster.keeps (begin_down request stack order clk)"
proof -
  have inserts: "roster.keeps (insert_operation r)" "roster.keeps (insert_opservice r')" for r r'
    unfolding insert_operation_def insert_opservice_def by (rule roster.keeps_exec, simp add: roster_def)+
  show ?thesis
    unfolding begin_down_def begin_down_service_def reject_unfinished_operation_def Let_def
    by (intro roster_rules roster_refresh inserts) (simp_all add: sv_key_def)
qed

lemma down_intent:
  assumes "begin_down request stack order clk d = Inr (a, d')"
  shows "set (service_names stack d') = set order"
proof -
  have "service_names stack d = bs_of order"
    using assms
    by (auto simp: begin_down_def tx_bind_def tx_query_def tx_check_def tx_lift_def tx_return_def res_simps
        dest: reject_same split: if_splits)
  moreover have "service_names stack d' = service_names stack d"
    using roster_names roster.keepsD [OF roster_begin assms] by blast
  ultimately show ?thesis by (simp add: set_bs_of)
qed

text \<open>What the steps of a down keep: no service gains a child, and the services of the journal stay the same.\<close>

definition emptier :: "'w rt \<Rightarrow> 'w rt \<Rightarrow> bool" where
  "emptier s s' \<longleftrightarrow> (\<forall>k. owned k s = None \<longrightarrow> owned k s' = None) \<and> roster (rt_db s') = roster (rt_db s)"

interpretation emptier: rt_calls emptier
  by unfold_locales (auto simp: emptier_def)

lemma emptier_call: "(\<And>clk. roster.keeps (m clk)) \<Longrightarrow> emptier.keeps (store_call e m)"
  by (intro emptier.keeps_call_step emptier.keeps_tx_step) (auto simp: emptier_def dest: roster.keepsD)

lemma emptier_query: "emptier.keeps (store_query e (tx_query f))" "emptier.keeps (store_query e (tx_read g))"
  by (intro emptier.keeps_query_step emptier.keeps_tx_step; auto simp: emptier_def tx_query_def tx_read_def res_simps)+

lemma emptier_stop: "emptier.keeps (stop_owned_child e k)"
  unfolding stop_owned_child_def query_identity_def engine_kill_def remove_child_def
  by (intro emptier.call_rules emptier_query emptier.keeps_wait emptier.keeps_modify emptier.keeps_effect)
    (auto simp: emptier_def)

lemma emptier_service: "emptier.keeps (down_service e r stack st iv)"
  unfolding down_service_def exit_parts_def Let_def prod.case split_beta
  by (intro emptier.call_rules emptier_call emptier_stop roster_down)

lemma emptier_status: "emptier.keeps (required_status e stack)"
  unfolding required_status_def by (intro emptier.call_rules emptier_query)

text \<open>After its step a service has no child, and no later step gives it one.\<close>

definition gone :: "string \<Rightarrow> string set \<Rightarrow> 'w rt \<Rightarrow> bool" where
  "gone stack V s \<longleftrightarrow> (\<forall>v \<in> V. owned (stack, v) s = None)"

definition on_roster :: "string \<Rightarrow> string set \<Rightarrow> 'w rt \<Rightarrow> bool" where
  "on_roster stack V s \<longleftrightarrow> set (service_names stack (rt_db s)) = V"

lemma yields_emptier:
  "emptier.keeps m \<Longrightarrow> yields (\<lambda>s. on_roster stack W s \<and> gone stack V s) m (\<lambda>_ s. on_roster stack W s \<and> gone stack V s)"
  unfolding yields_def on_roster_def gone_def
  by (metis emptier_def emptier.keepsD roster_names)

lemma gone_Un: "gone stack (V \<union> W) s \<longleftrightarrow> gone stack V s \<and> gone stack W s"
  by (auto simp: gone_def)

lemma yields_conj:
  "yields P m Q \<Longrightarrow> yields P' m Q' \<Longrightarrow> yields (\<lambda>s. P s \<and> P' s) m (\<lambda>a s. Q a s \<and> Q' a s)"
  unfolding yields_def by blast

lemma gone_keep: "emptier.keeps m \<Longrightarrow> yields (gone stack V) m (\<lambda>_. gone stack V)"
  unfolding yields_def gone_def by (metis emptier.keepsD emptier_def)

lemma gone_stop: "yields (\<lambda>_. True) (stop_owned_child e (stack, v)) (\<lambda>_. gone stack {v})"
  by (auto simp: yields_def gone_def dest: stop_removes)

lemma gone_service: "yields (\<lambda>_. True) (down_service e r stack st iv) (\<lambda>_. gone stack {snd iv})"
  unfolding down_service_def exit_parts_def Let_def split_beta prod.case
  by (rule yields_skip, rule yields_get, rule yields_if, rule yields_skip, rule yields_skip,
      rule yields_bind [OF gone_stop], rule gone_keep [OF emptier_call], rule roster_down,
      rule yields_if [OF yields_raise], rule yields_return)
    (simp add: gone_def is_owned_def)

lemma gone_services:
  "yields (\<lambda>s. on_roster stack W s \<and> gone stack V s) (rm_for ivs (down_service e r stack st))
     (\<lambda>_ s. on_roster stack W s \<and> gone stack (V \<union> snd ` set ivs) s)"
proof (induction ivs arbitrary: V)
  case (Cons iv ivs)
  have "yields (\<lambda>s. on_roster stack W s \<and> gone stack V s) (down_service e r stack st iv)
      (\<lambda>_ s. on_roster stack W s \<and> gone stack (V \<union> {snd iv}) s)"
    using yields_conj [OF yields_emptier [OF emptier_service [of e r stack st iv]] gone_service [of e r stack st iv]]
    by (simp only: gone_Un conj_assoc simp_thms)
  from yields_bind [OF this Cons.IH] show ?case by (simp add: Un_assoc)
qed (simp add: yields_return)

lemma gone_down_services:
  "yields (on_roster stack (set order)) (down_services e r stack order)
     (\<lambda>_ s. on_roster stack (set order) s \<and> gone stack (set order) s)"
proof -
  have all: "snd ` set (enumerate 0 order) = set order"
    by (metis list.set_map map_snd_enumerate)
  have "yields (\<lambda>s. on_roster stack (set order) s \<and> gone stack {} s) (down_services e r stack order)
      (\<lambda>_ s. on_roster stack (set order) s \<and> gone stack ({} \<union> snd ` set (enumerate 0 order)) s)"
    unfolding down_services_def
    by (rule yields_bind [OF yields_emptier [OF emptier_status]], rule yields_bind [OF gone_services])
      (intro yields_emptier emptier_call roster_down)
  then show ?thesis by (simp add: all gone_def)
qed

lemma gone_status:
  "yields (\<lambda>s. on_roster stack V s \<and> gone stack V s) (required_status e stack)
     (\<lambda>st s. list_all (\<lambda>v. owned (stack, ss_name v) s = None) (st_services st))"
  unfolding yields_def
proof (intro allI impI)
  fix s st s'
  assume P: "on_roster stack V s \<and> gone stack V s" and run: "required_status e stack s = (Inr st, s')"
  have "on_roster stack V s' \<and> gone stack V s'"
    using yields_emptier [OF emptier_status [of e stack]] P run unfolding yields_def by blast
  moreover have "stack_status stack (rt_db s') = Some st"
    using yields_status [where S = "\<lambda>_. True"] run unfolding yields_def by blast
  ultimately show "list_all (\<lambda>v. owned (stack, ss_name v) s' = None) (st_services st)"
    using status_names [of stack "rt_db s'" st] by (auto simp: on_roster_def gone_def list_all_iff)
qed

lemma gone_down:
  "yields (\<lambda>_. True) (down e r stack) (\<lambda>st s. list_all (\<lambda>v. owned (stack, ss_name v) s = None) (st_services st))"
proof -
  have intent: "yields (\<lambda>_. True) (store_call e (begin_down r stack order)) (\<lambda>_. on_roster stack (set order))" for order
    unfolding on_roster_def [abs_def] by (rule yields_call) (simp add: ends_in_def down_intent)
  have last: "yields (\<lambda>s. case x of Inl _ \<Rightarrow> True | Inr _ \<Rightarrow> on_roster stack (set order) s \<and> gone stack (set order) s)
      (case x of Inl y \<Rightarrow> rm_bind (quarantine_stack e stack) (\<lambda>_. rm_bind (g y) (\<lambda>_. rm_raise y)) | Inr _ \<Rightarrow> required_status e stack)
      (\<lambda>st s. list_all (\<lambda>v. owned (stack, ss_name v) s = None) (st_services st))"
    for x :: "runtime_error + unit" and g :: "runtime_error \<Rightarrow> ('a, unit) rm" and order
    using gone_status by (cases x) (auto intro!: yields_skip yields_raise)
  show ?thesis
    unfolding down_def
    by (rule yields_skip, rule yields_skip, rule yields_skip, rule yields_skip, rule yields_bind [OF intent],
        rule yields_bind [OF yields_attempt [OF gone_down_services]], rule last)
qed


end
