(* ===== verification/Daemon_Serving.thy ===== *)
theory Daemon_Serving
  imports Daemon
begin

text \<open>
  The serving loop (\<^verbatim>\<open>src/daemon.rs\<close>) survives every error: a request or a tick that fails
  becomes a reply or is dropped, and only the shutdown flag, a failing socket or a panic ends the
  loop. The course of a run is described by what its calls answer, turn after turn, and the loop
  is shown to follow it.
\<close>

definition no_raise :: "('w, 'a) rm \<Rightarrow> bool" where
  "no_raise m \<longleftrightarrow> (\<forall>s x s'. m s \<noteq> (Inl (Raise x), s'))"

lemma no_raise_bind: "no_raise m \<Longrightarrow> (\<And>a. no_raise (k a)) \<Longrightarrow> no_raise (rm_bind m k)"
  by (auto simp: no_raise_def rm_bind_def split: prod.splits sum.splits)

lemma no_raise_simple:
  "no_raise (rm_return a)" "no_raise rm_panic" "no_raise (rm_get f)" "no_raise (rm_modify g)" "no_raise (rm_call h)"
  by (auto simp: no_raise_def rm_return_def rm_panic_def rm_get_def rm_modify_def rm_call_def split: prod.splits)

lemma no_raise_attempt: "no_raise (rm_attempt m)"
  by (auto simp: no_raise_def rm_attempt_def split: prod.splits sum.splits stop.splits)

lemma no_raise_ignore: "no_raise (rm_ignore m)"
  unfolding rm_ignore_def by (intro no_raise_bind no_raise_attempt no_raise_simple)

lemma no_raise_for: "(\<And>x. no_raise (f x)) \<Longrightarrow> no_raise (rm_for xs f)"
  by (induction xs) (simp_all add: no_raise_simple no_raise_bind)

lemma no_raise_while: "(\<And>x. no_raise (f x)) \<Longrightarrow> no_raise (rm_while xs f)"
  by (induction xs) (simp_all add: no_raise_simple no_raise_bind)

lemma no_raise_if: "(b \<Longrightarrow> no_raise m) \<Longrightarrow> (\<not> b \<Longrightarrow> no_raise m') \<Longrightarrow> no_raise (if b then m else m')"
  by simp

lemma no_raise_option: "no_raise m \<Longrightarrow> (\<And>a. no_raise (f a)) \<Longrightarrow> no_raise (case x of None \<Rightarrow> m | Some a \<Rightarrow> f a)"
  by (cases x) simp_all

lemma no_raise_sum: "(\<And>a. no_raise (f a)) \<Longrightarrow> (\<And>b. no_raise (g b)) \<Longrightarrow> no_raise (case x of Inl a \<Rightarrow> f a | Inr b \<Rightarrow> g b)"
  by (cases x) simp_all

lemma no_raise_prod: "(\<And>a b. no_raise (f a b)) \<Longrightarrow> no_raise (case x of (a, b) \<Rightarrow> f a b)"
  by (cases x) simp

lemmas no_raise_rules = no_raise_bind no_raise_simple no_raise_attempt no_raise_ignore no_raise_for no_raise_while
  no_raise_if no_raise_option no_raise_sum no_raise_prod

lemma no_raise_sleep: "no_raise (sleep_ms e ms)"
  unfolding sleep_ms_def by (intro no_raise_rules)

lemma no_raise_quarantine: "no_raise (quarantine_managed_child e k)"
  unfolding quarantine_managed_child_def remove_child_def insert_uncertain_def by (intro no_raise_rules)

lemma no_raise_shutdown: "no_raise (shutdown e)"
proof -
  have service: "no_raise (shutdown_service e s st v)" for s st v
    unfolding shutdown_service_def exit_parts_def Let_def prod.case by (intro no_raise_rules no_raise_quarantine)
  have order: "no_raise (stop_order_of m)" for m
    unfolding stop_order_of_def by (intro no_raise_rules)
  then have order: "no_raise (shutdown_order e s st)" for s st
    unfolding shutdown_order_def Let_def by (intro no_raise_rules)
  show ?thesis
    unfolding shutdown_def shutdown_stack_def Let_def by (intro no_raise_rules order service)
qed

lemma no_raise_respond: "no_raise (respond r f m)"
  unfolding respond_def by (intro no_raise_rules)

lemma no_raise_once: "no_raise (respond_once e cd r p n a b t m)"
  unfolding respond_once_def by (intro no_raise_rules no_raise_respond)

lemma no_raise_checked: "no_raise m \<Longrightarrow> no_raise (checked_name r n m)"
  unfolding checked_name_def by (intro no_raise_rules)

lemma no_raise_dispatch: "no_raise (dispatch e cd q)"
proof (cases q)
  case (Up_Request v r t b)
  then show ?thesis by (simp, intro no_raise_rules no_raise_once)
qed (simp_all add: no_raise_checked no_raise_respond no_raise_once)

lemma no_raise_connection: "no_raise (handle_connection e cd rd wr)"
  unfolding handle_connection_def answer_request_def by (intro no_raise_rules no_raise_dispatch)

lemma no_raise_turn: "no_raise (serve_turn e cd li)"
proof -
  have "no_raise (case a of Connection timeouts rd wr \<Rightarrow>
        if is_ok timeouts then rm_bind (handle_connection e cd rd wr) (\<lambda>_. rm_return Again) else rm_return Again
      | Would_Block \<Rightarrow> rm_bind (sleep_ms e 50) (\<lambda>_. rm_return Again)
      | Interrupted \<Rightarrow> rm_return Again
      | Accept_Failed x \<Rightarrow> rm_return (Done (Inl x)))" for a
    by (cases a) (auto intro!: no_raise_rules no_raise_connection no_raise_sleep)
  then show ?thesis unfolding serve_turn_def by (intro no_raise_rules)
qed

lemma no_raise_serve: "no_raise (serve n e cd li)"
proof (induction n)
  case (Suc n)
  have "no_raise (case t of Again \<Rightarrow> serve n e cd li | Done r \<Rightarrow> rm_bind (shutdown e) (\<lambda>_. rm_return (Some r)))" for t
    by (cases t) (auto intro!: no_raise_rules no_raise_shutdown Suc.IH)
  then show ?case by (simp add: no_raise_bind no_raise_turn)
qed (simp add: no_raise_simple)

section \<open>The course of the loop\<close>

text \<open>
  The loop as its calls see it. A stream whose timeouts cannot be set is dropped, one that is
  handled has been served whatever came of it.
\<close>

inductive answered :: "'w env \<Rightarrow> codec \<Rightarrow> accepted \<Rightarrow> 'w rt \<Rightarrow> 'w rt \<Rightarrow> bool" for e cd where
  waited: "sleep_ms e 50 s = (Inr (), s') \<Longrightarrow> answered e cd Would_Block s s'"
| interrupted: "answered e cd Interrupted s s"
| unbounded: "answered e cd (Connection (Inl x) rd wr) s s"
| handled: "handle_connection e cd rd wr s = (Inr outcome, s') \<Longrightarrow> answered e cd (Connection (Inr ()) rd wr) s s'"

text \<open>The daemon accepts once the flag was down and the supervision has run, well or not.\<close>

inductive accepts :: "'w env \<Rightarrow> 'w listener \<Rightarrow> accepted \<Rightarrow> 'w rt \<Rightarrow> 'w rt \<Rightarrow> bool" for e li where
  well: "rm_call (li_flag li) s = (Inr False, s1) \<Longrightarrow> tick e s1 = (Inr (), s2) \<Longrightarrow>
    rm_call (li_accept li) s2 = (Inr a, s') \<Longrightarrow> accepts e li a s s'"
| failed: "rm_call (li_flag li) s = (Inr False, s1) \<Longrightarrow> tick e s1 = (Inl (Raise x), s2) \<Longrightarrow>
    rm_call (li_accept li) s2 = (Inr a, s') \<Longrightarrow> accepts e li a s s'"

definition serves_on :: "'w env \<Rightarrow> codec \<Rightarrow> 'w listener \<Rightarrow> 'w rt \<Rightarrow> 'w rt \<Rightarrow> bool" where
  "serves_on e cd li s s' \<longleftrightarrow> (\<exists>a s1. accepts e li a s s1 \<and> answered e cd a s1 s')"

text \<open>The two reasons to leave the loop, and the places where a panic can come from.\<close>

inductive leaves :: "'w env \<Rightarrow> 'w listener \<Rightarrow> string + unit \<Rightarrow> 'w rt \<Rightarrow> 'w rt \<Rightarrow> bool" for e li where
  asked: "rm_call (li_flag li) s = (Inr True, s') \<Longrightarrow> leaves e li (Inr ()) s s'"
| broken: "accepts e li (Accept_Failed x) s s' \<Longrightarrow> leaves e li (Inl x) s s'"

inductive panics :: "'w env \<Rightarrow> codec \<Rightarrow> 'w listener \<Rightarrow> 'w rt \<Rightarrow> 'w rt \<Rightarrow> bool" for e cd li where
  in_tick: "rm_call (li_flag li) s = (Inr False, s1) \<Longrightarrow> tick e s1 = (Inl Panic, s') \<Longrightarrow> panics e cd li s s'"
| in_connection: "accepts e li (Connection (Inr ()) rd wr) s s1 \<Longrightarrow> handle_connection e cd rd wr s1 = (Inl Panic, s') \<Longrightarrow>
    panics e cd li s s'"
| in_shutdown: "leaves e li r s s1 \<Longrightarrow> shutdown e s1 = (Inl Panic, s') \<Longrightarrow> panics e cd li s s'"

inductive_simps answered_simps:
  "answered e cd Would_Block s s'" "answered e cd Interrupted s s'" "answered e cd (Accept_Failed x) s s'"
  "answered e cd (Connection t rd wr) s s'"

text \<open>One turn. An error of the supervision is a supervision that has run.\<close>

lemma ran_tick: "rm_ignore (tick e) s = (Inr u, s') \<longleftrightarrow> tick e s = (Inr (), s') \<or> (\<exists>x. tick e s = (Inl (Raise x), s'))"
  by (auto simp: rm_ignore_def rm_bind_def rm_attempt_def rm_return_def split: prod.splits sum.splits stop.splits)

lemma panicked_tick: "rm_ignore (tick e) s = (Inl y, s') \<longleftrightarrow> y = Panic \<and> tick e s = (Inl Panic, s')"
  by (auto simp: rm_ignore_def rm_bind_def rm_attempt_def rm_return_def split: prod.splits sum.splits stop.splits)

lemma accepts_iff:
  "accepts e li a s s' \<longleftrightarrow> (\<exists>s1 s2. rm_call (li_flag li) s = (Inr False, s1) \<and> rm_ignore (tick e) s1 = (Inr (), s2)
     \<and> rm_call (li_accept li) s2 = (Inr a, s'))"
  unfolding ran_tick accepts.simps by blast

lemma bind_result: "rm_bind m k s = (Inr b, s') \<longleftrightarrow> (\<exists>a s1. m s = (Inr a, s1) \<and> k a s1 = (Inr b, s'))"
  by (auto simp: rm_bind_def split: prod.splits sum.splits)

lemma bind_stop:
  "rm_bind m k s = (Inl y, s') \<longleftrightarrow> m s = (Inl y, s') \<or> (\<exists>a s1. m s = (Inr a, s1) \<and> k a s1 = (Inl y, s'))"
  by (auto simp: rm_bind_def split: prod.splits sum.splits)

lemma call_stop: "rm_call f s \<noteq> (Inl y, s')"
  by (simp add: rm_call_def split: prod.split)

definition after_accept :: "'w env \<Rightarrow> codec \<Rightarrow> accepted \<Rightarrow> ('w, turn) rm" where
  "after_accept e cd a = (case a of
       Connection timeouts rd wr \<Rightarrow>
         if is_ok timeouts then rm_bind (handle_connection e cd rd wr) (\<lambda>_. rm_return Again) else rm_return Again
     | Would_Block \<Rightarrow> rm_bind (sleep_ms e 50) (\<lambda>_. rm_return Again)
     | Interrupted \<Rightarrow> rm_return Again
     | Accept_Failed x \<Rightarrow> rm_return (Done (Inl x)))"

lemma sleep_stop: "sleep_ms e ms s \<noteq> (Inl y, s')"
  by (simp add: sleep_ms_def bind_stop call_stop rm_modify_def)

lemma after_accept_again: "after_accept e cd a s = (Inr Again, s') \<longleftrightarrow> answered e cd a s s'"
  by (cases a) (auto simp: after_accept_def answered_simps bind_result rm_return_def is_ok_def split: sum.splits)

lemma after_accept_done: "after_accept e cd a s = (Inr (Done r), s') \<longleftrightarrow> (\<exists>x. a = Accept_Failed x \<and> r = Inl x \<and> s' = s)"
  by (cases a) (auto simp: after_accept_def bind_result rm_return_def)

lemma after_accept_stop:
  "after_accept e cd a s = (Inl y, s') \<longleftrightarrow> (\<exists>rd wr. a = Connection (Inr ()) rd wr \<and> handle_connection e cd rd wr s = (Inl y, s'))"
  by (cases a) (auto simp: after_accept_def bind_stop rm_return_def sleep_stop is_ok_def split: sum.splits)

lemma turn_result:
  "serve_turn e cd li s = (Inr t, s') \<longleftrightarrow>
     t = Done (Inr ()) \<and> rm_call (li_flag li) s = (Inr True, s')
     \<or> (\<exists>a s1. accepts e li a s s1 \<and> after_accept e cd a s1 = (Inr t, s'))"
proof -
  obtain asked_for s0 where "rm_call (li_flag li) s = (Inr asked_for, s0)"
    by (cases "rm_call (li_flag li) s") (auto simp: rm_call_def split: prod.splits)
  then show ?thesis
    unfolding serve_turn_def after_accept_def [symmetric] accepts_iff
    by (cases asked_for) (simp_all add: bind_result rm_return_def, blast+)
qed

lemma turn_stop:
  "serve_turn e cd li s = (Inl y, s') \<longleftrightarrow>
     y = Panic \<and> (\<exists>s1. rm_call (li_flag li) s = (Inr False, s1) \<and> tick e s1 = (Inl Panic, s'))
     \<or> (\<exists>a s1. accepts e li a s s1 \<and> after_accept e cd a s1 = (Inl y, s'))"
  unfolding serve_turn_def after_accept_def [symmetric] accepts_iff bind_stop
  by (simp add: bind_result bind_stop call_stop rm_return_def panicked_tick split: if_split, blast)

lemma turn_again: "serve_turn e cd li s = (Inr Again, s') \<longleftrightarrow> serves_on e cd li s s'"
  by (simp add: turn_result after_accept_again serves_on_def)

lemma turn_done: "serve_turn e cd li s = (Inr (Done r), s') \<longleftrightarrow> leaves e li r s s'"
  by (auto simp: turn_result after_accept_done leaves.simps)

lemma turn_panic:
  "serve_turn e cd li s = (Inl Panic, s') \<or> (\<exists>r s1. leaves e li r s s1 \<and> shutdown e s1 = (Inl Panic, s'))
     \<longleftrightarrow> panics e cd li s s'"
  unfolding turn_stop after_accept_stop panics.simps by blast

text \<open>All turns: those that are served, and the last one.\<close>

lemma serve_next:
  "serve (Suc n) e cd li s = (q, s') \<longleftrightarrow>
     (\<exists>s1. serves_on e cd li s s1 \<and> serve n e cd li s1 = (q, s'))
     \<or> (\<exists>r s1. leaves e li r s s1 \<and> rm_bind (shutdown e) (\<lambda>_. rm_return (Some r)) s1 = (q, s'))
     \<or> (\<exists>y. q = Inl y \<and> serve_turn e cd li s = (Inl y, s'))"
proof -
  obtain t s1 where turn: "serve_turn e cd li s = (t, s1)" by fastforce
  show ?thesis
    unfolding turn_again [symmetric] turn_done [of e cd, symmetric] serve.simps rm_bind_def [of "serve_turn e cd li"] turn
    by (auto split: sum.split turn.split)
qed

lemma serve_on: "serve n e cd li s = (Inr None, s') \<longleftrightarrow> (serves_on e cd li ^^ n) s s'"
proof (induction n arbitrary: s)
  case (Suc n)
  have "serve (Suc n) e cd li s = (Inr None, s') \<longleftrightarrow> (\<exists>s1. serves_on e cd li s s1 \<and> serve n e cd li s1 = (Inr None, s'))"
    unfolding serve_next by (simp add: bind_result rm_return_def)
  then show ?case by (simp only: Suc.IH relpowp_Suc_left OO_def)
qed (auto simp: rm_return_def)

lemma last_turn:
  assumes "\<And>s. serve 0 e cd li s \<noteq> (q, s')"
    and "\<And>n s. serve (Suc n) e cd li s = (q, s') \<longleftrightarrow> (\<exists>s1. serves_on e cd li s s1 \<and> serve n e cd li s1 = (q, s')) \<or> final s"
  shows "serve n e cd li s = (q, s') \<longleftrightarrow> (\<exists>k s1. k < n \<and> (serves_on e cd li ^^ k) s s1 \<and> final s1)"
proof (induction n arbitrary: s)
  case 0
  show ?case by (simp only: assms(1) not_less_zero simp_thms)
next
  case (Suc n)
  let ?later = "\<lambda>n s. \<exists>k s1. k < n \<and> (serves_on e cd li ^^ k) s s1 \<and> final s1"
  have "?later (Suc n) s \<longleftrightarrow> (\<exists>s0. serves_on e cd li s s0 \<and> ?later n s0) \<or> final s"
  proof
    assume "?later (Suc n) s"
    then obtain k s1 where k: "k < Suc n" "(serves_on e cd li ^^ k) s s1" "final s1" by blast
    then show "(\<exists>s0. serves_on e cd li s s0 \<and> ?later n s0) \<or> final s"
      by (cases k) (auto simp del: relpowp.simps(2) dest!: relpowp_Suc_D2)
  next
    assume "(\<exists>s0. serves_on e cd li s s0 \<and> ?later n s0) \<or> final s"
    then show "?later (Suc n) s"
      by (auto intro: exI [of _ 0] relpowp_Suc_I2)
  qed
  then show ?case by (simp only: assms(2) Suc.IH)
qed

lemma serve_left:
  "serve n e cd li s = (Inr (Some r), s') \<longleftrightarrow>
     (\<exists>k s1. k < n \<and> (serves_on e cd li ^^ k) s s1 \<and> (\<exists>s2. leaves e li r s1 s2 \<and> shutdown e s2 = (Inr (), s')))"
  by (rule last_turn, simp add: rm_return_def, unfold serve_next) (auto simp: bind_result rm_return_def)

lemma serve_panic:
  "serve n e cd li s = (Inl Panic, s') \<longleftrightarrow> (\<exists>k s1. k < n \<and> (serves_on e cd li ^^ k) s s1 \<and> panics e cd li s1 s')"
  by (rule last_turn, simp add: rm_return_def, unfold serve_next turn_panic [symmetric])
    (simp add: bind_stop rm_return_def, blast)

lemma accepts_reason: "accepts e li a s s' \<Longrightarrow> \<exists>w. fst (li_accept li w) = a"
proof -
  assume "accepts e li a s s'"
  then obtain s2 where "rm_call (li_accept li) s2 = (Inr a, s')" by (auto simp: accepts_iff)
  then have "fst (li_accept li (rt_world s2)) = a" by (auto simp: rm_call_def split: prod.splits)
  then show ?thesis ..
qed

lemma leaves_reason:
  "leaves e li r s s' \<Longrightarrow> case r of Inl x \<Rightarrow> Accept_Failed x \<in> range (fst \<circ> li_accept li) | Inr _ \<Rightarrow> True \<in> range (fst \<circ> li_flag li)"
proof (induction rule: leaves.induct)
  case (asked s s')
  then have "fst (li_flag li (rt_world s)) = True" by (auto simp: rm_call_def split: prod.splits)
  then show ?case by (auto intro: image_eqI [where x = "rt_world s"])
next
  case (broken x s s')
  then obtain w where "fst (li_accept li w) = Accept_Failed x" by (blast dest: accepts_reason)
  then show ?case by (auto intro: image_eqI [where x = w])
qed

text \<open>
  Claim C22. The daemon survives every error of a request or of the supervision, and ends for its
  two reasons only. However many turns the loop is given: it still serves exactly when every turn
  found the flag down and was completed, with whatever result of the supervision and of the
  connection. It ends exactly when some turn, after completed ones, found the shutdown flag set,
  then with success, or the socket failed, then with its error; in both cases the shutdown is run
  last. It panics exactly when the supervision, a connection or the shutdown does. An error of
  the runtime is never how it ends: an error it returns is one the socket gave, and success means
  the flag was set.
\<close>

theorem serving_survives_errors:
  "(serve n e cd li s = (Inr None, s') \<longleftrightarrow> (serves_on e cd li ^^ n) s s')
   \<and> (serve n e cd li s = (Inr (Some r), s') \<longleftrightarrow>
       (\<exists>k s1. k < n \<and> (serves_on e cd li ^^ k) s s1 \<and> (\<exists>s2. leaves e li r s1 s2 \<and> shutdown e s2 = (Inr (), s'))))
   \<and> (serve n e cd li s = (Inl Panic, s') \<longleftrightarrow> (\<exists>k s1. k < n \<and> (serves_on e cd li ^^ k) s s1 \<and> panics e cd li s1 s'))
   \<and> (case fst (serve n e cd li s) of
        Inl y \<Rightarrow> y = Panic
      | Inr None \<Rightarrow> True
      | Inr (Some (Inl x)) \<Rightarrow> Accept_Failed x \<in> range (fst \<circ> li_accept li)
      | Inr (Some (Inr _)) \<Rightarrow> True \<in> range (fst \<circ> li_flag li))"
proof (intro conjI serve_on serve_left serve_panic)
  obtain q s'' where run: "serve n e cd li s = (q, s'')" by fastforce
  show "case fst (serve n e cd li s) of
        Inl y \<Rightarrow> y = Panic
      | Inr None \<Rightarrow> True
      | Inr (Some (Inl x)) \<Rightarrow> Accept_Failed x \<in> range (fst \<circ> li_accept li)
      | Inr (Some (Inr _)) \<Rightarrow> True \<in> range (fst \<circ> li_flag li)"
  proof (cases q)
    case (Inl y)
    with run no_raise_serve [of n e cd li] show ?thesis by (cases y) (auto simp: no_raise_def)
  next
    case (Inr ended)
    show ?thesis
    proof (cases ended)
      case None
      with run Inr show ?thesis by simp
    next
      case (Some why)
      with run Inr obtain s1 s2 where "leaves e li why s1 s2" by (auto simp: serve_left)
      with leaves_reason run Inr Some show ?thesis by (fastforce split: sum.split)
    qed
  qed
qed

end
