(* ===== verification/Runtime_Undo.thy ===== *)
theory Runtime_Undo
  imports Runtime_Ready Daemon_Serving
begin

text \<open>
  What a failed up or down (\<^verbatim>\<open>src/runtime.rs\<close>) leaves behind: after an up no service is
  supervised that was not supervised before, as the services it had started are stopped, or set
  aside when that is not possible; after a down no service of the stack is.
\<close>

section \<open>Outcomes\<close>

text \<open>What holds after a result and what holds after an error; a panic ends the daemon.\<close>

definition ends :: "('w rt \<Rightarrow> bool) \<Rightarrow> ('w, 'a) rm \<Rightarrow> ('a \<Rightarrow> 'w rt \<Rightarrow> bool) \<Rightarrow> ('w rt \<Rightarrow> bool) \<Rightarrow> bool" where
  "ends P m Q E \<longleftrightarrow> (\<forall>s. P s \<longrightarrow> (case m s of
     (Inr a, s') \<Rightarrow> Q a s' | (Inl (Raise _), s') \<Rightarrow> E s' | (Inl Panic, _) \<Rightarrow> True))"

lemma endsI:
  assumes "\<And>s a s'. P s \<Longrightarrow> m s = (Inr a, s') \<Longrightarrow> Q a s'"
    and "\<And>s x s'. P s \<Longrightarrow> m s = (Inl (Raise x), s') \<Longrightarrow> E s'"
  shows "ends P m Q E"
  unfolding ends_def using assms by (auto split: prod.split sum.split stop.split)

lemma ends_result: "ends P m Q E \<Longrightarrow> P s \<Longrightarrow> m s = (Inr a, s') \<Longrightarrow> Q a s'"
  unfolding ends_def by (auto dest: spec [of _ s])

lemma ends_error: "ends P m Q E \<Longrightarrow> P s \<Longrightarrow> m s = (Inl (Raise x), s') \<Longrightarrow> E s'"
  unfolding ends_def by (auto dest: spec [of _ s])

lemma ends_bind:
  assumes "ends P m R E" and "\<And>a. ends (R a) (k a) Q E"
  shows "ends P (rm_bind m k) Q E"
proof (rule endsI)
  fix s a s' assume "P s" and run: "rm_bind m k s = (Inr a, s')"
  then obtain b s1 where "m s = (Inr b, s1)" "k b s1 = (Inr a, s')"
    by (auto simp: rm_bind_def split: prod.splits sum.splits)
  then show "Q a s'" using ends_result [OF assms(1) \<open>P s\<close>] ends_result [OF assms(2)] by blast
next
  fix s x s' assume "P s" and run: "rm_bind m k s = (Inl (Raise x), s')"
  then consider "m s = (Inl (Raise x), s')" | b s1 where "m s = (Inr b, s1)" "k b s1 = (Inl (Raise x), s')"
    by (auto simp: rm_bind_def split: prod.splits sum.splits)
  then show "E s'"
    using ends_error [OF assms(1) \<open>P s\<close>] ends_result [OF assms(1) \<open>P s\<close>] ends_error [OF assms(2)] by cases blast+
qed

lemma ends_attempt: "ends P m Q E \<Longrightarrow> ends P (rm_attempt m) (\<lambda>r s. case r of Inl _ \<Rightarrow> E s | Inr a \<Rightarrow> Q a s) E'"
  by (rule endsI) (auto simp: rm_attempt_def dest: ends_result ends_error split: prod.splits sum.splits stop.splits)

lemma ends_return: "(\<And>s. P s \<Longrightarrow> Q a s) \<Longrightarrow> ends P (rm_return a) Q E"
  by (simp add: ends_def rm_return_def)

lemma ends_raise: "(\<And>s. P s \<Longrightarrow> E s) \<Longrightarrow> ends P (rm_raise x) Q E"
  by (simp add: ends_def rm_raise_def)

lemma ends_lift: "(\<And>a s. r = Inr a \<Longrightarrow> P s \<Longrightarrow> Q a s) \<Longrightarrow> (\<And>x s. r = Inl x \<Longrightarrow> P s \<Longrightarrow> E s) \<Longrightarrow> ends P (rm_lift r) Q E"
  by (cases r) (simp_all add: rm_lift_def ends_return ends_raise)

lemma ends_if: "(b \<Longrightarrow> ends P m Q E) \<Longrightarrow> (\<not> b \<Longrightarrow> ends P m' Q E) \<Longrightarrow> ends P (if b then m else m') Q E"
  by simp

lemma ends_sum:
  "(\<And>x. r = Inl x \<Longrightarrow> ends P (f x) Q E) \<Longrightarrow> (\<And>a. r = Inr a \<Longrightarrow> ends P (g a) Q E) \<Longrightarrow>
     ends P (case r of Inl x \<Rightarrow> f x | Inr a \<Rightarrow> g a) Q E"
  by (cases r) simp_all

lemma ends_weaken:
  "ends P m Q E \<Longrightarrow> (\<And>s. P' s \<Longrightarrow> P s) \<Longrightarrow> (\<And>a s. Q a s \<Longrightarrow> Q' a s) \<Longrightarrow> (\<And>s. E s \<Longrightarrow> E' s) \<Longrightarrow> ends P' m Q' E'"
  by (rule endsI) (blast dest: ends_result ends_error)+

section \<open>Supervised services\<close>

definition supervised :: "'w rt \<Rightarrow> service_key set" where
  "supervised s = {k. owned k s \<noteq> None}"

abbreviation within :: "service_key set \<Rightarrow> 'w rt \<Rightarrow> bool" where
  "within A s \<equiv> supervised s \<subseteq> A"

definition fewer :: "'w rt \<Rightarrow> 'w rt \<Rightarrow> bool" where
  "fewer s s' \<longleftrightarrow> supervised s' \<subseteq> supervised s"

interpretation fewer: rt_quiet fewer
  by unfold_locales (auto simp: fewer_def supervised_def)

lemma ends_fewer: "fewer.keeps m \<Longrightarrow> ends (within A) m (\<lambda>_. within A) (within A)"
  by (rule endsI) (use fewer.keepsD in \<open>fastforce simp: fewer_def\<close>)+

lemma fewer_children:
  "fewer.keeps (remove_child key)" "fewer.keeps (insert_uncertain key c)" "fewer.keeps (remove_uncertain key)"
  "fewer.keeps (set_session key w)"
  unfolding remove_child_def insert_uncertain_def remove_uncertain_def set_session_def
  by (intro fewer.keeps_bind fewer.keeps_get fewer.keeps_expect fewer.keeps_modify crashed_simps;
      auto simp: fewer_def supervised_def)+

lemma fewer_engine: "fewer.keeps (engine_kill e w)" "fewer.keeps (engine_run e n opts a b)"
  unfolding engine_kill_def engine_run_def
  by (intro fewer.call_rules fewer.keeps_effect; auto simp: fewer_def supervised_def)+

interpretation fewer: rt_removing fewer
  by unfold_locales (rule fewer_children fewer_engine)+

lemma fewer_dependencies: "fewer.keeps (ensure_dependencies_running e m v)"
  unfolding ensure_dependencies_running_def by (intro fewer.calm_rules fewer.removing_validate)

text \<open>Steps that give no service a child.\<close>

lemma ends_first:
  "fewer.keeps m \<Longrightarrow> (\<And>a. ends (within A) (k a) Q (within A)) \<Longrightarrow> ends (within A) (rm_bind m k) Q (within A)"
  by (rule ends_bind [OF ends_fewer])

lemma ends_last: "fewer.keeps m \<Longrightarrow> A \<subseteq> B \<Longrightarrow> ends (within A) m (\<lambda>_. within B) (within A)"
  by (erule ends_weaken [OF ends_fewer]) auto

lemma not_supervised: "owned k s = None \<longleftrightarrow> k \<notin> supervised s"
  by (simp add: supervised_def)

lemma yields_none: "fewer.keeps m \<Longrightarrow> yields (\<lambda>s. owned k s = None) m (\<lambda>_ s. owned k s = None)"
  unfolding yields_def by (auto dest!: fewer.keepsD simp: fewer_def not_supervised)

lemma quarantine_removes: "yields (\<lambda>_. True) (quarantine_managed_child e k) (\<lambda>_ s. owned k s = None)"
  unfolding quarantine_managed_child_def
proof (rule yields_get)
  fix found
  have "yields (\<lambda>_. True) (remove_child k) (\<lambda>_ s. owned k s = None)"
    by (auto simp: yields_def remove_child_def rm_modify_def)
  then have "yields (\<lambda>_. True) (rm_bind (remove_child k) (\<lambda>_. rm_bind (rm_ignore (mark_unknown e k)) (\<lambda>_.
      insert_uncertain k c))) (\<lambda>_ s. owned k s = None)" for c
    by (rule yields_bind) (intro yields_none fewer.calm_rules fewer_children)
  then show "yields (\<lambda>s. True \<and> owned k s = found) (case found of None \<Rightarrow> rm_return () | Some mc \<Rightarrow>
      rm_bind (remove_child k) (\<lambda>_. rm_bind (rm_ignore (mark_unknown e k)) (\<lambda>_. insert_uncertain k (mc_child mc))))
      (\<lambda>_ s. owned k s = None)"
    by (cases found) (auto intro: yields_return yields_pre)
qed

lemma gone_quarantine: "ends (within (insert k A)) (quarantine_managed_child e k) (\<lambda>_. within A) E"
proof (rule endsI)
  fix s a s' assume P: "within (insert k A) s" and run: "quarantine_managed_child e k s = (Inr a, s')"
  have "owned k s' = None" using quarantine_removes run unfolding yields_def by blast
  moreover have "within (insert k A) s'" using ends_result [OF ends_fewer [OF fewer.removing_quarantine] P run] .
  ultimately show "within A s'" by (auto simp: supervised_def)
next
  fix s x s' assume "quarantine_managed_child e k s = (Inl (Raise x), s')"
  then show "E s'" using no_raise_quarantine [of e k] by (simp add: no_raise_def)
qed

section \<open>One service\<close>

lemma ends_insert: "ends (within A) (insert_child k mc) (\<lambda>_. within (insert k A)) (within A)"
  by (auto simp: ends_def insert_child_def rm_modify_def supervised_def)

lemma ends_adopt: "ends (within A) (adopt_child e v n j k c) (\<lambda>_. within (insert k A)) (within A)"
  unfolding adopt_child_def
  by (intro ends_first ends_sum ends_if ends_raise ends_insert ends_last fewer.calm_rules fewer.removing_contain) auto

lemma ends_qualified:
  "ends (within (insert k A)) (rm_bind (rm_attempt (qualify e m v j k pid)) (\<lambda>q.
     rm_bind (rm_when (\<not> is_ok q) (quarantine_managed_child e k)) (\<lambda>_. rm_lift q))) (\<lambda>_. within (insert k A)) (within A)"
proof (rule ends_bind)
  show "ends (within (insert k A)) (rm_attempt (qualify e m v j k pid)) (\<lambda>_. within (insert k A)) (within A)"
    by (rule ends_weaken [OF ends_attempt [OF ends_fewer [OF fewer.removing_qualify]]]) (auto split: sum.splits)
  show "ends (within (insert k A)) (rm_bind (rm_when (\<not> is_ok q) (quarantine_managed_child e k)) (\<lambda>_. rm_lift q))
      (\<lambda>_. within (insert k A)) (within A)" for q
    by (cases q) (auto simp: rm_when_def bind_return rm_lift_def intro: ends_return ends_raise ends_bind [OF gone_quarantine])
qed

lemma ends_spawn:
  "ends (within A) (spawn_and_qualify e b m v n a c j) (\<lambda>_. within (insert (mf_name m, se_name v) A)) (within A)"
  unfolding spawn_and_qualify_def Let_def
  by (intro ends_first ends_if ends_raise ends_bind [OF ends_adopt] ends_qualified fewer.calm_rules fewer_engine)

lemma ends_start_child:
  "ends (within A) (start_operation_child e r b m v n a c) (\<lambda>_. within (insert (mf_name m, se_name v) A)) (within A)"
  unfolding start_operation_child_def
proof (rule ends_first, intro fewer.calm_rules journaled_operations, rule ends_bind [OF ends_attempt [OF ends_spawn]])
  show "ends (\<lambda>s. case q of Inl _ \<Rightarrow> within A s | Inr _ \<Rightarrow> within (insert (mf_name m, se_name v) A) s)
      (rm_bind (case q of Inr _ \<Rightarrow> rm_return () | Inl x \<Rightarrow> record_operation_failure e r (mf_name m) (se_name v) x) (\<lambda>_. rm_lift q))
      (\<lambda>_. within (insert (mf_name m, se_name v) A)) (within A)" for q
    by (cases q)
      (auto simp: bind_return rm_lift_def intro: ends_return ends_raise ends_first fewer.keeps_record_failure)
qed

section \<open>Undoing\<close>

lemma ends_quiet: "fewer.keeps m \<Longrightarrow> no_raise m \<Longrightarrow> ends (within B) m (\<lambda>_. within B) E"
  by (rule endsI) (auto dest: ends_result [OF ends_fewer] simp: no_raise_def)

lemma ends_survivors: "ends (within (A \<union> set ks)) (rm_for ks (quarantine_managed_child e)) (\<lambda>_. within A) E"
proof (induction ks)
  case (Cons k ks)
  have "ends (within (A \<union> set (k # ks))) (quarantine_managed_child e k) (\<lambda>_. within (A \<union> set ks)) E"
    using gone_quarantine [of k "A \<union> set ks" e E] by simp
  from ends_bind [OF this Cons.IH] show ?case by simp
qed (simp add: ends_return)

lemma ends_stop: "ends (within (insert k A)) (stop_owned_child e k) (\<lambda>_. within A) (within (insert k A))"
proof (rule endsI)
  fix s st s' assume P: "within (insert k A) s" and run: "stop_owned_child e k s = (Inr st, s')"
  have "k \<notin> supervised s'" using stop_removes [OF run] by (simp add: not_supervised)
  moreover have "within (insert k A) s'" using ends_result [OF ends_fewer [OF fewer.removing_stop] P run] .
  ultimately show "within A s'" by auto
qed (rule ends_error [OF ends_fewer [OF fewer.removing_stop]])

lemma ends_record:
  "ends (within B) (record_operation_failure e r s v x) (\<lambda>_. within B) E"
  by (rule ends_quiet) (simp_all add: fewer.keeps_record_failure, simp add: record_operation_failure_def no_raise_ignore)

lemma ends_stop_step:
  assumes "take (length begun - (i + 1)) begun = ks"
  shows "ends (within (insert k (A \<union> set ks))) (stop_started_step e r begun (i, k))
    (\<lambda>go. within (if go then A \<union> set ks else A)) (within A)"
proof -
  let ?B = "A \<union> set ks"
  have survivors: "ends (within ?B) (rm_bind (quarantine_cleanup_survivors e begun (i + 1)) (\<lambda>_. rm_return False))
      (\<lambda>go. within (if go then ?B else A)) (within A)"
    unfolding quarantine_cleanup_survivors_def assms by (rule ends_bind [OF ends_survivors]) (simp add: ends_return)
  have stopped: "ends (within ?B) (rm_bind (rm_attempt (store_call e (record_exit (fst k) (snd k) code sig))) (\<lambda>recorded.
      if is_ok recorded then rm_return True
      else rm_bind (rm_ignore (mark_unknown e k)) (\<lambda>_.
        rm_bind (quarantine_cleanup_survivors e begun (i + 1)) (\<lambda>_. rm_return False))))
      (\<lambda>go. within (if go then ?B else A)) (within A)" for code sig
    by (rule ends_bind [OF ends_quiet], intro fewer.calm_rules journaled_operations, intro no_raise_attempt, rule ends_if,
        rule ends_return, simp, rule ends_bind [OF ends_quiet survivors])
      (intro fewer.calm_rules no_raise_ignore)+
  have failed: "ends (within (insert k ?B)) (rm_bind (quarantine_managed_child e k) (\<lambda>_.
      rm_bind (record_operation_failure e r (fst k) (snd k) x) (\<lambda>_.
      rm_bind (quarantine_cleanup_survivors e begun (i + 1)) (\<lambda>_. rm_return False))))
      (\<lambda>go. within (if go then ?B else A)) (within A)" for x
    by (rule ends_bind [OF gone_quarantine], rule ends_bind [OF ends_record survivors])
  show ?thesis
    unfolding stop_started_step_def prod.case exit_parts_def Let_def
  proof (rule ends_bind [OF ends_attempt [OF ends_stop]])
    fix q
    show "ends (\<lambda>s. case q of Inl _ \<Rightarrow> within (insert k ?B) s | Inr _ \<Rightarrow> within ?B s) (case q of
         Inr st \<Rightarrow> rm_bind (rm_attempt (store_call e (record_exit (fst k) (snd k) (es_code st) (es_signal st)))) (\<lambda>recorded.
            if is_ok recorded then rm_return True
            else rm_bind (rm_ignore (mark_unknown e k)) (\<lambda>_.
              rm_bind (quarantine_cleanup_survivors e begun (i + 1)) (\<lambda>_. rm_return False)))
       | Inl x \<Rightarrow> rm_bind (quarantine_managed_child e k) (\<lambda>_.
           rm_bind (record_operation_failure e r (fst k) (snd k) x) (\<lambda>_.
           rm_bind (quarantine_cleanup_survivors e begun (i + 1)) (\<lambda>_. rm_return False))))
      (\<lambda>go. within (if go then ?B else A)) (within A)"
      using stopped failed by (cases q) simp_all
  qed
qed

lemma ends_stop_loop:
  assumes "take (length begun - i) begun = ks"
  shows "ends (within (A \<union> set ks)) (rm_while (enumerate i (rev ks)) (stop_started_step e r begun)) (\<lambda>_. within A) (within A)"
  using assms
proof (induction ks arbitrary: i rule: rev_induct)
  case (snoc k ks)
  have rest: "take (length begun - (i + 1)) begun = ks"
  proof -
    have "length begun - i = length (ks @ [k])" using snoc.prems by (metis diff_le_self length_take min.absorb2)
    then have "length begun - (i + 1) = length ks" by simp
    then show ?thesis
      using snoc.prems by (metis append_eq_conv_conj butlast_snoc butlast_take diff_le_self diff_diff_left)
  qed
  have loop: "ends (within (if go then A \<union> set ks else A))
      (if go then rm_while (enumerate (Suc i) (rev ks)) (stop_started_step e r begun) else rm_return ())
      (\<lambda>_. within A) (within A)" for go
    using snoc.IH [of "Suc i"] rest by (cases go) (simp_all add: ends_return)
  from ends_bind [OF ends_stop_step [OF rest] loop] show ?case by simp
qed (simp add: ends_return)

lemma ends_stop_started:
  "ends (within (A \<union> set begun)) (stop_started_after_failed_up e r begun) (\<lambda>_. within A) (within A)"
  using ends_stop_loop [of begun 0 begun] by (simp add: stop_started_after_failed_up_def)

lemma ends_abort:
  "ends (within (A \<union> set begun)) (abort_start_operation e r m order failed begun x) (\<lambda>_. within A) (within A)"
  unfolding abort_start_operation_def
proof (rule ends_bind [OF ends_record], rule ends_bind [OF ends_quiet])
  show "fewer.keeps (rm_for order (\<lambda>service.
       if service = failed \<or> (mf_name m, service) \<in> set begun then rm_return ()
       else rm_ignore (store_call e (mark_service_failed r (mf_name m) service ''dependency_failed'' t False))))" for t
    by (intro fewer.calm_rules journaled_operations)
  show "no_raise (rm_for order (\<lambda>service.
       if service = failed \<or> (mf_name m, service) \<in> set begun then rm_return ()
       else rm_ignore (store_call e (mark_service_failed r (mf_name m) service ''dependency_failed'' t False))))" for t
    by (intro no_raise_rules)
  show "ends (within (A \<union> set begun)) (rm_bind (stop_started_after_failed_up e r begun) (\<lambda>_.
      store_call e (finalize_operation_failure r (mf_name m) (runtime_code x) (runtime_error_text x))))
      (\<lambda>_. within A) (within A)"
    by (rule ends_bind [OF ends_stop_started]) (intro ends_fewer fewer.calm_rules journaled_operations)
qed

text \<open>An error of the body is raised again only after everything begun is undone.\<close>

lemma ends_or_fail:
  assumes "ends (within (A \<union> set begun)) body Q (within (A \<union> set begun))" and "fewer.keeps failed" "no_raise failed"
  shows "ends (within (A \<union> set begun)) (or_fail e r m order failed begun body) Q (within A)"
  unfolding or_fail_def fail_start_def
proof (rule ends_bind [OF ends_attempt [OF assms(1)]])
  have undo: "ends (within (A \<union> set begun)) (rm_bind failed (\<lambda>f.
      rm_bind (abort_start_operation e r m order f begun x) (\<lambda>_. rm_raise x))) Q (within A)" for x
    by (rule ends_bind [OF ends_quiet [OF assms(2,3)]], rule ends_bind [OF ends_abort], rule ends_raise)
  show "ends (\<lambda>s. case q of Inl _ \<Rightarrow> within (A \<union> set begun) s | Inr a \<Rightarrow> Q a s)
      (case q of Inr a \<Rightarrow> rm_return a | Inl x \<Rightarrow> rm_bind failed (\<lambda>f.
        rm_bind (abort_start_operation e r m order f begun x) (\<lambda>_. rm_raise x))) Q (within A)" for q
    using undo by (cases q) (simp_all add: ends_return)
qed

section \<open>A stack\<close>

lemma quiet_name: "fewer.keeps (rm_return n)" "no_raise (rm_return n)" "fewer.keeps (rm_expect x)" "no_raise (rm_expect x)"
  by (rule fewer.keeps_return no_raise_simple fewer.keeps_expect)+ (simp add: rm_expect_def no_raise_simple no_raise_option)

lemma ends_prepared:
  "ends (within B) (start_prepared e r b m v plan l) (\<lambda>_. within (insert (mf_name m, se_name v) B)) (within B)"
  unfolding start_prepared_def
  by (rule ends_first [OF fewer.keeps_attempt [OF fewer_dependencies]])
    (intro ends_sum ends_start_child ends_bind [OF ends_record] ends_raise)

lemma ends_candidate_body:
  "ends (within B) (start_installed_candidate e r b m v plan) (\<lambda>_. within (insert (mf_name m, se_name v) B)) (within B)"
  "ends (within B) (install_and_start_candidate e r b m v plan) (\<lambda>_. within (insert (mf_name m, se_name v) B)) (within B)"
  unfolding start_installed_candidate_def install_and_start_candidate_def Let_def
  by (intro ends_prepared ends_first ends_sum ends_raise fewer.calm_rules journaled_operations)+

definition begun_in :: "service_key set \<Rightarrow> service_key list \<Rightarrow> 'w rt \<Rightarrow> bool" where
  "begun_in A ks = within (A \<union> set ks)"

lemma ends_fold:
  assumes "\<And>x ks. ends (begun_in A ks) (f x ks) (begun_in A) (within A)"
  shows "ends (begun_in A ks) (rm_fold f xs ks) (begun_in A) (within A)"
proof (induction xs arbitrary: ks)
  case (Cons x xs)
  from ends_bind [OF assms Cons.IH] show ?case by simp
qed (simp add: ends_return)

lemma ends_anything: "ends P m Q E \<Longrightarrow> ends P m (\<lambda>_ _. True) E"
  by (erule ends_weaken) simp_all

lemma ends_checked:
  "fewer.keeps body \<Longrightarrow> fewer.keeps failed \<Longrightarrow> no_raise failed \<Longrightarrow>
     ends (begun_in A ks) (or_fail e r m o' failed ks body) (\<lambda>_. begun_in A ks) (within A)"
  unfolding begun_in_def by (intro ends_or_fail ends_fewer)

lemma ends_expect: "(\<And>a. x = Some a \<Longrightarrow> ends P (k a) Q E) \<Longrightarrow> ends P (rm_bind (rm_expect x) k) Q E"
  by (cases x) (simp_all add: ends_def rm_bind_def rm_expect_def rm_panic_def rm_return_def)

lemma ends_when: "ends P m (\<lambda>_. P) E \<Longrightarrow> ends P (rm_when b m) (\<lambda>_. P) E"
  by (simp add: rm_when_def ends_return)

lemma ends_candidate:
  assumes "manifest_ok m"
  shows "ends (begun_in A ks) (start_candidate e r b m ps o' iv ks) (begun_in A) (within A)"
  unfolding start_candidate_def Let_def split_beta
proof (rule ends_expect, rule ends_expect, rule ends_bind)
  fix v and p :: "service_plan \<times> bool"
  assume "bt_get (mf_services m) (snd iv) = Some v"
  then have name: "se_name v = snd iv" by (rule ok_service [OF assms])
  show "ends (begun_in A ks) (or_fail e r m o' (rm_return (snd iv)) ks
      (if snd p then start_installed_candidate e r b m v (fst p) else install_and_start_candidate e r b m v (fst p)))
      (\<lambda>_. begun_in A (ks @ [(mf_name m, snd iv)])) (within A)"
    using ends_candidate_body [of "A \<union> set ks" e r b m v "fst p"]
    unfolding begun_in_def by (intro ends_or_fail quiet_name ends_if) (simp_all add: name)
next
  fix v and p :: "service_plan \<times> bool"
  show "ends (begun_in A (ks @ [(mf_name m, snd iv)])) (rm_bind (rm_when (fst iv + 1 < length o')
        (or_fail e r m o' (rm_return (snd iv)) (ks @ [(mf_name m, snd iv)]) (fault_checkpoint e ''between_service_starts'')))
      (\<lambda>_. rm_return (ks @ [(mf_name m, snd iv)]))) (begun_in A) (within A)"
    by (rule ends_bind [OF ends_when], intro ends_checked fewer.keeps_fault quiet_name, rule ends_return)
qed

text \<open>
  The error of an up: everything it began is undone, or its operation is finished with success and
  only the status could not be read.
\<close>

definition undone :: "service_key set \<Rightarrow> string \<Rightarrow> 'w rt \<Rightarrow> bool" where
  "undone A r s \<longleftrightarrow> supervised s \<subseteq> A \<or> succeeded r (rt_db s)"

lemma ends_undone: "ends P m Q (within A) \<Longrightarrow> ends P m Q (undone A r)"
  by (erule ends_weaken) (simp_all add: undone_def)

lemma ends_step:
  "fewer.keeps m \<Longrightarrow> (\<And>a. ends (within A) (k a) Q (undone A r)) \<Longrightarrow> ends (within A) (rm_bind m k) Q (undone A r)"
  by (rule ends_bind [OF ends_undone [OF ends_fewer]])

lemma reading_status: "reading.keeps (required_status e stack)"
  unfolding required_status_def by (intro reading.keeps_bind reading_query reading.keeps_lift)

lemma ends_status: "ends (\<lambda>s. succeeded r (rt_db s)) (required_status e stack) (\<lambda>_ _. True) (undone A r)"
proof (rule endsI)
  fix s x s' assume "succeeded r (rt_db s)" and run: "required_status e stack s = (Inl (Raise x), s')"
  moreover have "rt_db s' = rt_db s" using reading.keepsD [OF reading_status run] by (simp add: same_db_def)
  ultimately show "undone A r s'" by (simp add: undone_def)
qed simp

lemma ends_write:
  assumes "\<And>clk. ends_in (w clk) (succeeded r)" and "\<And>clk. journaled (w clk)"
  shows "ends (within B) (store_call e w) (\<lambda>_ s. succeeded r (rt_db s)) (within B)"
proof (rule endsI)
  have "yields (\<lambda>_. True) (store_call e w) (\<lambda>_ s. succeeded r (rt_db s))" by (rule yields_call [OF assms(1)])
  then show "store_call e w s = (Inr a, s') \<Longrightarrow> succeeded r (rt_db s')" for s a s' by (simp add: yields_def)
qed (rule ends_error [OF ends_fewer [OF fewer.keeps_store_call [OF assms(2)]]])

lemma ends_finish:
  assumes "\<And>clk. ends_in (w clk) (succeeded r)" and "\<And>clk. journaled (w clk)"
    and "fewer.keeps failed" "no_raise failed"
  shows "ends (begun_in A ks) (rm_bind (or_fail e r m o' failed ks (store_call e w)) (\<lambda>_. required_status e stack))
    (\<lambda>_ _. True) (undone A r)"
  unfolding begun_in_def
  by (rule ends_bind [OF ends_undone [OF ends_or_fail [OF ends_write]] ends_status]) (intro assms)+

lemma ends_prepare:
  assumes "manifest_ok m"
  shows "ends (within A) (prepare_candidate e r t b m) (\<lambda>_ _. True) (undone A r)"
proof -
  have none: "begun_in A [] = within A" by (simp add: begun_in_def)
  have begun: "ends (begun_in A []) (rm_bind (or_fail e r m o' failed [] c) (\<lambda>_.
      rm_bind (rm_fold (start_candidate e r b m ps o') xs []) (\<lambda>ks.
      rm_bind (or_fail e r m o' failed2 ks c2) (\<lambda>_.
      rm_bind (or_fail e r m o' failed2 ks (store_call e (commit_up r (mf_name m)))) (\<lambda>_.
      required_status e (mf_name m)))))) (\<lambda>_ _. True) (undone A r)"
    if "fewer.keeps c" "fewer.keeps c2" "fewer.keeps failed" "no_raise failed" "fewer.keeps failed2" "no_raise failed2"
    for o' failed failed2 ps xs c c2
    by (rule ends_bind [OF ends_undone [OF ends_checked]], (rule that)+,
        rule ends_bind [OF ends_undone [OF ends_fold [OF ends_candidate [OF assms]]]],
        rule ends_bind [OF ends_undone [OF ends_checked]], (rule that)+,
        rule ends_finish [OF succeeded_up journaled_operations(12)], (rule that)+)
  show ?thesis
    unfolding prepare_candidate_def
    by (rule ends_step, rule fewer.keeps_fault, rule ends_step, rule fewer.keeps_fresh_plans,
        rule ends_step, rule fewer.keeps_candidate_plans, rule ends_step, rule fewer.keeps_orders,
        rule begun [unfolded none])
      (rule fewer.keeps_fault quiet_name)+
qed

lemma ends_current_one:
  assumes "manifest_ok m"
  shows "ends (begun_in A ks) (start_current_one e r b m o' x n ks) (begun_in A) (within A)"
  unfolding start_current_one_def split_beta
proof (rule ends_expect, rule ends_bind [OF ends_checked [OF fewer_dependencies quiet_name(1,2)]],
    rule ends_bind [OF ends_checked [OF fewer.keeps_handles quiet_name(1,2)]], rule ends_bind)
  fix v and h :: "string \<times> string \<times> string"
  assume "bt_get (mf_services m) n = Some v"
  then have name: "se_name v = n" by (rule ok_service [OF assms])
  show "ends (begun_in A ks) (or_fail e r m o' (rm_return n) ks
      (start_operation_child e r b m v (fst h) (fst (snd h)) (snd (snd h))))
      (\<lambda>_. begun_in A (ks @ [(mf_name m, n)])) (within A)"
    using ends_start_child [of "A \<union> set ks" e r b m v] unfolding begun_in_def
    by (intro ends_or_fail quiet_name) (simp add: name)
qed (simp add: ends_return)

lemma ends_services:
  assumes "manifest_ok m"
  shows "ends (within A) (start_current_services e r p m b missing c) (\<lambda>_ _. True) (undone A r)"
proof -
  have none: "begun_in A [] = within A" by (simp add: begun_in_def)
  have begun: "ends (begun_in A []) (rm_bind (or_fail e r m missing failed [] c1) (\<lambda>existing.
      rm_bind (rm_fold (start_current_one e r b m missing existing) missing []) (\<lambda>ks.
      rm_bind (or_fail e r m missing failed2 ks (store_call e (finish_start_current r (mf_name m)))) (\<lambda>_.
      required_status e (mf_name m))))) (\<lambda>_ _. True) (undone A r)"
    if "fewer.keeps c1" "fewer.keeps failed" "no_raise failed" "fewer.keeps failed2" "no_raise failed2"
    for failed failed2 and c1 :: "('a, existing_stack) rm"
    by (rule ends_bind [OF ends_undone [OF ends_checked]], (rule that)+,
        rule ends_bind [OF ends_undone [OF ends_fold [OF ends_current_one [OF assms]]]],
        rule ends_finish [OF succeeded_start journaled_operations(25)], (rule that)+)
  show ?thesis
    unfolding start_current_services_def
    by (rule ends_step, intro fewer.calm_rules journaled_operations, rule begun [unfolded none])
      (rule fewer.keeps_required_stack quiet_name)+
qed

lemma fewer_classify: "fewer.keeps (classify_service e stack x n missing)"
  unfolding classify_service_def by (intro fewer.calm_rules fewer.removing_validate)

lemma ends_converge:
  assumes "manifest_ok m"
  shows "ends (within A) (converge e r t b m x) (\<lambda>_ _. True) (undone A r)"
  unfolding converge_def
  by (rule ends_step, rule fewer.keeps_get, rule ends_if, rule ends_raise, simp add: undone_def,
      rule ends_step, rule fewer.keeps_orders, rule ends_step, intro fewer.keeps_fold fewer_classify,
      rule ends_if, rule ends_bind [OF ends_undone [OF ends_write [OF succeeded_noop journaled_operations(35)]] ends_status],
      rule ends_services [OF assms])

lemma ends_up:
  assumes "manifest_ok m"
  shows "ends (within A) (rm_bind (preflight_manifest e b m) (\<lambda>_.
     rm_bind (store_query e (tx_query (existing_stack (mf_name m)))) (\<lambda>found.
     case found of
       None \<Rightarrow> prepare_candidate e r t b m
     | Some existing \<Rightarrow>
         if ambiguous_stack existing then rm_raise (x existing)
         else if same existing then converge e r t b m existing
         else if live existing then rm_raise (y existing)
         else prepare_candidate e r t b m))) (\<lambda>_ _. True) (undone A r)"
proof (rule ends_step [OF fewer.keeps_preflight], rule ends_step)
  show "fewer.keeps (store_query e (tx_query (existing_stack (mf_name m))))"
    by (intro fewer.calm_rules journaled_read)
  show "ends (within A) (case found of None \<Rightarrow> prepare_candidate e r t b m | Some existing \<Rightarrow>
      if ambiguous_stack existing then rm_raise (x existing)
      else if same existing then converge e r t b m existing
      else if live existing then rm_raise (y existing)
      else prepare_candidate e r t b m) (\<lambda>_ _. True) (undone A r)" for found
    using ends_prepare [OF assms] ends_converge [OF assms]
    by (cases found) (auto intro!: ends_raise simp: undone_def)
qed

section \<open>Down\<close>

text \<open>Before the intent of a down is in the journal nothing happens but queries.\<close>

lemma ends_reading: "reading.keeps m \<Longrightarrow> ends (same_db s1) m (\<lambda>_. same_db s1) (same_db s1)"
  by (rule endsI) (blast intro: reading.R_trans reading.keepsD)+

lemma ends_reading_bind:
  assumes "reading.keeps m" and "\<And>a. ends (same_db s1) (k a) Q (\<lambda>s. same_db s1 s \<or> E s)"
  shows "ends (same_db s1) (rm_bind m k) Q (\<lambda>s. same_db s1 s \<or> E s)"
  by (rule ends_bind [OF ends_weaken [OF ends_reading [OF assms(1)], where Q' = "\<lambda>_. same_db s1"] assms(2)]) auto

lemma ends_intent: "ends (same_db s1) (store_call e w) (\<lambda>_ _. True) (same_db s1)"
proof (rule endsI)
  fix s x s' assume "same_db s1 s" and "store_call e w s = (Inl (Raise x), s')"
  moreover from this(2) have "same_db s s'"
    by (auto simp: store_call_def store_query_def rm_bind_def rm_call_def rm_tx_def rm_raise_def rm_panic_def
        same_db_def idle_step_def split: prod.splits sum.splits option.splits store_error.splits)
  ultimately show "same_db s1 s'" by (blast intro: reading.R_trans)
qed simp

lemma ends_quarantine_stack: "ends (\<lambda>_. True) (quarantine_stack e stack) (\<lambda>_. within {k. fst k \<noteq> stack}) E"
  unfolding quarantine_stack_def
proof (rule ends_bind)
  let ?held = "\<lambda>s. filter (\<lambda>k. fst k = stack) (bt_keys (rt_children s))"
  show "ends (\<lambda>_. True) (rm_get ?held) (\<lambda>ks. within ({k. fst k \<noteq> stack} \<union> set ks)) E"
    by (auto simp: ends_def rm_get_def supervised_def owned_def bt_keys_def bt_get_None_iff simp del: not_None_eq)
qed (rule ends_survivors)

text \<open>Afterwards every child of the stack is stopped or set aside, or the operation has succeeded.\<close>

abbreviation other_stacks :: "string \<Rightarrow> service_key set" where
  "other_stacks stack \<equiv> {k. fst k \<noteq> stack}"

lemma ends_down_rest:
  "ends (\<lambda>_. True) (rm_bind (rm_attempt (down_services e r stack order)) (\<lambda>q. case q of
       Inl x \<Rightarrow> rm_bind (quarantine_stack e stack) (\<lambda>_.
         rm_bind (rm_map_err (g x) (store_call e (finalize_down_failure r stack (code x) (t x)))) (\<lambda>_. rm_raise x))
     | Inr _ \<Rightarrow> required_status e stack)) (\<lambda>_ _. True) (undone (other_stacks stack) r)"
proof (rule ends_bind)
  have "yields (\<lambda>_. True) (down_services e r stack order) (\<lambda>_ s. succeeded r (rt_db s))"
    unfolding down_services_def by (intro yields_skip yields_call succeeded_down)
  then have "ends (\<lambda>_. True) (down_services e r stack order) (\<lambda>_ s. succeeded r (rt_db s)) (\<lambda>_. True)"
    by (intro endsI) (simp_all add: yields_def)
  then show "ends (\<lambda>_. True) (rm_attempt (down_services e r stack order))
      (\<lambda>q s. case q of Inl _ \<Rightarrow> True | Inr _ \<Rightarrow> succeeded r (rt_db s)) (undone (other_stacks stack) r)"
    by (rule ends_attempt)
  have failed: "ends (\<lambda>_. True) (rm_bind (quarantine_stack e stack) (\<lambda>_.
      rm_bind (rm_map_err (g x) (store_call e (finalize_down_failure r stack (code x) (t x)))) (\<lambda>_. rm_raise x)))
      (\<lambda>_ _. True) (undone (other_stacks stack) r)" for x
    by (rule ends_undone, rule ends_bind [OF ends_quarantine_stack], rule ends_first,
        intro fewer.calm_rules journaled_operations, rule ends_raise)
  show "ends (\<lambda>s. case q of Inl _ \<Rightarrow> True | Inr _ \<Rightarrow> succeeded r (rt_db s)) (case q of
       Inl x \<Rightarrow> rm_bind (quarantine_stack e stack) (\<lambda>_.
         rm_bind (rm_map_err (g x) (store_call e (finalize_down_failure r stack (code x) (t x)))) (\<lambda>_. rm_raise x))
     | Inr _ \<Rightarrow> required_status e stack) (\<lambda>_ _. True) (undone (other_stacks stack) r)" for q
    using failed ends_status by (cases q) simp_all
qed

lemma reading_parse: "reading.keeps (parse_rm e t)"
  by (simp add: parse_rm_def reading.keeps_panic reading.keeps_raise reading.keeps_return split: sum.split)

lemma reading_committed: "reading.keeps (committed_manifest e stack)"
  unfolding committed_manifest_def by (intro reading.keeps_rules reading_query reading_parse)

lemma reading_order: "reading.keeps (stop_order_of m)"
  unfolding stop_order_of_def by (intro reading.keeps_rules)

lemma ends_down:
  "ends (same_db s1) (rm_bind (required_status e stack) (\<lambda>earlier.
     rm_bind (committed_manifest e stack) (\<lambda>m.
     rm_bind (case m of Some m \<Rightarrow> stop_order_of m | None \<Rightarrow> rm_return (others earlier)) (\<lambda>order.
     rm_bind (store_call e (begin_down r stack order)) (\<lambda>_.
     rm_bind (rm_attempt (down_services e r stack order)) (\<lambda>q. case q of
       Inl x \<Rightarrow> rm_bind (quarantine_stack e stack) (\<lambda>_.
         rm_bind (rm_map_err (g x) (store_call e (finalize_down_failure r stack (code x) (t x)))) (\<lambda>_. rm_raise x))
     | Inr _ \<Rightarrow> required_status e stack))))))
   (\<lambda>_ _. True) (\<lambda>s. same_db s1 s \<or> undone (other_stacks stack) r s)"
proof (rule ends_reading_bind, rule reading_status, rule ends_reading_bind, rule reading_committed, rule ends_reading_bind)
  show "reading.keeps (case m of Some m \<Rightarrow> stop_order_of m | None \<Rightarrow> rm_return xs)" for m :: "manifest option" and xs
    by (cases m) (simp_all add: reading_order reading.keeps_return)
qed (rule ends_bind [where R = "\<lambda>_ _. True"], rule ends_weaken [OF ends_intent], (simp; fail)+,
    rule ends_weaken [OF ends_down_rest], (simp; fail)+)

text \<open>
  Claim C9. A mutation that fails leaves nothing half done. For a manifest the parser accepts, an
  error of an up leaves no service supervised that was not supervised after the supervision turn
  the request begins with: what it had started is stopped, or set aside when it cannot be. An
  error of a down either came before its intent, and then children and database are those after
  that turn, or it leaves no service of the stack supervised. The one exception of both is an
  error after the operation was finished with success, when only its status could not be read.
\<close>

theorem failed_mutation_leaves_nothing:
  "(case parse (ev_scan e) source of
     Inr (Inr m) \<Rightarrow> (case up e r source base m s of
        (Inl (Raise x), s') \<Rightarrow> supervised s' \<subseteq> supervised (snd (tick e s)) \<or> succeeded r (rt_db s')
      | _ \<Rightarrow> True)
   | _ \<Rightarrow> True)
   \<and> (case down e r stack s of
        (Inl (Raise x), s') \<Rightarrow>
          (rt_children s' = rt_children (snd (tick e s)) \<and> rt_db s' = rt_db (snd (tick e s)))
          \<or> {k \<in> supervised s'. fst k = stack} = {} \<or> succeeded r (rt_db s')
      | _ \<Rightarrow> True)"
proof (rule conjI)
  obtain q s1 where t: "tick e s = (q, s1)" by fastforce
  have "supervised s' \<subseteq> supervised s1 \<or> succeeded r (rt_db s')"
    if ok: "parse (ev_scan e) source = Inr (Inr m)" and run: "up e r source base m s = (Inl (Raise x), s')" for m x s'
  proof (cases q)
    case (Inl y)
    with t run show ?thesis by (simp add: up_def rm_bind_def)
  next
    case (Inr u)
    from run have "undone (supervised s1) r s'"
      unfolding up_def rm_bind_def [of "tick e"] t Inr prod.case sum.case
      by (rule ends_error [OF ends_up [OF parse_sound [OF ok]] subset_refl])
    then show ?thesis by (simp add: undone_def)
  qed
  with t show "case parse (ev_scan e) source of
     Inr (Inr m) \<Rightarrow> (case up e r source base m s of
        (Inl (Raise x), s') \<Rightarrow> supervised s' \<subseteq> supervised (snd (tick e s)) \<or> succeeded r (rt_db s')
      | _ \<Rightarrow> True)
   | _ \<Rightarrow> True"
    by (auto split: sum.split prod.split stop.split)
  have "same_db s1 s' \<or> undone (other_stacks stack) r s'" if run: "down e r stack s = (Inl (Raise x), s')" for x s'
  proof (cases q)
    case (Inl y)
    with t run show ?thesis by (simp add: down_def rm_bind_def reading.R_refl)
  next
    case (Inr u)
    from run show ?thesis
      unfolding down_def rm_bind_def [of "tick e"] t Inr prod.case sum.case
      by (rule ends_error [OF ends_down reading.R_refl])
  qed
  with t show "case down e r stack s of
        (Inl (Raise x), s') \<Rightarrow>
          (rt_children s' = rt_children (snd (tick e s)) \<and> rt_db s' = rt_db (snd (tick e s)))
          \<or> {k \<in> supervised s'. fst k = stack} = {} \<or> succeeded r (rt_db s')
      | _ \<Rightarrow> True"
    by (fastforce simp: same_db_def idle_step_def undone_def split: sum.split prod.split stop.split)
qed

end
