(* ===== verification/Hooks.thy ===== *)
theory Hooks
  imports Daemon
begin

text \<open>
  The hooks of debug builds: the fault checkpoints of \<^verbatim>\<open>src/runtime.rs\<close>, the pause of
  \<^verbatim>\<open>src/daemon.rs\<close> after the socket is bound, and the storage limit of \<^verbatim>\<open>src/store.rs\<close>. They read
  environment variables and a directory in which a test leaves files. The rest of the model has
  their answers as parameters, so that its theorems hold in debug and in release builds; here the
  parameters are computed.
\<close>

section \<open>The surroundings of a hook\<close>

record 'w hook =
  hk_directory :: "string option"                   \<comment> \<open>the environment variable\<close>
  hk_stat :: "string \<Rightarrow> ('w, io_err + inode) answer"
  hk_exists :: "string \<Rightarrow> ('w, bool) answer"
  hk_is_file :: "string \<Rightarrow> ('w, bool) answer"
  hk_create :: "string \<Rightarrow> ('w, io_err + unit) answer"
  hk_shutdown :: "('w, bool) answer"                \<comment> \<open>the shutdown flag\<close>
  hk_oversleep :: "('w, unit) answer"

text \<open>Calls one after the other: the time adds up.\<close>

definition ask :: "('w, 'a) answer \<Rightarrow> ('a \<Rightarrow> ('w, 'b) answer) \<Rightarrow> ('w, 'b) answer" where
  "ask f k w = (case f w of (a, ms, w1) \<Rightarrow> (case k a w1 of (b, ms', w2) \<Rightarrow> (b, ms + ms', w2)))"

definition answered :: "'a \<Rightarrow> ('w, 'a) answer" where
  "answered a w = (a, 0, w)"

definition HOOK_TIMEOUT :: nat where "HOOK_TIMEOUT = 30000"

text \<open>
  The polling loop of both hooks: until the test lets it go on, twenty milliseconds apart, for
  thirty seconds at most. \<open>left\<close> is the time to the deadline.
\<close>

function poll_hook :: "'w hook \<Rightarrow> ('w, bool) answer \<Rightarrow> 'x \<Rightarrow> nat \<Rightarrow> ('w, 'x option) answer" where
  "poll_hook h released late left w =
     (case released w of (go, ms, w1) \<Rightarrow>
        if go then (None, ms, w1)
        else if left \<le> ms then (Some late, ms, w1)
        else (case hk_oversleep h w1 of (_, extra, w2) \<Rightarrow>
          (case poll_hook h released late (left - (ms + 20 + extra)) w2 of (r, ms', w3) \<Rightarrow>
             (r, ms + 20 + extra + ms', w3))))"
  by pat_completeness auto
termination
  by (relation "measure (\<lambda>(h, released, late, left, w). left)") auto

declare poll_hook.simps [simp del]

section \<open>Fault checkpoints\<close>

definition private_directory :: "inode \<Rightarrow> bool" where
  "private_directory n = (case n of Dir mode \<Rightarrow> mode AND 63 = 0 | _ \<Rightarrow> False)"

definition fault_at :: "'w hook \<Rightarrow> string \<Rightarrow> string \<Rightarrow> ('w, runtime_error option) answer" where
  "fault_at h directory name =
     (let reached = join_path directory (name @ ''.reached'');
          proceed = join_path directory (name @ ''.continue'');
          failed = join_path directory (name @ ''.fail'') in
      ask (hk_exists h reached) (\<lambda>there.
      ask (if there then answered (Inr ()) else hk_create h reached) (\<lambda>created.
      case created of
        Inl x \<Rightarrow> answered (Some (io_runtime x))
      | Inr _ \<Rightarrow>
          ask (hk_is_file h failed) (\<lambda>fail.
          if fail then answered (Some (RtIo [Txt ''fault checkpoint '', Dbg name, Txt '' injected a failure'']))
          else poll_hook h (hk_is_file h proceed)
            (RtIo [Txt ''fault checkpoint '', Dbg name, Txt '' timed out'']) HOOK_TIMEOUT))))"

definition fault_hook :: "'w hook \<Rightarrow> string \<Rightarrow> ('w, runtime_error option) answer" where
  "fault_hook h name =
     (case hk_directory h of
        None \<Rightarrow> answered None
      | Some directory \<Rightarrow>
          if \<not> is_absolute directory then answered (Some (RtIo [Txt ''TERMUX_STACKS_FAULT_DIR must be absolute'']))
          else ask (hk_stat h directory) (\<lambda>r.
            case r of
              Inl x \<Rightarrow> answered (Some (io_runtime x))
            | Inr n \<Rightarrow>
                if \<not> private_directory n
                then answered (Some (RtIo [Txt ''TERMUX_STACKS_FAULT_DIR must be a private real directory'']))
                else fault_at h directory name))"

section \<open>The pause of the daemon\<close>

text \<open>\<open>||\<close> in the condition of the loop: the file is not looked for once the flag is set.\<close>

definition pause_released :: "'w hook \<Rightarrow> string \<Rightarrow> ('w, bool) answer" where
  "pause_released h directory =
     ask (hk_shutdown h) (\<lambda>flag.
     if flag then answered True else hk_is_file h (join_path directory ''after-socket-bind.continue''))"

definition pause_after_socket_bind :: "'w hook \<Rightarrow> ('w, msg option) answer" where
  "pause_after_socket_bind h =
     (case hk_directory h of
        None \<Rightarrow> answered None
      | Some directory \<Rightarrow>
          if \<not> is_absolute directory
          then answered (Some [Txt ''TERMUX_STACKS_TEST_DAEMON_STARTUP_PAUSE_DIR must be absolute''])
          else ask (hk_stat h directory) (\<lambda>r.
            case r of
              Inl x \<Rightarrow> answered (Some (io_message x))
            | Inr n \<Rightarrow>
                if \<not> private_directory n
                then answered (Some [Txt ''TERMUX_STACKS_TEST_DAEMON_STARTUP_PAUSE_DIR must be a private real directory''])
                else ask (hk_create h (join_path directory ''after-socket-bind.reached'')) (\<lambda>created.
                  case created of
                    Inl x \<Rightarrow> answered (Some (io_message x))
                  | Inr _ \<Rightarrow> poll_hook h (pause_released h directory) [Txt ''daemon startup checkpoint timed out'']
                      HOOK_TIMEOUT)))"

section \<open>The storage limit\<close>

text \<open>\<open>pragma\<close> is what SQLite answers to the limit it is asked for.\<close>

definition apply_debug_storage_limit :: "string option \<Rightarrow> (int \<Rightarrow> store_error + int) \<Rightarrow> store_error + unit" where
  "apply_debug_storage_limit raw pragma =
     (case raw of
        None \<Rightarrow> Inr ()
      | Some raw_limit \<Rightarrow>
          if \<not> utf8_valid raw_limit then Inl (Io [Txt ''TERMUX_STACKS_SQLITE_MAX_PAGES must be UTF-8''])
          else (case parse_u32 raw_limit of
             None \<Rightarrow> Inl (Io [Txt ''TERMUX_STACKS_SQLITE_MAX_PAGES must be a positive decimal integer''])
           | Some limit \<Rightarrow>
               if limit = 0 then Inl (Io [Txt ''TERMUX_STACKS_SQLITE_MAX_PAGES must be a positive decimal integer''])
               else andthen (pragma limit) (\<lambda>v.
                 andthen (get_u32 (Some v)) (\<lambda>actual.
                 if actual \<noteq> Some limit
                 then Inl (Io [Txt ''SQLite refused debug max_page_count '', Num limit, Txt ''; active value is '', Num v])
                 else Inr ()))))"

section \<open>Builds\<close>

text \<open>The parameters of the model in a debug build, and in a release build, which has no hooks.\<close>

definition debug_env :: "'w hook \<Rightarrow> 'w env \<Rightarrow> 'w env" where
  "debug_env h e = e\<lparr>ev_fault := fault_hook h\<rparr>"

definition release_env :: "'w env \<Rightarrow> 'w env" where
  "release_env e = e\<lparr>ev_fault := \<lambda>_. answered None\<rparr>"

definition debug_open :: "string option \<Rightarrow> (int \<Rightarrow> store_error + int) \<Rightarrow> open_env \<Rightarrow> open_env" where
  "debug_open raw pragma oe = oe\<lparr>oe_limit := apply_debug_storage_limit raw pragma\<rparr>"

text \<open>The pause sees the world the daemon starts in, and leaves it changed.\<close>

definition debug_startup :: "'w hook \<Rightarrow> string option \<Rightarrow> (int \<Rightarrow> store_error + int) \<Rightarrow> 'w startup \<Rightarrow> 'w startup" where
  "debug_startup h raw pragma su =
     (case pause_after_socket_bind h (su_world su) of (r, ms, w) \<Rightarrow>
        su\<lparr>su_pause := r, su_open := debug_open raw pragma (su_open su), su_now := su_now su + ms, su_world := w\<rparr>)"

text \<open>Without their variables the hooks do nothing, and a debug build is a release build.\<close>

lemma hooks_absent:
  assumes "hk_directory h = None"
  shows "debug_env h e = release_env e"
    and "debug_startup h None pragma su = su\<lparr>su_pause := None, su_open := (su_open su)\<lparr>oe_limit := Inr ()\<rparr>\<rparr>"
proof -
  have "fault_hook h = (\<lambda>_. answered None)" using assms by (simp add: fault_hook_def fun_eq_iff)
  then show "debug_env h e = release_env e" by (simp add: debug_env_def release_env_def)
  show "debug_startup h None pragma su = su\<lparr>su_pause := None, su_open := (su_open su)\<lparr>oe_limit := Inr ()\<rparr>\<rparr>"
    using assms by (simp add: debug_startup_def debug_open_def pause_after_socket_bind_def answered_def
        apply_debug_storage_limit_def)
qed

text \<open>The limit holds exactly when SQLite took the number the variable spells.\<close>

lemma storage_limit_exact:
  "apply_debug_storage_limit raw pragma = Inr () \<longleftrightarrow> raw = None \<or>
     (\<exists>t n. raw = Some t \<and> utf8_valid t \<and> parse_u32 t = Some n \<and> 0 < n \<and> pragma n = Inr n)"
proof (cases raw)
  case (Some t)
  show ?thesis
  proof (cases "parse_u32 t")
    case (Some n)
    have "0 \<le> n \<and> n < 2 ^ 32" using parse_int_range [of 0 "2 ^ 32 - 1" t n] Some by (simp add: parse_u32_def)
    with \<open>raw = Some t\<close> Some show ?thesis
      by (auto simp: apply_debug_storage_limit_def get_u32_def andthen_Inr_iff split: if_splits)
  qed (auto simp: apply_debug_storage_limit_def \<open>raw = Some t\<close>)
qed (simp add: apply_debug_storage_limit_def)

text \<open>A checkpoint that is told to fail, fails, whatever else the directory holds.\<close>

lemma fault_injected:
  assumes "hk_directory h = Some directory" "is_absolute directory"
    and "\<And>w. \<exists>n ms w'. hk_stat h directory w = (Inr n, ms, w') \<and> private_directory n"
    and "\<And>w. fst (hk_exists h (join_path directory (name @ ''.reached'')) w)"
    and "\<And>w. fst (hk_is_file h (join_path directory (name @ ''.fail'')) w)"
  shows "fst (fault_hook h name w) = Some (RtIo [Txt ''fault checkpoint '', Dbg name, Txt '' injected a failure''])"
proof -
  from assms(3) obtain n ms w1 where stat: "hk_stat h directory w = (Inr n, ms, w1)" "private_directory n" by blast
  obtain m2 w2 where there: "hk_exists h (join_path directory (name @ ''.reached'')) w1 = (True, m2, w2)"
    using assms(4) [of w1] by (cases "hk_exists h (join_path directory (name @ ''.reached'')) w1") auto
  obtain m3 w3 where fail: "hk_is_file h (join_path directory (name @ ''.fail'')) w2 = (True, m3, w3)"
    using assms(5) [of w2] by (cases "hk_is_file h (join_path directory (name @ ''.fail'')) w2") auto
  show ?thesis
    using assms(1,2) stat there fail by (simp add: fault_hook_def fault_at_def Let_def ask_def answered_def)
qed

end
