(* ===== verification/Spec2Isabelle.thy ===== *)
theory Spec2Isabelle
  imports Store_Down Store_Published Store_Migrated Control_Sample Runtime_Undo Hooks
begin

text \<open>
  termux-stacks: a verification development of the orchestrator under \<^verbatim>\<open>src/src\<close>.

  \<^bold>\<open>The program.\<close> A user describes a stack of containers in a manifest. The command line
  (\<^verbatim>\<open>cli.rs\<close>) sends one request per run, framed as a JSON line (\<^verbatim>\<open>protocol.rs\<close>), to a
  daemon (\<^verbatim>\<open>daemon.rs\<close>) that owns a socket and a lock. The daemon answers one connection at a
  time with the runtime (\<^verbatim>\<open>runtime.rs\<close>), which validates the manifest (\<^verbatim>\<open>manifest.rs\<close>), prepares
  directories, mounts and ports (\<^verbatim>\<open>paths.rs\<close>, \<^verbatim>\<open>resources.rs\<close>), drives the container engine
  (\<^verbatim>\<open>engine.rs\<close>), reads logs (\<^verbatim>\<open>logs.rs\<close>), supervises the processes it has spawned, and writes
  every intent and every outcome to a journal in SQLite (\<^verbatim>\<open>store.rs\<close>) so that a daemon that dies
  at any point can tell afterwards what it may claim.

  \<^bold>\<open>The theories.\<close> They follow the files of the program.

  \<^item> \<^verbatim>\<open>Prelude\<close>, \<^verbatim>\<open>Utf8\<close>: results as sums, ordered maps and sets (one locale, interpreted on
    sorted association lists), messages, and byte strings as UTF-8. A \<^typ>\<open>string\<close> is a list of
    bytes throughout.
  \<^item> \<^verbatim>\<open>manifest.rs\<close>: \<^verbatim>\<open>Manifest_Text\<close> (names, keys, mount targets), \<^verbatim>\<open>Manifest_Yaml\<close> (the
    restricted reader over the events of the scanner), \<^verbatim>\<open>Manifest_Graph\<close> (the data and the
    order of the services), \<^verbatim>\<open>Manifest\<close> (validation, loading).
  \<^item> \<^verbatim>\<open>store.rs\<close>: \<^verbatim>\<open>Store_Schema\<close> (tables, constraints, transactions), \<^verbatim>\<open>Store_Journal\<close>
    (helpers), \<^verbatim>\<open>Store_Up\<close>, \<^verbatim>\<open>Store_Phase\<close>, \<^verbatim>\<open>Store_Stop\<close>, \<^verbatim>\<open>Store_Restart\<close>,
    \<^verbatim>\<open>Store_Reconcile\<close>, \<^verbatim>\<open>Store_Query\<close>, \<^verbatim>\<open>Store_Migrate\<close> (the operations). One record per
    table, one function per method; a method is a function from a database to an error or a
    result with the next database, as its SQLite transaction is. The proofs are in
    \<^verbatim>\<open>Store_History\<close>, \<^verbatim>\<open>Store_Published\<close>, \<^verbatim>\<open>Store_Total\<close>, \<^verbatim>\<open>Store_Cold\<close>,
    \<^verbatim>\<open>Store_Evidence\<close>, \<^verbatim>\<open>Store_Down\<close>, \<^verbatim>\<open>Store_Migrated\<close>, and \<^verbatim>\<open>Store_Sample\<close> holds
    concrete databases.
  \<^item> \<^verbatim>\<open>Protocol\<close>, \<^verbatim>\<open>Paths\<close>, \<^verbatim>\<open>Logs\<close>, \<^verbatim>\<open>Engine\<close>, \<^verbatim>\<open>Resources\<close>, \<^verbatim>\<open>Cli\<close>: the file of that
    name, with its properties.
  \<^item> \<^verbatim>\<open>runtime.rs\<close>: \<^verbatim>\<open>Runtime_State\<close> (the struct \<^verbatim>\<open>Runtime\<close> as a record, its two maps of
    children included, and the language of its methods), \<^verbatim>\<open>Runtime_Start\<close> (spawning, checking,
    containing and stopping one service), \<^verbatim>\<open>Runtime_Tick\<close> (supervision and restarts),
    \<^verbatim>\<open>Runtime_Up\<close>, \<^verbatim>\<open>Runtime_Ops\<close> (the requests, initialization and shutdown).
  \<^item> \<^verbatim>\<open>daemon.rs\<close>: \<^verbatim>\<open>Daemon\<close> (lock, socket, dispatch, replay, the serving loop, the run).
  \<^item> \<^verbatim>\<open>Hooks\<close>: the hooks of debug builds in \<^verbatim>\<open>runtime.rs\<close>, \<^verbatim>\<open>daemon.rs\<close> and \<^verbatim>\<open>store.rs\<close>.
    Elsewhere their answers are parameters, so every theorem holds in debug and release builds;
    here they are computed. \<^verbatim>\<open>main.rs\<close> is \<^const>\<open>program_main\<close> in \<^verbatim>\<open>Cli\<close>.

  \<^bold>\<open>State and surroundings.\<close> A method of the runtime is a function from a state to an outcome
  (a value, an error, or a panic) and the next state; what happened before an error stays.
  Everything outside the program is a record of functions on an arbitrary world: each call gets
  the world and gives an answer, the time it took, and the next world. So the theorems about the
  runtime and the daemon hold whatever the engine, \<^verbatim>\<open>/proc\<close>, the file system, the clocks, the
  random device, the clients and the failures of SQLite do, and for every interleaving of
  requests, exits and signals: the interleavings are the worlds. The state also carries a history
  that no operation reads: installs, spawns, session lists, kills, observed exits, panics.

  \<^bold>\<open>What is shown.\<close> The abstract specification of the store is \<^const>\<open>reaches\<close>: the databases
  that sequences of journal operations lead to.

  \<^item> Journal. Generations, aliases and finished operations are never rewritten; only a commit
    changes what a stack has published, and it publishes the whole candidate; revisions identify
    contents. A cold start succeeds on every database, settles it, is idempotent, and records as
    stopped or failed only what the journal proves; a down does the same. A migrated journal
    claims nothing version 2 did not prove, and opening is repeatable.
  \<^item> Runtime and daemon. Locales over relations between states (\<^verbatim>\<open>rt_relation\<close>, \<^verbatim>\<open>rt_calls\<close>,
    \<^verbatim>\<open>rt_quiet\<close>, \<^verbatim>\<open>rt_removing\<close>, \<^verbatim>\<open>rt_plain\<close>, \<^verbatim>\<open>rt_daemon\<close> in \<^verbatim>\<open>Runtime_Rules\<close> and \<^verbatim>\<open>Runtime_Laws\<close>) carry a relation from
    the few steps that touch a child to every request, tick, shutdown and run. Their
    interpretations show that every run of the daemon refines the journal, that its kills are of
    sessions of its own processes that the engine has just listed, that it loses no process, and
    that the clock never goes back. The steps that touch a child are proved by pre- and
    postconditions (\<^verbatim>\<open>Runtime_Safety\<close>, \<^verbatim>\<open>Runtime_Triples\<close>, \<^verbatim>\<open>Runtime_Handles\<close>,
    \<^verbatim>\<open>Runtime_Spawn\<close>). A replayed mutation has no effect, a success is journaled, restarts are
    bounded, and no error of a request or of the supervision ends the serving loop, which leaves,
    through the shutdown, only for its flag or a failed socket (\<^verbatim>\<open>Runtime_Success\<close>,
    \<^verbatim>\<open>Daemon_Claims\<close>, \<^verbatim>\<open>Daemon_Serving\<close>). A successful up leaves every service of the
    manifest supervised, with the session the engine published, and a successful down leaves none
    of the stack (\<^verbatim>\<open>Runtime_Ready\<close>): what holds after a computation that ends with a result is
    followed through its composition, where only failures take a child away. An up that fails
    leaves no service supervised that was not before, and a down that fails after its intent none
    of the stack (\<^verbatim>\<open>Runtime_Undo\<close>): children are stopped or set aside, and the one exception is a
    status that could not be read after success.
  \<^item> Manifest. Accepted manifests are well formed, well-formed manifests are accepted and read
    back, the limits of the reader hold, and the order of the services is the least topological
    one by name.
  \<^item> Command line, protocol, engine, logs, resources, paths. Exactness of the parsers, round
    trips of frames and command lines, bounds of reads, and the safety of created directories and
    resolved mounts.
  \<^item> Both sides. \<^verbatim>\<open>Control\<close> joins the command line and the daemon over the protocol: a command
    ends as the daemon's answer says, and exit code 0 of an up, a down or a restart means that
    the journal has the operation finished with success. \<^verbatim>\<open>Runtime_Sample\<close> and
    \<^verbatim>\<open>Control_Sample\<close> run the model in a concrete environment: a kill of an identified session,
    its refusal when the process number was reused, and a down from the command line.

  \<^bold>\<open>Loops and fuel.\<close> Loops over data are structural or have a measure. The polling loops of the
  runtime end at their deadline because every call of the environment that sleeps takes at least
  the time it was asked for; they are functions of the deadline and need no fuel. Connections are
  served for a given number of turns: the theorems hold for every number, and a run that is not
  over is an outcome of its own. The scanner's events are a list, read once.

  \<^bold>\<open>Integers.\<close> Ports, process numbers, sessions and start times are words of their width; the
  columns of SQLite are integers, and the deadlines of restarts, sums of a time and a delay, wrap
  at 64 bits as in a release build. Revisions and generations are counted by one from zero, without
  a bound: a journal the program has written does not reach 2 to the 63 of them.

  \<^bold>\<open>Not modelled.\<close> The YAML scanner, \<^verbatim>\<open>serde_json\<close>, SQLite and the operating system are
  parameters: a scanner is a function from texts to events, printing and parsing JSON are
  functions, the constraints of the schema are checked after every statement and a failing
  transaction changes nothing. A configuration in the journal is a JSON value, so that the parse
  before a restart, which only checks its text, is left out, as are debug assertions. Messages on
  the standard error stream and the ready message are left out, and so are the tests.
\<close>

end
